(* ===== verification/Prelude.thy ===== *)
theory Prelude
  imports Complex_Main "HOL-Library.Word"
begin

text \<open>
  The shared base of the development: what the Go code uses of the language and of its
  standard library (byte strings with \<open>strings.TrimSpace\<close>, \<open>Fields\<close>, \<open>ToLower\<close>, \<open>Join\<close>,
  \<open>HasPrefix\<close>, \<open>Contains\<close>; two's complement \<open>int64\<close>; an \<open>error\<close> result that is nil or the
  first failing check), the bounded de-duplicating loop that several packages write out by
  hand, and the reachability locale the state machines are proved with.

  Go strings are byte sequences; \<^typ>\<open>string\<close> is a list of 8-bit characters, so \<open>len\<close> is
  \<^const>\<open>length\<close>. Case mapping and white space are those of ASCII; a byte above 127 (part of a
  multi-byte rune) is neither white space nor changed by \<open>ToLower\<close>.
\<close>

named_theorems go_str \<open>rewrite rules of the string library\<close>
named_theorems go_collect \<open>facts on the bounded de-duplicating loop\<close>

subsection \<open>Errors\<close>

text \<open>A Go function returning \<open>error\<close> runs its checks in order and returns at the first that
  fails: the model lists the failing conditions with their errors, \<^term>\<open>None\<close> is nil.\<close>

fun first_error :: "(bool \<times> 'e) list \<Rightarrow> 'e option" where
  "first_error [] = None"
| "first_error ((failed, e) # rest) = (if failed then Some e else first_error rest)"

lemma first_error_None: "first_error cs = None \<longleftrightarrow> (\<forall>c \<in> set cs. \<not> fst c)"
  by (induction cs rule: first_error.induct) auto

lemma first_error_append:
  "first_error (xs @ ys) = (case first_error xs of None \<Rightarrow> first_error ys | Some e \<Rightarrow> Some e)"
  by (induction xs rule: first_error.induct) auto

lemma first_error_Some: "first_error cs = Some e \<Longrightarrow> (True, e) \<in> set cs"
  by (induction cs rule: first_error.induct) (auto split: if_splits)

subsection \<open>Strings\<close>

definition is_space :: "char \<Rightarrow> bool" where
  "is_space c = (of_char c \<in> {9, 10, 11, 12, 13, 32::nat})"

definition lower_char :: "char \<Rightarrow> char" where
  "lower_char c = (let n = of_char c :: nat in if 65 \<le> n \<and> n \<le> 90 then char_of (n + 32) else c)"

definition to_lower :: "string \<Rightarrow> string" where
  "to_lower = map lower_char"

definition trim_left :: "string \<Rightarrow> string" where
  "trim_left = dropWhile is_space"

definition trim_space :: "string \<Rightarrow> string" where
  "trim_space s = rev (trim_left (rev (trim_left s)))"

text \<open>\<open>str_fields_acc w s\<close>: the words of \<open>s\<close> with \<open>w\<close> (reversed) the word being read.\<close>

fun str_fields_acc :: "string \<Rightarrow> string \<Rightarrow> string list" where
  "str_fields_acc w [] = (if w = [] then [] else [rev w])"
| "str_fields_acc w (c # s) =
     (if is_space c then (if w = [] then str_fields_acc [] s else rev w # str_fields_acc [] s)
      else str_fields_acc (c # w) s)"

definition str_fields :: "string \<Rightarrow> string list" where
  "str_fields = str_fields_acc []"

fun join :: "string \<Rightarrow> string list \<Rightarrow> string" where
  "join sep [] = []"
| "join sep [x] = x"
| "join sep (x # y # ys) = x @ sep @ join sep (y # ys)"

definition has_prefix :: "string \<Rightarrow> string \<Rightarrow> bool" where
  "has_prefix p s = (take (length p) s = p)"

definition has_suffix :: "string \<Rightarrow> string \<Rightarrow> bool" where
  "has_suffix p s = has_prefix (rev p) (rev s)"

definition trim_prefix :: "string \<Rightarrow> string \<Rightarrow> string" where
  "trim_prefix p s = (if has_prefix p s then drop (length p) s else s)"

fun contains_sub :: "string \<Rightarrow> string \<Rightarrow> bool" where
  "contains_sub p [] = (p = [])"
| "contains_sub p (c # s) = (has_prefix p (c # s) \<or> contains_sub p s)"

text \<open>The number of runes of a UTF-8 string: its bytes that do not continue a rune.\<close>

definition continuation_byte :: "char \<Rightarrow> bool" where
  "continuation_byte c = (let n = of_char c :: nat in 128 \<le> n \<and> n < 192)"

definition rune_count :: "string \<Rightarrow> nat" where
  "rune_count s = length (filter (\<lambda>c. \<not> continuation_byte c) s)"

text \<open>\<open>take_runes n s\<close>: the bytes of the first \<open>n\<close> runes of \<open>s\<close>.\<close>

fun take_runes :: "nat \<Rightarrow> string \<Rightarrow> string" where
  "take_runes n [] = []"
| "take_runes n (c # s) =
     (if continuation_byte c then c # take_runes n s
      else case n of 0 \<Rightarrow> [] | Suc m \<Rightarrow> c # take_runes m s)"

lemma rune_count_take_runes: "rune_count (take_runes n s) \<le> n"
  by (induction n s rule: take_runes.induct) (auto simp: rune_count_def split: nat.splits)

lemma is_space_lower_char [simp]: "is_space (lower_char c) = is_space c"
proof -
  have "(of_char (lower_char c) :: nat) = (let n = of_char c in if 65 \<le> n \<and> n \<le> 90 then n + 32 else n)"
    by (auto simp: lower_char_def Let_def)
  then show ?thesis
    by (auto simp: is_space_def Let_def split: if_splits)
qed

lemma lower_char_idem [simp]: "lower_char (lower_char c) = lower_char c"
  by (auto simp: lower_char_def Let_def)

lemma to_lower_idem [simp, go_str]: "to_lower (to_lower s) = to_lower s"
  by (simp add: to_lower_def)

lemma to_lower_Nil [simp]: "to_lower [] = []"
  by (simp add: to_lower_def)

lemma to_lower_eq_Nil [simp]: "to_lower s = [] \<longleftrightarrow> s = []"
  by (simp add: to_lower_def)

lemma length_to_lower [simp]: "length (to_lower s) = length s"
  by (simp add: to_lower_def)

lemma to_lower_Cons [simp]: "to_lower (c # s) = lower_char c # to_lower s"
  by (simp add: to_lower_def)

lemma rev_to_lower [simp]: "rev (to_lower s) = to_lower (rev s)"
  by (simp add: to_lower_def rev_map)

lemma to_lower_append: "to_lower (a @ b) = to_lower a @ to_lower b"
  by (simp add: to_lower_def)

lemma trim_space_Nil [simp]: "trim_space [] = []"
  by (simp add: trim_space_def trim_left_def)

lemma length_trim_space: "length (trim_space s) \<le> length s"
  unfolding trim_space_def trim_left_def
  by (metis length_dropWhile_le length_rev le_trans)

lemma dropWhile_id_hd: "(s \<noteq> [] \<Longrightarrow> \<not> P (hd s)) \<Longrightarrow> dropWhile P s = s"
  by (cases s) auto

lemma rev_dropWhile_hd:
  "s \<noteq> [] \<Longrightarrow> \<not> P (hd s) \<Longrightarrow> rev (dropWhile P (rev s)) \<noteq> [] \<and> hd (rev (dropWhile P (rev s))) = hd s"
proof (induction s rule: rev_induct)
  case Nil
  then show ?case by simp
next
  case (snoc x xs)
  then show ?case by (cases xs) auto
qed

text \<open>A trimmed string starts and ends with a character that is not white space, so trimming
  again changes nothing.\<close>

lemma trim_space_idem [simp, go_str]: "trim_space (trim_space s) = trim_space s"
proof -
  let ?l = "dropWhile is_space s"
  let ?t = "rev (dropWhile is_space (rev ?l))"
  have l: "?l \<noteq> [] \<Longrightarrow> \<not> is_space (hd ?l)"
    using hd_dropWhile by blast
  have "dropWhile is_space ?t = ?t"
  proof (rule dropWhile_id_hd)
    assume "?t \<noteq> []"
    then have "?l \<noteq> []" by (metis dropWhile.simps(1) rev.simps(1))
    with l rev_dropWhile_hd [of ?l is_space] show "\<not> is_space (hd ?t)" by simp
  qed
  moreover have "dropWhile is_space (rev ?t) = rev ?t"
    by simp
  ultimately show ?thesis
    by (simp add: trim_space_def trim_left_def)
qed

lemma str_fields_acc_nonspace:
  "(\<forall>c \<in> set w. \<not> is_space c) \<Longrightarrow>
   x \<in> set (str_fields_acc w s) \<Longrightarrow> x \<noteq> [] \<and> (\<forall>c \<in> set x. \<not> is_space c)"
proof (induction s arbitrary: w)
  case Nil
  then show ?case by (simp split: if_splits)
next
  case (Cons c s)
  show ?case
  proof (cases "is_space c")
    case True
    with Cons.prems Cons.IH [of "[]"] show ?thesis by (auto split: if_splits)
  next
    case False
    with Cons.prems Cons.IH [of "c # w"] show ?thesis by auto
  qed
qed

lemma str_fields_nonspace: "x \<in> set (str_fields s) \<Longrightarrow> x \<noteq> [] \<and> (\<forall>c \<in> set x. \<not> is_space c)"
  using str_fields_acc_nonspace [of "[]" x s] by (simp add: str_fields_def)

lemma str_fields_acc_to_lower:
  "str_fields_acc (to_lower w) (to_lower s) = map to_lower (str_fields_acc w s)"
proof (induction s arbitrary: w)
  case Nil
  show ?case by simp
next
  case (Cons c s)
  have "str_fields_acc (lower_char c # to_lower w) (to_lower s) = map to_lower (str_fields_acc (c # w) s)"
    using Cons [of "c # w"] by simp
  moreover have "str_fields_acc [] (to_lower s) = map to_lower (str_fields_acc [] s)"
    using Cons [of "[]"] by simp
  ultimately show ?case by simp
qed

lemma str_fields_to_lower [go_str]: "str_fields (to_lower s) = map to_lower (str_fields s)"
  using str_fields_acc_to_lower [of "[]" s] by (simp add: str_fields_def)

lemma str_fields_acc_word:
  "(\<forall>c \<in> set x. \<not> is_space c) \<Longrightarrow> str_fields_acc w (x @ s) = str_fields_acc (rev x @ w) s"
  by (induction x arbitrary: w) auto

lemma str_fields_acc_join:
  assumes "\<forall>x \<in> set xs. x \<noteq> [] \<and> (\<forall>c \<in> set x. \<not> is_space c)"
  shows "str_fields (join '' '' xs) = xs"
  using assms unfolding str_fields_def
proof (induction "'' ''" xs rule: join.induct)
  case 1
  show ?case by simp
next
  case (2 x)
  then show ?case using str_fields_acc_word [of x "[]" "[]"] by simp
next
  case (3 x y ys)
  have "is_space CHR '' ''" by (simp add: is_space_def)
  with 3 str_fields_acc_word [of x "[]" "'' '' @ join '' '' (y # ys)"] show ?case by simp
qed

text \<open>Collapsing white space is idempotent: the words of the collapsed text are the words.\<close>

lemma str_fields_join_fields [simp, go_str]: "str_fields (join '' '' (str_fields s)) = str_fields s"
  by (rule str_fields_acc_join) (blast dest: str_fields_nonspace)

lemma str_fields_acc_trim_left: "str_fields_acc [] (trim_left s) = str_fields_acc [] s"
  unfolding trim_left_def by (induction s) auto

lemma str_fields_acc_snoc_space:
  "is_space c \<Longrightarrow> str_fields_acc w (s @ [c]) = str_fields_acc w s"
  by (induction w s rule: str_fields_acc.induct) auto

lemma str_fields_acc_trim_right: "str_fields_acc w (rev (trim_left (rev s))) = str_fields_acc w s"
  unfolding trim_left_def
  by (induction s rule: rev_induct) (auto simp: str_fields_acc_snoc_space)

lemma str_fields_trim_space [simp, go_str]: "str_fields (trim_space s) = str_fields s"
  by (simp add: str_fields_def trim_space_def str_fields_acc_trim_right str_fields_acc_trim_left)

lemma to_lower_join: "to_lower (join sep xs) = join (to_lower sep) (map to_lower xs)"
  by (induction sep xs rule: join.induct) (auto simp: to_lower_append)

lemma has_prefix_append [simp]: "has_prefix p (p @ s)"
  by (simp add: has_prefix_def)

lemma has_prefix_iff: "has_prefix p s \<longleftrightarrow> (\<exists>t. s = p @ t)"
  unfolding has_prefix_def by (metis append_eq_conv_conj append_take_drop_id)

lemma contains_sub_iff: "contains_sub p s \<longleftrightarrow> (\<exists>a b. s = a @ p @ b)"
proof (induction p s rule: contains_sub.induct)
  case (1 p)
  then show ?case by auto
next
  case (2 p c s)
  show ?case
  proof
    assume "contains_sub p (c # s)"
    then consider "has_prefix p (c # s)" | "contains_sub p s" by auto
    then show "\<exists>a b. c # s = a @ p @ b"
    proof cases
      case 1
      then show ?thesis by (metis append_Nil has_prefix_iff)
    next
      case 2
      with "2.IH" show ?thesis by (metis append_Cons)
    qed
  next
    assume "\<exists>a b. c # s = a @ p @ b"
    then obtain a b where ab: "c # s = a @ p @ b" by blast
    show "contains_sub p (c # s)"
    proof (cases a)
      case Nil
      with ab have "has_prefix p (c # s)" by (simp only: has_prefix_append append_Nil)
      then show ?thesis by simp
    next
      case (Cons d a')
      with ab have "s = a' @ p @ b" by simp
      with "2.IH" show ?thesis by auto
    qed
  qed
qed

lemma rune_count_le_length: "rune_count s \<le> length s"
  by (simp add: rune_count_def)

subsection \<open>Decimal numbers\<close>

fun decimal :: "nat \<Rightarrow> string" where
  "decimal n = (if n < 10 then [char_of (48 + n)] else decimal (n div 10) @ [char_of (48 + n mod 10)])"

declare decimal.simps [simp del]

text \<open>The verb \<open>%03d\<close> of \<open>fmt.Sprintf\<close> on a number that is not negative.\<close>

definition pad3 :: "nat \<Rightarrow> string" where
  "pad3 n = replicate (3 - length (decimal n)) CHR ''0'' @ decimal n"

definition digits_value :: "string \<Rightarrow> nat" where
  "digits_value s = foldl (\<lambda>a c. 10 * a + (of_char c - 48)) 0 s"

lemma digits_value_decimal: "digits_value (decimal n) = n"
  unfolding digits_value_def
proof (induction n rule: decimal.induct)
  case (1 n)
  then show ?case by (subst decimal.simps) (simp del: decimal.simps)
qed

lemma digits_value_zeros: "digits_value (replicate k CHR ''0'' @ s) = digits_value s"
  unfolding digits_value_def by (induction k) simp_all

lemma pad3_inj [simp]: "pad3 m = pad3 n \<longleftrightarrow> m = n"
  by (metis pad3_def digits_value_zeros digits_value_decimal)

subsection \<open>64-bit integers\<close>

text \<open>\<open>int64\<close> (and \<open>int\<close> on the supported platforms) arithmetic wraps around.\<close>

definition wrap64 :: "int \<Rightarrow> int" where
  "wrap64 x = (x + 2 ^ 63) mod 2 ^ 64 - 2 ^ 63"

lemma wrap64_id: "- (2 ^ 63) \<le> x \<Longrightarrow> x < 2 ^ 63 \<Longrightarrow> wrap64 x = x"
  by (simp add: wrap64_def)

lemma wrap64_range: "- (2 ^ 63) \<le> wrap64 x \<and> wrap64 x < 2 ^ 63"
  using pos_mod_bound [of "2 ^ 64" "x + 2 ^ 63"] pos_mod_sign [of "2 ^ 64" "x + 2 ^ 63"]
  by (simp add: wrap64_def)

subsection \<open>The bounded de-duplicating loop\<close>

text \<open>
  Several packages write the same loop: walk a list, skip elements without a key or whose key
  was seen, append the rest, and stop once \<open>n\<close> elements were appended (the code tests the
  length after an append, so the loop always runs until the first append).
\<close>

fun collect_unique :: "('a \<Rightarrow> 'k option) \<Rightarrow> nat \<Rightarrow> 'k list \<Rightarrow> 'a list \<Rightarrow> 'a list" where
  "collect_unique key n seen [] = []"
| "collect_unique key n seen (x # xs) =
     (case key x of
        None \<Rightarrow> collect_unique key n seen xs
      | Some k \<Rightarrow>
          if k \<in> set seen then collect_unique key n seen xs
          else if n \<le> 1 then [x]
          else x # collect_unique key (n - 1) (k # seen) xs)"

lemma collect_unique_subset [go_collect]: "set (collect_unique key n seen xs) \<subseteq> set xs"
  by (induction key n seen xs rule: collect_unique.induct) (auto split: option.splits if_splits)

lemma collect_unique_length [go_collect]: "0 < n \<Longrightarrow> length (collect_unique key n seen xs) \<le> n"
  by (induction key n seen xs rule: collect_unique.induct) (auto split: option.splits if_splits)

lemma collect_unique_length_le: "length (collect_unique key n seen xs) \<le> length xs"
  by (induction key n seen xs rule: collect_unique.induct) (auto split: option.splits if_splits)

lemma collect_unique_keyed [go_collect]:
  "x \<in> set (collect_unique key n seen xs) \<Longrightarrow> \<exists>k. key x = Some k \<and> k \<notin> set seen"
  by (induction key n seen xs rule: collect_unique.induct) (auto split: option.splits if_splits)

lemma collect_unique_distinct [go_collect]: "distinct (map key (collect_unique key n seen xs))"
proof (induction key n seen xs rule: collect_unique.induct)
  case (1 key n seen)
  show ?case by simp
next
  case (2 key n seen x xs)
  show ?case
  proof (cases "key x")
    case None
    with 2 show ?thesis by simp
  next
    case (Some k)
    have "key x \<notin> key ` set (collect_unique key (n - 1) (k # seen) xs)"
      using collect_unique_keyed [of _ key "n - 1" "k # seen" xs] Some by fastforce
    with 2 Some show ?thesis by auto
  qed
qed

text \<open>Nothing is lost below the bound: every keyed element is represented in the result.\<close>

lemma collect_unique_complete [go_collect]:
  "length (collect_unique key n seen xs) < n \<Longrightarrow> x \<in> set xs \<Longrightarrow> key x = Some k \<Longrightarrow>
   k \<in> set seen \<or> (\<exists>y \<in> set (collect_unique key n seen xs). key y = Some k)"
proof (induction key n seen xs rule: collect_unique.induct)
  case (1 key n seen)
  then show ?case by simp
next
  case (2 key n seen y ys)
  show ?case
  proof (cases "key y")
    case None
    with 2 show ?thesis by auto
  next
    case (Some j)
    show ?thesis
    proof (cases "j \<in> set seen \<or> n \<le> 1")
      case True
      with 2 Some show ?thesis by (auto split: if_splits)
    next
      case False
      have "length (collect_unique key (n - 1) (j # seen) ys) < n - 1"
        using "2.prems"(1) Some False by simp
      moreover have "x = y \<or> x \<in> set ys" using "2.prems"(2) by auto
      ultimately show ?thesis using "2.IH"(3) [OF Some] "2.prems"(3) Some False by auto
    qed
  qed
qed

text \<open>A list whose keys are already distinct and unseen, and that fits, is kept as it is.\<close>

lemma collect_unique_id:
  assumes "distinct (map key xs)" "\<forall>x \<in> set xs. \<exists>k. key x = Some k \<and> k \<notin> set seen"
    and "length xs \<le> n"
  shows "collect_unique key n seen xs = xs"
  using assms
proof (induction key n seen xs rule: collect_unique.induct)
  case (1 key n seen)
  show ?case by simp
next
  case (2 key n seen x xs)
  then obtain k where k: "key x = Some k" "k \<notin> set seen" by auto
  show ?case
  proof (cases "n \<le> 1")
    case True
    with "2.prems"(3) have "xs = []" by (cases xs) auto
    with True k show ?thesis by simp
  next
    case False
    have "\<forall>y \<in> set xs. \<exists>j. key y = Some j \<and> j \<notin> set (k # seen)"
    proof
      fix y assume y: "y \<in> set xs"
      with "2.prems"(2) obtain j where j: "key y = Some j" "j \<notin> set seen" by auto
      from "2.prems"(1) y have "key x \<noteq> key y" by (auto simp: image_iff)
      with j k show "\<exists>j. key y = Some j \<and> j \<notin> set (k # seen)" by auto
    qed
    with 2 k False show ?thesis by simp
  qed
qed

subsection \<open>Reachable states\<close>

inductive reachable_from :: "('s \<Rightarrow> bool) \<Rightarrow> ('s \<Rightarrow> 's \<Rightarrow> bool) \<Rightarrow> 's \<Rightarrow> bool"
  for start :: "'s \<Rightarrow> bool" and move :: "'s \<Rightarrow> 's \<Rightarrow> bool" where
  at_start: "start s \<Longrightarrow> reachable_from start move s"
| after_move: "reachable_from start move s \<Longrightarrow> move s t \<Longrightarrow> reachable_from start move t"

text \<open>The contract of a state machine with an inductive invariant; its client gets the
  invariant in every reachable state.\<close>

locale safe_machine =
  fixes start :: "'s \<Rightarrow> bool" and move :: "'s \<Rightarrow> 's \<Rightarrow> bool" and safe :: "'s \<Rightarrow> bool"
  assumes safe_start: "start s \<Longrightarrow> safe s"
    and safe_move: "safe s \<Longrightarrow> move s t \<Longrightarrow> safe t"
begin

lemma reachable_safe: "reachable_from start move s \<Longrightarrow> safe s"
  by (induction rule: reachable_from.induct) (auto intro: safe_start safe_move)

lemma reachable_implies: "reachable_from start move s \<Longrightarrow> (\<And>t. safe t \<Longrightarrow> P t) \<Longrightarrow> P s"
  using reachable_safe by blast

end

end
