(* ===== verification/Float64.thy ===== *)
theory Float64
  imports Prelude
begin

text \<open>
  Go's \<open>float64\<close> on finite values: a number is the rational it denotes, and every arithmetic
  operation is the exact operation followed by \<open>f64_round\<close>, the rounding of IEEE 754 binary64
  (53 significant bits, nearest, ties to even, gradual underflow below \<open>2^-1022\<close>). Overflow to
  an infinity is not modelled: the scores and weights the code computes stay far below
  \<open>2^1024\<close>. A Go constant such as \<open>0.45\<close> is the exact decimal rounded once. The multiply-add
  fusion Go permits on some architectures is not modelled (amd64 does not fuse).
\<close>

type_synonym f64 = rat

definition pow2 :: "int \<Rightarrow> rat" where
  "pow2 e = (if 0 \<le> e then 2 ^ nat e else 1 / 2 ^ nat (- e))"

fun bits :: "nat \<Rightarrow> nat" where
  "bits n = (if n = 0 then 0 else Suc (bits (n div 2)))"

declare bits.simps [simp del]

text \<open>Nearest integer, ties to even.\<close>

definition round_even :: "rat \<Rightarrow> int" where
  "round_even x =
     (let f = \<lfloor>x\<rfloor>; d = x - of_int f
      in if d < 1 / 2 then f else if 1 / 2 < d then f + 1 else if even f then f else f + 1)"

text \<open>For \<open>x > 0\<close>: the exponent at which \<open>x\<close> has exactly 53 bits before the point.\<close>

definition f64_raw_exp :: "rat \<Rightarrow> int" where
  "f64_raw_exp x =
     (let (p, q) = quotient_of x;
          e = int (bits (nat p)) - int (bits (nat q)) - 53
      in if 2 ^ 53 \<le> x / pow2 e then e + 1 else e)"

definition f64_exp :: "rat \<Rightarrow> int" where
  "f64_exp x = max (f64_raw_exp x) (- 1074)"

definition f64_round_pos :: "rat \<Rightarrow> rat" where
  "f64_round_pos x = of_int (round_even (x / pow2 (f64_exp x))) * pow2 (f64_exp x)"

definition f64_round :: "rat \<Rightarrow> f64" where
  "f64_round x = (if x = 0 then 0 else if 0 < x then f64_round_pos x else - f64_round_pos (- x))"

definition fadd :: "f64 \<Rightarrow> f64 \<Rightarrow> f64" where "fadd a b = f64_round (a + b)"
definition fsub :: "f64 \<Rightarrow> f64 \<Rightarrow> f64" where "fsub a b = f64_round (a - b)"
definition fmul :: "f64 \<Rightarrow> f64 \<Rightarrow> f64" where "fmul a b = f64_round (a * b)"
definition fdiv :: "f64 \<Rightarrow> f64 \<Rightarrow> f64" where "fdiv a b = f64_round (a / b)"

subsection \<open>Powers of two and bit lengths\<close>

lemma pow2_pos [simp]: "0 < pow2 e"
  by (simp add: pow2_def)

lemma pow2_nonzero [simp]: "pow2 e \<noteq> 0"
  using pow2_pos [of e] by linarith

lemma pow2_add_one: "pow2 (e + 1) = 2 * pow2 e"
proof (cases "0 \<le> e")
  case True
  then show ?thesis by (simp add: pow2_def nat_add_distrib)
next
  case False
  then obtain n where e: "e = - int (Suc n)"
    using negD [of e] by auto
  then show ?thesis by (simp add: pow2_def nat_add_distrib)
qed

lemma pow2_plus_nat: "pow2 (e + int n) = pow2 e * 2 ^ n"
proof (induction n)
  case 0
  show ?case by simp
next
  case (Suc n)
  have "pow2 (e + int (Suc n)) = pow2 ((e + int n) + 1)" by (simp add: algebra_simps)
  with Suc show ?case by (simp only: pow2_add_one) simp
qed

lemma pow2_mono: "a \<le> b \<Longrightarrow> pow2 a \<le> pow2 b"
proof -
  assume "a \<le> b"
  then obtain n where "b = a + int n" using zle_iff_zadd by blast
  then show ?thesis
    using mult_left_mono [of 1 "2 ^ n" "pow2 a"] by (simp add: pow2_plus_nat less_imp_le)
qed

lemma bits_bounds: "0 < n \<Longrightarrow> n < 2 ^ bits n \<and> 2 ^ bits n \<le> 2 * n"
proof (induction n rule: bits.induct)
  case (1 n)
  show ?case
  proof (cases "n div 2 = 0")
    case True
    with "1.prems" have "n = 1" by auto
    then show ?thesis by (simp add: bits.simps)
  next
    case False
    with 1 have "n div 2 < 2 ^ bits (n div 2) \<and> 2 ^ bits (n div 2) \<le> 2 * (n div 2)" by simp
    with "1.prems" show ?thesis by (subst (1 2) bits.simps) auto
  qed
qed

lemma pow2_diff: "pow2 (a - b) * pow2 b = pow2 a"
proof (cases "b \<le> a")
  case True
  then obtain n where "a = b + int n" using zle_iff_zadd by blast
  moreover have "pow2 (int n) = 2 ^ n" using pow2_plus_nat [of 0 n] by (simp add: pow2_def)
  ultimately show ?thesis by (simp add: pow2_plus_nat)
next
  case False
  then obtain n where "b = a + int n" using zle_iff_zadd by (metis linear)
  moreover have "pow2 (- int n) * 2 ^ n = 1"
    using pow2_plus_nat [of "- int n" n] by (simp add: pow2_def)
  ultimately show ?thesis by (simp add: pow2_plus_nat)
qed

lemma pow2_int [simp]: "pow2 (int n) = 2 ^ n"
  by (simp add: pow2_def)

subsection \<open>The exponent\<close>

lemma positive_quotient:
  assumes "0 < x" "quotient_of x = (p, q)"
  shows "0 < p" "0 < q" "x = of_int p / of_int q"
proof -
  show q: "0 < q" using assms(2) by (rule quotient_of_denom_pos)
  show x: "x = of_int p / of_int q" using assms(2) by (rule quotient_of_div)
  with q assms(1) show "0 < p" by (simp add: zero_less_divide_iff)
qed

lemma rat_bits:
  assumes "0 < p"
  shows "(of_int p :: rat) < 2 ^ bits (nat p)" "2 ^ bits (nat p) \<le> 2 * (of_int p :: rat)"
proof -
  from assms have b: "nat p < 2 ^ bits (nat p)" "2 ^ bits (nat p) \<le> 2 * nat p"
    using bits_bounds [of "nat p"] by auto
  have pr: "(of_nat (nat p) :: rat) = of_int p" using assms by simp
  show "(of_int p :: rat) < 2 ^ bits (nat p)"
    using of_nat_less_iff [where 'a = rat, THEN iffD2, OF b(1)] pr by simp
  show "2 ^ bits (nat p) \<le> 2 * (of_int p :: rat)"
    using of_nat_le_iff [where 'a = rat, THEN iffD2, OF b(2)] pr by simp
qed

text \<open>At its exponent a positive number has exactly 53 bits: it lies between \<open>2^52\<close> and
  \<open>2^53\<close> units.\<close>

lemma f64_raw_exp_bounds:
  assumes "0 < x"
  shows "2 ^ 52 * pow2 (f64_raw_exp x) \<le> x" "x < 2 ^ 53 * pow2 (f64_raw_exp x)"
proof -
  obtain p q where pq: "quotient_of x = (p, q)" by (cases "quotient_of x")
  note pos = positive_quotient [OF assms pq]
  define bp bq where "bp = bits (nat p)" and "bq = bits (nat q)"
  define e where "e = int bp - int bq - 53"
  have P: "(of_int p :: rat) < 2 ^ bp" "2 ^ bp \<le> 2 * (of_int p :: rat)"
    and Q: "(of_int q :: rat) < 2 ^ bq" "2 ^ bq \<le> 2 * (of_int q :: rat)"
    using rat_bits [OF pos(1)] rat_bits [OF pos(2)] by (simp_all add: bp_def bq_def)
  have qpos: "(0 :: rat) < of_int q" using pos(2) by simp
  have "pow2 e * pow2 (int bq + 53) = pow2 (int bp)"
    using pow2_diff [of "int bp" "int bq + 53"] by (simp add: e_def algebra_simps)
  moreover have "pow2 (int bq + 53) = 2 ^ bq * 2 ^ 53"
    using pow2_plus_nat [of "int bq" 53] by simp
  ultimately have E: "pow2 e * 2 ^ bq * 2 ^ 53 = 2 ^ bp" by (simp add: algebra_simps)
  have low: "2 ^ 52 * pow2 e \<le> x"
  proof -
    have "2 ^ 53 * pow2 e * of_int q \<le> 2 ^ 53 * pow2 e * 2 ^ bq"
      using Q(1) by (intro mult_left_mono) (auto intro: less_imp_le)
    also have "\<dots> = 2 ^ bp" using E by (simp add: algebra_simps)
    also have "\<dots> \<le> 2 * of_int p" by (rule P(2))
    finally have "2 ^ 52 * pow2 e * of_int q \<le> of_int p" by simp
    then show ?thesis using pos(3) qpos by (simp add: pos_le_divide_eq)
  qed
  have high: "x < 2 ^ 54 * pow2 e"
  proof -
    have "2 ^ bp = 2 ^ 53 * pow2 e * 2 ^ bq" using E by (simp add: algebra_simps)
    also have "\<dots> \<le> 2 ^ 53 * pow2 e * (2 * of_int q)"
      using Q(2) by (intro mult_left_mono) (auto intro: less_imp_le)
    finally have le: "2 ^ bp \<le> 2 ^ 54 * pow2 e * of_int q" by simp
    have "of_int p < 2 ^ 54 * pow2 e * of_int q" using P(1) le by (rule less_le_trans)
    then show ?thesis using pos(3) qpos by (simp add: pos_divide_less_eq)
  qed
  have raw: "f64_raw_exp x = (if 2 ^ 53 \<le> x / pow2 e then e + 1 else e)"
    by (simp add: f64_raw_exp_def pq e_def bp_def bq_def Let_def)
  have test: "2 ^ 53 \<le> x / pow2 e \<longleftrightarrow> 2 ^ 53 * pow2 e \<le> x"
    by (simp add: pos_le_divide_eq)
  show "2 ^ 52 * pow2 (f64_raw_exp x) \<le> x"
    using low test by (simp add: raw pow2_add_one)
  show "x < 2 ^ 53 * pow2 (f64_raw_exp x)"
    using high test by (simp add: raw pow2_add_one)
qed

lemma f64_raw_exp_mono:
  assumes "0 < x" "x \<le> y"
  shows "f64_raw_exp x \<le> f64_raw_exp y"
proof (rule ccontr)
  assume "\<not> ?thesis"
  then have "pow2 (f64_raw_exp y + 1) \<le> pow2 (f64_raw_exp x)" by (intro pow2_mono) simp
  then have "2 ^ 53 * pow2 (f64_raw_exp y) \<le> 2 ^ 52 * pow2 (f64_raw_exp x)"
    by (simp add: pow2_add_one)
  with f64_raw_exp_bounds [OF assms(1)] f64_raw_exp_bounds [of y] assms show False by simp
qed

subsection \<open>Rounding is monotone\<close>

lemma round_even_between: "of_int (round_even x) - 1 / 2 \<le> x \<and> x \<le> of_int (round_even x) + 1 / 2"
proof -
  have f: "of_int \<lfloor>x\<rfloor> \<le> x" "x < of_int \<lfloor>x\<rfloor> + 1" by linarith+
  define d where "d = x - of_int \<lfloor>x\<rfloor>"
  have r: "round_even x = (if d < 1 / 2 then \<lfloor>x\<rfloor> else if 1 / 2 < d then \<lfloor>x\<rfloor> + 1
      else if even \<lfloor>x\<rfloor> then \<lfloor>x\<rfloor> else \<lfloor>x\<rfloor> + 1)"
    by (simp only: round_even_def Let_def d_def)
  consider "round_even x = \<lfloor>x\<rfloor>" "d \<le> 1 / 2" | "round_even x = \<lfloor>x\<rfloor> + 1" "1 / 2 \<le> d"
    unfolding r by (cases "d < 1 / 2"; cases "1 / 2 < d"; cases "even \<lfloor>x\<rfloor>") auto
  then show ?thesis using f unfolding d_def by cases (simp_all, linarith+)
qed

lemma round_even_of_int [simp]: "round_even (of_int n) = n"
  by (simp add: round_even_def Let_def)

lemma round_even_mono:
  assumes "x \<le> y"
  shows "round_even x \<le> round_even y"
proof (rule ccontr)
  assume less: "\<not> ?thesis"
  then have "(of_int (round_even y) :: rat) + 1 \<le> of_int (round_even x)"
    by (metis add.commute linorder_not_le of_int_1 of_int_add of_int_le_iff zless_imp_add1_zle)
  with round_even_between [of x] round_even_between [of y] assms
  have "x = y" by linarith
  with less show False by simp
qed

lemma round_even_ge: "of_int n \<le> x \<Longrightarrow> n \<le> round_even x"
  using round_even_mono [of "of_int n" x] by simp

lemma round_even_le: "x \<le> of_int n \<Longrightarrow> round_even x \<le> n"
  using round_even_mono [of x "of_int n"] by simp

lemma f64_round_pos_nonneg: "0 < x \<Longrightarrow> 0 \<le> f64_round_pos x"
  using round_even_ge [of 0 "x / pow2 (f64_exp x)"]
  by (simp add: f64_round_pos_def less_imp_le mult_nonneg_nonneg)

lemma f64_round_pos_mono:
  assumes "0 < x" "x \<le> y"
  shows "f64_round_pos x \<le> f64_round_pos y"
proof (cases "f64_exp x = f64_exp y")
  case True
  have "x / pow2 (f64_exp y) \<le> y / pow2 (f64_exp y)"
    using assms(2) by (simp add: divide_right_mono less_imp_le)
  then have "round_even (x / pow2 (f64_exp y)) \<le> round_even (y / pow2 (f64_exp y))"
    by (rule round_even_mono)
  then show ?thesis by (simp add: f64_round_pos_def True)
next
  case False
  let ?ex = "f64_exp x" and ?ey = "f64_exp y"
  have less: "?ex < ?ey" using False f64_raw_exp_mono [OF assms] by (auto simp: f64_exp_def max_def)
  then have ey: "?ey = f64_raw_exp y" by (auto simp: f64_exp_def split: if_splits)
  have "x < 2 ^ 53 * pow2 (f64_raw_exp x)" using f64_raw_exp_bounds [OF assms(1)] by simp
  also have "\<dots> \<le> 2 ^ 53 * pow2 ?ex" by (simp add: f64_exp_def pow2_mono)
  finally have "x / pow2 ?ex \<le> of_int (2 ^ 53)" by (simp add: pos_divide_le_eq)
  then have "round_even (x / pow2 ?ex) \<le> 2 ^ 53" by (rule round_even_le)
  then have "(of_int (round_even (x / pow2 ?ex)) :: rat) \<le> of_int (2 ^ 53)"
    by (simp only: of_int_le_iff)
  then have 1: "f64_round_pos x \<le> 2 ^ 53 * pow2 ?ex"
    by (simp add: f64_round_pos_def)
  have "2 ^ 52 * pow2 ?ey \<le> y" using f64_raw_exp_bounds [of y] assms ey by simp
  then have "of_int (2 ^ 52) \<le> y / pow2 ?ey" by (simp add: pos_le_divide_eq)
  then have "2 ^ 52 \<le> round_even (y / pow2 ?ey)" by (rule round_even_ge)
  then have "of_int (2 ^ 52) \<le> (of_int (round_even (y / pow2 ?ey)) :: rat)"
    by (simp only: of_int_le_iff)
  then have 2: "2 ^ 52 * pow2 ?ey \<le> f64_round_pos y"
    by (simp add: f64_round_pos_def)
  have "pow2 (?ex + 1) \<le> pow2 ?ey" using less by (intro pow2_mono) simp
  with 1 2 show ?thesis by (simp add: pow2_add_one)
qed

lemma f64_round_mono: "x \<le> y \<Longrightarrow> f64_round x \<le> f64_round y"
proof -
  assume xy: "x \<le> y"
  consider "0 < x" | "y < 0" | "x \<le> 0" "0 \<le> y" by linarith
  then show ?thesis
  proof cases
    case 1
    with xy f64_round_pos_mono [of x y] show ?thesis by (simp add: f64_round_def)
  next
    case 2
    with xy f64_round_pos_mono [of "- y" "- x"] show ?thesis by (simp add: f64_round_def)
  next
    case 3
    have "f64_round x \<le> 0" using 3(1) f64_round_pos_nonneg [of "- x"] by (simp add: f64_round_def)
    moreover have "0 \<le> f64_round y" using 3(2) f64_round_pos_nonneg [of y] by (simp add: f64_round_def)
    ultimately show ?thesis by linarith
  qed
qed

subsection \<open>Rounded numbers are fixed points\<close>

lemma pow2_less_imp: "pow2 a \<le> pow2 b \<Longrightarrow> a \<le> b"
proof (rule ccontr)
  assume le: "pow2 a \<le> pow2 b" and "\<not> a \<le> b"
  then have "pow2 (b + 1) \<le> pow2 a" by (intro pow2_mono) simp
  then have "2 * pow2 b \<le> pow2 a" by (simp add: pow2_add_one)
  with le pow2_pos [of b] show False by linarith
qed

lemma f64_round_pos_representable:
  assumes r: "r = of_int m * pow2 e" "0 < r" and m: "m \<le> 2 ^ 53" and e: "- 1074 \<le> e"
  shows "f64_round_pos r = r"
proof -
  let ?f = "f64_exp r"
  have "\<exists>k. r / pow2 ?f = of_int k"
  proof (cases "?f \<le> e")
    case True
    then obtain n where "e = ?f + int n" using zle_iff_zadd by blast
    then have "pow2 e = pow2 ?f * 2 ^ n" by (metis pow2_plus_nat)
    with r(1) have "r = of_int m * (pow2 ?f * 2 ^ n)" by metis
    then have "r = of_int (m * 2 ^ n) * pow2 ?f" by (metis mult.assoc mult.commute of_int_mult of_int_numeral of_int_power)
    then have "r / pow2 ?f = of_int (m * 2 ^ n)" by (metis nonzero_mult_div_cancel_right pow2_nonzero)
    then show ?thesis by blast
  next
    case False
    with e have raw: "?f = f64_raw_exp r" by (auto simp: f64_exp_def split: if_splits)
    have mr: "(of_int m :: rat) \<le> 2 ^ 53" using of_int_le_iff [where 'a = rat, of m "2 ^ 53"] m by simp
    have low: "2 ^ 52 * pow2 ?f \<le> r" using f64_raw_exp_bounds(1) [OF r(2)] raw by simp
    have high: "r \<le> 2 ^ 53 * pow2 e" using mr by (simp add: r(1))
    have "pow2 ?f \<le> pow2 (e + 1)" using low high by (simp add: pow2_add_one)
    then have f: "?f = e + 1" using pow2_less_imp False by force
    have pf: "pow2 ?f = 2 * pow2 e" unfolding f by (rule pow2_add_one)
    have "2 ^ 52 * (2 * pow2 e) \<le> r" using low pf by metis
    with high have "r = 2 ^ 52 * (2 * pow2 e)" by simp
    then have "r = of_int (2 ^ 52) * pow2 ?f" by (metis pf of_int_numeral of_int_power)
    then have "r / pow2 ?f = of_int (2 ^ 52)" by (metis nonzero_mult_div_cancel_right pow2_nonzero)
    then show ?thesis by blast
  qed
  then obtain k where k: "r / pow2 ?f = of_int k" by blast
  then have "r = of_int k * pow2 ?f" by (metis nonzero_eq_divide_eq pow2_nonzero)
  with k show ?thesis by (simp add: f64_round_pos_def)
qed

lemma f64_round_pos_mantissa:
  assumes "0 < x"
  shows "round_even (x / pow2 (f64_exp x)) \<le> 2 ^ 53"
proof -
  have "x < 2 ^ 53 * pow2 (f64_raw_exp x)" using f64_raw_exp_bounds [OF assms] by simp
  also have "\<dots> \<le> 2 ^ 53 * pow2 (f64_exp x)" by (simp add: f64_exp_def pow2_mono)
  finally have "x / pow2 (f64_exp x) \<le> of_int (2 ^ 53)" by (simp add: pos_divide_le_eq)
  then show ?thesis by (rule round_even_le)
qed

lemma f64_round_idem [simp]: "f64_round (f64_round x) = f64_round x"
proof -
  have pos: "f64_round (f64_round_pos y) = f64_round_pos y" if "0 < y" for y
  proof (cases "f64_round_pos y = 0")
    case True
    then show ?thesis by (simp add: f64_round_def)
  next
    case False
    with f64_round_pos_nonneg [OF that] have r: "0 < f64_round_pos y" by simp
    have "f64_round_pos (f64_round_pos y) = f64_round_pos y"
      by (rule f64_round_pos_representable [OF f64_round_pos_def r f64_round_pos_mantissa [OF that]])
        (simp add: f64_exp_def)
    with r show ?thesis by (simp add: f64_round_def)
  qed
  have neg: "f64_round (- z) = - f64_round z" for z by (simp add: f64_round_def)
  show ?thesis
    using pos [of x] pos [of "- x"] neg by (auto simp: f64_round_def [of x] f64_round_def [of 0])
qed

lemma f64_round_uminus [simp]: "f64_round (- x) = - f64_round x"
  by (simp add: f64_round_def)

lemma f64_round_0 [simp]: "f64_round 0 = 0"
  by (simp add: f64_round_def)

lemma f64_round_1 [simp]: "f64_round 1 = 1"
  by code_simp

text \<open>The rounding of a number whose binade is known.\<close>

lemma f64_round_in_binade:
  assumes "2 ^ 52 * pow2 e \<le> x" "x < 2 ^ 53 * pow2 e" "- 1074 \<le> e"
  shows "f64_round x = of_int (round_even (x / pow2 e)) * pow2 e"
proof -
  have "0 < 2 ^ 52 * pow2 e" by simp
  with assms(1) have "0 < x" by (rule less_le_trans [rotated])
  note b = f64_raw_exp_bounds [OF this]
  have "f64_raw_exp x \<le> e"
  proof (rule ccontr)
    assume "\<not> f64_raw_exp x \<le> e"
    then have "pow2 (e + 1) \<le> pow2 (f64_raw_exp x)" by (intro pow2_mono) simp
    then have "2 ^ 53 * pow2 e \<le> 2 ^ 52 * pow2 (f64_raw_exp x)" by (simp add: pow2_add_one)
    with b(1) assms(2) show False by linarith
  qed
  moreover have "e \<le> f64_raw_exp x"
  proof (rule ccontr)
    assume "\<not> e \<le> f64_raw_exp x"
    then have "pow2 (f64_raw_exp x + 1) \<le> pow2 e" by (intro pow2_mono) simp
    then have "2 ^ 53 * pow2 (f64_raw_exp x) \<le> 2 ^ 52 * pow2 e" by (simp add: pow2_add_one)
    with b(2) assms(1) show False by linarith
  qed
  ultimately have "f64_exp x = e" using assms(3) by (simp add: f64_exp_def)
  with \<open>0 < x\<close> show ?thesis by (simp add: f64_round_def f64_round_pos_def)
qed

text \<open>Integers up to \<open>2^53\<close> are exact.\<close>

lemma f64_round_of_int:
  assumes "\<bar>n\<bar> \<le> 2 ^ 53"
  shows "f64_round (of_int n) = of_int n"
proof -
  have pos: "f64_round_pos (of_int k) = of_int k" if "0 < k" "k \<le> 2 ^ 53" for k
    by (rule f64_round_pos_representable [of _ k 0]) (use that in \<open>simp_all add: pow2_def\<close>)
  show ?thesis
    using pos [of n] pos [of "- n"] assms by (auto simp: f64_round_def)
qed

lemma f64_round_nonneg: "0 \<le> x \<Longrightarrow> 0 \<le> f64_round x"
  using f64_round_mono [of 0 x] by simp

lemma f64_round_le_1: "x \<le> 1 \<Longrightarrow> f64_round x \<le> 1"
  using f64_round_mono [of x 1] by simp

lemmas f64_ops = fadd_def fsub_def fmul_def fdiv_def

end
