(* ===== verification/Domain_Types.thy ===== *)
theory Domain_Types
  imports Float64
begin

text \<open>
  The data model of \<open>src/internal/domain\<close> shared by the components: sources, decoded JSON
  values, captured blocks and snapshots, attachments and candidate assessments. A Go string
  type such as \<open>Source\<close> is a \<^typ>\<open>string\<close> (any value can reach the code; \<open>Valid\<close> is a check), a
  pointer that may be nil is an \<^typ>\<open>'a option\<close>, a \<open>map[string]any\<close> is a partial map to decoded
  JSON values, and Go's \<open>int\<close> is an \<^typ>\<open>int\<close>.
\<close>

type_synonym Source = string

abbreviation SourceX :: Source where "SourceX \<equiv> ''x''"
abbreviation SourceLinkedIn :: Source where "SourceLinkedIn \<equiv> ''linkedin''"
abbreviation SourceFacebook :: Source where "SourceFacebook \<equiv> ''facebook''"
abbreviation SourceInstagram :: Source where "SourceInstagram \<equiv> ''instagram''"

text \<open>A decoded JSON value (Go's \<open>any\<close> after \<open>encoding/json\<close>).\<close>

datatype json =
    JNull
  | JBool bool
  | JNum rat
  | JStr string
  | JArr "json list"
  | JObj "(string \<times> json) list"

type_synonym jmap = "string \<rightharpoonup> json"

text \<open>The two-value type assertions \<open>v, _ := m[k].(string)\<close> and \<open>v, _ := m[k].(bool)\<close>: the zero
  value when the key is missing or holds another type.\<close>

definition string_at :: "jmap \<Rightarrow> string \<Rightarrow> string" where
  "string_at m k = (case m k of Some (JStr s) \<Rightarrow> s | _ \<Rightarrow> [])"

definition bool_at :: "jmap \<Rightarrow> string \<Rightarrow> bool" where
  "bool_at m k = (case m k of Some (JBool b) \<Rightarrow> b | _ \<Rightarrow> False)"

record CandidateAssessment =
  ca_EvidenceKey :: string
  ca_TopicTags :: "string list"
  ca_TopicFacets :: "string list"
  ca_ContentType :: string
  ca_Novelty :: f64
  ca_Urgency :: f64
  ca_Actionability :: f64
  ca_Materiality :: f64
  ca_EvidenceStrength :: f64
  ca_KnowledgeRelation :: string
  ca_Rationale :: string

end
