(* ===== verification/Preference.thy ===== *)
theory Preference
  imports Domain_Types
begin

text \<open>
  \<open>src/internal/preference/preference.go\<close>: fitting a preference profile from the user's feedback
  signals and scoring a candidate against it. Weights are binary64 numbers keyed by the
  normalised feature text; the profile's maps are partial maps.
\<close>

record Signal =
  sg_Direction :: string
  sg_Reason :: "string option"
  sg_Tags :: "string list"
  sg_Facets :: "string list"
  sg_Origin :: string

record Profile =
  pf_Weights :: "string \<rightharpoonup> f64"
  pf_EffectiveSignals :: int
  pf_PositiveSignals :: int
  pf_NegativeSignals :: int
  pf_NeutralSignals :: int
  pf_AuthorityReady :: bool
  pf_PromotionReady :: bool
  pf_SuppressionReady :: bool

definition clamp :: "f64 \<Rightarrow> f64" where
  "clamp v = max (- 1) (min 1 v)"

definition featureKey :: "string \<Rightarrow> string \<Rightarrow> string" where
  "featureKey prefix value = prefix @ to_lower (join '' '' (str_fields (trim_space value)))"

text \<open>\<open>addFeatures\<close> threads the two maps it mutates; \<open>seen\<close> is its local set.\<close>

fun addFeatures_loop ::
    "(string \<rightharpoonup> f64) \<Rightarrow> (string \<Rightarrow> nat) \<Rightarrow> string \<Rightarrow> string list \<Rightarrow> string list \<Rightarrow> f64 \<Rightarrow>
     (string \<rightharpoonup> f64) \<times> (string \<Rightarrow> nat)" where
  "addFeatures_loop weights counts prefix seen [] weight = (weights, counts)"
| "addFeatures_loop weights counts prefix seen (value # values) weight =
     (let key = featureKey prefix value
      in if key = prefix \<or> key \<in> set seen
         then addFeatures_loop weights counts prefix seen values weight
         else addFeatures_loop
                (weights(key \<mapsto> fadd (case weights key of None \<Rightarrow> 0 | Some w \<Rightarrow> w) weight))
                (counts(key := counts key + 1)) prefix (key # seen) values weight)"

definition addFeatures ::
    "(string \<rightharpoonup> f64) \<Rightarrow> (string \<Rightarrow> nat) \<Rightarrow> string \<Rightarrow> string list \<Rightarrow> f64 \<Rightarrow>
     (string \<rightharpoonup> f64) \<times> (string \<Rightarrow> nat)" where
  "addFeatures weights counts prefix values weight =
     addFeatures_loop weights counts prefix [] values weight"

text \<open>The \<open>switch\<close> of \<open>Fit\<close>: the signal's weight and the counter it bumps.\<close>

definition classify :: "Signal \<Rightarrow> Profile \<Rightarrow> f64 \<times> Profile" where
  "classify s p =
     (if sg_Direction s = ''more'' then
        (if sg_Origin s = ''calibration'' then f64_round (11 / 10)
         else if sg_Origin s = ''selection_correction'' then 5 / 4 else 1,
         p\<lparr>pf_PositiveSignals := pf_PositiveSignals p + 1\<rparr>)
      else if sg_Direction s = ''less'' \<and> sg_Reason s = Some ''not_interested'' then
        (- 1, p\<lparr>pf_NegativeSignals := pf_NegativeSignals p + 1\<rparr>)
      else if sg_Direction s = ''less'' \<and> sg_Reason s = None then
        (if sg_Origin s = ''calibration'' then - f64_round (11 / 10) else - (3 / 4),
         p\<lparr>pf_NegativeSignals := pf_NegativeSignals p + 1\<rparr>)
      else (0, p\<lparr>pf_NeutralSignals := pf_NeutralSignals p + 1\<rparr>))"

definition fit_signal :: "Signal \<Rightarrow> Profile \<times> (string \<Rightarrow> nat) \<Rightarrow> Profile \<times> (string \<Rightarrow> nat)" where
  "fit_signal s = (\<lambda>(p, counts).
     (let (weight, p1) = classify s p
      in if weight = 0 then (p1, counts)
         else
           let (w1, c1) = addFeatures (pf_Weights p1) counts ''tag:'' (sg_Tags s) weight;
               (w2, c2) = addFeatures w1 c1 ''facet:'' (sg_Facets s) weight
           in (p1\<lparr>pf_EffectiveSignals := pf_EffectiveSignals p1 + 1, pf_Weights := w2\<rparr>, c2)))"

definition empty_profile :: Profile where
  "empty_profile = \<lparr>pf_Weights = Map.empty, pf_EffectiveSignals = 0, pf_PositiveSignals = 0,
     pf_NegativeSignals = 0, pf_NeutralSignals = 0, pf_AuthorityReady = False,
     pf_PromotionReady = False, pf_SuppressionReady = False\<rparr>"

definition normalize_weights :: "(string \<rightharpoonup> f64) \<Rightarrow> (string \<Rightarrow> nat) \<Rightarrow> (string \<rightharpoonup> f64)" where
  "normalize_weights weights counts =
     (\<lambda>facet. map_option (\<lambda>value. clamp (fdiv value (max 3 (of_nat (counts facet))))) (weights facet))"

definition Fit :: "Signal list \<Rightarrow> Profile" where
  "Fit signals =
     (let (p, counts) = fold fit_signal signals (empty_profile, \<lambda>_. 0);
          q = p\<lparr>pf_Weights := normalize_weights (pf_Weights p) counts\<rparr>;
          promotion = (3 \<le> pf_EffectiveSignals q \<and> 2 \<le> pf_PositiveSignals q);
          suppression = (3 \<le> pf_EffectiveSignals q \<and> 2 \<le> pf_NegativeSignals q)
      in q\<lparr>pf_PromotionReady := promotion, pf_SuppressionReady := suppression,
           pf_AuthorityReady := promotion \<or> suppression\<rparr>)"

text \<open>The loop of \<open>featureAlignment\<close>: the running sum, the match count and the seen keys.\<close>

fun alignment_loop ::
    "Profile \<Rightarrow> string \<Rightarrow> string list \<Rightarrow> f64 \<Rightarrow> nat \<Rightarrow> string list \<Rightarrow> f64 \<times> nat \<times> string list" where
  "alignment_loop profile prefix [] acc matches seen = (acc, matches, seen)"
| "alignment_loop profile prefix (value # values) acc matches seen =
     (let key = featureKey prefix value
      in if key = prefix \<or> key \<in> set seen
         then alignment_loop profile prefix values acc matches seen
         else (case pf_Weights profile key of
                 Some weight \<Rightarrow>
                   alignment_loop profile prefix values (fadd acc weight) (matches + 1) (key # seen)
               | None \<Rightarrow> alignment_loop profile prefix values acc matches (key # seen)))"

definition featureAlignment :: "Profile \<Rightarrow> string \<Rightarrow> string list \<Rightarrow> bool \<Rightarrow> f64 \<times> nat" where
  "featureAlignment profile prefix values knownOnly =
     (if values = [] then (0, 0)
      else
        let (acc, matches, seen) = alignment_loop profile prefix values 0 0 [];
            denominator = (if knownOnly then matches else length seen)
        in if denominator = 0 then (0, matches)
           else (clamp (fdiv acc (of_nat denominator)), matches))"

definition Alignment :: "Profile \<Rightarrow> CandidateAssessment \<Rightarrow> f64" where
  "Alignment profile assessment =
     (let (tagAlignment, tagMatches) = featureAlignment profile ''tag:'' (ca_TopicTags assessment) True;
          (facetAlignment, _) = featureAlignment profile ''facet:'' (ca_TopicFacets assessment) False
      in if 0 < tagMatches
         then clamp (fadd (fmul (3 / 4) tagAlignment) (fmul (1 / 4) facetAlignment))
         else clamp (fmul (f64_round (3 / 10)) facetAlignment))"

definition Score :: "Profile \<Rightarrow> CandidateAssessment \<Rightarrow> f64" where
  "Score profile assessment =
     (if \<not> pf_AuthorityReady profile then 0
      else fmul (f64_round (9 / 20)) (Alignment profile assessment))"

subsection \<open>Feature keys\<close>

lemma clamp_bounds: "- 1 \<le> clamp v" "clamp v \<le> 1"
  by (simp_all add: clamp_def)

lemma clamp_nonneg: "0 \<le> v \<Longrightarrow> 0 \<le> clamp v"
  by (simp add: clamp_def)

lemma to_lower_space [simp]: "to_lower '' '' = '' ''"
  by code_simp

text \<open>The key of a feature ignores letter case and the amount of white space.\<close>

lemma featureKey_canonical:
  "featureKey prefix (to_lower value) = featureKey prefix value"
  "featureKey prefix (join '' '' (str_fields value)) = featureKey prefix value"
  "featureKey prefix (trim_space value) = featureKey prefix value"
  by (simp_all add: featureKey_def str_fields_to_lower to_lower_join comp_def)

subsection \<open>The counters of a fitted profile\<close>

lemma classify_weight_zero:
  "fst (classify s p) = 0 \<longleftrightarrow> \<not> (sg_Direction s = ''more'' \<or>
     sg_Direction s = ''less'' \<and> (sg_Reason s = Some ''not_interested'' \<or> sg_Reason s = None))"
proof -
  have "f64_round (11 / 10) \<noteq> 0" by code_simp
  then show ?thesis by (auto simp: classify_def)
qed

definition counts_agree :: "nat \<Rightarrow> Profile \<Rightarrow> bool" where
  "counts_agree n p \<longleftrightarrow>
     0 \<le> pf_PositiveSignals p \<and> 0 \<le> pf_NegativeSignals p \<and> 0 \<le> pf_NeutralSignals p \<and>
     pf_EffectiveSignals p = pf_PositiveSignals p + pf_NegativeSignals p \<and>
     pf_EffectiveSignals p + pf_NeutralSignals p = int n"

lemma fit_signal_counts:
  assumes "counts_agree n (fst pc)"
  shows "counts_agree (Suc n) (fst (fit_signal s pc))"
proof -
  obtain p c where pc: "pc = (p, c)" by (cases pc)
  have w: "f64_round (11 / 10) \<noteq> 0" by code_simp
  show ?thesis
    using assms w unfolding pc fit_signal_def classify_def counts_agree_def
    by (auto simp: Let_def split: prod.splits)
qed

lemma fold_fit_signal_counts:
  "counts_agree n (fst pc) \<Longrightarrow> counts_agree (n + length signals) (fst (fold fit_signal signals pc))"
proof (induction signals arbitrary: n pc)
  case Nil
  then show ?case by simp
next
  case (Cons s signals)
  from Cons.IH [OF fit_signal_counts [OF Cons.prems]] show ?case by simp
qed

lemma Fit_counts: "counts_agree (length signals) (Fit signals)"
proof -
  have "counts_agree (0 + length signals) (fst (fold fit_signal signals (empty_profile, \<lambda>_. 0)))"
    by (rule fold_fit_signal_counts) (simp add: counts_agree_def empty_profile_def)
  then show ?thesis
    by (auto simp: Fit_def counts_agree_def Let_def split: prod.splits)
qed

subsection \<open>Weights and alignments\<close>

lemma normalize_weights_bounds:
  "normalize_weights weights counts k = Some w \<Longrightarrow> - 1 \<le> w \<and> w \<le> 1"
  by (auto simp: normalize_weights_def clamp_bounds)

lemma Fit_weights: "\<exists>weights counts. pf_Weights (Fit signals) = normalize_weights weights counts"
  by (auto simp: Fit_def Let_def split: prod.splits)

lemma Fit_authority:
  "pf_AuthorityReady (Fit signals) = (pf_PromotionReady (Fit signals) \<or> pf_SuppressionReady (Fit signals))"
  "pf_PromotionReady (Fit signals) =
     (3 \<le> pf_EffectiveSignals (Fit signals) \<and> 2 \<le> pf_PositiveSignals (Fit signals))"
  "pf_SuppressionReady (Fit signals) =
     (3 \<le> pf_EffectiveSignals (Fit signals) \<and> 2 \<le> pf_NegativeSignals (Fit signals))"
  by (auto simp: Fit_def Let_def split: prod.splits)

lemma featureAlignment_bounds:
  "- 1 \<le> fst (featureAlignment p prefix values known) \<and> fst (featureAlignment p prefix values known) \<le> 1"
  by (auto simp: featureAlignment_def Let_def clamp_bounds split: prod.splits)

lemma Alignment_bounds: "- 1 \<le> Alignment p a" "Alignment p a \<le> 1"
  by (auto simp: Alignment_def Let_def clamp_bounds split: prod.splits)

lemma Score_bounds: "- f64_round (9 / 20) \<le> Score p a \<and> Score p a \<le> f64_round (9 / 20)"
proof -
  let ?c = "f64_round (9 / 20)"
  have c: "0 \<le> ?c" "f64_round ?c = ?c" by (simp_all add: f64_round_nonneg)
  have "?c * Alignment p a \<le> ?c" "- ?c \<le> ?c * Alignment p a"
    using mult_left_mono [OF Alignment_bounds(2) c(1), of p a]
      mult_left_mono [OF Alignment_bounds(1) c(1), of p a] by simp_all
  then have "fmul ?c (Alignment p a) \<le> ?c" "- ?c \<le> fmul ?c (Alignment p a)"
    using f64_round_mono [of "?c * Alignment p a" ?c] f64_round_mono [of "- ?c" "?c * Alignment p a"] c
    by (simp_all add: fmul_def)
  then show ?thesis using c(1) by (simp add: Score_def)
qed

subsection \<open>Profiles fitted from positive feedback only\<close>

definition nonneg_weights :: "(string \<rightharpoonup> f64) \<Rightarrow> bool" where
  "nonneg_weights m \<longleftrightarrow> (\<forall>k w. m k = Some w \<longrightarrow> 0 \<le> w)"

lemma fadd_nonneg: "0 \<le> a \<Longrightarrow> 0 \<le> b \<Longrightarrow> 0 \<le> fadd a b"
  by (simp add: fadd_def f64_round_nonneg)

lemma fmul_nonneg: "0 \<le> a \<Longrightarrow> 0 \<le> b \<Longrightarrow> 0 \<le> fmul a b"
  by (simp add: fmul_def f64_round_nonneg)

lemma fdiv_nonneg: "0 \<le> a \<Longrightarrow> 0 \<le> b \<Longrightarrow> 0 \<le> fdiv a b"
  by (simp add: fdiv_def f64_round_nonneg)

lemma addFeatures_nonneg:
  "nonneg_weights weights \<Longrightarrow> 0 \<le> weight \<Longrightarrow>
   nonneg_weights (fst (addFeatures_loop weights counts prefix seen values weight))"
proof (induction weights counts prefix seen "values" weight rule: addFeatures_loop.induct)
  case (1 weights counts prefix seen weight)
  then show ?case by simp
next
  case (2 weights counts prefix seen v vs weight)
  let ?k = "featureKey prefix v"
  have "nonneg_weights (weights(?k \<mapsto> fadd (case weights ?k of None \<Rightarrow> 0 | Some w \<Rightarrow> w) weight))"
    using "2.prems" by (auto simp: nonneg_weights_def intro!: fadd_nonneg split: option.splits)
  note step = this
  show ?case
  proof (cases "?k = prefix \<or> ?k \<in> set seen")
    case True
    with "2.IH"(1) [OF refl True "2.prems"] show ?thesis by simp
  next
    case False
    from "2.IH"(2) [OF refl False step "2.prems"(2)] False show ?thesis
      unfolding addFeatures_loop.simps Let_def by (simp only: if_False)
  qed
qed

lemma classify_positive:
  assumes "sg_Direction s = ''more''"
  shows "0 \<le> fst (classify s p)" "pf_Weights (snd (classify s p)) = pf_Weights p"
proof -
  have "0 \<le> f64_round (11 / 10)" by (simp add: f64_round_nonneg)
  then show "0 \<le> fst (classify s p)" "pf_Weights (snd (classify s p)) = pf_Weights p"
    using assms by (simp_all add: classify_def)
qed

lemma fit_signal_nonneg:
  assumes "nonneg_weights (pf_Weights (fst pc))" "sg_Direction s = ''more''"
  shows "nonneg_weights (pf_Weights (fst (fit_signal s pc)))"
proof -
  obtain p c where pc: "pc = (p, c)" by (cases pc)
  obtain w p1 where cl: "classify s p = (w, p1)" by (cases "classify s p")
  obtain w1 c1 where a1: "addFeatures (pf_Weights p1) c ''tag:'' (sg_Tags s) w = (w1, c1)" by fastforce
  obtain w2 c2 where a2: "addFeatures w1 c1 ''facet:'' (sg_Facets s) w = (w2, c2)" by fastforce
  have w: "0 \<le> w" "nonneg_weights (pf_Weights p1)"
    using classify_positive [OF assms(2), of p] assms(1) cl pc by simp_all
  from addFeatures_nonneg [OF w(2,1), of c "''tag:''" "[]" "sg_Tags s"] a1
  have "nonneg_weights w1" by (simp add: addFeatures_def)
  from addFeatures_nonneg [OF this w(1), of c1 "''facet:''" "[]" "sg_Facets s"] a2
  have "nonneg_weights w2" by (simp add: addFeatures_def)
  with w(2) show ?thesis by (simp add: pc fit_signal_def cl a1 a2)
qed

lemma fold_fit_signal_nonneg:
  "nonneg_weights (pf_Weights (fst pc)) \<Longrightarrow> \<forall>s \<in> set signals. sg_Direction s = ''more'' \<Longrightarrow>
   nonneg_weights (pf_Weights (fst (fold fit_signal signals pc)))"
proof (induction signals arbitrary: pc)
  case Nil
  then show ?case by simp
next
  case (Cons s signals)
  then have "nonneg_weights (pf_Weights (fst (fit_signal s pc)))" by (intro fit_signal_nonneg) simp_all
  from Cons.IH [OF this] Cons.prems(2) show ?case by simp
qed

lemma Fit_nonneg:
  assumes "\<forall>s \<in> set signals. sg_Direction s = ''more''"
  shows "nonneg_weights (pf_Weights (Fit signals))"
proof -
  obtain p counts where f: "fold fit_signal signals (empty_profile, \<lambda>_. 0) = (p, counts)"
    by (cases "fold fit_signal signals (empty_profile, \<lambda>_. 0)")
  have "nonneg_weights (pf_Weights p)"
    using fold_fit_signal_nonneg [OF _ assms, of "(empty_profile, \<lambda>_. 0)"] f
    by (simp add: nonneg_weights_def empty_profile_def)
  then show ?thesis
    by (auto simp: Fit_def f Let_def nonneg_weights_def normalize_weights_def intro!: clamp_nonneg fdiv_nonneg)
qed

lemma alignment_loop_nonneg:
  "nonneg_weights (pf_Weights profile) \<Longrightarrow> 0 \<le> acc \<Longrightarrow>
   0 \<le> fst (alignment_loop profile prefix values acc matches seen)"
proof (induction profile prefix "values" acc matches seen rule: alignment_loop.induct)
  case (1 profile prefix acc matches seen)
  then show ?case by simp
next
  case (2 profile prefix v vs acc matches seen)
  have "pf_Weights profile k = Some w \<Longrightarrow> 0 \<le> fadd acc w" for k w
    using "2.prems" by (auto simp: nonneg_weights_def intro: fadd_nonneg)
  with 2 show ?case by (simp add: Let_def split: option.splits)
qed

lemma featureAlignment_nonneg:
  "nonneg_weights (pf_Weights profile) \<Longrightarrow> 0 \<le> fst (featureAlignment profile prefix values known)"
  using alignment_loop_nonneg [of profile 0 prefix "values" 0 "[]"]
  by (auto simp: featureAlignment_def Let_def split: prod.splits intro!: clamp_nonneg fdiv_nonneg)

lemma Alignment_nonneg:
  assumes "nonneg_weights (pf_Weights profile)"
  shows "0 \<le> Alignment profile a"
proof -
  note f = featureAlignment_nonneg [OF assms]
  have "0 \<le> f64_round (3 / 10)" by (simp add: f64_round_nonneg)
  then show ?thesis
    using f [of "''tag:''" "ca_TopicTags a" True] f [of "''facet:''" "ca_TopicFacets a" False]
    by (auto simp: Alignment_def Let_def split: prod.splits intro!: clamp_nonneg fadd_nonneg fmul_nonneg)
qed

subsection \<open>Properties\<close>

text \<open>The counters and gates of a fitted profile are consistent: every signal is counted once as
  positive, negative or neutral, the effective ones are the positive and negative ones, and a
  direction gets authority exactly after three effective signals of which two point that way.\<close>

theorem fit_counters_consistent:
  "pf_EffectiveSignals (Fit signals) = pf_PositiveSignals (Fit signals) + pf_NegativeSignals (Fit signals) \<and>
   pf_EffectiveSignals (Fit signals) + pf_NeutralSignals (Fit signals) = int (length signals) \<and>
   (pf_PromotionReady (Fit signals) \<longleftrightarrow>
      3 \<le> pf_EffectiveSignals (Fit signals) \<and> 2 \<le> pf_PositiveSignals (Fit signals)) \<and>
   (pf_SuppressionReady (Fit signals) \<longleftrightarrow>
      3 \<le> pf_EffectiveSignals (Fit signals) \<and> 2 \<le> pf_NegativeSignals (Fit signals)) \<and>
   (pf_AuthorityReady (Fit signals) \<longleftrightarrow> pf_PromotionReady (Fit signals) \<or> pf_SuppressionReady (Fit signals))"
  using Fit_counts [of signals] Fit_authority [of signals] by (simp add: counts_agree_def)

text \<open>The learned influence is bounded: with binary64 rounding included, alignment stays within
  \<open>[-1, 1]\<close>, the preference score within \<open>0.45\<close> of zero, and a profile without authority scores 0.\<close>

theorem preference_influence_bounded:
  "- 1 \<le> Alignment profile a \<and> Alignment profile a \<le> 1 \<and>
   - f64_round (9 / 20) \<le> Score profile a \<and> Score profile a \<le> f64_round (9 / 20) \<and>
   (if pf_AuthorityReady profile then True else Score profile a = 0)"
  using Alignment_bounds [of profile a] Score_bounds [of profile a] by (simp add: Score_def)

text \<open>Positive feedback never pushes a candidate down: a profile fitted from signals that all ask
  for more scores every candidate at least 0.\<close>

theorem positive_feedback_never_penalizes:
  assumes "\<forall>s \<in> set signals. sg_Direction s = ''more''"
  shows "0 \<le> Score (Fit signals) a"
  using Alignment_nonneg [OF Fit_nonneg [OF assms], of a]
  by (simp add: Score_def fmul_nonneg f64_round_nonneg)

definition sample_signal :: "string \<Rightarrow> Signal" where
  "sample_signal tag = \<lparr>sg_Direction = ''more'', sg_Reason = None, sg_Tags = [tag], sg_Facets = [],
     sg_Origin = ''selection_correction''\<rparr>"

theorem positive_feedback_never_penalizes_witness:
  "0 \<le> Score (Fit [sample_signal ''ai'', sample_signal ''AI '', sample_signal ''go''])
     \<lparr>ca_EvidenceKey = ''k'', ca_TopicTags = [''ai'', ''rust''], ca_TopicFacets = [], ca_ContentType = ''post'',
      ca_Novelty = 0, ca_Urgency = 0, ca_Actionability = 0, ca_Materiality = 0, ca_EvidenceStrength = 0,
      ca_KnowledgeRelation = ''new'', ca_Rationale = []\<rparr>"
  by (rule positive_feedback_never_penalizes) (simp add: sample_signal_def)

end
