(* ===== verification/Selection.thy ===== *)
theory Selection
  imports Preference "HOL-Library.Multiset"
begin

text \<open>
  \<open>src/internal/selection/selection.go\<close>: choosing the candidates of a check under three layers
  (generic admission, the user's preference, a discovery lane). \<open>selected\<close>, a Go
  \<open>map[int]bool\<close>, is the duplicate-free list of its keys; where the code ranges over it, the
  order is the parameter \<open>it\<close>, any function that permutes the keys (\<open>map_iteration\<close>), because
  Go leaves the iteration order of a map unspecified.
\<close>

record ScoredAssessment =
  sa_Assessment :: CandidateAssessment
  sa_BaseScore :: f64
  sa_PreferenceScore :: f64
  sa_FinalScore :: f64
  sa_Selected :: bool

record Options =
  op_Limit :: int
  op_Mode :: string
  op_ExcludedEvidence :: "string \<Rightarrow> bool"
  op_ProtectedEvidence :: "string \<Rightarrow> bool"

record candidate =
  cd_index :: nat
  cd_scored :: ScoredAssessment
  cd_alignment :: f64
  cd_baselineEligible :: bool
  cd_protected :: bool
  cd_promotable :: bool
  cd_suppressed :: bool
  cd_discovery :: bool

type_synonym iteration = "nat list \<Rightarrow> nat list"

definition map_iteration :: "iteration \<Rightarrow> bool" where
  "map_iteration it \<longleftrightarrow> (\<forall>keys. mset (it keys) = mset keys)"

definition minimumEvidence :: f64 where "minimumEvidence = f64_round (7 / 20)"
definition baselineAdmission :: f64 where "baselineAdmission = f64_round (2 / 5)"
definition preferenceTrustEvidence :: f64 where "preferenceTrustEvidence = 1 / 2"
definition preferenceAdmission :: f64 where "preferenceAdmission = 1 / 4"
definition promotionThreshold :: f64 where "promotionThreshold = 1 / 4"
definition suppressionThreshold :: f64 where "suppressionThreshold = - (1 / 4)"
definition discoveryAlignmentWindow :: f64 where "discoveryAlignmentWindow = f64_round (3 / 20)"

definition baseScore :: "CandidateAssessment \<Rightarrow> f64" where
  "baseScore v =
     fadd (fadd (fadd (fadd
       (fmul (f64_round (2 / 5)) (ca_Materiality v))
       (fmul (f64_round (1 / 5)) (ca_Novelty v)))
       (fmul (f64_round (3 / 20)) (ca_Actionability v)))
       (fmul (f64_round (1 / 10)) (ca_Urgency v)))
       (fmul (f64_round (3 / 20)) (ca_EvidenceStrength v))"

text \<open>The layers' verdicts on one assessment (the body of the first loop).\<close>

definition alignment_of :: "Profile \<Rightarrow> CandidateAssessment \<Rightarrow> f64" where
  "alignment_of profile a = (if pf_AuthorityReady profile then Alignment profile a else 0)"

definition is_excluded :: "Options \<Rightarrow> CandidateAssessment \<Rightarrow> bool" where
  "is_excluded options a = op_ExcludedEvidence options (ca_EvidenceKey a)"

definition is_protected :: "Options \<Rightarrow> CandidateAssessment \<Rightarrow> bool" where
  "is_protected options a =
     (\<not> is_excluded options a \<and> minimumEvidence \<le> ca_EvidenceStrength a \<and>
      (op_ProtectedEvidence options (ca_EvidenceKey a) \<or> f64_round (17 / 20) \<le> ca_Materiality a \<or>
       f64_round (17 / 20) \<le> ca_Urgency a \<or> f64_round (9 / 10) \<le> ca_Novelty a))"

definition is_baseline :: "Options \<Rightarrow> CandidateAssessment \<Rightarrow> bool" where
  "is_baseline options a =
     (\<not> is_excluded options a \<and> minimumEvidence \<le> ca_EvidenceStrength a \<and>
      (baselineAdmission \<le> baseScore a \<or> is_protected options a))"

definition is_promotable :: "Profile \<Rightarrow> Options \<Rightarrow> CandidateAssessment \<Rightarrow> bool" where
  "is_promotable profile options a =
     (\<not> is_excluded options a \<and> pf_PromotionReady profile \<and>
      preferenceTrustEvidence \<le> ca_EvidenceStrength a \<and> preferenceAdmission \<le> baseScore a \<and>
      promotionThreshold \<le> alignment_of profile a)"

definition is_suppressed :: "Profile \<Rightarrow> Options \<Rightarrow> CandidateAssessment \<Rightarrow> bool" where
  "is_suppressed profile options a =
     (op_Mode options = ''guarded_live'' \<and> pf_SuppressionReady profile \<and>
      alignment_of profile a \<le> suppressionThreshold \<and> \<not> is_protected options a)"

definition is_discovery :: "Profile \<Rightarrow> Options \<Rightarrow> CandidateAssessment \<Rightarrow> bool" where
  "is_discovery profile options a =
     (is_baseline options a \<and> \<not> is_suppressed profile options a \<and>
      \<bar>alignment_of profile a\<bar> \<le> discoveryAlignmentWindow)"

definition mk_candidate :: "Profile \<Rightarrow> Options \<Rightarrow> nat \<times> CandidateAssessment \<Rightarrow> candidate" where
  "mk_candidate profile options = (\<lambda>(index, a).
     \<lparr>cd_index = index,
      cd_scored =
        \<lparr>sa_Assessment = a, sa_BaseScore = baseScore a, sa_PreferenceScore = Score profile a,
         sa_FinalScore = fadd (baseScore a) (Score profile a), sa_Selected = False\<rparr>,
      cd_alignment = alignment_of profile a,
      cd_baselineEligible = is_baseline options a,
      cd_protected = is_protected options a,
      cd_promotable = is_promotable profile options a,
      cd_suppressed = is_suppressed profile options a,
      cd_discovery = is_discovery profile options a\<rparr>)"

definition build_candidates :: "CandidateAssessment list \<Rightarrow> Profile \<Rightarrow> Options \<Rightarrow> candidate list" where
  "build_candidates assessments profile options =
     map (mk_candidate profile options) (enumerate 0 assessments)"

abbreviation final_score :: "candidate list \<Rightarrow> nat \<Rightarrow> f64" where
  "final_score cs i \<equiv> sa_FinalScore (cd_scored (cs ! i))"

text \<open>\<open>sort.SliceStable\<close> by descending final score, when the profile has authority.\<close>

definition candidate_order :: "Profile \<Rightarrow> candidate list \<Rightarrow> nat list" where
  "candidate_order profile cs =
     (if pf_AuthorityReady profile then sort_key (\<lambda>i. - final_score cs i) [0..<length cs]
      else [0..<length cs])"

fun pick :: "candidate list \<Rightarrow> nat \<Rightarrow> (candidate \<Rightarrow> bool) \<Rightarrow> nat list \<Rightarrow> nat list \<Rightarrow> nat list" where
  "pick cs limit P [] sel = sel"
| "pick cs limit P (i # order) sel =
     (if limit \<le> length sel then sel
      else if i \<notin> set sel \<and> P (cs ! i) then pick cs limit P order (sel @ [i])
      else pick cs limit P order sel)"

fun weakest_loop :: "candidate list \<Rightarrow> (candidate \<Rightarrow> bool) \<Rightarrow> nat list \<Rightarrow> nat option \<Rightarrow> nat option" where
  "weakest_loop cs allowed [] result = result"
| "weakest_loop cs allowed (i # keys) result =
     (if \<not> allowed (cs ! i) then weakest_loop cs allowed keys result
      else case result of
             None \<Rightarrow> weakest_loop cs allowed keys (Some i)
           | Some r \<Rightarrow> weakest_loop cs allowed keys
                         (if final_score cs i < final_score cs r then Some i else Some r))"

definition weakestSelected ::
    "iteration \<Rightarrow> candidate list \<Rightarrow> nat list \<Rightarrow> (candidate \<Rightarrow> bool) \<Rightarrow> nat option" where
  "weakestSelected it cs sel allowed = weakest_loop cs allowed (it sel) None"

definition protect_one :: "iteration \<Rightarrow> candidate list \<Rightarrow> nat \<Rightarrow> nat \<Rightarrow> nat list \<Rightarrow> nat list" where
  "protect_one it cs limit i sel =
     (if \<not> cd_protected (cs ! i) \<or> i \<in> set sel then sel
      else if length sel < limit then sel @ [i]
      else case weakestSelected it cs sel (\<lambda>c. \<not> cd_protected c) of
             None \<Rightarrow> sel
           | Some r \<Rightarrow> removeAll r sel @ [i])"

definition enforceProtected :: "iteration \<Rightarrow> candidate list \<Rightarrow> nat \<Rightarrow> nat list \<Rightarrow> nat list" where
  "enforceProtected it cs limit sel =
     (if limit = 0 then sel else fold (protect_one it cs limit) [0..<length cs] sel)"

fun discovery_loop :: "candidate list \<Rightarrow> nat list \<Rightarrow> nat list \<Rightarrow> nat option \<Rightarrow> nat option" where
  "discovery_loop cs sel [] best = best"
| "discovery_loop cs sel (i # keys) best =
     (if \<not> cd_discovery (cs ! i) \<or> i \<in> set sel then discovery_loop cs sel keys best
      else case best of
             None \<Rightarrow> discovery_loop cs sel keys (Some i)
           | Some b \<Rightarrow> discovery_loop cs sel keys
               (if sa_BaseScore (cd_scored (cs ! b)) < sa_BaseScore (cd_scored (cs ! i))
                then Some i else Some b))"

definition best_discovery :: "candidate list \<Rightarrow> nat list \<Rightarrow> nat option" where
  "best_discovery cs sel = discovery_loop cs sel [0..<length cs] None"

definition enforceDiscovery :: "iteration \<Rightarrow> candidate list \<Rightarrow> nat \<Rightarrow> nat list \<Rightarrow> nat list" where
  "enforceDiscovery it cs limit sel =
     (if limit = 0 then sel
      else if (\<exists>i \<in> set (it sel). cd_discovery (cs ! i)) then sel
      else case best_discovery cs sel of
             None \<Rightarrow> sel
           | Some best \<Rightarrow>
               if length sel < limit then sel @ [best]
               else (case weakestSelected it cs sel (\<lambda>c. \<not> cd_protected c \<and> \<not> cd_discovery c) of
                       None \<Rightarrow> sel
                     | Some r \<Rightarrow> removeAll r sel @ [best]))"

definition choose_selected :: "iteration \<Rightarrow> Options \<Rightarrow> candidate list \<Rightarrow> nat list \<Rightarrow> nat \<Rightarrow> nat list" where
  "choose_selected it options cs order limit =
     (if op_Mode options = ''promote_unused_budget'' then
        pick cs limit cd_promotable order (pick cs limit cd_baselineEligible order [])
      else if op_Mode options = ''guarded_live'' then
        enforceDiscovery it cs limit (enforceProtected it cs limit
          (pick cs limit (\<lambda>c. \<not> cd_suppressed c \<and> (cd_baselineEligible c \<or> cd_promotable c)) order []))
      else pick cs limit cd_baselineEligible order [])"

definition SelectWithOptions ::
    "iteration \<Rightarrow> CandidateAssessment list \<Rightarrow> Profile \<Rightarrow> Options \<Rightarrow> ScoredAssessment list" where
  "SelectWithOptions it assessments profile options =
     (let limit = nat (op_Limit options);
          cs = build_candidates assessments profile options;
          order = candidate_order profile cs;
          sel = choose_selected it options cs order limit
      in map (\<lambda>i. (cd_scored (cs ! i))\<lparr>sa_Selected := True\<rparr>) (filter (\<lambda>i. i \<in> set sel) order)
         @ map (\<lambda>i. cd_scored (cs ! i)) (filter (\<lambda>i. i \<notin> set sel) [0..<length cs]))"

definition Select ::
    "iteration \<Rightarrow> CandidateAssessment list \<Rightarrow> Profile \<Rightarrow> int \<Rightarrow> string \<Rightarrow> ScoredAssessment list" where
  "Select it assessments profile limit mode =
     SelectWithOptions it assessments profile
       \<lparr>op_Limit = limit, op_Mode = mode, op_ExcludedEvidence = (\<lambda>_. False),
        op_ProtectedEvidence = (\<lambda>_. False)\<rparr>"

subsection \<open>Candidates and their order\<close>

lemma length_build_candidates [simp]: "length (build_candidates as p options) = length as"
  by (simp add: build_candidates_def)

lemma build_candidates_nth:
  "i < length as \<Longrightarrow> build_candidates as p options ! i = mk_candidate p options (i, as ! i)"
  by (simp add: build_candidates_def nth_enumerate_eq)

lemma set_candidate_order [simp]: "set (candidate_order p cs) = {0..<length cs}"
  by (simp add: candidate_order_def)

lemma distinct_candidate_order [simp]: "distinct (candidate_order p cs)"
  by (simp add: candidate_order_def)

lemma set_map_iteration: "map_iteration it \<Longrightarrow> set (it keys) = set keys"
  unfolding map_iteration_def by (metis set_mset_mset)

subsection \<open>Every layer keeps a well-formed selection\<close>

text \<open>A selection is well-formed when it is a duplicate-free list of candidate indices within the
  limit, all of which satisfy \<open>Q\<close>.\<close>

definition sel_ok :: "candidate list \<Rightarrow> nat \<Rightarrow> (candidate \<Rightarrow> bool) \<Rightarrow> nat list \<Rightarrow> bool" where
  "sel_ok cs limit Q sel \<longleftrightarrow>
     distinct sel \<and> set sel \<subseteq> {0..<length cs} \<and> length sel \<le> limit \<and> (\<forall>i \<in> set sel. Q (cs ! i))"

lemma sel_okI [intro]:
  "distinct sel \<Longrightarrow> set sel \<subseteq> {0..<length cs} \<Longrightarrow> length sel \<le> limit \<Longrightarrow>
   (\<And>i. i \<in> set sel \<Longrightarrow> Q (cs ! i)) \<Longrightarrow> sel_ok cs limit Q sel"
  by (simp add: sel_ok_def)

lemma sel_ok_Nil [simp]: "sel_ok cs limit Q []"
  by (simp add: sel_ok_def)

lemma sel_ok_snoc:
  "sel_ok cs limit Q sel \<Longrightarrow> i < length cs \<Longrightarrow> i \<notin> set sel \<Longrightarrow> length sel < limit \<Longrightarrow>
   Q (cs ! i) \<Longrightarrow> sel_ok cs limit Q (sel @ [i])"
  by (auto simp: sel_ok_def)

lemma length_removeAll_distinct:
  "distinct xs \<Longrightarrow> x \<in> set xs \<Longrightarrow> length (removeAll x xs) = length xs - 1"
  by (simp add: distinct_remove1_removeAll [symmetric] length_remove1)

lemma sel_ok_swap:
  assumes "sel_ok cs limit Q sel" "r \<in> set sel" "i < length cs" "i \<notin> set sel" "Q (cs ! i)"
  shows "sel_ok cs limit Q (removeAll r sel @ [i])"
proof -
  have "length (removeAll r sel) = length sel - 1"
    using assms by (intro length_removeAll_distinct) (auto simp: sel_ok_def)
  moreover have "0 < length sel" using assms(2) by (cases sel) auto
  ultimately show ?thesis using assms by (auto simp: sel_ok_def distinct_removeAll)
qed

lemma pick_sel_ok:
  "sel_ok cs limit Q sel \<Longrightarrow> set order \<subseteq> {0..<length cs} \<Longrightarrow> (\<And>c. P c \<Longrightarrow> Q c) \<Longrightarrow>
   sel_ok cs limit Q (pick cs limit P order sel)"
proof (induction cs limit P order sel rule: pick.induct)
  case (1 cs limit P sel)
  then show ?case by simp
next
  case (2 cs limit P i order sel)
  have "i < length cs" "set order \<subseteq> {0..<length cs}" using "2.prems"(2) by auto
  with 2 show ?case by (simp add: sel_ok_snoc)
qed

text \<open>On an empty selection \<open>pick\<close> takes the first eligible candidates of the order.\<close>

lemma pick_take_general:
  "distinct (sel @ order) \<Longrightarrow> length sel \<le> limit \<Longrightarrow>
   pick cs limit P order sel = sel @ take (limit - length sel) (filter (\<lambda>i. P (cs ! i)) order)"
proof (induction cs limit P order sel rule: pick.induct)
  case (1 cs limit P sel)
  then show ?case by simp
next
  case (2 cs limit P i order sel)
  show ?case
  proof (cases "limit \<le> length sel")
    case True
    then show ?thesis by simp
  next
    case False
    then have "limit - length sel = Suc (limit - Suc (length sel))" by simp
    with 2 False show ?thesis by auto
  qed
qed

lemma pick_take:
  "distinct order \<Longrightarrow> pick cs limit P order [] = take limit (filter (\<lambda>i. P (cs ! i)) order)"
  using pick_take_general [of "[]" order limit cs P] by simp

subsection \<open>The weakest selected candidate\<close>

lemma weakest_loop_result:
  "weakest_loop cs allowed keys result = Some r \<Longrightarrow> (\<And>q. result = Some q \<Longrightarrow> allowed (cs ! q)) \<Longrightarrow>
   (result = Some r \<or> r \<in> set keys) \<and> allowed (cs ! r)"
proof (induction cs allowed keys result rule: weakest_loop.induct)
  case (1 cs allowed result)
  then show ?case by simp
next
  case (2 cs allowed i keys result)
  then show ?case by (cases result) (auto split: if_splits)
qed

lemma weakest_loop_None:
  "weakest_loop cs allowed keys result = None \<longleftrightarrow> result = None \<and> (\<forall>i \<in> set keys. \<not> allowed (cs ! i))"
proof (induction cs allowed keys result rule: weakest_loop.induct)
  case (1 cs allowed result)
  then show ?case by simp
next
  case (2 cs allowed i keys result)
  then show ?case by (cases result) auto
qed

lemma weakest_loop_min:
  "weakest_loop cs allowed keys result = Some r \<Longrightarrow>
   (\<forall>i \<in> set keys. allowed (cs ! i) \<longrightarrow> final_score cs r \<le> final_score cs i) \<and>
   (\<forall>q. result = Some q \<longrightarrow> final_score cs r \<le> final_score cs q)"
proof (induction cs allowed keys result rule: weakest_loop.induct)
  case (1 cs allowed result)
  then show ?case by simp
next
  case (2 cs allowed i keys result)
  then show ?case by (cases result) (auto split: if_splits)
qed

lemma weakestSelected_Some:
  assumes "map_iteration it" "weakestSelected it cs sel allowed = Some r"
  shows "r \<in> set sel" "allowed (cs ! r)"
    and "i \<in> set sel \<Longrightarrow> allowed (cs ! i) \<Longrightarrow> final_score cs r \<le> final_score cs i"
  using weakest_loop_result [of cs allowed "it sel" None r]
    weakest_loop_min [of cs allowed "it sel" None r] assms
  by (auto simp: weakestSelected_def set_map_iteration)

lemma weakestSelected_None:
  "map_iteration it \<Longrightarrow> weakestSelected it cs sel allowed = None \<Longrightarrow> i \<in> set sel \<Longrightarrow> \<not> allowed (cs ! i)"
  by (auto simp: weakestSelected_def weakest_loop_None set_map_iteration)

subsection \<open>The protected lane\<close>

definition full_protected :: "candidate list \<Rightarrow> nat \<Rightarrow> nat list \<Rightarrow> bool" where
  "full_protected cs limit sel \<longleftrightarrow> limit \<le> length sel \<and> (\<forall>j \<in> set sel. cd_protected (cs ! j))"

lemma protect_one_sel_ok:
  assumes "map_iteration it" "sel_ok cs limit Q sel" "i < length cs" "\<And>c. cd_protected c \<Longrightarrow> Q c"
  shows "sel_ok cs limit Q (protect_one it cs limit i sel)"
  using assms weakestSelected_Some(1) [OF assms(1), of cs sel "\<lambda>c. \<not> cd_protected c"]
  by (auto simp: protect_one_def split: option.splits intro!: sel_ok_snoc sel_ok_swap)




lemma fold_protect_sel_ok:
  assumes "map_iteration it" "\<And>c. cd_protected c \<Longrightarrow> Q c"
  shows "sel_ok cs limit Q sel \<Longrightarrow> set ks \<subseteq> {0..<length cs} \<Longrightarrow>
    sel_ok cs limit Q (fold (protect_one it cs limit) ks sel)"
  by (induction ks arbitrary: sel) (auto intro: protect_one_sel_ok [OF assms(1)] assms(2))



lemma enforceProtected_sel_ok:
  "map_iteration it \<Longrightarrow> sel_ok cs limit Q sel \<Longrightarrow> (\<And>c. cd_protected c \<Longrightarrow> Q c) \<Longrightarrow>
   sel_ok cs limit Q (enforceProtected it cs limit sel)"
  by (auto simp: enforceProtected_def intro!: fold_protect_sel_ok)


subsection \<open>The discovery lane\<close>

lemma discovery_loop_Some:
  "discovery_loop cs sel keys best = Some b \<Longrightarrow>
   best = Some b \<or> b \<in> set keys \<and> cd_discovery (cs ! b) \<and> b \<notin> set sel"
proof (induction cs sel keys best rule: discovery_loop.induct)
  case (1 cs sel best)
  then show ?case by simp
next
  case (2 cs sel i keys best)
  then show ?case by (cases best) (auto split: if_splits)
qed

lemma discovery_loop_None:
  "discovery_loop cs sel keys best = None \<longleftrightarrow>
   best = None \<and> (\<forall>i \<in> set keys. cd_discovery (cs ! i) \<longrightarrow> i \<in> set sel)"
proof (induction cs sel keys best rule: discovery_loop.induct)
  case (1 cs sel best)
  then show ?case by simp
next
  case (2 cs sel i keys best)
  then show ?case by (cases best) auto
qed

lemma best_discovery_Some:
  "best_discovery cs sel = Some b \<Longrightarrow> b < length cs \<and> cd_discovery (cs ! b) \<and> b \<notin> set sel"
  using discovery_loop_Some [of cs sel "[0..<length cs]" None b] by (simp add: best_discovery_def)

lemma best_discovery_None:
  "best_discovery cs sel = None \<Longrightarrow> i < length cs \<Longrightarrow> cd_discovery (cs ! i) \<Longrightarrow> i \<in> set sel"
  by (simp add: best_discovery_def discovery_loop_None)

lemma enforceDiscovery_sel_ok:
  assumes "map_iteration it" "sel_ok cs limit Q sel" "\<And>c. cd_discovery c \<Longrightarrow> Q c"
  shows "sel_ok cs limit Q (enforceDiscovery it cs limit sel)"
  using assms best_discovery_Some [of cs sel]
    weakestSelected_Some(1) [OF assms(1), of cs sel "\<lambda>c. \<not> cd_protected c \<and> \<not> cd_discovery c"]
  by (auto simp: enforceDiscovery_def split: option.splits intro!: sel_ok_snoc sel_ok_swap)



text \<open>A discovery candidate is selected, or the selection is full of protected ones.\<close>

lemma enforceDiscovery_lane:
  assumes "map_iteration it" "0 < limit" "i < length cs" "cd_discovery (cs ! i)"
  shows "(\<exists>j \<in> set (enforceDiscovery it cs limit sel). cd_discovery (cs ! j)) \<or>
         full_protected cs limit (enforceDiscovery it cs limit sel)"
proof (cases "\<exists>j \<in> set sel. cd_discovery (cs ! j)")
  case True
  with assms show ?thesis by (auto simp: enforceDiscovery_def set_map_iteration)
next
  case False
  with assms best_discovery_None [of cs sel i] obtain b where b: "best_discovery cs sel = Some b"
    by (cases "best_discovery cs sel") auto
  with best_discovery_Some have bd: "cd_discovery (cs ! b)" by blast
  show ?thesis
    using False assms b bd
      weakestSelected_None [OF assms(1), of cs sel "\<lambda>c. \<not> cd_protected c \<and> \<not> cd_discovery c"]
    by (auto simp: enforceDiscovery_def full_protected_def set_map_iteration split: option.splits)
qed

subsection \<open>The whole selection\<close>

definition selected_indices :: "iteration \<Rightarrow> CandidateAssessment list \<Rightarrow> Profile \<Rightarrow> Options \<Rightarrow> nat list" where
  "selected_indices it as p options =
     (let cs = build_candidates as p options
      in choose_selected it options cs (candidate_order p cs) (nat (op_Limit options)))"

text \<open>The candidates built from assessments have related flags: the protected are baseline eligible
  and not suppressed, the discovery ones are eligible and not suppressed.\<close>

definition flags_related :: "candidate \<Rightarrow> bool" where
  "flags_related c \<longleftrightarrow>
     (cd_protected c \<longrightarrow> cd_baselineEligible c \<and> \<not> cd_suppressed c) \<and>
     (cd_discovery c \<longrightarrow> cd_baselineEligible c \<and> \<not> cd_suppressed c)"

lemma flags_related_mk: "flags_related (mk_candidate p options ia)"
  by (cases ia)
    (auto simp: flags_related_def mk_candidate_def is_baseline_def is_suppressed_def is_discovery_def
      is_protected_def)

lemma sel_ok_weaken:
  "sel_ok cs limit P sel \<Longrightarrow> (\<And>i. i < length cs \<Longrightarrow> P (cs ! i) \<Longrightarrow> Q (cs ! i)) \<Longrightarrow> sel_ok cs limit Q sel"
  unfolding sel_ok_def by fastforce

lemma choose_selected_ok:
  assumes it: "map_iteration it" and order: "set order \<subseteq> {0..<length cs}"
  shows "sel_ok cs limit
     (\<lambda>c. cd_baselineEligible c \<or> cd_promotable c \<or> cd_protected c \<or> cd_discovery c)
     (choose_selected it options cs order limit)"
  unfolding choose_selected_def
  by (auto intro!: enforceDiscovery_sel_ok enforceProtected_sel_ok pick_sel_ok it order
      simp del: pick.simps)

lemma choose_selected_guarded:
  assumes it: "map_iteration it" and order: "set order \<subseteq> {0..<length cs}"
    and mode: "op_Mode options = ''guarded_live''"
  shows "sel_ok cs limit (\<lambda>c. \<not> cd_suppressed c \<or> cd_protected c \<or> cd_discovery c)
     (choose_selected it options cs order limit)"
  using mode unfolding choose_selected_def
  by (auto intro!: enforceDiscovery_sel_ok enforceProtected_sel_ok pick_sel_ok it order
      simp del: pick.simps)

lemma selected_indices_ok:
  assumes it: "map_iteration it"
  shows "sel_ok (build_candidates as p options) (nat (op_Limit options))
    (\<lambda>c. (cd_baselineEligible c \<or> cd_promotable c) \<and> \<not> cd_suppressed c) (selected_indices it as p options)"
proof -
  let ?cs = "build_candidates as p options"
  let ?sel = "choose_selected it options ?cs (candidate_order p ?cs) (nat (op_Limit options))"
  have rel: "flags_related (?cs ! i)" if "i < length ?cs" for i
    using that by (simp add: build_candidates_nth flags_related_mk)
  have eligible: "sel_ok ?cs (nat (op_Limit options))
      (\<lambda>c. cd_baselineEligible c \<or> cd_promotable c \<or> cd_protected c \<or> cd_discovery c) ?sel"
    by (rule choose_selected_ok [OF it]) simp
  have unsuppressed: "\<not> cd_suppressed (?cs ! i)" if i: "i \<in> set ?sel" for i
  proof (cases "op_Mode options = ''guarded_live''")
    case True
    have "i < length ?cs" using eligible i by (auto simp: sel_ok_def)
    moreover have "sel_ok ?cs (nat (op_Limit options))
        (\<lambda>c. \<not> cd_suppressed c \<or> cd_protected c \<or> cd_discovery c) ?sel"
      by (rule choose_selected_guarded [OF it _ True]) simp
    ultimately show ?thesis using i rel [of i] by (auto simp: sel_ok_def flags_related_def)
  next
    case False
    have "i < length as" using eligible i by (auto simp: sel_ok_def)
    with False show ?thesis by (simp add: build_candidates_nth mk_candidate_def is_suppressed_def)
  qed
  show ?thesis
    unfolding selected_indices_def Let_def
  proof (rule sel_okI)
    show "distinct ?sel" "set ?sel \<subseteq> {0..<length ?cs}" "length ?sel \<le> nat (op_Limit options)"
      using eligible by (auto simp: sel_ok_def)
  next
    fix i assume i: "i \<in> set ?sel"
    then have "i < length ?cs" using eligible by (auto simp: sel_ok_def)
    with i eligible rel [of i] unsuppressed [OF i]
    show "(cd_baselineEligible (?cs ! i) \<or> cd_promotable (?cs ! i)) \<and> \<not> cd_suppressed (?cs ! i)"
      by (auto simp: sel_ok_def flags_related_def)
  qed
qed

lemma SelectWithOptions_eq:
  "SelectWithOptions it as p options =
     (let cs = build_candidates as p options; sel = selected_indices it as p options
      in map (\<lambda>i. (cd_scored (cs ! i))\<lparr>sa_Selected := True\<rparr>) (filter (\<lambda>i. i \<in> set sel) (candidate_order p cs))
         @ map (\<lambda>i. cd_scored (cs ! i)) (filter (\<lambda>i. i \<notin> set sel) [0..<length cs]))"
  by (simp add: SelectWithOptions_def selected_indices_def Let_def)

lemma unselected_scored [simp]:
  "i < length as \<Longrightarrow> \<not> sa_Selected (cd_scored (build_candidates as p options ! i))"
  by (simp add: build_candidates_nth mk_candidate_def)

lemma scored_assessment [simp]:
  "i < length as \<Longrightarrow> sa_Assessment (cd_scored (build_candidates as p options ! i)) = as ! i"
  by (simp add: build_candidates_nth mk_candidate_def)

text \<open>The selected part of the result.\<close>

lemma filter_selected:
  "filter sa_Selected (SelectWithOptions it as p options) =
     (let cs = build_candidates as p options
      in map (\<lambda>i. (cd_scored (cs ! i))\<lparr>sa_Selected := True\<rparr>)
           (filter (\<lambda>i. i \<in> set (selected_indices it as p options)) (candidate_order p cs)))"
proof -
  have "filter sa_Selected (map (\<lambda>i. cd_scored (build_candidates as p options ! i))
      (filter (\<lambda>i. i \<notin> set (selected_indices it as p options)) [0..<length as])) = []"
    by (auto simp: filter_empty_conv)
  moreover have "filter sa_Selected (map (\<lambda>i. (cd_scored (cs ! i))\<lparr>sa_Selected := True\<rparr>) xs) =
      map (\<lambda>i. (cd_scored (cs ! i))\<lparr>sa_Selected := True\<rparr>) xs" for cs xs
    by (induction xs) auto
  ultimately show ?thesis by (simp add: SelectWithOptions_eq Let_def)
qed


lemma selected_indices_facts:
  assumes "map_iteration it"
  shows "distinct (selected_indices it as p options)"
    and "set (selected_indices it as p options) \<subseteq> {0..<length as}"
    and "length (selected_indices it as p options) \<le> nat (op_Limit options)"
  using selected_indices_ok [OF assms, of as p options] by (auto simp: sel_ok_def)

lemma length_filter_selected:
  assumes "map_iteration it"
  shows "length (filter sa_Selected (SelectWithOptions it as p options)) =
    length (selected_indices it as p options)"
proof -
  let ?sel = "selected_indices it as p options" and ?o = "candidate_order p (build_candidates as p options)"
  have "length (filter (\<lambda>i. i \<in> set ?sel) ?o) = card (set ?sel \<inter> set ?o)"
    by (metis distinct_candidate_order distinct_card distinct_filter set_filter inter_set_filter Int_commute)
  also have "set ?sel \<inter> set ?o = set ?sel" using selected_indices_facts(2) [OF assms, of as p options] by auto
  also have "card (set ?sel) = length ?sel" using selected_indices_facts(1) [OF assms] by (rule distinct_card)
  finally show ?thesis by (simp add: filter_selected Let_def)
qed


lemma protected_indices:
  "{i. i < length as \<and> is_protected options (as ! i)} = set (filter (\<lambda>i. is_protected options (as ! i)) [0..<length as])"
  by auto



lemma filter_mem_take_filter:
  "distinct xs \<Longrightarrow> filter (\<lambda>i. i \<in> set (take n (filter P xs))) xs = take n (filter P xs)"
proof (induction xs arbitrary: n)
  case Nil
  show ?case by simp
next
  case (Cons x xs)
  show ?case
  proof (cases "P x")
    case True
    show ?thesis
    proof (cases n)
      case 0
      then show ?thesis by simp
    next
      case (Suc m)
      have "filter (\<lambda>i. i = x \<or> i \<in> set (take m (filter P xs))) xs = filter (\<lambda>i. i \<in> set (take m (filter P xs))) xs"
        using Cons.prems by (intro filter_cong) auto
      with Cons True Suc show ?thesis by simp
    qed
  next
    case False
    have "x \<notin> set (take n (filter P xs))" using Cons.prems by (meson distinct.simps(2) filter_is_subset in_set_takeD subsetD)
    with Cons False show ?thesis by simp
  qed
qed

subsection \<open>Properties\<close>

text \<open>C1. The selection never exceeds the budget: at most \<open>Limit\<close> results are marked selected (none
  when the limit is negative), whatever the mode, the profile and Go's map iteration order.\<close>

theorem select_within_limit:
  assumes "map_iteration it"
  shows "length (filter sa_Selected (SelectWithOptions it as p options)) \<le> nat (op_Limit options)"
  using selected_indices_facts(3) [OF assms] length_filter_selected [OF assms] by simp

text \<open>C2. The result is a rearrangement of the input: every assessment is returned exactly once,
  selected or not.\<close>

theorem select_returns_every_assessment:
  "mset (map sa_Assessment (SelectWithOptions it as p options)) = mset as"
proof -
  let ?cs = "build_candidates as p options" and ?sel = "set (selected_indices it as p options)"
  let ?a = "\<lambda>i. sa_Assessment (cd_scored (?cs ! i))"
  have "mset (map sa_Assessment (SelectWithOptions it as p options)) =
     image_mset ?a (mset (filter (\<lambda>i. i \<in> ?sel) (candidate_order p ?cs))) +
     image_mset ?a (mset (filter (\<lambda>i. i \<notin> ?sel) [0..<length as]))"
    by (simp add: SelectWithOptions_eq Let_def comp_def)
  also have "mset (filter (\<lambda>i. i \<in> ?sel) (candidate_order p ?cs)) = mset (filter (\<lambda>i. i \<in> ?sel) [0..<length as])"
    by (simp add: candidate_order_def)
  also have "image_mset ?a \<dots> + image_mset ?a (mset (filter (\<lambda>i. i \<notin> ?sel) [0..<length as])) =
     image_mset ?a (mset [0..<length as])"
    by (metis image_mset_union multiset_partition mset_filter)
  also have "\<dots> = mset (map ?a [0..<length as])" by simp
  also have "map ?a [0..<length as] = map ((!) as) [0..<length as]" by (intro map_cong) auto
  also have "\<dots> = as" by (rule map_nth)
  finally show ?thesis .
qed



text \<open>The discovery lane: in guarded mode with a positive limit, if any candidate qualifies for
  discovery then a discovery candidate is selected, unless the whole budget went to protected ones.\<close>

theorem select_discovery_lane:
  assumes it: "map_iteration it" and mode: "op_Mode options = ''guarded_live''"
    and limit: "0 < op_Limit options" and a: "a \<in> set as" "is_discovery p options a"
  shows "list_ex (\<lambda>r. sa_Selected r \<and> is_discovery p options (sa_Assessment r)) (SelectWithOptions it as p options)
    \<or> (length (filter sa_Selected (SelectWithOptions it as p options)) = nat (op_Limit options) \<and>
       list_all (\<lambda>r. is_protected options (sa_Assessment r)) (filter sa_Selected (SelectWithOptions it as p options)))"
proof -
  let ?cs = "build_candidates as p options" and ?sel = "selected_indices it as p options"
  obtain i where i: "i < length as" "as ! i = a" using a(1) by (auto simp: in_set_conv_nth)
  have "cd_discovery (?cs ! i)" using i a(2) by (simp add: build_candidates_nth mk_candidate_def)
  then consider j where "j \<in> set ?sel" "cd_discovery (?cs ! j)" | "full_protected ?cs (nat (op_Limit options)) ?sel"
    using enforceDiscovery_lane [OF it, of "nat (op_Limit options)" i ?cs] limit i(1) mode
    unfolding selected_indices_def choose_selected_def Let_def by (auto simp del: pick.simps)
  then show ?thesis
  proof cases
    case 1
    have "j < length as" using selected_indices_facts(2) [OF it, of as p options] 1(1) by auto
    with 1 have "list_ex (\<lambda>r. sa_Selected r \<and> is_discovery p options (sa_Assessment r))
        (SelectWithOptions it as p options)"
      unfolding list_ex_iff
      by (intro bexI [of _ "(cd_scored (?cs ! j))\<lparr>sa_Selected := True\<rparr>"])
        (auto simp: SelectWithOptions_eq Let_def build_candidates_nth mk_candidate_def)
    then show ?thesis by blast
  next
    case 2
    have "length ?sel = nat (op_Limit options)"
      using 2 selected_indices_facts(3) [OF it, of as p options] by (simp add: full_protected_def)
    moreover have "list_all (\<lambda>r. is_protected options (sa_Assessment r))
        (filter sa_Selected (SelectWithOptions it as p options))"
      using 2 by (auto simp: filter_selected list_all_iff Let_def full_protected_def build_candidates_nth mk_candidate_def)
    ultimately show ?thesis using length_filter_selected [OF it, of as p options] by simp
  qed
qed

text \<open>Ranking without learned authority changes nothing: in \<open>rank_only\<close> mode (or any unknown
  mode) the selected candidates are the first baseline-eligible ones in capture order.\<close>

theorem select_rank_only_takes_first:
  assumes mode: "op_Mode options \<noteq> ''promote_unused_budget''" "op_Mode options \<noteq> ''guarded_live''"
    and auth: "\<not> pf_AuthorityReady p"
  shows "map sa_Assessment (filter sa_Selected (SelectWithOptions it as p options)) =
    take (nat (op_Limit options)) (filter (is_baseline options) as)"
proof -
  let ?cs = "build_candidates as p options" and ?n = "nat (op_Limit options)"
  let ?elig = "filter (\<lambda>i. is_baseline options (as ! i)) [0..<length as]"
  have order: "candidate_order p ?cs = [0..<length as]" using auth by (simp add: candidate_order_def)
  have sel: "selected_indices it as p options = take ?n ?elig"
  proof -
    have "selected_indices it as p options = take ?n (filter (\<lambda>i. cd_baselineEligible (?cs ! i)) [0..<length as])"
      using mode unfolding selected_indices_def choose_selected_def Let_def order by (simp add: pick_take del: pick.simps)
    also have "filter (\<lambda>i. cd_baselineEligible (?cs ! i)) [0..<length as] = ?elig"
      by (intro filter_cong) (auto simp: build_candidates_nth mk_candidate_def)
    finally show ?thesis .
  qed
  have "map sa_Assessment (filter sa_Selected (SelectWithOptions it as p options)) = map ((!) as) (take ?n ?elig)"
    by (simp add: filter_selected Let_def order sel filter_mem_take_filter) (auto dest: in_set_takeD)
  also have "\<dots> = take ?n (map ((!) as) ?elig)" by (simp add: take_map)
  also have "map ((!) as) ?elig = filter (is_baseline options) as"
  proof -
    have "map ((!) as) ?elig = filter (is_baseline options) (map ((!) as) [0..<length as])"
      by (simp add: filter_map comp_def)
    then show ?thesis by (simp only: map_nth)
  qed
  finally show ?thesis .
qed

subsection \<open>Witnesses\<close>

definition sample_assessment :: "string \<Rightarrow> f64 \<Rightarrow> CandidateAssessment" where
  "sample_assessment key materiality = \<lparr>ca_EvidenceKey = key, ca_TopicTags = [''ai''], ca_TopicFacets = [],
     ca_ContentType = ''post'', ca_Novelty = 1 / 2, ca_Urgency = 0, ca_Actionability = 1 / 2,
     ca_Materiality = materiality, ca_EvidenceStrength = 3 / 4, ca_KnowledgeRelation = ''new'',
     ca_Rationale = []\<rparr>"

definition sample_options :: "string \<Rightarrow> Options" where
  "sample_options mode = \<lparr>op_Limit = 1, op_Mode = mode, op_ExcludedEvidence = (\<lambda>k. k = ''old''),
     op_ProtectedEvidence = (\<lambda>_. False)\<rparr>"

definition sample_assessments :: "CandidateAssessment list" where
  "sample_assessments = [sample_assessment ''a'' (1 / 2), sample_assessment ''b'' 1, sample_assessment ''old'' 1]"

lemmas sample_defs = sample_assessments_def sample_options_def sample_assessment_def empty_profile_def
  is_protected_def is_excluded_def is_baseline_def is_discovery_def is_suppressed_def alignment_of_def
  minimumEvidence_def baselineAdmission_def discoveryAlignmentWindow_def

lemma map_iteration_rev: "map_iteration rev"
  by (simp add: map_iteration_def)


lemma sample_discovery: "is_discovery empty_profile (sample_options ''guarded_live'') (sample_assessment ''b'' 1)"
proof -
  have c: "f64_round (7 / 20) \<le> 3 / 4" "f64_round (17 / 20) \<le> 1" "0 \<le> f64_round (3 / 20)"
    by code_simp+
  then show ?thesis by (simp add: sample_defs)
qed

theorem select_within_limit_witness:
  "length (filter sa_Selected (SelectWithOptions rev sample_assessments empty_profile (sample_options ''guarded_live''))) \<le> 1"
  using select_within_limit [OF map_iteration_rev, of sample_assessments empty_profile "sample_options ''guarded_live''"]
  by (simp add: sample_options_def)



theorem select_discovery_lane_witness:
  "list_ex (\<lambda>r. sa_Selected r \<and> is_discovery empty_profile (sample_options ''guarded_live'') (sa_Assessment r))
     (SelectWithOptions rev sample_assessments empty_profile (sample_options ''guarded_live'')) \<or>
   length (filter sa_Selected
     (SelectWithOptions rev sample_assessments empty_profile (sample_options ''guarded_live''))) = 1"
proof -
  have "sample_assessment ''b'' 1 \<in> set sample_assessments" by (simp add: sample_assessments_def)
  moreover have "op_Mode (sample_options ''guarded_live'') = ''guarded_live''" "0 < op_Limit (sample_options ''guarded_live'')"
    "nat (op_Limit (sample_options ''guarded_live'')) = 1"
    by (simp_all add: sample_options_def)
  ultimately show ?thesis
    using select_discovery_lane [OF map_iteration_rev, of "sample_options ''guarded_live''"
        "sample_assessment ''b'' 1" sample_assessments empty_profile] sample_discovery by metis
qed

theorem select_rank_only_takes_first_witness:
  "map sa_Assessment (filter sa_Selected
     (SelectWithOptions rev sample_assessments empty_profile (sample_options ''rank_only''))) =
   take 1 (filter (is_baseline (sample_options ''rank_only'')) sample_assessments)"
  using select_rank_only_takes_first [of "sample_options ''rank_only''" empty_profile rev sample_assessments]
  by (simp add: sample_options_def empty_profile_def)

end
