(* ===== verification/CaptureRuntime.thy ===== *)
theory CaptureRuntime
  imports Prelude
begin

text \<open>
  \<open>src/internal/captureruntime\<close>: the manager that owns the capture process (\<open>manager.go\<close>) and the
  leases that pin it (\<open>profile_lease.go\<close>).

  The manager has two mutexes. \<open>operation\<close> serialises the long operations (\<open>Replace\<close>, \<open>Recover\<close>,
  \<open>Terminate\<close>, \<open>RetainForProcess\<close>); \<open>mu\<close> protects the fields and is released while the code waits
  for a readiness check, a close or a launch. So every \<open>mu\<close> critical section is one definition on
  the manager record, a long operation is a chain of sections linked by a program counter
  (\<open>pc\<close>), and the machine of the last part interleaves them with \<open>Acquire\<close>, \<open>Release\<close> and the
  \<open>watch\<close> goroutines. \<open>Replace\<close> and \<open>Recover\<close> as functions are the same sections run without
  interference.

  Owners are heap objects: \<open>watch\<close> compares the pointer \<open>m.current\<close> and reads the \<open>intentional\<close>
  flag that \<open>Replace\<close> sets through another pointer. They live in the list \<open>mg_owners\<close> and a
  pointer is an index into it. What the operating system, the launched process and the caller's
  context answer (a nil error is \<^const>\<open>None\<close>) is the argument \<^emph>\<open>tr\<close> of the sections.
\<close>

datatype rt_error =
    ErrBusy
  | ErrUnavailable
  | ErrStopped
  | ErrPersistent
  | LauncherRequired
  | External string
  | Wrapped string rt_error

datatype State = Ready | Replacing | Blocked | Failed | Stopped

text \<open>\<open>pr_Driver\<close> and \<open>pr_Retiring\<close> are optional interfaces of a process; \<open>pr_IdleHolder\<close> tells that it
  has \<open>SetIdleHold\<close>, \<open>pr_HasDone\<close> that its \<open>Done\<close> channel is not nil.\<close>

record Process =
  pr_PID :: int
  pr_Driver :: "string option"
  pr_HasDone :: bool
  pr_IdleHolder :: bool
  pr_Retiring :: "bool option"

record owner =
  ow_process :: Process
  ow_intentional :: bool
  ow_driver :: string

type_synonym generation = "64 word"

record Manager =
  mg_owners :: "owner list"
  mg_current :: "nat option"
  mg_state :: State
  mg_generation :: generation
  mg_leases :: int
  mg_stopped :: bool
  mg_launchBlocked :: bool
  mg_persistent :: bool
  mg_done :: "rt_error option list"
  mg_finishOnce :: bool
  mg_transitionReadiness :: bool
  mg_timingObserver :: bool
  mg_timings :: "(string \<times> bool) list"
  mg_exitObserver :: bool
  mg_exits :: "generation list"

record RuntimeSnapshot =
  sn_State :: State
  sn_Generation :: generation
  sn_ActiveLeases :: int
  sn_Driver :: string

record Lease =
  le_generation :: generation
  le_driver :: string
  le_released :: bool

text \<open>What the environment answers during one transition: the launcher (nil or a function of the
  generation), the caller's context at the three places it is read, the transport check, the
  owner's readiness and its close.\<close>

record Transition =
  tr_launch :: "(generation \<Rightarrow> Process option \<times> rt_error option) option"
  tr_ctx_start :: "rt_error option"
  tr_check :: "rt_error option"
  tr_readiness :: "rt_error option"
  tr_close :: "rt_error option"
  tr_ctx_released :: "rt_error option"
  tr_ctx_launched :: "rt_error option"

subsection \<open>Small operations\<close>

definition processDriver :: "Process \<Rightarrow> string" where
  "processDriver p = (case pr_Driver p of Some d \<Rightarrow> d | None \<Rightarrow> ''browser'')"

definition New :: "Process option \<Rightarrow> rt_error + Manager" where
  "New process =
     (case process of
        None \<Rightarrow> Inl ErrUnavailable
      | Some p \<Rightarrow>
          if \<not> pr_HasDone p then Inl ErrUnavailable
          else Inr \<lparr>mg_owners = [\<lparr>ow_process = p, ow_intentional = False, ow_driver = processDriver p\<rparr>],
            mg_current = Some 0, mg_state = Ready, mg_generation = 1, mg_leases = 0, mg_stopped = False,
            mg_launchBlocked = False, mg_persistent = False, mg_done = [], mg_finishOnce = False,
            mg_transitionReadiness = False, mg_timingObserver = False, mg_timings = [],
            mg_exitObserver = False, mg_exits = []\<rparr>)"

definition current_owner :: "Manager \<Rightarrow> owner option" where
  "current_owner m = map_option (\<lambda>i. mg_owners m ! i) (mg_current m)"

definition SetExitObserver :: "bool \<Rightarrow> Manager \<Rightarrow> Manager" where
  "SetExitObserver bound m = m\<lparr>mg_exitObserver := bound\<rparr>"

definition SetTimingObserver :: "bool \<Rightarrow> Manager \<Rightarrow> Manager" where
  "SetTimingObserver bound m = m\<lparr>mg_timingObserver := bound\<rparr>"

definition reportTiming :: "string \<Rightarrow> bool \<Rightarrow> Manager \<Rightarrow> Manager" where
  "reportTiming stage ok m =
     (if mg_timingObserver m then m\<lparr>mg_timings := mg_timings m @ [(stage, ok)]\<rparr> else m)"

definition SetTransitionReadiness :: "bool \<Rightarrow> Manager \<Rightarrow> rt_error + Manager" where
  "SetTransitionReadiness check_given m =
     (if \<not> check_given \<or> mg_transitionReadiness m \<or> mg_state m \<noteq> Ready \<or> mg_stopped m
      then Inl ErrUnavailable else Inr (m\<lparr>mg_transitionReadiness := True\<rparr>))"

definition finish :: "rt_error option \<Rightarrow> Manager \<Rightarrow> Manager" where
  "finish err m =
     (if mg_finishOnce m then m else m\<lparr>mg_finishOnce := True, mg_done := mg_done m @ [err]\<rparr>)"

text \<open>The critical section of \<open>watch\<close> and the observer call after it; the flag says whether the
  goroutine goes on to \<open>finish\<close>.\<close>

definition watch_mark :: "nat \<Rightarrow> Manager \<Rightarrow> Manager \<times> bool" where
  "watch_mark i m =
     (let unexpected = (mg_current m = Some i \<and> \<not> ow_intentional (mg_owners m ! i) \<and> \<not> mg_stopped m);
          m1 = (if unexpected then
                  (if ow_driver (mg_owners m ! i) = ''headless'' \<or> 1 < mg_generation m
                   then m\<lparr>mg_state := Failed, mg_launchBlocked := True\<rparr>
                   else m\<lparr>mg_state := Failed, mg_stopped := True\<rparr>)
                else m);
          m2 = (if unexpected \<and> mg_exitObserver m1 then m1\<lparr>mg_exits := mg_exits m1 @ [mg_generation m1]\<rparr>
                else m1)
      in (m2, unexpected \<and> mg_stopped m1))"

definition watch :: "nat \<Rightarrow> rt_error option \<Rightarrow> Manager \<Rightarrow> Manager" where
  "watch i err m = (let (m1, shutdown) = watch_mark i m in if shutdown then finish err m1 else m1)"

definition Manager_Snapshot :: "Manager \<Rightarrow> RuntimeSnapshot" where
  "Manager_Snapshot m =
     \<lparr>sn_State = mg_state m, sn_Generation = mg_generation m, sn_ActiveLeases = mg_leases m,
      sn_Driver = (case current_owner m of None \<Rightarrow> [] | Some ow \<Rightarrow> ow_driver ow)\<rparr>"

definition Retiring :: "Manager \<Rightarrow> bool" where
  "Retiring m = (case current_owner m of None \<Rightarrow> False | Some ow \<Rightarrow> pr_Retiring (ow_process ow) = Some True)"

definition Accepts :: "generation \<Rightarrow> Manager \<Rightarrow> bool" where
  "Accepts generation m \<longleftrightarrow> mg_state m = Ready \<and> \<not> mg_stopped m \<and> generation = mg_generation m"

definition Persistent :: "Manager \<Rightarrow> bool" where
  "Persistent m = mg_persistent m"

definition PID :: "Manager option \<Rightarrow> int" where
  "PID m = (case m of None \<Rightarrow> 0 | Some v \<Rightarrow>
     (case current_owner v of None \<Rightarrow> 0 | Some ow \<Rightarrow> pr_PID (ow_process ow)))"

definition OpenExtensionsPage :: "(Process \<Rightarrow> rt_error option) \<Rightarrow> Manager \<Rightarrow> rt_error option" where
  "OpenExtensionsPage open_page m =
     (if mg_state m \<noteq> Ready \<or> mg_stopped m then Some ErrUnavailable
      else case current_owner m of None \<Rightarrow> Some ErrUnavailable | Some ow \<Rightarrow> open_page (ow_process ow))"

definition RetainForProcess :: "Manager \<Rightarrow> rt_error + Manager" where
  "RetainForProcess m =
     (if mg_persistent m \<or> mg_stopped m \<or> mg_state m \<noteq> Ready then Inl ErrUnavailable
      else case current_owner m of
             None \<Rightarrow> Inl ErrUnavailable
           | Some ow \<Rightarrow> if ow_driver ow \<noteq> ''browser'' then Inl ErrUnavailable
                         else Inr (m\<lparr>mg_persistent := True\<rparr>))"

subsection \<open>Leases\<close>

text \<open>\<open>hold\<close> is what the worker answers to \<open>SetIdleHold\<close>.\<close>

definition setIdleHoldLocked :: "rt_error option \<Rightarrow> Manager \<Rightarrow> Manager \<times> rt_error option" where
  "setIdleHoldLocked hold m =
     (case current_owner m of
        None \<Rightarrow> (m, None)
      | Some ow \<Rightarrow>
          if ow_driver ow \<noteq> ''headless'' \<or> \<not> pr_IdleHolder (ow_process ow) then (m, None)
          else (case hold of
                  None \<Rightarrow> (m, None)
                | Some e \<Rightarrow> (m\<lparr>mg_state := Blocked, mg_launchBlocked := True\<rparr>,
                             Some (Wrapped ''headless idle hold acknowledgement failed'' e))))"

definition Acquire :: "rt_error option \<Rightarrow> Manager \<Rightarrow> Manager \<times> (rt_error + Lease)" where
  "Acquire hold m =
     (if mg_stopped m then (m, Inl ErrStopped)
      else if mg_state m \<noteq> Ready \<or> mg_current m = None then (m, Inl ErrUnavailable)
      else
        let (m1, err) = (if mg_leases m = 0 then setIdleHoldLocked hold m else (m, None))
        in case err of
             Some e \<Rightarrow> (m1, Inl e)
           | None \<Rightarrow>
               (m1\<lparr>mg_leases := mg_leases m1 + 1\<rparr>,
                Inr \<lparr>le_generation = mg_generation m1, le_driver = ow_driver (the (current_owner m1)),
                     le_released = False\<rparr>))"

text \<open>\<open>once.Do\<close> makes a second \<open>Release\<close> of the same lease do nothing.\<close>

definition Release :: "rt_error option \<Rightarrow> Lease \<Rightarrow> Manager \<Rightarrow> Manager \<times> Lease" where
  "Release hold l m =
     (if le_released l then (m, l)
      else
        let m1 = m\<lparr>mg_leases := mg_leases m - 1\<rparr>;
            m2 = (if mg_leases m1 = 0 \<and> \<not> mg_stopped m1 \<and> mg_state m1 = Ready
                  then fst (setIdleHoldLocked hold m1) else m1)
        in (m2, l\<lparr>le_released := True\<rparr>))"

subsection \<open>The long operations, section by section\<close>

text \<open>Where an operation waits between two critical sections. The index is \<open>previous\<close>, the state is
  \<open>previousState\<close>.\<close>

datatype pc =
    Idle
  | ReplaceChecking "nat option" State
  | ReplaceOwner nat State
  | ReplaceClosing nat
  | ReplaceReleasing
  | ReplaceLaunching generation
  | RecoverOwner nat State
  | RecoverClosing nat
  | RecoverReleasing
  | RecoverLaunching generation
  | TerminateFinishing

text \<open>A section returns the manager and either the error the operation returns or where it goes
  on; \<^term>\<open>Inr Idle\<close> is the return of nil.\<close>

type_synonym section_result = "Manager \<times> (rt_error + pc)"

definition after_check :: "nat option \<Rightarrow> State \<Rightarrow> pc" where
  "after_check previous previousState =
     (case previous of None \<Rightarrow> ReplaceReleasing | Some i \<Rightarrow> ReplaceOwner i previousState)"

definition replace_admit :: "Manager \<Rightarrow> section_result" where
  "replace_admit m =
     (if mg_persistent m then (m, Inl ErrPersistent)
      else if mg_stopped m then (m, Inl ErrStopped)
      else if mg_launchBlocked m then (m, Inl ErrUnavailable)
      else if mg_leases m \<noteq> 0 then (m, Inl ErrBusy)
      else (m\<lparr>mg_state := Replacing\<rparr>,
            Inr (if mg_transitionReadiness m then ReplaceChecking (mg_current m) (mg_state m)
                 else after_check (mg_current m) (mg_state m))))"

definition restore_state :: "State \<Rightarrow> Manager \<Rightarrow> Manager" where
  "restore_state previousState m = (if mg_stopped m then m else m\<lparr>mg_state := previousState\<rparr>)"

definition replace_checked :: "rt_error option \<Rightarrow> nat option \<Rightarrow> State \<Rightarrow> Manager \<Rightarrow> section_result" where
  "replace_checked err previous previousState m =
     (case err of
        Some e \<Rightarrow> (restore_state previousState m, Inl (Wrapped ''capture transport not ready'' e))
      | None \<Rightarrow> (m, Inr (after_check previous previousState)))"

definition mark_intentional :: "nat \<Rightarrow> Manager \<Rightarrow> Manager" where
  "mark_intentional i m = m\<lparr>mg_owners := (mg_owners m)[i := (mg_owners m ! i)\<lparr>ow_intentional := True\<rparr>]\<rparr>"

definition replace_owner_ready :: "rt_error option \<Rightarrow> nat \<Rightarrow> State \<Rightarrow> Manager \<Rightarrow> section_result" where
  "replace_owner_ready err i previousState m =
     (case err of
        Some e \<Rightarrow> (restore_state previousState (reportTiming ''owner_readiness'' False m),
                   Inl (Wrapped ''capture replacement not ready'' e))
      | None \<Rightarrow>
          (let m1 = reportTiming ''owner_readiness'' True m
           in if mg_stopped m1 then (m1, Inl ErrStopped)
              else (mark_intentional i m1, Inr (ReplaceClosing i))))"

definition replace_closed :: "rt_error option \<Rightarrow> Manager \<Rightarrow> section_result" where
  "replace_closed err m =
     (let m1 = reportTiming ''owner_release'' (err = None) m
      in case err of
           Some e \<Rightarrow> (m1\<lparr>mg_state := Blocked\<rparr>, Inl (Wrapped ''release capture ownership'' e))
         | None \<Rightarrow> (m1, Inr ReplaceReleasing))"

definition release_owner :: "Manager \<Rightarrow> Manager" where
  "release_owner m = m\<lparr>mg_current := None, mg_generation := mg_generation m + 1\<rparr>"

definition replace_released :: "rt_error option \<Rightarrow> Manager \<Rightarrow> section_result" where
  "replace_released ctx m =
     (let m1 = release_owner m
      in case ctx of
           Some e \<Rightarrow> (m1\<lparr>mg_state := Blocked\<rparr>, Inl e)
         | None \<Rightarrow> (m1, Inr (ReplaceLaunching (mg_generation m1))))"

text \<open>The outcome of a launch: the error after the three tests on it, and the process.\<close>

definition launch_outcome :: "Process option \<times> rt_error option \<Rightarrow> rt_error option \<Rightarrow> rt_error option" where
  "launch_outcome launched ctx =
     (case snd launched of
        Some e \<Rightarrow> Some e
      | None \<Rightarrow>
          (case ctx of
             Some e \<Rightarrow> Some e
           | None \<Rightarrow>
               (case fst launched of
                  None \<Rightarrow> Some ErrUnavailable
                | Some p \<Rightarrow> if pr_HasDone p then None else Some ErrUnavailable)))"

definition install_owner :: "Process \<Rightarrow> bool \<Rightarrow> Manager \<Rightarrow> Manager" where
  "install_owner p intentional m =
     m\<lparr>mg_owners := mg_owners m @ [\<lparr>ow_process = p, ow_intentional = intentional, ow_driver = processDriver p\<rparr>],
       mg_current := Some (length (mg_owners m))\<rparr>"

definition launch_failed :: "Process option \<Rightarrow> Manager \<Rightarrow> Manager" where
  "launch_failed next m =
     (case next of None \<Rightarrow> m | Some p \<Rightarrow> install_owner p True m)\<lparr>mg_state := Blocked, mg_launchBlocked := True\<rparr>"

definition replace_launched :: "Process option \<times> rt_error option \<Rightarrow> rt_error option \<Rightarrow> Manager \<Rightarrow> section_result" where
  "replace_launched launched ctx m =
     (case launch_outcome launched ctx of
        Some e \<Rightarrow> (launch_failed (fst launched) m, Inl (Wrapped ''launch replacement capture'' e))
      | None \<Rightarrow> ((install_owner (the (fst launched)) False m)\<lparr>mg_state := Ready\<rparr>, Inr Idle))"

definition recover_admit :: "Manager \<Rightarrow> section_result" where
  "recover_admit m =
     (if mg_persistent m then (m, Inl ErrPersistent)
      else if mg_stopped m \<or> mg_leases m \<noteq> 0 \<or> mg_state m \<noteq> Blocked \<and> mg_state m \<noteq> Failed
      then (m, Inl ErrUnavailable)
      else case mg_current m of
             None \<Rightarrow> (m, Inl ErrUnavailable)
           | Some i \<Rightarrow> (m\<lparr>mg_state := Replacing\<rparr>, Inr (RecoverOwner i (mg_state m))))"

definition recover_owner_ready :: "rt_error option \<Rightarrow> nat \<Rightarrow> State \<Rightarrow> Manager \<Rightarrow> section_result" where
  "recover_owner_ready err i previousState m =
     (case err of
        Some e \<Rightarrow> (restore_state previousState m, Inl (Wrapped ''capture recovery not ready'' e))
      | None \<Rightarrow>
          if mg_stopped m then (m, Inl ErrStopped)
          else (mark_intentional i m, Inr (RecoverClosing i)))"

definition recover_closed :: "rt_error option \<Rightarrow> Manager \<Rightarrow> section_result" where
  "recover_closed err m =
     (case err of
        Some e \<Rightarrow> (m\<lparr>mg_state := Blocked\<rparr>, Inl e)
      | None \<Rightarrow> (m, Inr RecoverReleasing))"

definition recover_released :: "Manager \<Rightarrow> section_result" where
  "recover_released m = (let m1 = release_owner m in (m1, Inr (RecoverLaunching (mg_generation m1))))"

definition recover_launched :: "Process option \<times> rt_error option \<Rightarrow> rt_error option \<Rightarrow> Manager \<Rightarrow> section_result" where
  "recover_launched launched ctx m =
     (case launch_outcome launched ctx of
        Some e \<Rightarrow> (launch_failed (fst launched) m, Inl e)
      | None \<Rightarrow> ((install_owner (the (fst launched)) False m)\<lparr>mg_state := Ready, mg_launchBlocked := False\<rparr>,
                 Inr Idle))"

definition terminate_mark :: "Manager \<Rightarrow> section_result" where
  "terminate_mark m =
     (let m1 = m\<lparr>mg_stopped := True, mg_state := Stopped\<rparr>
      in (case mg_current m of None \<Rightarrow> m1 | Some i \<Rightarrow> mark_intentional i m1, Inr TerminateFinishing))"

definition launched_with :: "Transition \<Rightarrow> generation \<Rightarrow> Process option \<times> rt_error option" where
  "launched_with tr g = (case tr_launch tr of None \<Rightarrow> (None, Some LauncherRequired) | Some launch \<Rightarrow> launch g)"

fun op_section :: "Transition \<Rightarrow> pc \<Rightarrow> Manager \<Rightarrow> section_result" where
  "op_section tr Idle m = (m, Inr Idle)"
| "op_section tr (ReplaceChecking previous ps) m = replace_checked (tr_check tr) previous ps m"
| "op_section tr (ReplaceOwner i ps) m = replace_owner_ready (tr_readiness tr) i ps m"
| "op_section tr (ReplaceClosing i) m = replace_closed (tr_close tr) m"
| "op_section tr ReplaceReleasing m = replace_released (tr_ctx_released tr) m"
| "op_section tr (ReplaceLaunching g) m = replace_launched (launched_with tr g) (tr_ctx_launched tr) m"
| "op_section tr (RecoverOwner i ps) m = recover_owner_ready (tr_readiness tr) i ps m"
| "op_section tr (RecoverClosing i) m = recover_closed (tr_close tr) m"
| "op_section tr RecoverReleasing m = recover_released m"
| "op_section tr (RecoverLaunching g) m = recover_launched (launched_with tr g) (tr_ctx_launched tr) m"
| "op_section tr TerminateFinishing m = (finish None m, Inr Idle)"

fun pc_rank :: "pc \<Rightarrow> nat" where
  "pc_rank Idle = 0"
| "pc_rank (ReplaceChecking _ _) = 5"
| "pc_rank (ReplaceOwner _ _) = 4"
| "pc_rank (ReplaceClosing _) = 3"
| "pc_rank ReplaceReleasing = 2"
| "pc_rank (ReplaceLaunching _) = 1"
| "pc_rank (RecoverOwner _ _) = 4"
| "pc_rank (RecoverClosing _) = 3"
| "pc_rank RecoverReleasing = 2"
| "pc_rank (RecoverLaunching _) = 1"
| "pc_rank TerminateFinishing = 1"

lemma op_section_progress: "op_section tr pc m = (m', Inr pc') \<Longrightarrow> pc \<noteq> Idle \<Longrightarrow> pc_rank pc' < pc_rank pc"
  by (cases pc)
    (auto simp: replace_checked_def replace_owner_ready_def replace_closed_def replace_released_def
      replace_launched_def recover_owner_ready_def recover_closed_def recover_released_def
      recover_launched_def after_check_def Let_def split: option.splits if_splits)

text \<open>An operation from one of its waiting points to its return, without interference.\<close>

function run_op :: "Transition \<Rightarrow> section_result \<Rightarrow> Manager \<times> rt_error option" where
  "run_op tr (m, Inl e) = (m, Some e)"
| "run_op tr (m, Inr pc) = (if pc = Idle then (m, None) else run_op tr (op_section tr pc m))"
  by pat_completeness auto
termination
proof (relation "measure (\<lambda>(tr, r). case snd r of Inl _ \<Rightarrow> 0 | Inr pc \<Rightarrow> pc_rank pc)", goal_cases)
  case 1
  show ?case by simp
next
  case (2 tr m pc)
  obtain m' r where e: "op_section tr pc m = (m', r)" by fastforce
  have "0 < pc_rank pc" using 2 by (cases pc) simp_all
  with 2 e op_section_progress [of tr pc m m'] show ?case by (cases r) simp_all
qed

definition Replace :: "Transition \<Rightarrow> Manager \<Rightarrow> Manager \<times> rt_error option" where
  "Replace tr m =
     (if tr_launch tr = None then (m, Some LauncherRequired)
      else case tr_ctx_start tr of
             Some e \<Rightarrow> (m, Some e)
           | None \<Rightarrow> run_op tr (replace_admit m))"

definition Recover :: "Transition \<Rightarrow> Manager \<Rightarrow> Manager \<times> rt_error option" where
  "Recover tr m =
     (if tr_launch tr = None then (m, Some LauncherRequired)
      else case tr_ctx_start tr of
             Some e \<Rightarrow> (m, Some e)
           | None \<Rightarrow> run_op tr (recover_admit m))"

definition Terminate :: "Manager \<Rightarrow> Manager" where
  "Terminate m = finish None (fst (terminate_mark m))"

subsection \<open>The concurrent machine\<close>

text \<open>
  The state adds what lives outside the record: the operation that holds \<open>operation\<close> (its waiting
  point), every lease handed out, the \<open>watch\<close> goroutines still receiving from their owner, and the
  ones between their critical section and \<open>finish\<close>. An event is one critical section;
  \<open>EvAdvance\<close> continues the operation in progress with an answer of the environment.
\<close>

record Sys =
  sy_m :: Manager
  sy_pc :: pc
  sy_leases :: "Lease list"
  sy_watchers :: "nat list"
  sy_finishing :: "rt_error option list"

datatype event =
    EvAcquire "rt_error option"
  | EvRelease nat "rt_error option"
  | EvExit nat "rt_error option"
  | EvFinish nat
  | EvReplace
  | EvRecover
  | EvAdvance Transition
  | EvRetain
  | EvTerminate
  | EvSetTransitionReadiness bool
  | EvSetExitObserver bool
  | EvSetTimingObserver bool

definition enter :: "section_result \<Rightarrow> Sys \<Rightarrow> Sys" where
  "enter r s = s\<lparr>sy_m := fst r, sy_pc := (case snd r of Inl _ \<Rightarrow> Idle | Inr pc \<Rightarrow> pc)\<rparr>"

fun is_launching :: "pc \<Rightarrow> bool" where
  "is_launching (ReplaceLaunching _) = True"
| "is_launching (RecoverLaunching _) = True"
| "is_launching _ = False"

text \<open>A successful launch starts a \<open>watch\<close> goroutine for the new owner.\<close>

definition spawned :: "pc \<Rightarrow> section_result \<Rightarrow> nat list" where
  "spawned pc r = (if is_launching pc \<and> snd r = Inr Idle then [the (mg_current (fst r))] else [])"

fun exec :: "event \<Rightarrow> Sys \<Rightarrow> Sys option" where
  "exec (EvAcquire hold) s =
     (let (m, r) = Acquire hold (sy_m s)
      in Some (s\<lparr>sy_m := m, sy_leases := sy_leases s @ (case r of Inl _ \<Rightarrow> [] | Inr l \<Rightarrow> [l])\<rparr>))"
| "exec (EvRelease k hold) s =
     (if k < length (sy_leases s)
      then (let (m, l) = Release hold (sy_leases s ! k) (sy_m s)
            in Some (s\<lparr>sy_m := m, sy_leases := (sy_leases s)[k := l]\<rparr>))
      else None)"
| "exec (EvExit i err) s =
     (if i \<in> set (sy_watchers s)
      then (let (m, shutdown) = watch_mark i (sy_m s)
            in Some (s\<lparr>sy_m := m, sy_watchers := remove1 i (sy_watchers s),
                      sy_finishing := sy_finishing s @ (if shutdown then [err] else [])\<rparr>))
      else None)"
| "exec (EvFinish k) s =
     (if k < length (sy_finishing s)
      then Some (s\<lparr>sy_m := finish (sy_finishing s ! k) (sy_m s),
                   sy_finishing := take k (sy_finishing s) @ drop (Suc k) (sy_finishing s)\<rparr>)
      else None)"
| "exec EvReplace s = (if sy_pc s = Idle then Some (enter (replace_admit (sy_m s)) s) else None)"
| "exec EvRecover s = (if sy_pc s = Idle then Some (enter (recover_admit (sy_m s)) s) else None)"
| "exec (EvAdvance tr) s =
     (if sy_pc s = Idle then None
      else (let r = op_section tr (sy_pc s) (sy_m s)
            in Some ((enter r s)\<lparr>sy_watchers := sy_watchers s @ spawned (sy_pc s) r\<rparr>)))"
| "exec EvRetain s =
     (if sy_pc s = Idle
      then (case RetainForProcess (sy_m s) of Inl _ \<Rightarrow> Some s | Inr m \<Rightarrow> Some (s\<lparr>sy_m := m\<rparr>)) else None)"
| "exec EvTerminate s = (if sy_pc s = Idle then Some (enter (terminate_mark (sy_m s)) s) else None)"
| "exec (EvSetTransitionReadiness given) s =
     (case SetTransitionReadiness given (sy_m s) of Inl _ \<Rightarrow> Some s | Inr m \<Rightarrow> Some (s\<lparr>sy_m := m\<rparr>))"
| "exec (EvSetExitObserver bound) s = Some (s\<lparr>sy_m := SetExitObserver bound (sy_m s)\<rparr>)"
| "exec (EvSetTimingObserver bound) s = Some (s\<lparr>sy_m := SetTimingObserver bound (sy_m s)\<rparr>)"

fun exec_all :: "event list \<Rightarrow> Sys \<Rightarrow> Sys option" where
  "exec_all [] s = Some s"
| "exec_all (e # es) s = (case exec e s of None \<Rightarrow> None | Some t \<Rightarrow> exec_all es t)"

definition sys_of :: "Manager \<Rightarrow> Sys" where
  "sys_of m = \<lparr>sy_m = m, sy_pc = Idle, sy_leases = [], sy_watchers = [0], sy_finishing = []\<rparr>"

definition runtime_start :: "Sys \<Rightarrow> bool" where
  "runtime_start s \<longleftrightarrow> (\<exists>p m. New p = Inr m \<and> s = sys_of m)"

inductive runtime_step :: "Sys \<Rightarrow> Sys \<Rightarrow> bool" where
  event: "exec e s = Some t \<Longrightarrow> runtime_step s t"

inductive_cases runtime_stepE: "runtime_step s t"

abbreviation runtime_reachable :: "Sys \<Rightarrow> bool" where
  "runtime_reachable \<equiv> reachable_from runtime_start runtime_step"

lemma exec_all_reachable: "runtime_reachable s \<Longrightarrow> exec_all es s = Some t \<Longrightarrow> runtime_reachable t"
proof (induction es arbitrary: s)
  case Nil
  then show ?case by simp
next
  case (Cons e es)
  then obtain u where u: "exec e s = Some u" "exec_all es u = Some t" by (auto split: option.splits)
  from Cons.IH [OF after_move [OF Cons.prems(1) event [OF u(1)]] u(2)] show ?case .
qed

subsection \<open>The invariant\<close>

definition active :: "Lease list \<Rightarrow> Lease list" where
  "active ls = filter (\<lambda>l. \<not> le_released l) ls"

lemma active_simps [simp]:
  "active [] = []" "active (a @ b) = active a @ active b"
  "active [l] = (if le_released l then [] else [l])"
  by (simp_all add: active_def)

lemma set_active: "l \<in> set (active ls) \<longleftrightarrow> l \<in> set ls \<and> \<not> le_released l"
  by (simp add: active_def)

lemma active_released:
  assumes "k < length ls" "\<not> le_released (ls ! k)"
  shows "Suc (length (active (ls[k := (ls ! k)\<lparr>le_released := True\<rparr>]))) = length (active ls)"
    and "set (active (ls[k := (ls ! k)\<lparr>le_released := True\<rparr>])) \<subseteq> set (active ls)"
proof -
  have "ls[k := x] = take k ls @ x # drop (Suc k) ls" for x
    using assms(1) by (rule upd_conv_take_nth_drop)
  moreover have "ls = take k ls @ ls ! k # drop (Suc k) ls"
    using assms(1) by (rule id_take_nth_drop)
  moreover have "active (take k ls @ ls ! k # drop (Suc k) ls) =
      active (take k ls) @ ls ! k # active (drop (Suc k) ls)"
    using assms(2) by (simp add: active_def)
  ultimately have "active ls = active (take k ls) @ ls ! k # active (drop (Suc k) ls)"
    "active (ls[k := (ls ! k)\<lparr>le_released := True\<rparr>]) = active (take k ls) @ active (drop (Suc k) ls)"
    by (metis, simp add: active_def)
  then show "Suc (length (active (ls[k := (ls ! k)\<lparr>le_released := True\<rparr>]))) = length (active ls)"
    and "set (active (ls[k := (ls ! k)\<lparr>le_released := True\<rparr>])) \<subseteq> set (active ls)"
    by auto
qed

text \<open>While a transition is in progress nothing else may use the profile.\<close>

definition quiet :: "Manager \<Rightarrow> bool" where
  "quiet m \<longleftrightarrow> mg_leases m = 0 \<and> \<not> mg_persistent m \<and> mg_state m \<in> {Replacing, Failed}"

definition intentional_current :: "Manager \<Rightarrow> bool" where
  "intentional_current m \<longleftrightarrow> (\<forall>i. mg_current m = Some i \<longrightarrow> ow_intentional (mg_owners m ! i))"

fun phase_ok :: "pc \<Rightarrow> Manager \<Rightarrow> bool" where
  "phase_ok Idle m = (mg_state m \<noteq> Replacing \<and> (mg_state m = Ready \<longrightarrow> mg_current m \<noteq> None))"
| "phase_ok (ReplaceChecking previous ps) m =
     (quiet m \<and> mg_current m = previous \<and> ps \<noteq> Replacing \<and>
      (previous = None \<longrightarrow> ps \<noteq> Ready \<and> \<not> mg_stopped m))"
| "phase_ok (ReplaceOwner i ps) m = (quiet m \<and> mg_current m = Some i \<and> ps \<noteq> Replacing)"
| "phase_ok (RecoverOwner i ps) m = (quiet m \<and> mg_current m = Some i \<and> ps \<noteq> Replacing)"
| "phase_ok (ReplaceClosing i) m =
     (quiet m \<and> \<not> mg_stopped m \<and> mg_current m = Some i \<and> intentional_current m)"
| "phase_ok (RecoverClosing i) m =
     (quiet m \<and> \<not> mg_stopped m \<and> mg_current m = Some i \<and> intentional_current m)"
| "phase_ok ReplaceReleasing m = (quiet m \<and> \<not> mg_stopped m \<and> intentional_current m)"
| "phase_ok RecoverReleasing m = (quiet m \<and> \<not> mg_stopped m \<and> intentional_current m)"
| "phase_ok (ReplaceLaunching g) m =
     (quiet m \<and> \<not> mg_stopped m \<and> mg_current m = None \<and> g = mg_generation m)"
| "phase_ok (RecoverLaunching g) m =
     (quiet m \<and> \<not> mg_stopped m \<and> mg_current m = None \<and> g = mg_generation m)"
| "phase_ok TerminateFinishing m = (mg_state m = Stopped \<and> mg_stopped m)"

definition owners_ok :: "Manager \<Rightarrow> bool" where
  "owners_ok m \<longleftrightarrow>
     (\<forall>i. mg_current m = Some i \<longrightarrow> i < length (mg_owners m)) \<and>
     (mg_persistent m \<longrightarrow> map_option ow_driver (current_owner m) = Some ''browser'') \<and>
     (mg_stopped m \<longrightarrow> mg_state m \<in> {Failed, Stopped})"

definition leases_ok :: "Lease list \<Rightarrow> Manager \<Rightarrow> bool" where
  "leases_ok ls m \<longleftrightarrow>
     mg_leases m = int (length (active ls)) \<and>
     (\<forall>l \<in> set (active ls). le_generation l = mg_generation m \<and>
        map_option ow_driver (current_owner m) = Some (le_driver l))"

definition done_ok :: "Sys \<Rightarrow> bool" where
  "done_ok s \<longleftrightarrow>
     mg_finishOnce (sy_m s) = (mg_done (sy_m s) \<noteq> []) \<and> length (mg_done (sy_m s)) \<le> 1 \<and>
     (mg_stopped (sy_m s) \<longleftrightarrow> mg_finishOnce (sy_m s) \<or> sy_finishing s \<noteq> [] \<or> sy_pc s = TerminateFinishing)"

definition runtime_inv :: "Sys \<Rightarrow> bool" where
  "runtime_inv s \<longleftrightarrow>
     phase_ok (sy_pc s) (sy_m s) \<and> owners_ok (sy_m s) \<and> leases_ok (sy_leases s) (sy_m s) \<and> done_ok s"

text \<open>Each event keeps the invariant; the lemmas follow the events.\<close>

lemmas manager_simps =
  current_owner_def quiet_def intentional_current_def mark_intentional_def restore_state_def reportTiming_def

lemma New_manager:
  assumes "New p = Inr m"
  shows "\<exists>ow. mg_owners m = [ow]" "mg_current m = Some 0" "mg_state m = Ready" "mg_leases m = 0" "\<not> mg_stopped m"
    "\<not> mg_persistent m" "mg_done m = []" "\<not> mg_finishOnce m" "mg_generation m = 1"
  using assms by (auto simp: New_def split: option.splits if_splits)

lemma runtime_inv_start: "runtime_start s \<Longrightarrow> runtime_inv s"
proof -
  assume "runtime_start s"
  then obtain p m where "New p = Inr m" and s: "s = sys_of m" by (auto simp: runtime_start_def)
  from New_manager [OF this(1)] show ?thesis
    by (auto simp: s sys_of_def runtime_inv_def owners_ok_def leases_ok_def done_ok_def)
qed

lemma setIdleHoldLocked_cases:
  "setIdleHoldLocked hold m = (m', err) \<Longrightarrow>
   m' = m \<and> err = None \<or> (\<exists>e. m' = m\<lparr>mg_state := Blocked, mg_launchBlocked := True\<rparr> \<and> err = Some e)"
  by (auto simp: setIdleHoldLocked_def split: option.splits if_splits)

lemma phase_ok_cases:
  "phase_ok pc m \<Longrightarrow> mg_state m = Ready \<Longrightarrow> pc = Idle \<and> mg_current m \<noteq> None"
  by (cases pc) (auto simp: quiet_def)

lemma phase_ok_active: "phase_ok pc m \<Longrightarrow> mg_leases m \<noteq> 0 \<Longrightarrow> pc = Idle \<or> pc = TerminateFinishing"
  by (cases pc) (auto simp: quiet_def)

lemma Acquire_cases:
  assumes "Acquire hold m = (m', r)"
  obtains (refused) e where "m' = m" "r = Inl e"
  | (blocked) e where "m' = m\<lparr>mg_state := Blocked, mg_launchBlocked := True\<rparr>" "r = Inl e"
      "mg_leases m = 0" "mg_state m = Ready" "\<not> mg_stopped m"
  | (admitted) i where "m' = m\<lparr>mg_leases := mg_leases m + 1\<rparr>" "mg_current m = Some i"
      "mg_state m = Ready" "\<not> mg_stopped m"
      "r = Inr \<lparr>le_generation = mg_generation m, le_driver = ow_driver (mg_owners m ! i), le_released = False\<rparr>"
proof (cases "mg_stopped m \<or> mg_state m \<noteq> Ready \<or> mg_current m = None")
  case True
  with assms refused show ?thesis by (auto simp: Acquire_def split: if_splits)
next
  case False
  then obtain i where i: "mg_current m = Some i" "mg_state m = Ready" "\<not> mg_stopped m" by auto
  obtain m1 err where h: "(if mg_leases m = 0 then setIdleHoldLocked hold m else (m, None)) = (m1, err)"
    by fastforce
  have A: "Acquire hold m = (case err of Some e \<Rightarrow> (m1, Inl e) | None \<Rightarrow>
     (m1\<lparr>mg_leases := mg_leases m1 + 1\<rparr>,
      Inr \<lparr>le_generation = mg_generation m1, le_driver = ow_driver (the (current_owner m1)), le_released = False\<rparr>))"
    unfolding Acquire_def h using i by simp
  from h have "m1 = m \<and> err = None \<or>
      mg_leases m = 0 \<and> (\<exists>e. m1 = m\<lparr>mg_state := Blocked, mg_launchBlocked := True\<rparr> \<and> err = Some e)"
    by (auto split: if_splits dest!: setIdleHoldLocked_cases)
  then show ?thesis
  proof (elim disjE conjE exE)
    assume "m1 = m" "err = None"
    with A assms i show ?thesis by (intro admitted [of i]) (auto simp: current_owner_def)
  next
    fix e
    assume "mg_leases m = 0" "m1 = m\<lparr>mg_state := Blocked, mg_launchBlocked := True\<rparr>" "err = Some e"
    with A assms i show ?thesis by (intro blocked [of e]) auto
  qed
qed

lemma inv_acquire: "runtime_inv s \<Longrightarrow> exec (EvAcquire hold) s = Some t \<Longrightarrow> runtime_inv t"
proof -
  assume inv: "runtime_inv s" and e: "exec (EvAcquire hold) s = Some t"
  obtain m r where a: "Acquire hold (sy_m s) = (m, r)" by fastforce
  with e have t: "t = s\<lparr>sy_m := m, sy_leases := sy_leases s @ (case r of Inl _ \<Rightarrow> [] | Inr l \<Rightarrow> [l])\<rparr>"
    by simp
  from a show ?thesis
  proof (cases rule: Acquire_cases)
    case (refused e)
    with inv t show ?thesis by (simp add: runtime_inv_def done_ok_def)
  next
    case (blocked e)
    with inv t phase_ok_cases [of "sy_pc s" "sy_m s"] show ?thesis
      by (auto simp: runtime_inv_def done_ok_def owners_ok_def leases_ok_def current_owner_def)
  next
    case (admitted i)
    with inv t phase_ok_cases [of "sy_pc s" "sy_m s"] show ?thesis
      by (auto simp: runtime_inv_def done_ok_def owners_ok_def leases_ok_def current_owner_def)
  qed
qed

lemma Release_cases:
  assumes "Release hold l m = (m', l')"
  obtains (again) "le_released l" "m' = m" "l' = l"
  | (first) "\<not> le_released l" "m' = m\<lparr>mg_leases := mg_leases m - 1\<rparr>" "l' = l\<lparr>le_released := True\<rparr>"
  | (hold_failed) "\<not> le_released l" "l' = l\<lparr>le_released := True\<rparr>" "mg_state m = Ready" "\<not> mg_stopped m"
      "m' = m\<lparr>mg_leases := mg_leases m - 1, mg_state := Blocked, mg_launchBlocked := True\<rparr>"
proof (cases "le_released l")
  case True
  with assms have "m' = m" "l' = l" by (simp_all add: Release_def)
  with True show ?thesis by (rule again)
next
  case False
  let ?m = "m\<lparr>mg_leases := mg_leases m - 1\<rparr>"
  obtain n err where h: "setIdleHoldLocked hold ?m = (n, err)" by fastforce
  have R: "m' = (if mg_leases ?m = 0 \<and> \<not> mg_stopped ?m \<and> mg_state ?m = Ready then n else ?m)"
    "l' = l\<lparr>le_released := True\<rparr>"
    using assms False h unfolding Release_def Let_def by (auto split: if_splits)
  show ?thesis
  proof (cases "m' = ?m")
    case True
    show ?thesis by (rule first [OF False True R(2)])
  next
    case changed: False
    with R have n: "m' = n" "n \<noteq> ?m" "mg_state m = Ready" "\<not> mg_stopped m" by (auto split: if_splits)
    with setIdleHoldLocked_cases [OF h] have "n = ?m\<lparr>mg_state := Blocked, mg_launchBlocked := True\<rparr>" by auto
    with n(1) have "m' = m\<lparr>mg_leases := mg_leases m - 1, mg_state := Blocked, mg_launchBlocked := True\<rparr>"
      by simp
    then show ?thesis by (rule hold_failed [OF False R(2) n(3,4)])
  qed
qed

lemma inv_release: "runtime_inv s \<Longrightarrow> exec (EvRelease k hold) s = Some t \<Longrightarrow> runtime_inv t"
proof -
  assume inv: "runtime_inv s" and e: "exec (EvRelease k hold) s = Some t"
  obtain m l where r: "Release hold (sy_leases s ! k) (sy_m s) = (m, l)" by fastforce
  with e have k: "k < length (sy_leases s)" and t: "t = s\<lparr>sy_m := m, sy_leases := (sy_leases s)[k := l]\<rparr>"
    by (auto split: if_splits)
  from r show ?thesis
  proof (cases rule: Release_cases)
    case again
    with inv t show ?thesis by (simp add: runtime_inv_def done_ok_def)
  next
    case first
    note a = active_released [OF k first(1)]
    have "mg_leases (sy_m s) \<noteq> 0" using a(1) inv by (auto simp: runtime_inv_def leases_ok_def)
    with inv t first a phase_ok_active [of "sy_pc s" "sy_m s"] show ?thesis
      by (auto simp: runtime_inv_def done_ok_def owners_ok_def leases_ok_def current_owner_def)
  next
    case hold_failed
    note a = active_released [OF k hold_failed(1)]
    with inv t hold_failed phase_ok_cases [of "sy_pc s" "sy_m s"] show ?thesis
      by (auto simp: runtime_inv_def done_ok_def owners_ok_def leases_ok_def current_owner_def)
  qed
qed

lemma watch_mark_cases:
  assumes "watch_mark i m = (m', shutdown)"
  obtains (expected) "m' = m" "\<not> shutdown"
  | (blocked) ex where "m' = m\<lparr>mg_state := Failed, mg_launchBlocked := True, mg_exits := ex\<rparr>" "\<not> shutdown"
      "mg_current m = Some i" "\<not> ow_intentional (mg_owners m ! i)" "\<not> mg_stopped m"
  | (stopping) ex where "m' = m\<lparr>mg_state := Failed, mg_stopped := True, mg_exits := ex\<rparr>" "shutdown"
      "mg_current m = Some i" "\<not> ow_intentional (mg_owners m ! i)" "\<not> mg_stopped m"
proof (cases "mg_current m = Some i \<and> \<not> ow_intentional (mg_owners m ! i) \<and> \<not> mg_stopped m")
  case False
  with assms have "m' = m" "\<not> shutdown" by (auto simp: watch_mark_def)
  then show ?thesis by (rule expected)
next
  case True
  define ex where "ex = (if mg_exitObserver m then mg_exits m @ [mg_generation m] else mg_exits m)"
  show ?thesis
  proof (cases "ow_driver (mg_owners m ! i) = ''headless'' \<or> 1 < mg_generation m")
    case headless: True
    with assms True have "m' = m\<lparr>mg_state := Failed, mg_launchBlocked := True, mg_exits := ex\<rparr>" "\<not> shutdown"
      by (auto simp: watch_mark_def ex_def Let_def)
    with True show ?thesis by (elim conjE) (rule blocked)
  next
    case headed: False
    with assms True have "m' = m\<lparr>mg_state := Failed, mg_stopped := True, mg_exits := ex\<rparr>" "shutdown"
      by (auto simp: watch_mark_def ex_def Let_def)
    with True show ?thesis by (elim conjE) (rule stopping)
  qed
qed

lemma phase_ok_failed:
  assumes "phase_ok pc m" "mg_current m = Some i" "\<not> ow_intentional (mg_owners m ! i)" "\<not> mg_stopped m"
  shows "phase_ok pc (m\<lparr>mg_state := Failed, mg_launchBlocked := True, mg_exits := ex\<rparr>)"
    "phase_ok pc (m\<lparr>mg_state := Failed, mg_stopped := True, mg_exits := ex\<rparr>)" "pc \<noteq> TerminateFinishing"
  using assms by (cases pc; auto simp: quiet_def intentional_current_def)+

lemma inv_exit: "runtime_inv s \<Longrightarrow> exec (EvExit i err) s = Some t \<Longrightarrow> runtime_inv t"
proof -
  assume inv: "runtime_inv s" and e: "exec (EvExit i err) s = Some t"
  obtain m shutdown where w: "watch_mark i (sy_m s) = (m, shutdown)" by fastforce
  with e have t: "t = s\<lparr>sy_m := m, sy_watchers := remove1 i (sy_watchers s),
      sy_finishing := sy_finishing s @ (if shutdown then [err] else [])\<rparr>"
    by (auto split: if_splits)
  from w show ?thesis
  proof (cases rule: watch_mark_cases)
    case expected
    with inv t show ?thesis by (simp add: runtime_inv_def done_ok_def)
  next
    case (blocked ex)
    note p = phase_ok_failed [of "sy_pc s", OF _ blocked(3-5)]
    from inv t blocked p show ?thesis
      by (auto simp: runtime_inv_def done_ok_def owners_ok_def leases_ok_def current_owner_def)
  next
    case (stopping ex)
    note p = phase_ok_failed [of "sy_pc s", OF _ stopping(3-5)]
    from inv t stopping p show ?thesis
      by (auto simp: runtime_inv_def done_ok_def owners_ok_def leases_ok_def current_owner_def)
  qed
qed

lemma phase_ok_finish [simp]: "phase_ok pc (finish err m) = phase_ok pc m"
  by (cases pc) (simp_all add: finish_def quiet_def intentional_current_def)

lemma finish_keeps [simp]:
  "owners_ok (finish err m) = owners_ok m" "leases_ok ls (finish err m) = leases_ok ls m"
  "mg_stopped (finish err m) = mg_stopped m" "mg_finishOnce (finish err m)"
  by (simp_all add: finish_def owners_ok_def leases_ok_def current_owner_def)

lemma finish_done:
  "mg_finishOnce m = (mg_done m \<noteq> []) \<Longrightarrow> length (mg_done m) \<le> 1 \<Longrightarrow>
   mg_done (finish err m) \<noteq> [] \<and> length (mg_done (finish err m)) \<le> 1"
  by (auto simp: finish_def)

lemma inv_finish: "runtime_inv s \<Longrightarrow> exec (EvFinish k) s = Some t \<Longrightarrow> runtime_inv t"
  using finish_done [of "sy_m s"]
  by (cases "sy_finishing s") (auto simp: runtime_inv_def done_ok_def split: if_splits)

lemma replace_admit_cases:
  assumes "replace_admit m = (m', r)"
  obtains (refused) e where "m' = m" "r = Inl e"
  | (admitted) "m' = m\<lparr>mg_state := Replacing\<rparr>" "\<not> mg_persistent m" "\<not> mg_stopped m" "\<not> mg_launchBlocked m"
      "mg_leases m = 0" "r = Inr (if mg_transitionReadiness m then ReplaceChecking (mg_current m) (mg_state m)
                 else after_check (mg_current m) (mg_state m))"
  using assms that by (auto simp: replace_admit_def split: if_splits)

lemma inv_replace: "runtime_inv s \<Longrightarrow> exec EvReplace s = Some t \<Longrightarrow> runtime_inv t"
proof -
  assume inv: "runtime_inv s" and e: "exec EvReplace s = Some t"
  obtain m r where a: "replace_admit (sy_m s) = (m, r)" by fastforce
  with e have idle: "sy_pc s = Idle" and t: "t = enter (m, r) s" by (auto split: if_splits)
  from a show ?thesis
  proof (cases rule: replace_admit_cases)
    case (refused e)
    with inv t idle show ?thesis by (simp add: enter_def runtime_inv_def done_ok_def)
  next
    case admitted
    with inv t idle show ?thesis
      by (auto simp: enter_def runtime_inv_def done_ok_def owners_ok_def leases_ok_def manager_simps
          after_check_def split: option.splits)
  qed
qed

lemma recover_admit_cases:
  assumes "recover_admit m = (m', r)"
  obtains (refused) e where "m' = m" "r = Inl e"
  | (admitted) i where "m' = m\<lparr>mg_state := Replacing\<rparr>" "\<not> mg_persistent m" "\<not> mg_stopped m" "mg_leases m = 0"
      "mg_state m = Blocked \<or> mg_state m = Failed" "mg_current m = Some i" "r = Inr (RecoverOwner i (mg_state m))"
  using assms that by (auto simp: recover_admit_def split: if_splits option.splits)

lemma inv_recover: "runtime_inv s \<Longrightarrow> exec EvRecover s = Some t \<Longrightarrow> runtime_inv t"
proof -
  assume inv: "runtime_inv s" and e: "exec EvRecover s = Some t"
  obtain m r where a: "recover_admit (sy_m s) = (m, r)" by fastforce
  with e have idle: "sy_pc s = Idle" and t: "t = enter (m, r) s" by (auto split: if_splits)
  from a show ?thesis
  proof (cases rule: recover_admit_cases)
    case (refused e)
    with inv t idle show ?thesis by (simp add: enter_def runtime_inv_def done_ok_def)
  next
    case (admitted i)
    with inv t idle show ?thesis
      by (auto simp: enter_def runtime_inv_def done_ok_def owners_ok_def leases_ok_def manager_simps)
  qed
qed

lemma mark_intentional_keeps [simp]:
  "mg_current (mark_intentional i m) = mg_current m" "mg_state (mark_intentional i m) = mg_state m"
  "mg_generation (mark_intentional i m) = mg_generation m" "mg_leases (mark_intentional i m) = mg_leases m"
  "mg_stopped (mark_intentional i m) = mg_stopped m" "mg_persistent (mark_intentional i m) = mg_persistent m"
  "mg_done (mark_intentional i m) = mg_done m" "mg_finishOnce (mark_intentional i m) = mg_finishOnce m"
  "mg_launchBlocked (mark_intentional i m) = mg_launchBlocked m"
  "length (mg_owners (mark_intentional i m)) = length (mg_owners m)"
  by (simp_all add: mark_intentional_def)

lemma mark_intentional_driver [simp]:
  assumes "owners_ok m"
  shows "map_option ow_driver (current_owner (mark_intentional i m)) = map_option ow_driver (current_owner m)"
proof (cases "mg_current m")
  case (Some j)
  with assms have "j < length (mg_owners m)" by (simp add: owners_ok_def)
  with Some show ?thesis by (cases "i = j") (simp_all add: current_owner_def mark_intentional_def)
qed (simp add: current_owner_def)

lemma mark_intentional_ok [simp]:
  assumes "owners_ok m"
  shows "owners_ok (mark_intentional i m)" "leases_ok ls (mark_intentional i m) = leases_ok ls m"
  using assms mark_intentional_driver [OF assms, of i]
  by (auto simp: owners_ok_def leases_ok_def)

lemma mark_intentional_current:
  "owners_ok m \<Longrightarrow> mg_current m = Some i \<Longrightarrow> intentional_current (mark_intentional i m)"
  by (simp add: intentional_current_def owners_ok_def mark_intentional_def)

lemma inv_terminate: "runtime_inv s \<Longrightarrow> exec EvTerminate s = Some t \<Longrightarrow> runtime_inv t"
proof -
  assume inv: "runtime_inv s" and e: "exec EvTerminate s = Some t"
  let ?m = "(sy_m s)\<lparr>mg_stopped := True, mg_state := Stopped\<rparr>"
  define m where "m = (case mg_current (sy_m s) of None \<Rightarrow> ?m | Some i \<Rightarrow> mark_intentional i ?m)"
  have t: "t = s\<lparr>sy_m := m, sy_pc := TerminateFinishing\<rparr>"
    using e by (auto simp: terminate_mark_def Let_def enter_def m_def split: if_splits)
  have ok: "owners_ok ?m" "leases_ok (sy_leases s) ?m"
    using inv by (auto simp: runtime_inv_def owners_ok_def leases_ok_def current_owner_def)
  have "owners_ok m" "leases_ok (sy_leases s) m" "mg_state m = Stopped" "mg_stopped m"
    "mg_done m = mg_done (sy_m s)" "mg_finishOnce m = mg_finishOnce (sy_m s)"
    using ok by (simp_all add: m_def split: option.split)
  with inv t show ?thesis by (simp add: runtime_inv_def done_ok_def)
qed

lemma RetainForProcess_cases:
  assumes "RetainForProcess m = Inr m'"
  shows "m' = m\<lparr>mg_persistent := True\<rparr>" "mg_state m = Ready" "\<not> mg_stopped m"
    "map_option ow_driver (current_owner m) = Some ''browser''"
  using assms by (auto simp: RetainForProcess_def split: if_splits option.splits)

lemma inv_retain: "runtime_inv s \<Longrightarrow> exec EvRetain s = Some t \<Longrightarrow> runtime_inv t"
proof (cases "RetainForProcess (sy_m s)")
  case (Inl e)
  assume "runtime_inv s" "exec EvRetain s = Some t"
  with Inl show ?thesis by (simp split: if_splits)
next
  case (Inr m)
  assume inv: "runtime_inv s" and e: "exec EvRetain s = Some t"
  with Inr have "t = s\<lparr>sy_m := m\<rparr>" "sy_pc s = Idle" by (simp_all split: if_splits)
  with inv RetainForProcess_cases [OF Inr] show ?thesis
    by (auto simp: runtime_inv_def done_ok_def owners_ok_def leases_ok_def current_owner_def)
qed

lemma phase_ok_observers:
  "phase_ok pc (m\<lparr>mg_transitionReadiness := b\<rparr>) = phase_ok pc m"
  "phase_ok pc (m\<lparr>mg_exitObserver := b\<rparr>) = phase_ok pc m"
  "phase_ok pc (m\<lparr>mg_timingObserver := b\<rparr>) = phase_ok pc m"
  by (cases pc; simp add: quiet_def intentional_current_def)+

lemma runtime_inv_observers:
  "runtime_inv (s\<lparr>sy_m := (sy_m s)\<lparr>mg_transitionReadiness := b\<rparr>\<rparr>) = runtime_inv s"
  "runtime_inv (s\<lparr>sy_m := (sy_m s)\<lparr>mg_exitObserver := b\<rparr>\<rparr>) = runtime_inv s"
  "runtime_inv (s\<lparr>sy_m := (sy_m s)\<lparr>mg_timingObserver := b\<rparr>\<rparr>) = runtime_inv s"
  by (simp_all add: runtime_inv_def done_ok_def owners_ok_def leases_ok_def current_owner_def
      phase_ok_observers)

lemma inv_observers:
  "runtime_inv s \<Longrightarrow> exec (EvSetTransitionReadiness b) s = Some t \<Longrightarrow> runtime_inv t"
  "runtime_inv s \<Longrightarrow> exec (EvSetExitObserver b) s = Some t \<Longrightarrow> runtime_inv t"
  "runtime_inv s \<Longrightarrow> exec (EvSetTimingObserver b) s = Some t \<Longrightarrow> runtime_inv t"
proof -
  assume inv: "runtime_inv s" and e: "exec (EvSetTransitionReadiness b) s = Some t"
  then have "t = s \<or> t = s\<lparr>sy_m := (sy_m s)\<lparr>mg_transitionReadiness := True\<rparr>\<rparr>"
    by (simp add: SetTransitionReadiness_def split: if_splits)
  with inv show "runtime_inv t" by (elim disjE) (simp_all only: runtime_inv_observers)
next
  assume inv: "runtime_inv s" and e: "exec (EvSetExitObserver b) s = Some t"
  then have "t = s\<lparr>sy_m := (sy_m s)\<lparr>mg_exitObserver := b\<rparr>\<rparr>" by (simp add: SetExitObserver_def)
  with inv show "runtime_inv t" by (simp only: runtime_inv_observers)
next
  assume inv: "runtime_inv s" and e: "exec (EvSetTimingObserver b) s = Some t"
  then have "t = s\<lparr>sy_m := (sy_m s)\<lparr>mg_timingObserver := b\<rparr>\<rparr>" by (simp add: SetTimingObserver_def)
  with inv show "runtime_inv t" by (simp only: runtime_inv_observers)
qed

text \<open>The sections of the operation in progress, one lemma per waiting point, on the manager alone:
  \<open>settled\<close> says what a section leaves for the next waiting point or for the return.\<close>

definition settled :: "Lease list \<Rightarrow> Manager \<Rightarrow> section_result \<Rightarrow> bool" where
  "settled ls m r \<longleftrightarrow>
     phase_ok (case snd r of Inl _ \<Rightarrow> Idle | Inr pc \<Rightarrow> pc) (fst r) \<and> owners_ok (fst r) \<and> leases_ok ls (fst r) \<and>
     mg_done (fst r) = mg_done m \<and> mg_finishOnce (fst r) = mg_finishOnce m \<and>
     mg_stopped (fst r) = mg_stopped m \<and> snd r \<noteq> Inr TerminateFinishing"

lemma quiet_leases: "leases_ok ls m \<Longrightarrow> mg_leases m = 0 \<Longrightarrow> active ls = []"
  by (simp add: leases_ok_def)

lemma no_leases_ok: "active ls = [] \<Longrightarrow> leases_ok ls m = (mg_leases m = 0)"
  by (simp add: leases_ok_def)

lemma reportTiming_keeps [simp]:
  "mg_current (reportTiming st ok m) = mg_current m" "mg_state (reportTiming st ok m) = mg_state m"
  "mg_generation (reportTiming st ok m) = mg_generation m" "mg_leases (reportTiming st ok m) = mg_leases m"
  "mg_stopped (reportTiming st ok m) = mg_stopped m" "mg_persistent (reportTiming st ok m) = mg_persistent m"
  "mg_done (reportTiming st ok m) = mg_done m" "mg_finishOnce (reportTiming st ok m) = mg_finishOnce m"
  "mg_owners (reportTiming st ok m) = mg_owners m" "mg_launchBlocked (reportTiming st ok m) = mg_launchBlocked m"
  by (simp_all add: reportTiming_def)

lemma restore_settled:
  assumes "quiet m" "owners_ok m" "leases_ok ls m" "ps \<noteq> Replacing" "ps = Ready \<longrightarrow> mg_current m \<noteq> None"
  shows "settled ls m (restore_state ps (reportTiming st ok m), Inl e)" "settled ls m (restore_state ps m, Inl e)"
  using assms quiet_leases [OF assms(3)]
  by (auto simp: settled_def restore_state_def owners_ok_def no_leases_ok quiet_def current_owner_def)

lemma checked_settled:
  "phase_ok (ReplaceChecking prev ps) m \<Longrightarrow> owners_ok m \<Longrightarrow> leases_ok ls m \<Longrightarrow>
   settled ls m (replace_checked err prev ps m)"
  using restore_settled(2) [of m ls ps]
  by (auto simp: replace_checked_def after_check_def settled_def intentional_current_def
      split: option.split)

lemma owner_ready_settled:
  assumes "quiet m" "mg_current m = Some i" "ps \<noteq> Replacing" "owners_ok m" "leases_ok ls m"
  shows "settled ls m (replace_owner_ready err i ps m)" "settled ls m (recover_owner_ready err i ps m)"
proof -
  have stop: "mg_stopped m \<Longrightarrow> mg_state m = Failed"
    using assms by (auto simp: quiet_def owners_ok_def)
  let ?m = "reportTiming ''owner_readiness'' True m"
  have ok: "owners_ok ?m" "leases_ok ls ?m" "quiet ?m"
    using assms by (simp_all add: owners_ok_def leases_ok_def quiet_def current_owner_def)
  have q: "quiet (mark_intentional i n) = quiet n" for n by (simp add: quiet_def)
  show "settled ls m (replace_owner_ready err i ps m)"
    using restore_settled(1) [OF assms(1,4,5,3)] assms ok stop mark_intentional_current [OF ok(1), of i]
    by (cases err) (auto simp: replace_owner_ready_def settled_def Let_def q)
  show "settled ls m (recover_owner_ready err i ps m)"
    using restore_settled(2) [OF assms(1,4,5,3)] assms stop mark_intentional_current [OF assms(4,2)]
    by (cases err) (auto simp: recover_owner_ready_def settled_def q)
qed

lemma closed_settled:
  assumes "quiet m" "\<not> mg_stopped m" "intentional_current m" "owners_ok m" "leases_ok ls m"
  shows "settled ls m (replace_closed err m)" "settled ls m (recover_closed err m)"
  using assms quiet_leases [OF assms(5)]
  by (auto simp: replace_closed_def recover_closed_def settled_def Let_def owners_ok_def no_leases_ok
      quiet_def intentional_current_def current_owner_def split: option.split)

lemma released_settled:
  assumes "quiet m" "\<not> mg_stopped m" "owners_ok m" "leases_ok ls m"
  shows "settled ls m (replace_released ctx m)" "settled ls m (recover_released m)"
  using assms quiet_leases [OF assms(4)]
  by (auto simp: replace_released_def recover_released_def release_owner_def settled_def Let_def owners_ok_def
      no_leases_ok quiet_def split: option.split)

lemma launched_settled:
  assumes "quiet m" "\<not> mg_stopped m" "mg_current m = None" "owners_ok m" "leases_ok ls m"
  shows "settled ls m (replace_launched launched ctx m)" "settled ls m (recover_launched launched ctx m)"
  using assms quiet_leases [OF assms(5)]
  by (auto simp: replace_launched_def recover_launched_def launch_failed_def install_owner_def settled_def
      owners_ok_def no_leases_ok quiet_def split: option.split)

lemma section_settled:
  assumes "phase_ok pc m" "owners_ok m" "leases_ok ls m" "pc \<noteq> Idle" "pc \<noteq> TerminateFinishing"
  shows "settled ls m (op_section tr pc m)"
  using assms
  by (cases pc) (auto intro!: checked_settled owner_ready_settled closed_settled released_settled
      launched_settled)

lemma inv_advance: "runtime_inv s \<Longrightarrow> exec (EvAdvance tr) s = Some t \<Longrightarrow> runtime_inv t"
proof -
  assume inv: "runtime_inv s" and e: "exec (EvAdvance tr) s = Some t"
  define r where "r = op_section tr (sy_pc s) (sy_m s)"
  from e have busy: "sy_pc s \<noteq> Idle"
    and t: "t = (enter r s)\<lparr>sy_watchers := sy_watchers s @ spawned (sy_pc s) r\<rparr>"
    by (auto simp: r_def Let_def split: if_splits)
  show ?thesis
  proof (cases "sy_pc s = TerminateFinishing")
    case True
    with inv finish_done [of "sy_m s"] show ?thesis
      by (auto simp: t r_def enter_def runtime_inv_def done_ok_def)
  next
    case False
    from inv busy False have "settled (sy_leases s) (sy_m s) r"
      unfolding r_def runtime_inv_def by (intro section_settled) simp_all
    with inv False show ?thesis
      by (auto simp: t enter_def runtime_inv_def done_ok_def settled_def split: sum.splits)
  qed
qed

lemmas inv_events = inv_acquire inv_release inv_exit inv_finish inv_replace inv_recover inv_advance
  inv_retain inv_terminate inv_observers

lemma inv_exec: "runtime_inv s \<Longrightarrow> exec e s = Some t \<Longrightarrow> runtime_inv t"
  by (cases e; hypsubst; erule (1) inv_events)

interpretation runtime: safe_machine runtime_start runtime_step runtime_inv
  by unfold_locales (auto elim!: runtime_stepE intro: runtime_inv_start inv_exec)

subsection \<open>Where the owner can change\<close>

fun changes_owner :: "pc \<Rightarrow> bool" where
  "changes_owner ReplaceReleasing = True"
| "changes_owner (ReplaceLaunching _) = True"
| "changes_owner RecoverReleasing = True"
| "changes_owner (RecoverLaunching _) = True"
| "changes_owner _ = False"

definition same_owner :: "Manager \<Rightarrow> Manager \<Rightarrow> bool" where
  "same_owner m n \<longleftrightarrow> mg_current m = mg_current n \<and> mg_generation m = mg_generation n \<and>
     (mg_persistent m \<longrightarrow> mg_persistent n) \<and> length (mg_owners m) = length (mg_owners n)"

lemma same_owner_finish [simp]: "same_owner m (finish err m)"
  by (simp add: same_owner_def finish_def)

lemma same_owner_section: "\<not> changes_owner pc \<Longrightarrow> same_owner m (fst (op_section tr pc m))"
  by (cases pc)
    (auto simp: replace_checked_def replace_owner_ready_def replace_closed_def recover_owner_ready_def
      recover_closed_def restore_state_def same_owner_def finish_def Let_def split: option.split)

lemma same_owner_exec:
  assumes "exec e s = Some t" "\<not> changes_owner (sy_pc s)"
  shows "same_owner (sy_m s) (sy_m t)"
proof (cases e)
  case (EvAcquire hold)
  obtain m r where a: "Acquire hold (sy_m s) = (m, r)" by fastforce
  from a show ?thesis
    by (cases rule: Acquire_cases) (use assms a EvAcquire in \<open>auto simp: same_owner_def\<close>)
next
  case (EvRelease k hold)
  obtain m l where a: "Release hold (sy_leases s ! k) (sy_m s) = (m, l)" by fastforce
  from a show ?thesis
    by (cases rule: Release_cases) (use assms a EvRelease in \<open>auto simp: same_owner_def split: if_splits\<close>)
next
  case (EvExit i err)
  obtain m b where a: "watch_mark i (sy_m s) = (m, b)" by fastforce
  from a show ?thesis
    by (cases rule: watch_mark_cases) (use assms a EvExit in \<open>auto simp: same_owner_def split: if_splits\<close>)
next
  case EvReplace
  obtain m r where a: "replace_admit (sy_m s) = (m, r)" by fastforce
  from a show ?thesis
    by (cases rule: replace_admit_cases) (use assms a EvReplace in \<open>auto simp: same_owner_def enter_def split: if_splits\<close>)
next
  case EvRecover
  obtain m r where a: "recover_admit (sy_m s) = (m, r)" by fastforce
  from a show ?thesis
    by (cases rule: recover_admit_cases) (use assms a EvRecover in \<open>auto simp: same_owner_def enter_def split: if_splits\<close>)
next
  case EvTerminate
  with assms show ?thesis
    by (auto simp: same_owner_def enter_def terminate_mark_def Let_def split: if_splits option.splits)
next
  case EvRetain
  with assms show ?thesis
    by (auto simp: same_owner_def split: if_splits sum.splits dest!: RetainForProcess_cases(1))
next
  case (EvSetTransitionReadiness b)
  with assms show ?thesis
    by (auto simp: same_owner_def SetTransitionReadiness_def split: if_splits)
next
  case (EvAdvance tr)
  with assms show ?thesis
    using same_owner_section [OF assms(2), of "sy_m s" tr] by (auto simp: enter_def Let_def split: if_splits)
qed (use assms in \<open>auto simp: same_owner_def SetExitObserver_def SetTimingObserver_def finish_def
      split: if_splits\<close>)

lemma quiet_when_changing: "phase_ok pc m \<Longrightarrow> changes_owner pc \<Longrightarrow> mg_leases m = 0 \<and> \<not> mg_persistent m"
  by (cases pc) (auto simp: quiet_def)

lemma pinned_owner_kept:
  assumes "runtime_reachable s" "exec e s = Some t" "active (sy_leases s) \<noteq> [] \<or> mg_persistent (sy_m s)"
  shows "same_owner (sy_m s) (sy_m t)"
proof -
  have inv: "runtime_inv s" using assms(1) by (rule runtime.reachable_safe)
  then have "\<not> changes_owner (sy_pc s)"
    using assms(3) quiet_when_changing [of "sy_pc s" "sy_m s"]
    by (auto simp: runtime_inv_def leases_ok_def)
  with assms(2) show ?thesis by (rule same_owner_exec)
qed

subsection \<open>The launch latch\<close>

lemma latch_exec:
  assumes "exec e s = Some t" "mg_launchBlocked (sy_m s)"
    "(\<forall>g. sy_pc s \<noteq> RecoverLaunching g) \<or> (\<forall>tr. e \<noteq> EvAdvance tr)"
  shows "mg_launchBlocked (sy_m t)"
proof (cases e)
  case (EvAcquire hold)
  obtain m r where a: "Acquire hold (sy_m s) = (m, r)" by fastforce
  from a show ?thesis
    by (cases rule: Acquire_cases) (use assms a EvAcquire in \<open>auto\<close>)
next
  case (EvRelease k hold)
  obtain m l where a: "Release hold (sy_leases s ! k) (sy_m s) = (m, l)" by fastforce
  from a show ?thesis
    by (cases rule: Release_cases) (use assms a EvRelease in \<open>auto split: if_splits\<close>)
next
  case (EvExit i err)
  obtain m b where a: "watch_mark i (sy_m s) = (m, b)" by fastforce
  from a show ?thesis
    by (cases rule: watch_mark_cases) (use assms a EvExit in \<open>auto split: if_splits\<close>)
next
  case EvReplace
  obtain m r where a: "replace_admit (sy_m s) = (m, r)" by fastforce
  from a show ?thesis
    by (cases rule: replace_admit_cases) (use assms a EvReplace in \<open>auto simp: enter_def split: if_splits\<close>)
next
  case EvRecover
  obtain m r where a: "recover_admit (sy_m s) = (m, r)" by fastforce
  from a show ?thesis
    by (cases rule: recover_admit_cases) (use assms a EvRecover in \<open>auto simp: enter_def split: if_splits\<close>)
next
  case EvTerminate
  with assms show ?thesis by (auto simp: enter_def terminate_mark_def Let_def split: if_splits option.splits)
next
  case EvRetain
  with assms show ?thesis by (auto split: if_splits sum.splits dest!: RetainForProcess_cases(1))
next
  case (EvSetTransitionReadiness b)
  with assms show ?thesis by (auto simp: SetTransitionReadiness_def split: if_splits)
next
  case (EvAdvance tr)
  have "mg_launchBlocked (fst (op_section tr (sy_pc s) (sy_m s)))"
    using assms(2,3) EvAdvance
    by (cases "sy_pc s")
      (auto simp: replace_checked_def replace_owner_ready_def replace_closed_def recover_owner_ready_def
        replace_released_def recover_released_def release_owner_def replace_launched_def launch_failed_def
        install_owner_def recover_closed_def restore_state_def finish_def Let_def split: option.split)
  with assms EvAdvance show ?thesis by (auto simp: enter_def Let_def split: if_splits)
qed (use assms in \<open>auto simp: SetExitObserver_def SetTimingObserver_def finish_def split: if_splits\<close>)

subsection \<open>An operation without interference is a run of the machine\<close>




subsection \<open>Properties\<close>

text \<open>Sample processes, environments and runs for the concrete instances below.\<close>

definition sample_process :: "string \<Rightarrow> Process" where
  "sample_process driver = \<lparr>pr_PID = 41, pr_Driver = Some driver, pr_HasDone = True, pr_IdleHolder = True,
     pr_Retiring = None\<rparr>"

definition sample_sys :: "string \<Rightarrow> Sys" where
  "sample_sys driver = sys_of (projr (New (Some (sample_process driver))))"

definition calm :: "(generation \<Rightarrow> Process option \<times> rt_error option) \<Rightarrow> Transition" where
  "calm launch = \<lparr>tr_launch = Some launch, tr_ctx_start = None, tr_check = None, tr_readiness = None,
     tr_close = None, tr_ctx_released = None, tr_ctx_launched = None\<rparr>"

lemma sample_start: "runtime_start (sample_sys driver)"
  unfolding runtime_start_def sample_sys_def
  by (intro exI [of _ "Some (sample_process driver)"] exI [of _ "projr (New (Some (sample_process driver)))"])
    (simp add: New_def sample_process_def)

lemma sample_reachable:
  "exec_all es (sample_sys driver) \<noteq> None \<Longrightarrow> runtime_reachable (the (exec_all es (sample_sys driver)))"
  using exec_all_reachable [OF at_start [of runtime_start, OF sample_start]] by fastforce

definition leased_sys :: Sys where
  "leased_sys = the (exec_all [EvAcquire None, EvAcquire None, EvRelease 0 None] (sample_sys ''headless''))"

lemma leased_reachable: "runtime_reachable leased_sys"
  unfolding leased_sys_def by (rule sample_reachable) code_simp

text \<open>C5. A lease pins the owner it was issued for. In every reachable state of the concurrent
  manager the lease counter is the number of leases not yet released; every one of them carries the
  manager's current generation and the current owner's driver; and while one is held no replacement
  or recovery is in progress.\<close>

theorem leases_pin_the_owner:
  assumes "runtime_reachable s"
  shows "mg_leases (sy_m s) = int (length (active (sy_leases s))) \<and>
    list_all (\<lambda>l. le_generation l = mg_generation (sy_m s) \<and>
      map_option ow_driver (current_owner (sy_m s)) = Some (le_driver l) \<and>
      sy_pc s \<in> {Idle, TerminateFinishing}) (active (sy_leases s))"
proof -
  have inv: "phase_ok (sy_pc s) (sy_m s)" "leases_ok (sy_leases s) (sy_m s)"
    using runtime.reachable_safe [OF assms] by (simp_all add: runtime_inv_def)
  then show ?thesis
    using phase_ok_active [OF inv(1)]
    by (cases "active (sy_leases s)") (auto simp: leases_ok_def list_all_iff)
qed

theorem leases_pin_the_owner_witness:
  "mg_leases (sy_m leased_sys) = 1 \<and> length (active (sy_leases leased_sys)) = 1 \<and>
   mg_leases (sy_m leased_sys) = int (length (active (sy_leases leased_sys)))"
proof -
  have "length (active (sy_leases leased_sys)) = 1" by code_simp
  with leases_pin_the_owner [OF leased_reachable] show ?thesis by simp
qed

text \<open>C6. No step of any interleaving takes the owner away from a lease holder: whatever happens
  next (an exit of the process, a \<open>Replace\<close>, a \<open>Recover\<close>, a \<open>Terminate\<close>, another lease), the current
  owner and the generation stay as they are while a lease is held.\<close>

theorem no_replacement_under_lease:
  assumes "runtime_reachable s" "active (sy_leases s) \<noteq> []" "exec e s = Some t"
  shows "mg_current (sy_m t) = mg_current (sy_m s) \<and> mg_generation (sy_m t) = mg_generation (sy_m s)"
  using pinned_owner_kept [OF assms(1,3)] assms(2) by (simp add: same_owner_def)

theorem no_replacement_under_lease_witness:
  "mg_current (sy_m (the (exec EvReplace leased_sys))) = Some 0"
proof -
  have "active (sy_leases leased_sys) \<noteq> []" "mg_current (sy_m leased_sys) = Some 0"
    "exec EvReplace leased_sys \<noteq> None" by code_simp+
  then show ?thesis
    using no_replacement_under_lease [OF leased_reachable, of EvReplace "the (exec EvReplace leased_sys)"]
    by simp
qed

text \<open>The persistent main browser is never replaced: once \<open>RetainForProcess\<close> succeeded, every step
  keeps the flag, the owner and the generation, the owner is a browser, and \<open>Replace\<close> and \<open>Recover\<close>
  refuse with \<open>ErrPersistent\<close> without touching the manager.\<close>

theorem persistent_owner_is_kept:
  assumes "runtime_reachable s" "mg_persistent (sy_m s)" "exec e s = Some t"
  shows "mg_persistent (sy_m t) \<and> mg_current (sy_m t) = mg_current (sy_m s) \<and>
    mg_generation (sy_m t) = mg_generation (sy_m s) \<and>
    map_option ow_driver (current_owner (sy_m s)) = Some ''browser'' \<and>
    Replace (calm launch) (sy_m s) = (sy_m s, Some ErrPersistent) \<and>
    Recover (calm launch) (sy_m s) = (sy_m s, Some ErrPersistent)"
  using pinned_owner_kept [OF assms(1,3)] runtime.reachable_safe [OF assms(1)] assms(2)
  by (simp add: same_owner_def runtime_inv_def owners_ok_def Replace_def Recover_def replace_admit_def
      recover_admit_def calm_def)

theorem persistent_owner_is_kept_witness:
  "\<exists>s. mg_persistent (sy_m s) \<and> mg_current (sy_m (the (exec (EvExit 0 None) s))) = mg_current (sy_m s)"
proof -
  let ?s = "the (exec_all [EvRetain] (sample_sys ''browser''))"
  have r: "runtime_reachable ?s" by (rule sample_reachable) code_simp
  have p: "mg_persistent (sy_m ?s)" "exec (EvExit 0 None) ?s \<noteq> None" by code_simp+
  then have "exec (EvExit 0 None) ?s = Some (the (exec (EvExit 0 None) ?s))" by auto
  with persistent_owner_is_kept [OF r p(1) this] p(1) show ?thesis by blast
qed

text \<open>Shutdown is signalled at most once and never forgotten: the \<open>Done\<close> channel (capacity one)
  gets at most one value, so \<open>finish\<close> never blocks, and the manager is stopped exactly when the value
  was sent or a goroutine is on its way to send it.\<close>

theorem shutdown_signalled_once:
  assumes "runtime_reachable s"
  shows "length (mg_done (sy_m s)) \<le> 1 \<and>
    (mg_stopped (sy_m s) \<longleftrightarrow>
       mg_done (sy_m s) \<noteq> [] \<or> sy_finishing s \<noteq> [] \<or> sy_pc s = TerminateFinishing)"
  using runtime.reachable_safe [OF assms] by (simp add: runtime_inv_def done_ok_def)

theorem shutdown_signalled_once_witness:
  "\<exists>s :: Sys. mg_done (sy_m s) = [Some (External ''exit 1'')] \<and> mg_stopped (sy_m s)"
proof -
  let ?es = "[EvExit 0 (Some (External ''exit 1'')), EvTerminate, EvFinish 0, EvAdvance (calm (\<lambda>_. (None, None)))]"
  let ?s = "the (exec_all ?es (sample_sys ''browser''))"
  have r: "runtime_reachable ?s" by (rule sample_reachable) code_simp
  have d: "mg_done (sy_m ?s) = [Some (External ''exit 1'')]" by code_simp
  with shutdown_signalled_once [OF r] have "mg_stopped (sy_m ?s)" by (metis list.distinct(1))
  with d show ?thesis by blast
qed

text \<open>A failed launch stays latched: once \<open>launchBlocked\<close> is set only a successful \<open>Recover\<close> clears
  it, and until then every \<open>Replace\<close> is refused without reaching the launcher or the owner.\<close>

theorem launch_latch_needs_recovery:
  assumes "runtime_reachable s" "mg_launchBlocked (sy_m s)" "exec e s = Some t"
  shows "(mg_launchBlocked (sy_m t) \<or>
      (\<exists>g. sy_pc s = RecoverLaunching g) \<and> sy_pc t = Idle \<and> mg_state (sy_m t) = Ready \<and>
      mg_current (sy_m t) \<noteq> None) \<and>
    snd (Replace (calm launch) (sy_m s)) \<noteq> None \<and> fst (Replace (calm launch) (sy_m s)) = sy_m s"
proof (cases "\<exists>g. sy_pc s = RecoverLaunching g")
  case False
  with latch_exec [OF assms(3,2)] assms(2) show ?thesis
    by (auto simp: Replace_def replace_admit_def calm_def)
next
  case True
  then obtain g where g: "sy_pc s = RecoverLaunching g" by blast
  have "mg_launchBlocked (sy_m t) \<or>
     sy_pc t = Idle \<and> mg_state (sy_m t) = Ready \<and> mg_current (sy_m t) \<noteq> None"
  proof (cases e)
    case (EvAdvance tr)
    with assms g show ?thesis
      by (auto simp: enter_def Let_def recover_launched_def launch_failed_def install_owner_def
          split: option.splits)
  qed (use latch_exec [OF assms(3,2)] in auto)
  with g assms(2) show ?thesis by (auto simp: Replace_def replace_admit_def calm_def)
qed

theorem launch_latch_needs_recovery_witness:
  "\<exists>s :: Sys. mg_launchBlocked (sy_m s) \<and>
     (\<forall>launch. snd (Replace (calm launch) (sy_m s)) \<noteq> None \<and> fst (Replace (calm launch) (sy_m s)) = sy_m s)"
proof -
  let ?fail = "calm (\<lambda>_. (None, Some (External ''spawn'')))"
  let ?es = "[EvReplace, EvAdvance ?fail, EvAdvance ?fail, EvAdvance ?fail, EvAdvance ?fail]"
  let ?s = "the (exec_all ?es (sample_sys ''browser''))"
  have r: "runtime_reachable ?s" by (rule sample_reachable) code_simp
  have b: "mg_launchBlocked (sy_m ?s)" by code_simp
  have e: "exec (EvSetExitObserver True) ?s = Some (?s\<lparr>sy_m := SetExitObserver True (sy_m ?s)\<rparr>)" by simp
  show ?thesis
    using launch_latch_needs_recovery [OF r b e] by (intro exI [of _ ?s] conjI allI b) blast+
qed

text \<open>What a completed replacement establishes, used for the sequential property.\<close>

lemma run_launching:
  "run_op tr (m, Inr (ReplaceLaunching g)) = (m', None) \<Longrightarrow>
   \<exists>p. launched_with tr g = (Some p, None) \<and> m' = (install_owner p False m)\<lparr>mg_state := Ready\<rparr>"
  by (cases "launched_with tr g")
    (auto simp: replace_launched_def launch_outcome_def split: option.splits if_splits)

lemma run_releasing:
  "run_op tr (m, Inr ReplaceReleasing) = (m', None) \<Longrightarrow>
   \<exists>p. launched_with tr (mg_generation m + 1) = (Some p, None) \<and>
       m' = (install_owner p False (release_owner m))\<lparr>mg_state := Ready\<rparr>"
  using run_launching [of tr "release_owner m" "mg_generation m + 1" m']
  by (auto simp: replace_released_def Let_def release_owner_def split: option.splits)

text \<open>The owners a run touches: the old owner is only marked as closed on purpose.\<close>

definition retired_by :: "Manager \<Rightarrow> Manager \<Rightarrow> bool" where
  "retired_by m n \<longleftrightarrow>
     mg_current n = mg_current m \<and> mg_generation n = mg_generation m \<and> mg_leases n = mg_leases m \<and>
     length (mg_owners n) = length (mg_owners m) \<and>
     (\<forall>i. mg_current m = Some i \<longrightarrow> i < length (mg_owners m) \<longrightarrow> ow_intentional (mg_owners n ! i))"

lemma run_replace:
  assumes "run_op tr (replace_admit m) = (m', None)"
  shows "\<exists>n p. retired_by m n \<and> launched_with tr (mg_generation m + 1) = (Some p, None) \<and>
    m' = (install_owner p False (release_owner n))\<lparr>mg_state := Ready\<rparr> \<and>
    mg_leases m = 0 \<and> \<not> mg_launchBlocked m \<and> \<not> mg_persistent m \<and> \<not> mg_stopped m"
proof -
  obtain m1 r where a: "replace_admit m = (m1, r)" by fastforce
  have owner: "\<exists>n p. retired_by m n \<and> launched_with tr (mg_generation m + 1) = (Some p, None) \<and>
      m' = (install_owner p False (release_owner n))\<lparr>mg_state := Ready\<rparr>"
    if "run_op tr (m\<lparr>mg_state := Replacing\<rparr>, Inr (after_check (mg_current m) ps)) = (m', None)" for ps
  proof (cases "mg_current m")
    case None
    with that run_releasing [of tr "m\<lparr>mg_state := Replacing\<rparr>" m'] show ?thesis
      by (intro exI [of _ "m\<lparr>mg_state := Replacing\<rparr>"]) (simp add: after_check_def retired_by_def)
  next
    case (Some i)
    let ?n = "reportTiming ''owner_release'' True
      (mark_intentional i (reportTiming ''owner_readiness'' True (m\<lparr>mg_state := Replacing\<rparr>)))"
    have "run_op tr (?n, Inr ReplaceReleasing) = (m', None)"
      using that Some
      by (auto simp: after_check_def replace_owner_ready_def replace_closed_def Let_def
          split: option.splits if_splits)
    with run_releasing [of tr ?n m'] Some show ?thesis
      by (intro exI [of _ ?n]) (simp add: retired_by_def mark_intentional_def)
  qed
  from a show ?thesis
  proof (cases rule: replace_admit_cases)
    case (refused e)
    with assms a show ?thesis by simp
  next
    case admitted
    have "run_op tr (m\<lparr>mg_state := Replacing\<rparr>, Inr (after_check (mg_current m) (mg_state m))) = (m', None)"
      using assms a admitted
      by (auto simp: replace_checked_def after_check_def split: option.splits if_splits)
    from owner [OF this] admitted show ?thesis by blast
  qed
qed

subsection \<open>Operations end, and run as the sequential definitions say\<close>












text \<open>A \<open>Replace\<close> that returns nil has done a whole handoff: it was admitted without leases,
  latch, persistence or stop; the previous owner is marked intentional; the new owner is the process
  the launcher returned for the next generation, installed and watched as unintentional; the manager is
  Ready and accepts the new generation, and no longer accepts the old one.\<close>

theorem replace_hands_over:
  assumes "Replace tr m = (m', None)"
  shows "mg_leases m = 0 \<and> \<not> mg_launchBlocked m \<and> \<not> mg_persistent m \<and> \<not> mg_stopped m \<and>
    mg_generation m' = mg_generation m + 1 \<and> mg_state m' = Ready \<and>
    (\<exists>p. launched_with tr (mg_generation m + 1) = (Some p, None) \<and>
       current_owner m' = Some \<lparr>ow_process = p, ow_intentional = False, ow_driver = processDriver p\<rparr>) \<and>
    (\<forall>i. mg_current m = Some i \<and> i < length (mg_owners m) \<longrightarrow> ow_intentional (mg_owners m' ! i)) \<and>
    \<not> Accepts (mg_generation m) m'"
proof -
  from assms have "run_op tr (replace_admit m) = (m', None)"
    by (auto simp: Replace_def split: if_splits option.splits)
  from run_replace [OF this] obtain n p where n: "retired_by m n"
    "launched_with tr (mg_generation m + 1) = (Some p, None)"
    "m' = (install_owner p False (release_owner n))\<lparr>mg_state := Ready\<rparr>"
    "mg_leases m = 0" "\<not> mg_launchBlocked m" "\<not> mg_persistent m" "\<not> mg_stopped m" by blast
  have "mg_generation m + 1 \<noteq> mg_generation m" by simp
  with n show ?thesis
    by (auto simp: retired_by_def install_owner_def release_owner_def current_owner_def Accepts_def nth_append)
qed

theorem replace_hands_over_witness:
  "\<exists>m'. Replace (calm (\<lambda>_. (Some (sample_process ''headless''), None))) (sy_m (sample_sys ''browser'')) = (m', None) \<and>
     \<not> Accepts 1 m'"
proof -
  let ?tr = "calm (\<lambda>_. (Some (sample_process ''headless''), None))" and ?m = "sy_m (sample_sys ''browser'')"
  have r: "snd (Replace ?tr ?m) = None" "mg_generation ?m = 1" by code_simp+
  then have "Replace ?tr ?m = (fst (Replace ?tr ?m), None)" by (simp add: prod_eq_iff)
  from this replace_hands_over [OF this] r(2) show ?thesis by (metis (no_types, lifting))
qed


end
