(* ===== verification/Collection.thy ===== *)
theory Collection
  imports CaptureRuntime Domain_Types "HOL-Library.List_Lexorder" "HOL-Library.Char_ord"
begin

text \<open>
  \<open>src/internal/collection\<close>: the coordinator that turns the requested collection mode and the
  borrows of readers and browser collections into transitions of the capture runtime
  (\<open>coordinator.go\<close>), with the development bindings (\<open>exclusive_session.go\<close>,
  \<open>manual_concurrent_session.go\<close>, \<open>persistent_browser_actions.go\<close>) and the driver policy
  (\<open>source_policy.go\<close>).

  The coordinator record holds the runtime manager it owns. Callbacks bound by the wiring (asset
  validation, readiness, the launcher, fixture hooks) are arguments; of the wake-up channel (one
  slot) and its time stamp the record keeps whether they are set. \<open>errors.New(m)\<close> is
  \<^term>\<open>External m\<close>. The closure \<open>releaseIntent\<close> with its \<open>sync.Once\<close> is an \<open>Intent\<close> value.
\<close>

record Backend =
  be_id :: nat
  be_CaptureAvailable :: "bool option"

record Coordinator =
  co_owner :: Manager
  co_requested :: string
  co_interactive :: int
  co_nativeReaders :: int
  co_nativeReaderGeneration :: generation
  co_nativeReaderSince :: "string option"
  co_browserCollection :: int
  co_browserCollectionFailures :: "(string \<times> string) list"
  co_headless :: "Backend option"
  co_browserCollector :: "Backend option"
  co_browserGeneration :: generation
  co_failure :: string
  co_retry :: bool
  co_headlessAvailable :: bool
  co_wake :: bool
  co_wakeAt :: bool
  co_fixtureHooks :: bool
  co_developmentSession :: bool
  co_developmentSources :: "Source list"
  co_fixtureHeadless :: "Backend option"
  co_fixtureHeadlessGeneration :: generation
  co_concurrentReader :: "Manager option"

record RuntimeStatus =
  rs_Available :: bool
  rs_Requested :: string
  rs_Effective :: string
  rs_Pending :: bool
  rs_State :: State
  rs_Failure :: string
  rs_Generation :: generation
  rs_ActiveLeases :: int
  rs_HeadlessAvailable :: bool
  rs_QuietAvailable :: bool
  rs_SupportedSources :: "Source list"
  rs_NativeReaderOnly :: bool
  rs_NativeReaderBlockedSince :: string
  rs_CollectionBorrowSource :: Source
  rs_CollectionBorrowFailure :: string
  rs_SyntheticExclusive :: bool
  rs_DevelopmentSession :: bool
  rs_BatchPaused :: bool
  rs_PersistentMain :: bool

record Intent =
  in_collection :: bool
  in_released :: bool

text \<open>\<open>err.Error()\<close>.\<close>

fun error_text :: "rt_error \<Rightarrow> string" where
  "error_text ErrBusy = ''capture runtime has active leases''"
| "error_text ErrUnavailable = ''capture runtime is unavailable''"
| "error_text ErrStopped = ''capture runtime is stopped''"
| "error_text ErrPersistent = ''main browser ownership is persistent until process shutdown''"
| "error_text LauncherRequired = ''capture launcher is required''"
| "error_text (External m) = m"
| "error_text (Wrapped m e) = m @ '': '' @ error_text e"

subsection \<open>Capabilities and bindings\<close>

definition HeadlessSourceSupported :: "Source \<Rightarrow> bool" where
  "HeadlessSourceSupported source \<longleftrightarrow>
     source = SourceX \<or> source = SourceFacebook \<or> source = SourceInstagram \<or> source = SourceLinkedIn"

definition captureBackendAvailable :: "Backend option \<Rightarrow> bool" where
  "captureBackendAvailable backend =
     (case backend of None \<Rightarrow> False | Some b \<Rightarrow> (case be_CaptureAvailable b of Some r \<Rightarrow> r | None \<Rightarrow> True))"

definition PreferredDriver :: "string \<Rightarrow> Source \<Rightarrow> rt_error + string" where
  "PreferredDriver mode source =
     (if mode \<noteq> ''browser'' \<and> mode \<noteq> ''headless'' then Inl (External ''unsupported collection mode'')
      else if \<not> HeadlessSourceSupported source then Inl (External ''unsupported collection source'')
      else if mode = ''browser'' \<or> source = SourceFacebook then Inr ''browser''
      else Inr ''headless'')"

definition NewCoordinator :: "Manager \<Rightarrow> rt_error option \<Rightarrow> Coordinator" where
  "NewCoordinator owner validate =
     \<lparr>co_owner = owner, co_requested = ''browser'', co_interactive = 0, co_nativeReaders = 0,
      co_nativeReaderGeneration = 0, co_nativeReaderSince = None, co_browserCollection = 0,
      co_browserCollectionFailures = [], co_headless = None, co_browserCollector = None,
      co_browserGeneration = 0, co_failure = [], co_retry = False, co_headlessAvailable = (validate = None),
      co_wake = False, co_wakeAt = False, co_fixtureHooks = False, co_developmentSession = False,
      co_developmentSources = [], co_fixtureHeadless = None, co_fixtureHeadlessGeneration = 0,
      co_concurrentReader = None\<rparr>"

definition owner_snapshot :: "Coordinator \<Rightarrow> RuntimeSnapshot" where
  "owner_snapshot c = Manager_Snapshot (co_owner c)"

definition SetBrowserCollector :: "generation \<Rightarrow> Backend option \<Rightarrow> Coordinator \<Rightarrow> Coordinator" where
  "SetBrowserCollector generation backend c =
     c\<lparr>co_browserGeneration := generation, co_browserCollector := backend\<rparr>"

definition BrowserCollectorAvailable :: "Source \<Rightarrow> Coordinator \<Rightarrow> bool" where
  "BrowserCollectorAvailable source c \<longleftrightarrow>
     (let s = owner_snapshot c in
      (source = ''x'' \<or> source = ''facebook'') \<and> captureBackendAvailable (co_browserCollector c) \<and>
      co_browserGeneration c = sn_Generation s \<and> sn_State s = Ready \<and> sn_Driver s = ''browser'')"

definition notify :: "Coordinator \<Rightarrow> Coordinator" where
  "notify c = c\<lparr>co_wakeAt := True, co_wake := True\<rparr>"

text \<open>\<open>fixture_given\<close>: all four hooks of the argument are set.\<close>

definition BindExclusiveSession :: "bool \<Rightarrow> Coordinator \<Rightarrow> rt_error + Coordinator" where
  "BindExclusiveSession hooks_given c =
     (if co_concurrentReader c \<noteq> None \<or> co_fixtureHooks c \<or> \<not> hooks_given
      then Inl (External ''invalid synthetic exclusive hooks'')
      else Inr (c\<lparr>co_fixtureHooks := True\<rparr>))"

definition SetExclusiveHeadlessCollector ::
    "generation \<Rightarrow> Backend option \<Rightarrow> Coordinator \<Rightarrow> rt_error + Coordinator" where
  "SetExclusiveHeadlessCollector generation backend c =
     (if co_concurrentReader c \<noteq> None then Inl (External ''concurrent strategy already bound'')
      else Inr (c\<lparr>co_fixtureHeadlessGeneration := generation, co_fixtureHeadless := backend\<rparr>))"

definition native_only :: "Coordinator \<Rightarrow> bool" where
  "native_only c \<longleftrightarrow>
     co_nativeReaderGeneration c \<noteq> 0 \<and> co_nativeReaderGeneration c = sn_Generation (owner_snapshot c)"

definition ExclusiveReaderPending :: "Coordinator \<Rightarrow> bool" where
  "ExclusiveReaderPending c \<longleftrightarrow> 0 < co_interactive c \<or> native_only c"

definition SetDevelopmentSession :: "bool \<Rightarrow> Source list \<Rightarrow> Coordinator \<Rightarrow> rt_error + Coordinator" where
  "SetDevelopmentSession enabled sources c =
     (if co_concurrentReader c \<noteq> None then Inl (External ''concurrent strategy already bound'')
      else Inr (c\<lparr>co_developmentSession := enabled, co_developmentSources := sources\<rparr>))"

text \<open>\<open>reader\<close> is nil or a manager; \<open>same\<close> tells that it is the pointer \<open>c.owner\<close>.\<close>

definition bindManualConcurrentSession ::
    "Manager option \<Rightarrow> bool \<Rightarrow> generation \<Rightarrow> Backend option \<Rightarrow> bool \<Rightarrow> Coordinator \<Rightarrow> rt_error + Coordinator" where
  "bindManualConcurrentSession reader same generation backend hooks_given c =
     (case reader of
        None \<Rightarrow> Inl (External ''invalid manual concurrent binding'')
      | Some rd \<Rightarrow>
          if co_fixtureHooks c \<or> co_developmentSession c \<or> co_concurrentReader c \<noteq> None \<or> same \<or>
             backend = None \<or> \<not> hooks_given
          then Inl (External ''invalid manual concurrent binding'')
          else
            let cs = owner_snapshot c; rs = Manager_Snapshot rd;
                cp = PID (Some (co_owner c)); rp = PID (Some rd)
            in if sn_State cs \<noteq> Ready \<or> sn_Driver cs \<noteq> ''headless'' \<or> sn_Generation cs \<noteq> generation \<or>
                  sn_State rs \<noteq> Ready \<or> sn_Driver rs \<noteq> ''browser'' \<or> cp \<le> 0 \<or> rp \<le> 0 \<or> cp = rp
               then Inl (External ''manual concurrent owner unavailable'')
               else Inr (c\<lparr>co_concurrentReader := Some rd, co_fixtureHeadlessGeneration := generation,
                          co_fixtureHeadless := backend, co_requested := ''headless''\<rparr>))"

subsection \<open>Intent\<close>

definition ValidateSelection :: "rt_error option \<Rightarrow> string \<Rightarrow> Source list \<Rightarrow> Coordinator \<Rightarrow> rt_error option" where
  "ValidateSelection validate mode sources c =
     first_error
       [(mg_persistent (co_owner c) \<and> mode \<noteq> ''browser'' \<and>
           (mode \<noteq> ''headless'' \<or> sources = [] \<or> list_ex (\<lambda>s. s \<noteq> SourceX) sources), ErrPersistent),
        (co_concurrentReader c \<noteq> None \<and> (mode \<noteq> ''headless'' \<or> sources \<noteq> [SourceX]),
           External ''synthetic concurrency requires X headless collection''),
        (co_developmentSession c \<and> mode \<noteq> ''headless'',
           External ''development session requires headless collection''),
        (mode \<noteq> ''browser'' \<and> mode \<noteq> ''headless'', External ''unsupported collection mode''),
        (mode = ''headless'' \<and> validate \<noteq> None, the validate),
        (mode = ''headless'' \<and> list_ex (\<lambda>s. \<not> HeadlessSourceSupported s) sources,
           External ''selected source has no headless collector'')]"

definition Request :: "string \<Rightarrow> Coordinator \<Rightarrow> Coordinator" where
  "Request mode c =
     (if mg_persistent (co_owner c) \<and> mode \<noteq> ''browser'' then
        c\<lparr>co_failure := ''main-profile concurrency requires Browser for non-X sources; headless replacement is unavailable''\<rparr>
      else if (co_developmentSession c \<or> co_concurrentReader c \<noteq> None) \<and> mode \<noteq> ''headless'' then
        c\<lparr>co_failure := ''development session requires headless collection''\<rparr>
      else notify (c\<lparr>co_requested := mode, co_retry := True, co_failure := []\<rparr>))"

definition Retry :: "Coordinator \<Rightarrow> Coordinator" where
  "Retry c = notify (c\<lparr>co_retry := True, co_failure := []\<rparr>)"

definition first_failure :: "(string \<times> string) list \<Rightarrow> string" where
  "first_failure failures =
     (if failures = [] then [] else the (map_of failures (hd (sort (map fst failures)))))"

text \<open>\<open>paused\<close> is what the fixture hook answers.\<close>

definition Status :: "bool \<Rightarrow> Coordinator \<Rightarrow> RuntimeStatus" where
  "Status paused c =
     (let s = owner_snapshot c;
          effective = (if sn_State s = Ready then sn_Driver s else []);
          persistent = mg_persistent (co_owner c);
          hooks = co_fixtureHooks c; development = co_developmentSession c;
          pending0 = (co_requested c \<noteq> effective \<or> 0 < co_interactive c \<or> 0 < co_browserCollection c);
          native = native_only c
      in \<lparr>rs_Available = True, rs_Requested = co_requested c, rs_Effective = effective,
          rs_Pending = (pending0 \<or> hooks \<and> paused \<or> development \<and> \<not> hooks \<or> native),
          rs_State = sn_State s, rs_Failure = co_failure c, rs_Generation = sn_Generation s,
          rs_ActiveLeases = sn_ActiveLeases s,
          rs_HeadlessAvailable = (co_headlessAvailable c \<and> \<not> persistent),
          rs_QuietAvailable = (captureBackendAvailable (co_browserCollector c) \<and>
             co_browserGeneration c = sn_Generation s \<and> effective = ''browser''),
          rs_SupportedSources =
            (if co_concurrentReader c \<noteq> None then [SourceX]
             else if development then co_developmentSources c
             else [SourceX, SourceFacebook, SourceInstagram, SourceLinkedIn]),
          rs_NativeReaderOnly = native,
          rs_NativeReaderBlockedSince =
            (if native then (case co_nativeReaderSince c of None \<Rightarrow> [] | Some t \<Rightarrow> t) else []),
          rs_CollectionBorrowSource = (if 0 < co_browserCollection c then SourceFacebook else []),
          rs_CollectionBorrowFailure =
            (if 0 < co_browserCollection c then first_failure (co_browserCollectionFailures c) else []),
          rs_SyntheticExclusive = (hooks \<and> \<not> development),
          rs_DevelopmentSession = development,
          rs_BatchPaused = (if hooks then paused else development),
          rs_PersistentMain = persistent\<rparr>)"

definition SetBrowserCollectionFailure :: "string \<Rightarrow> string \<Rightarrow> Coordinator \<Rightarrow> Coordinator" where
  "SetBrowserCollectionFailure leaseID message c =
     (let rest = filter (\<lambda>p. fst p \<noteq> leaseID) (co_browserCollectionFailures c)
      in if message = [] then c\<lparr>co_browserCollectionFailures := rest\<rparr>
         else if co_browserCollection c = 0 then c
         else c\<lparr>co_browserCollectionFailures := (leaseID, message) # rest\<rparr>)"

subsection \<open>Reconciliation\<close>

text \<open>Where an operation of the runtime calls the launcher, and with which generation.\<close>

function launch_point :: "Transition \<Rightarrow> section_result \<Rightarrow> generation option" where
  "launch_point tr (m, Inl e) = None"
| "launch_point tr (m, Inr pc) =
     (case pc of
        Idle \<Rightarrow> None
      | ReplaceLaunching g \<Rightarrow> Some g
      | RecoverLaunching g \<Rightarrow> Some g
      | _ \<Rightarrow> launch_point tr (op_section tr pc m))"
  by pat_completeness auto
termination
proof (relation "measure (\<lambda>(tr, r). case snd r of Inl _ \<Rightarrow> 0 | Inr pc \<Rightarrow> pc_rank pc)", goal_cases)
  case 1
  show ?case by simp
qed (auto simp: replace_checked_def replace_owner_ready_def replace_closed_def replace_released_def
      recover_owner_ready_def recover_closed_def recover_released_def after_check_def Let_def
      split: option.splits if_splits)

text \<open>What the callbacks answer during one reconciliation; \<open>re_readiness\<close> is nil or an answer, and
  \<open>re_asHeadless\<close> is the type assertion on the launched process.\<close>

record ReconcileEnv =
  re_beforeHeadless :: "rt_error option"
  re_validate :: "rt_error option"
  re_readiness :: "rt_error option option"
  re_transition :: Transition
  re_launch :: "string \<Rightarrow> generation \<Rightarrow> Process option \<times> rt_error option"
  re_asHeadless :: "Process \<Rightarrow> Backend option"
  re_headlessReady :: "generation \<Rightarrow> rt_error option"
  re_now :: string

definition wanted_mode :: "Coordinator \<Rightarrow> string" where
  "wanted_mode c =
     (if 0 < co_interactive c \<or> 0 < co_browserCollection c then ''browser'' else co_requested c)"

definition launch_reader :: "Coordinator \<Rightarrow> bool" where
  "launch_reader c \<longleftrightarrow>
     co_requested c = ''headless'' \<and> 0 < co_nativeReaders c \<and> co_interactive c = co_nativeReaders c \<and>
     co_browserCollection c = 0"

definition launch_mode :: "Coordinator \<Rightarrow> string" where
  "launch_mode c =
     (if wanted_mode c = ''browser'' \<and> launch_reader c then ''native_reader'' else wanted_mode c)"

definition recordFixtureResume :: "rt_error option \<Rightarrow> Coordinator \<Rightarrow> Coordinator" where
  "recordFixtureResume ready c =
     c\<lparr>co_failure := (if ready = None then [] else ''synthetic session resume is blocked'')\<rparr>"

definition factory_effect :: "ReconcileEnv \<Rightarrow> string \<Rightarrow> generation \<Rightarrow> Coordinator \<Rightarrow> Coordinator" where
  "factory_effect env mode generation c =
     (case re_launch env mode generation of
        (process, Some _) \<Rightarrow> c
      | (process, None) \<Rightarrow>
          c\<lparr>co_headless := Option.bind process (re_asHeadless env),
            co_nativeReaderGeneration := (if mode = ''native_reader'' then generation else 0),
            co_nativeReaderSince := (if mode = ''native_reader'' then Some (re_now env) else None)\<rparr>)"

text \<open>The checks before a healthy owner may be released: the failure to record, or nothing.\<close>

definition headless_refusal :: "ReconcileEnv \<Rightarrow> bool \<Rightarrow> Coordinator \<Rightarrow> Coordinator option" where
  "headless_refusal env retiring c =
     (if co_fixtureHooks c \<and> re_beforeHeadless env \<noteq> None then
        Some (c\<lparr>co_failure := ''synthetic session verification required''\<rparr>)
      else case re_validate env of
        Some e \<Rightarrow> Some (c\<lparr>co_failure := error_text e, co_retry := False\<rparr>)
      | None \<Rightarrow>
          if retiring then None
          else (case re_readiness env of
                  Some (Some e) \<Rightarrow> Some (c\<lparr>co_failure := error_text e\<rparr>)
                | _ \<Rightarrow> None))"

definition run_transition :: "ReconcileEnv \<Rightarrow> Coordinator \<Rightarrow> Coordinator \<times> rt_error option" where
  "run_transition env c =
     (let mode = launch_mode c;
          tr = (re_transition env)\<lparr>tr_launch := Some (re_launch env mode)\<rparr>;
          recovering = (mg_state (co_owner c) = Blocked \<or> mg_state (co_owner c) = Failed);
          entry = (if recovering then recover_admit (co_owner c) else replace_admit (co_owner c));
          (m, err) = (if recovering then Recover tr (co_owner c) else Replace tr (co_owner c));
          called = (if tr_ctx_start tr = None then launch_point tr entry else None);
          c1 = (case called of None \<Rightarrow> c | Some g \<Rightarrow> factory_effect env mode g c)
      in (c1\<lparr>co_owner := m\<rparr>, err))"

text \<open>The last part of \<open>reconcile\<close>: the transition, the fixture's readiness and the recorded outcome.\<close>

definition handoff :: "ReconcileEnv \<Rightarrow> Coordinator \<Rightarrow> Coordinator" where
  "handoff env c =
     (let r = run_transition env c;
          err = (if snd r = None \<and> wanted_mode c = ''headless'' \<and> co_fixtureHooks c
                 then re_headlessReady env (mg_generation (co_owner (fst r))) else snd r)
      in (fst r)\<lparr>co_failure := (case err of None \<Rightarrow> [] | Some e \<Rightarrow> error_text e), co_retry := False\<rparr>)"

definition reconcile :: "ReconcileEnv \<Rightarrow> Coordinator \<Rightarrow> Coordinator" where
  "reconcile env c =
     (if mg_persistent (co_owner c) \<or> co_concurrentReader c \<noteq> None then c
      else
        let c0 = c\<lparr>co_wakeAt := False\<rparr>;
            mode = wanted_mode c; s = owner_snapshot c; retiring = Retiring (co_owner c)
        in if sn_State s = Ready \<and> sn_Driver s = mode \<and> \<not> (native_only c \<and> \<not> launch_reader c) then
             (if mode = ''headless'' \<and> co_fixtureHooks c
              then recordFixtureResume (re_headlessReady env (sn_Generation s)) c0 else c0)
           else if 0 < sn_ActiveLeases s then c0
           else if (sn_State s = Blocked \<or> sn_State s = Failed) \<and> \<not> co_retry c \<and> \<not> retiring \<and> \<not> native_only c
           then c0
           else case (if mode = ''headless'' then headless_refusal env retiring c0 else None) of
                  Some refused \<Rightarrow> refused
                | None \<Rightarrow> handoff env c0)"

subsection \<open>Borrowing the browser\<close>

definition beginBrowserBorrow :: "bool \<Rightarrow> Coordinator \<Rightarrow> Coordinator \<times> Intent" where
  "beginBrowserBorrow collectionBorrow c =
     (let c1 = (if collectionBorrow then c\<lparr>co_browserCollection := co_browserCollection c + 1\<rparr>
                else c\<lparr>co_interactive := co_interactive c + 1\<rparr>)
      in (notify (c1\<lparr>co_retry := True, co_failure := []\<rparr>),
          \<lparr>in_collection = collectionBorrow, in_released = False\<rparr>))"

definition releaseIntent :: "Intent \<Rightarrow> Coordinator \<Rightarrow> Coordinator \<times> Intent" where
  "releaseIntent i c =
     (if in_released i then (c, i)
      else
        (notify
          (if in_collection i then
             (let n = co_browserCollection c - 1
              in c\<lparr>co_browserCollection := n,
                   co_browserCollectionFailures := (if n = 0 then [] else co_browserCollectionFailures c)\<rparr>)
           else c\<lparr>co_interactive := co_interactive c - 1\<rparr>),
         i\<lparr>in_released := True\<rparr>))"

text \<open>The part of \<open>borrowBrowserMode\<close> before its loop. \<open>before\<close> is the answer of the fixture hook.\<close>

definition borrow_start :: "bool \<Rightarrow> bool \<Rightarrow> rt_error option \<Rightarrow> Coordinator \<Rightarrow> Coordinator \<times> (rt_error + Intent)" where
  "borrow_start collectionBorrow nativeReader before c =
     (if co_concurrentReader c \<noteq> None then
        (c, Inl (External ''synthetic concurrency exclusive browser unavailable''))
      else if co_developmentSession c \<and> \<not> nativeReader then
        (c, Inl (External ''development session browser collection unavailable''))
      else
        let (c1, i) = beginBrowserBorrow collectionBorrow c
        in if nativeReader \<and> co_fixtureHooks c1 \<and> before \<noteq> None
           then (fst (releaseIntent i c1), Inl (External ''synthetic batch could not reach a safe pause boundary''))
           else (c1, Inr i))"

datatype poll = Granted Lease | Refused rt_error | Waiting

text \<open>One turn of the loop. The snapshot \<open>s\<close> was taken before, so the owner may have changed since: it
  is an argument of its own. \<open>acquire\<close> and \<open>release\<close> are the operations of the owner.\<close>

definition borrow_owner ::
    "('m \<Rightarrow> 'm \<times> (rt_error + Lease)) \<Rightarrow> (Lease \<Rightarrow> 'm \<Rightarrow> 'm) \<Rightarrow> 'm \<Rightarrow> 'm \<times> poll" where
  "borrow_owner acquire release m =
     (case acquire m of
        (m1, Inl e) \<Rightarrow> (m1, Refused e)
      | (m1, Inr l) \<Rightarrow> if le_driver l \<noteq> ''browser'' then (release l m1, Waiting) else (m1, Granted l))"

record PollEnv =
  pe_hold :: "rt_error option"
  pe_unhold :: "rt_error option"
  pe_ctx :: "rt_error option"

definition borrow_poll :: "RuntimeSnapshot \<Rightarrow> bool \<Rightarrow> PollEnv \<Rightarrow> Coordinator \<Rightarrow> Coordinator \<times> poll" where
  "borrow_poll s nativeReader env c =
     (if sn_State s = Ready \<and> sn_Driver s = ''browser'' then
        (if native_only c \<and> \<not> nativeReader then
           (c, Refused (External ''close native post windows before opening a source or collecting through Browser''))
         else
           let (m, r) = borrow_owner (Acquire (pe_hold env)) (\<lambda>l m. fst (Release (pe_unhold env) l m)) (co_owner c)
           in (c\<lparr>co_owner := m\<rparr>, r))
      else if co_failure c \<noteq> [] then (c, Refused (External (co_failure c)))
      else case pe_ctx env of Some e \<Rightarrow> (c, Refused e) | None \<Rightarrow> (c, Waiting))"

text \<open>A refused poll releases the intent before it returns.\<close>

definition borrow_turn ::
    "RuntimeSnapshot \<Rightarrow> bool \<Rightarrow> PollEnv \<Rightarrow> Intent \<Rightarrow> Coordinator \<Rightarrow> Coordinator \<times> Intent \<times> poll" where
  "borrow_turn s nativeReader env i c =
     (case borrow_poll s nativeReader env c of
        (c1, Refused e) \<Rightarrow> (let (c2, j) = releaseIntent i c1 in (c2, j, Refused e))
      | (c1, r) \<Rightarrow> (c1, i, r))"

definition open_reader :: "Coordinator \<Rightarrow> Coordinator" where
  "open_reader c = c\<lparr>co_nativeReaders := co_nativeReaders c + 1\<rparr>"

definition close_reader :: "Coordinator \<Rightarrow> Coordinator" where
  "close_reader c = c\<lparr>co_nativeReaders := co_nativeReaders c - 1, co_retry := True\<rparr>"

definition BorrowBrowserCollection_start :: "Source \<Rightarrow> Coordinator \<Rightarrow> Coordinator \<times> (rt_error + Intent)" where
  "BorrowBrowserCollection_start source c =
     (if source \<noteq> SourceFacebook then (c, Inl (External ''source has no browser collection exception''))
      else borrow_start True False None c)"

definition BeginBrowserCollection :: "Source \<Rightarrow> Coordinator \<Rightarrow> Coordinator \<times> (rt_error + Intent)" where
  "BeginBrowserCollection source c =
     (if co_concurrentReader c \<noteq> None then
        (c, Inl (External ''synthetic concurrency browser collection unavailable''))
      else if source \<noteq> SourceFacebook then (c, Inl (External ''source has no browser collection exception''))
      else let (c1, i) = beginBrowserBorrow True c in (c1, Inr i))"

text \<open>\<open>owner_given\<close>: the argument is not nil and is the pointer \<open>c.owner\<close>.\<close>

definition ValidatePersistentBrowser :: "bool \<Rightarrow> Coordinator \<Rightarrow> rt_error option" where
  "ValidatePersistentBrowser owner_given c =
     first_error
       [(\<not> owner_given \<or> \<not> mg_persistent (co_owner c), External ''persistent Browser action owner is unavailable''),
        (sn_State (owner_snapshot c) \<noteq> Ready \<or> sn_Driver (owner_snapshot c) \<noteq> ''browser'',
           External ''persistent Browser action owner is not ready'')]"

text \<open>The acceptance test of \<open>BorrowPersistentBrowser\<close> on the lease its borrow returned.\<close>

definition accept_persistent :: "PollEnv \<Rightarrow> Lease \<Rightarrow> Intent \<Rightarrow> Coordinator \<Rightarrow> Coordinator \<times> (rt_error + Lease)" where
  "accept_persistent env l i c =
     (if le_driver l \<noteq> ''browser'' \<or> \<not> Accepts (le_generation l) (co_owner c)
      then (fst (releaseIntent i (c\<lparr>co_owner := fst (Release (pe_unhold env) l (co_owner c))\<rparr>)),
            Inl (External ''persistent Browser action ownership changed''))
      else (c, Inr l))"

subsection \<open>Capture routing\<close>

definition capture_backend :: "Source \<Rightarrow> Coordinator \<Rightarrow> Backend option" where
  "capture_backend source c =
     (let s = owner_snapshot c in
      if sn_State s = Ready \<and> sn_Driver s = ''headless'' \<and> co_headless c \<noteq> None then co_headless c
      else if sn_State s = Ready \<and> sn_Driver s = ''headless'' \<and>
              (co_fixtureHooks c \<or> co_concurrentReader c \<noteq> None) \<and>
              co_fixtureHeadlessGeneration c = sn_Generation s then co_fixtureHeadless c
      else if sn_State s = Ready \<and> sn_Driver s = ''browser'' \<and> co_browserGeneration c = sn_Generation s \<and>
              (source = ''x'' \<or> source = ''facebook'') then co_browserCollector c
      else None)"

text \<open>\<open>before\<close> is the answer of the concurrent session's hook, \<open>observe\<close> the backend's.\<close>

definition Capture ::
    "rt_error option \<Rightarrow> (Backend \<Rightarrow> rt_error + 'o) \<Rightarrow> Source \<Rightarrow> Coordinator \<Rightarrow> rt_error + 'o" where
  "Capture before observe source c =
     (if co_concurrentReader c \<noteq> None \<and> source \<noteq> SourceX then Inl (External ''synthetic concurrency requires X'')
      else if co_concurrentReader c \<noteq> None \<and> before \<noteq> None then Inl (the before)
      else case capture_backend source c of
             None \<Rightarrow> Inl (External ''selected collection backend is unavailable'')
           | Some b \<Rightarrow> observe b)"

subsection \<open>The contract of an owner with leases\<close>

text \<open>What the borrow loop relies on: a granted lease names the owner's generation and driver and
  raises the lease count by one; giving it back, and a refusal, leave the count as it was.\<close>

locale lease_owner =
  fixes acquire :: "'m \<Rightarrow> 'm \<times> (rt_error + Lease)"
    and release :: "Lease \<Rightarrow> 'm \<Rightarrow> 'm"
    and generation_of :: "'m \<Rightarrow> generation"
    and driver_of :: "'m \<Rightarrow> string option"
    and leases_of :: "'m \<Rightarrow> int"
    and usable :: "'m \<Rightarrow> bool"
  assumes acquire_granted: "acquire m = (m', Inr l) \<Longrightarrow>
      usable m' \<and> le_generation l = generation_of m' \<and> driver_of m' = Some (le_driver l) \<and>
      leases_of m' = leases_of m + 1 \<and> \<not> le_released l"
    and acquire_refused: "acquire m = (m', Inl e) \<Longrightarrow> leases_of m' = leases_of m"
    and release_returns: "\<not> le_released l \<Longrightarrow> leases_of (release l m) = leases_of m - 1"
begin

lemma borrow_granted:
  "borrow_owner acquire release m = (m', Granted l) \<Longrightarrow>
   usable m' \<and> le_driver l = ''browser'' \<and> driver_of m' = Some ''browser'' \<and>
   le_generation l = generation_of m' \<and> leases_of m' = leases_of m + 1 \<and> \<not> le_released l"
  by (auto simp: borrow_owner_def split: prod.splits sum.splits if_splits dest!: acquire_granted)

lemma borrow_not_granted:
  "borrow_owner acquire release m = (m', r) \<Longrightarrow> \<forall>l. r \<noteq> Granted l \<Longrightarrow> leases_of m' = leases_of m"
  by (auto simp: borrow_owner_def release_returns split: prod.splits sum.splits if_splits
      dest!: acquire_granted acquire_refused)

end

definition owner_driver :: "Manager \<Rightarrow> string option" where
  "owner_driver m = map_option ow_driver (current_owner m)"

definition owner_usable :: "Manager \<Rightarrow> bool" where
  "owner_usable m \<longleftrightarrow> mg_state m = Ready \<and> \<not> mg_stopped m"

lemma Acquire_granted:
  assumes "Acquire hold m = (m', Inr l)"
  shows "owner_usable m' \<and> le_generation l = mg_generation m' \<and> owner_driver m' = Some (le_driver l) \<and>
    mg_leases m' = mg_leases m + 1 \<and> \<not> le_released l"
  using assms
  by (cases rule: Acquire_cases) (auto simp: owner_usable_def owner_driver_def current_owner_def)

lemma Acquire_refused: "Acquire hold m = (m', Inl e) \<Longrightarrow> mg_leases m' = mg_leases m"
  by (erule Acquire_cases) auto

lemma Release_returns: "\<not> le_released l \<Longrightarrow> mg_leases (fst (Release hold l m)) = mg_leases m - 1"
proof -
  assume l: "\<not> le_released l"
  obtain m' l' where r: "Release hold l m = (m', l')" by fastforce
  from r l show ?thesis by (cases rule: Release_cases) (simp_all add: r)
qed

interpretation managed: lease_owner "Acquire hold" "\<lambda>l m. fst (Release unhold l m)"
  mg_generation owner_driver mg_leases owner_usable for hold unhold
  by unfold_locales (auto simp: Acquire_granted Acquire_refused Release_returns)

lemma borrow_poll_granted:
  assumes "borrow_poll s native env c = (c', Granted l)"
  shows "owner_usable (co_owner c') \<and> le_driver l = ''browser'' \<and> owner_driver (co_owner c') = Some ''browser'' \<and>
    le_generation l = mg_generation (co_owner c') \<and> mg_leases (co_owner c') = mg_leases (co_owner c) + 1"
  using assms
  by (auto simp: borrow_poll_def split: prod.splits if_splits option.splits dest!: managed.borrow_granted)

lemma borrow_poll_counters:
  assumes "borrow_poll s native env c = (c', r)"
  shows "\<exists>m. c' = c\<lparr>co_owner := m\<rparr>"
  using assms
  by (auto simp: borrow_poll_def split: prod.splits if_splits option.splits intro: exI [of _ "co_owner c"])

subsection \<open>Counters of the borrows in progress\<close>

text \<open>One borrow: whether it counts as a native reader, its intent once started, its lease once granted.\<close>

record Borrow =
  bo_native :: bool
  bo_reader :: bool
  bo_intent :: "Intent option"
  bo_lease :: "Lease option"

record Hub =
  hb_c :: Coordinator
  hb_borrows :: "Borrow list"

text \<open>The coordinator with its concurrent borrowers: every step is one critical section of \<open>c.mu\<close>, one
  turn of a borrow loop, or one reconciliation.\<close>

inductive hub_step :: "Hub \<Rightarrow> Hub \<Rightarrow> bool" where
  request: "hub_step h (h\<lparr>hb_c := Request mode (hb_c h)\<rparr>)"
| retry: "hub_step h (h\<lparr>hb_c := Retry (hb_c h)\<rparr>)"
| failure: "hub_step h (h\<lparr>hb_c := SetBrowserCollectionFailure lease message (hb_c h)\<rparr>)"
| reconcile: "hub_step h (h\<lparr>hb_c := reconcile env (hb_c h)\<rparr>)"
| open_browser: "hub_step h (h\<lparr>hb_borrows := hb_borrows h @
    [\<lparr>bo_native = False, bo_reader = False, bo_intent = None, bo_lease = None\<rparr>]\<rparr>)"
| open_native: "co_concurrentReader (hb_c h) = None \<Longrightarrow>
    hub_step h (h\<lparr>hb_c := open_reader (hb_c h), hb_borrows := hb_borrows h @
      [\<lparr>bo_native = True, bo_reader = True, bo_intent = None, bo_lease = None\<rparr>]\<rparr>)"
| start: "k < length (hb_borrows h) \<Longrightarrow> bo_intent (hb_borrows h ! k) = None \<Longrightarrow>
    borrow_start col (bo_native (hb_borrows h ! k)) before (hb_c h) = (c, r) \<Longrightarrow>
    hub_step h (h\<lparr>hb_c := c, hb_borrows := (hb_borrows h)
      [k := (hb_borrows h ! k)\<lparr>bo_intent := (case r of Inl _ \<Rightarrow> None | Inr i \<Rightarrow> Some i)\<rparr>]\<rparr>)"
| poll: "k < length (hb_borrows h) \<Longrightarrow> bo_intent (hb_borrows h ! k) = Some i \<Longrightarrow>
    bo_lease (hb_borrows h ! k) = None \<Longrightarrow> \<not> in_released i \<Longrightarrow>
    borrow_turn s (bo_native (hb_borrows h ! k)) env i (hb_c h) = (c, j, r) \<Longrightarrow>
    hub_step h (h\<lparr>hb_c := c, hb_borrows := (hb_borrows h)
      [k := (hb_borrows h ! k)\<lparr>bo_intent := Some j, bo_lease := (case r of Granted l \<Rightarrow> Some l | _ \<Rightarrow> None)\<rparr>]\<rparr>)"
| release: "k < length (hb_borrows h) \<Longrightarrow> bo_intent (hb_borrows h ! k) = Some i \<Longrightarrow>
    releaseIntent i (hb_c h) = (c, j) \<Longrightarrow>
    hub_step h (h\<lparr>hb_c := c, hb_borrows := (hb_borrows h)[k := (hb_borrows h ! k)\<lparr>bo_intent := Some j\<rparr>]\<rparr>)"
| close_native: "k < length (hb_borrows h) \<Longrightarrow> bo_reader (hb_borrows h ! k) \<Longrightarrow>
    hub_step h (h\<lparr>hb_c := close_reader (hb_c h),
      hb_borrows := (hb_borrows h)[k := (hb_borrows h ! k)\<lparr>bo_reader := False\<rparr>]\<rparr>)"

inductive_cases hub_stepE: "hub_step h h'"

definition hub_start :: "Hub \<Rightarrow> bool" where
  "hub_start h \<longleftrightarrow> (\<exists>m validate. h = \<lparr>hb_c = NewCoordinator m validate, hb_borrows = []\<rparr>)"

definition open_intent :: "bool \<Rightarrow> Borrow \<Rightarrow> bool" where
  "open_intent col b \<longleftrightarrow> (case bo_intent b of None \<Rightarrow> False | Some i \<Rightarrow> \<not> in_released i \<and> in_collection i = col)"

definition tally :: "('a \<Rightarrow> bool) \<Rightarrow> 'a list \<Rightarrow> int" where
  "tally P xs = int (length (filter P xs))"

lemma tally_simps [simp]: "tally P [] = 0" "tally P (xs @ ys) = tally P xs + tally P ys"
  "tally P (x # xs) = (if P x then 1 else 0) + tally P xs"
  by (simp_all add: tally_def)

lemma tally_nonneg: "0 \<le> tally P xs"
  by (simp add: tally_def)

lemma tally_update:
  assumes "k < length xs"
  shows "tally P (xs[k := y]) = tally P xs - (if P (xs ! k) then 1 else 0) + (if P y then 1 else 0)"
proof -
  let ?l = "take k xs" and ?r = "drop (Suc k) xs"
  have "tally P (xs[k := y]) = tally P (?l @ y # ?r)" "tally P xs = tally P (?l @ xs ! k # ?r)"
    using assms by (simp_all add: upd_conv_take_nth_drop flip: id_take_nth_drop)
  then show ?thesis by simp
qed

definition hub_inv :: "Hub \<Rightarrow> bool" where
  "hub_inv h \<longleftrightarrow>
     co_interactive (hb_c h) = tally (open_intent False) (hb_borrows h) \<and>
     co_browserCollection (hb_c h) = tally (open_intent True) (hb_borrows h) \<and>
     co_nativeReaders (hb_c h) = tally bo_reader (hb_borrows h) \<and>
     (co_browserCollection (hb_c h) = 0 \<longrightarrow> co_browserCollectionFailures (hb_c h) = [])"

definition same_counters :: "Coordinator \<Rightarrow> Coordinator \<Rightarrow> bool" where
  "same_counters c d \<longleftrightarrow>
     co_interactive d = co_interactive c \<and> co_browserCollection d = co_browserCollection c \<and>
     co_nativeReaders d = co_nativeReaders c \<and>
     co_browserCollectionFailures d = co_browserCollectionFailures c"

lemma same_counters_refl [simp]: "same_counters c c"
  by (simp add: same_counters_def)

lemma same_counters_requests: "same_counters c (Request mode c)" "same_counters c (Retry c)"
  by (simp_all add: same_counters_def Request_def Retry_def notify_def)

lemma same_counters_transition:
  assumes "run_transition env c = (d, err)"
  shows "same_counters c d"
  using assms
  by (auto simp: run_transition_def Let_def factory_effect_def same_counters_def
      split: prod.splits option.splits if_splits)

lemma same_counters_refusal: "headless_refusal env b c = Some d \<Longrightarrow> same_counters c d"
  by (auto simp: headless_refusal_def same_counters_def split: if_splits option.splits)


lemma same_counters_wakeAt [simp]: "same_counters (c\<lparr>co_wakeAt := b\<rparr>) d = same_counters c d"
  by (simp add: same_counters_def)

lemma same_counters_handoff: "same_counters c (handoff env c)"
  using same_counters_transition [of env c "fst (run_transition env c)" "snd (run_transition env c)"]
  by (simp add: handoff_def Let_def same_counters_def)

lemma headless_refusal_form:
  "headless_refusal env b c = Some d \<Longrightarrow> \<exists>f r. d = c\<lparr>co_failure := f, co_retry := r\<rparr>"
  by (cases c) (auto simp: headless_refusal_def split: if_splits option.splits)

text \<open>Reconciliation does nothing, or only records a failure, or hands off; the cases with the
  conditions under which they happen.\<close>

lemma reconcile_cases:
  obtains (fixed) "reconcile env c = c" "mg_persistent (co_owner c) \<or> co_concurrentReader c \<noteq> None"
  | (settled) f where "reconcile env c = c\<lparr>co_wakeAt := False, co_failure := f\<rparr>"
      "mg_state (co_owner c) = Ready" "sn_Driver (owner_snapshot c) = wanted_mode c"
      "\<not> (native_only c \<and> \<not> launch_reader c)"
  | (held) "reconcile env c = c\<lparr>co_wakeAt := False\<rparr>" "0 < mg_leases (co_owner c)"
  | (resting) "reconcile env c = c\<lparr>co_wakeAt := False\<rparr>" "\<not> co_retry c"
      "mg_state (co_owner c) = Blocked \<or> mg_state (co_owner c) = Failed"
  | (refused) f r where "reconcile env c = c\<lparr>co_wakeAt := False, co_failure := f, co_retry := r\<rparr>"
      "wanted_mode c = ''headless''"
      "headless_refusal env (Retiring (co_owner c)) (c\<lparr>co_wakeAt := False\<rparr>) \<noteq> None"
  | (handed) "reconcile env c = handoff env (c\<lparr>co_wakeAt := False\<rparr>)"
      "\<not> mg_persistent (co_owner c)" "co_concurrentReader c = None" "\<not> 0 < mg_leases (co_owner c)"
      "wanted_mode c = ''headless'' \<Longrightarrow>
         headless_refusal env (Retiring (co_owner c)) (c\<lparr>co_wakeAt := False\<rparr>) = None"
proof -
  let ?c = "c\<lparr>co_wakeAt := False\<rparr>" and ?s = "owner_snapshot c" and ?r = "Retiring (co_owner c)"
  have sn [simp]: "sn_State ?s = mg_state (co_owner c)" "sn_ActiveLeases ?s = mg_leases (co_owner c)"
    by (simp_all add: owner_snapshot_def Manager_Snapshot_def)
  consider (A) "mg_persistent (co_owner c) \<or> co_concurrentReader c \<noteq> None"
    | (B) "\<not> (mg_persistent (co_owner c) \<or> co_concurrentReader c \<noteq> None)"
        "mg_state (co_owner c) = Ready \<and> sn_Driver ?s = wanted_mode c \<and> \<not> (native_only c \<and> \<not> launch_reader c)"
    | (C) "\<not> (mg_persistent (co_owner c) \<or> co_concurrentReader c \<noteq> None)"
        "\<not> (mg_state (co_owner c) = Ready \<and> sn_Driver ?s = wanted_mode c \<and> \<not> (native_only c \<and> \<not> launch_reader c))"
    by blast
  then show ?thesis
  proof cases
    case A
    then have "reconcile env c = c" by (simp add: reconcile_def)
    from fixed [OF this A] show ?thesis .
  next
    case B
    define f where "f = (if wanted_mode c = ''headless'' \<and> co_fixtureHooks c
      then co_failure (recordFixtureResume (re_headlessReady env (sn_Generation ?s)) ?c) else co_failure c)"
    have "reconcile env c = c\<lparr>co_wakeAt := False, co_failure := f\<rparr>"
      using B by (simp add: reconcile_def Let_def f_def recordFixtureResume_def)
    from settled [OF this] B show ?thesis by blast
  next
    case C
    note busy = C(2)
    let ?blocked = "(mg_state (co_owner c) = Blocked \<or> mg_state (co_owner c) = Failed) \<and>
      \<not> co_retry c \<and> \<not> ?r \<and> \<not> native_only c"
    let ?q = "if wanted_mode c = ''headless'' then headless_refusal env ?r ?c else None"
    have R: "reconcile env c = (if 0 < mg_leases (co_owner c) then ?c else if ?blocked then ?c
        else case ?q of Some d \<Rightarrow> d | None \<Rightarrow> handoff env ?c)"
      unfolding reconcile_def Let_def sn using C(1) busy by (simp only: if_False simp_thms)
    show ?thesis
    proof (cases "0 < mg_leases (co_owner c)")
      case True
      with R show ?thesis by (intro held) simp_all
    next
      case False
      note idle = this
      show ?thesis
      proof (cases ?blocked)
        case True
        with R False show ?thesis by (intro resting) auto
      next
        case False
        show ?thesis
        proof (cases ?q)
          case None
          with R idle False have "reconcile env c = handoff env ?c" by simp
          from handed [OF this] C(1) idle None show ?thesis by (simp split: if_splits)
        next
          case (Some d)
          then obtain f r where "d = ?c\<lparr>co_failure := f, co_retry := r\<rparr>" "wanted_mode c = ''headless''"
            "headless_refusal env ?r ?c \<noteq> None"
            using headless_refusal_form by (fastforce split: if_splits)
          with R idle False Some show ?thesis by (intro refused [where f = f and r = r]) simp_all
        qed
      qed
    qed
  qed
qed

lemma same_counters_reconcile: "same_counters c (reconcile env c)"
  using same_counters_handoff [of "c\<lparr>co_wakeAt := False\<rparr>" env]
  by (cases rule: reconcile_cases [of env c]) (simp_all add: same_counters_def)

lemma hub_inv_same:
  "hub_inv h \<Longrightarrow> same_counters (hb_c h) c \<Longrightarrow> hub_inv (h\<lparr>hb_c := c\<rparr>)"
  by (simp add: hub_inv_def same_counters_def)

lemma hub_inv_failure: "hub_inv h \<Longrightarrow> hub_inv (h\<lparr>hb_c := SetBrowserCollectionFailure l m (hb_c h)\<rparr>)"
  by (auto simp: hub_inv_def SetBrowserCollectionFailure_def Let_def)

lemma borrow_start_cases:
  assumes "borrow_start col native before c = (c', r)"
    "co_browserCollection c = 0 \<longrightarrow> co_browserCollectionFailures c = []"
  obtains (refused) e where "same_counters c c'" "r = Inl e"
  | (started) "r = Inr \<lparr>in_collection = col, in_released = False\<rparr>" "c' = fst (beginBrowserBorrow col c)"
  using assms that
  by (auto simp: borrow_start_def beginBrowserBorrow_def releaseIntent_def notify_def same_counters_def Let_def
      split: if_splits)


lemma hub_inv_update:
  assumes "hub_inv h" "k < length (hb_borrows h)"
    and "co_interactive c = co_interactive (hb_c h) -
      (if open_intent False (hb_borrows h ! k) then 1 else 0) + (if open_intent False b then 1 else 0)"
    and "co_browserCollection c = co_browserCollection (hb_c h) -
      (if open_intent True (hb_borrows h ! k) then 1 else 0) + (if open_intent True b then 1 else 0)"
    and "co_nativeReaders c = co_nativeReaders (hb_c h) -
      (if bo_reader (hb_borrows h ! k) then 1 else 0) + (if bo_reader b then 1 else 0)"
    and "co_browserCollection c = 0 \<longrightarrow> co_browserCollectionFailures c = []"
  shows "hub_inv (h\<lparr>hb_c := c, hb_borrows := (hb_borrows h)[k := b]\<rparr>)"
  using assms by (simp add: hub_inv_def tally_update)

lemma hub_inv_start_borrow:
  assumes "hub_inv h" "k < length (hb_borrows h)" "bo_intent (hb_borrows h ! k) = None"
    "borrow_start col native before (hb_c h) = (c, r)"
  shows "hub_inv (h\<lparr>hb_c := c, hb_borrows := (hb_borrows h)
      [k := (hb_borrows h ! k)\<lparr>bo_intent := (case r of Inl _ \<Rightarrow> None | Inr i \<Rightarrow> Some i)\<rparr>]\<rparr>)"
proof -
  have f: "co_browserCollection (hb_c h) = 0 \<longrightarrow> co_browserCollectionFailures (hb_c h) = []"
    "0 \<le> co_browserCollection (hb_c h)"
    using assms(1) tally_nonneg by (simp_all add: hub_inv_def)
  from assms(4) f(1) show ?thesis
  proof (cases rule: borrow_start_cases)
    case (refused e)
    with assms f show ?thesis
      by (intro hub_inv_update) (simp_all add: same_counters_def open_intent_def)
  next
    case started
    with assms f show ?thesis
      by (intro hub_inv_update)
        (simp_all add: open_intent_def beginBrowserBorrow_def notify_def Let_def)
  qed
qed

lemma releaseIntent_counters:
  assumes "releaseIntent i c = (c', j)" "\<not> in_released i"
  shows "co_interactive c' = co_interactive c - (if in_collection i then 0 else 1)"
    "co_browserCollection c' = co_browserCollection c - (if in_collection i then 1 else 0)"
    "co_nativeReaders c' = co_nativeReaders c" "in_released j"
    "co_browserCollectionFailures c' =
      (if in_collection i \<and> co_browserCollection c' = 0 then [] else co_browserCollectionFailures c)"
  using assms by (auto simp: releaseIntent_def notify_def Let_def)

lemma hub_inv_release:
  assumes "hub_inv h" "k < length (hb_borrows h)" "bo_intent (hb_borrows h ! k) = Some i"
    "releaseIntent i (hb_c h) = (c, j)" "bo_reader b = bo_reader (hb_borrows h ! k)" "bo_intent b = Some j"
  shows "hub_inv (h\<lparr>hb_c := c, hb_borrows := (hb_borrows h)[k := b]\<rparr>)"
proof (cases "in_released i")
  case True
  with assms have "c = hb_c h" "j = i" by (simp_all add: releaseIntent_def)
  with assms True show ?thesis
    by (intro hub_inv_update) (simp_all add: open_intent_def hub_inv_def)
next
  case False
  note r = releaseIntent_counters [OF assms(4) False]
  have "co_browserCollection (hb_c h) = 0 \<longrightarrow> co_browserCollectionFailures (hb_c h) = []"
    using assms(1) by (simp add: hub_inv_def)
  with assms False r show ?thesis
    by (intro hub_inv_update) (simp_all add: open_intent_def)
qed

lemma hub_inv_poll:
  assumes "hub_inv h" "k < length (hb_borrows h)" "bo_intent (hb_borrows h ! k) = Some i"
    "borrow_turn s native env i (hb_c h) = (c, j, r)"
    "bo_reader b = bo_reader (hb_borrows h ! k)" "bo_intent b = Some j"
  shows "hub_inv (h\<lparr>hb_c := c, hb_borrows := (hb_borrows h)[k := b]\<rparr>)"
proof -
  obtain c1 q where p: "borrow_poll s native env (hb_c h) = (c1, q)" by fastforce
  then obtain m where c1: "c1 = (hb_c h)\<lparr>co_owner := m\<rparr>" using borrow_poll_counters by blast
  have inv1: "hub_inv (h\<lparr>hb_c := c1\<rparr>)"
    by (rule hub_inv_same [OF assms(1)]) (simp add: c1 same_counters_def)
  show ?thesis
  proof (cases "\<exists>e. q = Refused e")
    case True
    with assms(4) p have "releaseIntent i c1 = (c, j)"
      by (auto simp: borrow_turn_def split: prod.splits)
    with hub_inv_release [OF inv1, of k i c j b] assms show ?thesis by simp
  next
    case False
    with assms(4) p have "c = c1" "j = i" by (auto simp: borrow_turn_def split: poll.splits)
    with hub_inv_update [OF inv1, of k c b] assms inv1 show ?thesis
      by (simp add: open_intent_def hub_inv_def)
  qed
qed

lemma hub_inv_step: "hub_inv h \<Longrightarrow> hub_step h h' \<Longrightarrow> hub_inv h'"
proof (erule hub_step.cases, goal_cases)
  case 1 then show ?case by (simp only: hub_inv_same same_counters_requests)
next
  case 2 then show ?case by (simp only: hub_inv_same same_counters_requests)
next
  case 3 then show ?case by (simp only: hub_inv_failure)
next
  case 4 then show ?case by (simp only: hub_inv_same same_counters_reconcile)
next
  case 5 then show ?case by (simp add: hub_inv_def open_intent_def)
next
  case 6 then show ?case by (simp add: hub_inv_def open_intent_def open_reader_def)
next
  case 7 then show ?case by (simp only: hub_inv_start_borrow)
next
  case (8 k h i s env c j r)
  then show ?case
    using hub_inv_poll [of h k i s "bo_native (hb_borrows h ! k)" env c j r] by simp
next
  case (9 k h i c j)
  then show ?case using hub_inv_release [of h k i c j] by simp
next
  case (10 k h)
  then show ?case
    by (simp only: simp_thms) (intro hub_inv_update, simp_all add: close_reader_def open_intent_def hub_inv_def)
qed

interpretation hub: safe_machine hub_start hub_step hub_inv
proof
  show "hub_inv h" if "hub_start h" for h
    using that by (auto simp: hub_start_def hub_inv_def NewCoordinator_def)
qed (rule hub_inv_step)


subsection \<open>A transition in a calm environment succeeds\<close>

text \<open>Nothing fails: the context stays alive, the transport and the owner are ready, the owner closes.\<close>

definition calm_transition :: "Transition \<Rightarrow> bool" where
  "calm_transition tr \<longleftrightarrow>
     tr_ctx_start tr = None \<and> tr_check tr = None \<and> tr_readiness tr = None \<and> tr_close tr = None \<and>
     tr_ctx_released tr = None \<and> tr_ctx_launched tr = None"





subsection \<open>Properties\<close>

definition sample_coordinator :: "string \<Rightarrow> Coordinator" where
  "sample_coordinator driver = NewCoordinator (sy_m (sample_sys driver)) None"

definition calm_env :: ReconcileEnv where
  "calm_env = \<lparr>re_beforeHeadless = None, re_validate = None, re_readiness = None,
     re_transition = calm (\<lambda>_. (None, None)),
     re_launch = (\<lambda>mode g. (Some (sample_process (if mode = ''native_reader'' then ''browser'' else mode)), None)),
     re_asHeadless = (\<lambda>_. None), re_headlessReady = (\<lambda>_. None), re_now = []\<rparr>"

text \<open>C10. The borrow counters are exact under every interleaving: \<open>interactive\<close> and \<open>browserCollection\<close> are
  the numbers of intents not yet released, \<open>nativeReaders\<close> the number of readers not yet closed, none
  is ever negative, and no collection failure outlives the last collection borrow.\<close>

theorem borrow_counters_exact:
  assumes "reachable_from hub_start hub_step h"
  shows "co_interactive (hb_c h) = tally (open_intent False) (hb_borrows h) \<and>
    co_browserCollection (hb_c h) = tally (open_intent True) (hb_borrows h) \<and>
    co_nativeReaders (hb_c h) = tally bo_reader (hb_borrows h) \<and>
    0 \<le> co_interactive (hb_c h) \<and> 0 \<le> co_browserCollection (hb_c h) \<and> 0 \<le> co_nativeReaders (hb_c h) \<and>
    (co_browserCollection (hb_c h) \<noteq> 0 \<or> co_browserCollectionFailures (hb_c h) = [])"
  using hub.reachable_safe [OF assms] by (auto simp: hub_inv_def tally_nonneg)

theorem borrow_counters_exact_witness:
  "\<exists>h :: Hub. length (hb_borrows h) = 1 \<and> co_nativeReaders (hb_c h) = 1 \<and> 0 \<le> co_interactive (hb_c h)"
proof -
  let ?h = "\<lparr>hb_c = sample_coordinator ''browser'', hb_borrows = []\<rparr>"
  let ?h' = "?h\<lparr>hb_c := open_reader (hb_c ?h), hb_borrows := hb_borrows ?h @
      [\<lparr>bo_native = True, bo_reader = True, bo_intent = None, bo_lease = None\<rparr>]\<rparr>"
  have "hub_start ?h" by (auto simp: hub_start_def sample_coordinator_def)
  then have "reachable_from hub_start hub_step ?h" by (rule at_start)
  moreover have "hub_step ?h ?h'" by (rule open_native) (simp add: sample_coordinator_def NewCoordinator_def)
  ultimately have "reachable_from hub_start hub_step ?h'" by (rule after_move)
  from borrow_counters_exact [OF this] show ?thesis by (intro exI [of _ ?h']) simp
qed

text \<open>A borrow that is granted holds a browser: whatever snapshot the loop looked at, the lease it
  returns is a browser lease of the owner's current generation, the owner is Ready with a browser, and
  the lease is counted; a turn that is not granted leaves the owner's lease count as it was.\<close>

theorem borrow_grants_current_browser:
  assumes "borrow_turn s native env i c = (c', j, r)"
  shows "case r of
      Granted l \<Rightarrow> le_driver l = ''browser'' \<and> le_generation l = mg_generation (co_owner c') \<and>
        owner_usable (co_owner c') \<and> owner_driver (co_owner c') = Some ''browser'' \<and>
        mg_leases (co_owner c') = mg_leases (co_owner c) + 1 \<and> j = i
    | _ \<Rightarrow> mg_leases (co_owner c') = mg_leases (co_owner c)"
proof -
  obtain c1 q where p: "borrow_poll s native env c = (c1, q)" by fastforce
  have keep: "co_owner (fst (releaseIntent i c1)) = co_owner c1"
    by (simp add: releaseIntent_def notify_def Let_def)
  have "mg_leases (co_owner c1) = mg_leases (co_owner c)" if "\<forall>l. q \<noteq> Granted l"
    using p that managed.borrow_not_granted
    by (fastforce simp: borrow_poll_def split: prod.splits if_splits option.splits)
  with borrow_poll_granted [of s native env c c1] p keep assms show ?thesis
    by (cases q) (auto simp: borrow_turn_def split: prod.splits)
qed

definition sample_turn :: "Coordinator \<times> Intent \<times> poll" where
  "sample_turn = borrow_turn (owner_snapshot (sample_coordinator ''browser'')) False
     \<lparr>pe_hold = None, pe_unhold = None, pe_ctx = None\<rparr> \<lparr>in_collection = False, in_released = False\<rparr>
     (sample_coordinator ''browser'')"

theorem borrow_grants_current_browser_witness:
  "\<exists>l. snd (snd sample_turn) = Granted l \<and> le_generation l = mg_generation (co_owner (fst sample_turn))"
proof -
  have "case snd (snd sample_turn) of Granted l \<Rightarrow> True | _ \<Rightarrow> False" by code_simp
  then obtain l where l: "snd (snd sample_turn) = Granted l" by (auto split: poll.splits)
  have "borrow_turn (owner_snapshot (sample_coordinator ''browser'')) False
     \<lparr>pe_hold = None, pe_unhold = None, pe_ctx = None\<rparr> \<lparr>in_collection = False, in_released = False\<rparr>
     (sample_coordinator ''browser'') = (fst sample_turn, fst (snd sample_turn), snd (snd sample_turn))"
    by (simp add: sample_turn_def)
  from borrow_grants_current_browser [OF this] l show ?thesis by simp
qed

text \<open>C11. Reconciliation never takes the profile from anyone: with a lease held, a persistent main
  browser or a bound concurrent session the owner is left exactly as it is; and when the headless
  checks refuse, the healthy owner is not touched either.\<close>

theorem reconcile_spares_holders:
  assumes "0 < mg_leases (co_owner c) \<or> mg_persistent (co_owner c) \<or> co_concurrentReader c \<noteq> None \<or>
      wanted_mode c = ''headless'' \<and>
      headless_refusal env (Retiring (co_owner c)) (c\<lparr>co_wakeAt := False\<rparr>) \<noteq> None"
  shows "co_owner (reconcile env c) = co_owner c"
  by (cases rule: reconcile_cases [of env c]) (use assms in auto)

theorem reconcile_spares_holders_witness:
  "co_owner (reconcile (calm_env\<lparr>re_validate := Some (External ''no assets'')\<rparr>)
     (Request ''headless'' (sample_coordinator ''browser''))) = sy_m (sample_sys ''browser'')"
proof -
  let ?c = "Request ''headless'' (sample_coordinator ''browser'')"
  let ?env = "calm_env\<lparr>re_validate := Some (External ''no assets'')\<rparr>"
  have "wanted_mode ?c = ''headless''" by code_simp
  moreover have "headless_refusal ?env r (?c\<lparr>co_wakeAt := False\<rparr>) \<noteq> None" for r
    by (simp add: headless_refusal_def)
  moreover have "co_owner ?c = sy_m (sample_sys ''browser'')"
    by (simp add: Request_def notify_def sample_coordinator_def NewCoordinator_def)
  ultimately show ?thesis using reconcile_spares_holders [of ?c ?env] by simp
qed



text \<open>C13. A context that expires between the release of the old owner and the launch leaves the
  coordinator without a way back: \<open>Replace\<close> blocks with no owner and no latch, and every later
  reconciliation calls \<open>Recover\<close>, which refuses a manager without an owner, so the owner never changes.\<close>

theorem expired_release_is_never_recovered:
  assumes "calm_transition (tr\<lparr>tr_ctx_released := None\<rparr>)" "tr_launch tr = Some launch" "tr_ctx_released tr = Some e"
    and "\<not> mg_persistent m" "\<not> mg_stopped m" "\<not> mg_launchBlocked m" "mg_leases m = 0"
    and "co_owner c = fst (Replace tr m)"
  shows "mg_state (co_owner c) = Blocked \<and> mg_current (co_owner c) = None \<and> \<not> mg_launchBlocked (co_owner c) \<and>
    co_owner (reconcile env c) = co_owner c"
proof -
  have R: "mg_state (fst (Replace tr m)) = Blocked \<and> mg_current (fst (Replace tr m)) = None \<and>
      \<not> mg_launchBlocked (fst (Replace tr m)) \<and> \<not> mg_persistent (fst (Replace tr m))"
    using assms(1-7)
    by (cases "mg_current m")
      (auto simp: Replace_def calm_transition_def replace_admit_def after_check_def replace_checked_def
        replace_owner_ready_def replace_closed_def replace_released_def release_owner_def Let_def)
  have stuck: "fst (Recover t (co_owner c)) = co_owner c" for t
    using R assms(8)
    by (auto simp: Recover_def recover_admit_def split: option.splits)
  have "co_owner (handoff env (c\<lparr>co_wakeAt := False\<rparr>)) = co_owner c"
    using R assms(8) stuck by (simp add: handoff_def run_transition_def Let_def split: prod.split) (metis fst_conv)
  then have "co_owner (reconcile env c) = co_owner c"
    by (cases rule: reconcile_cases [of env c]) auto
  with R assms(8) show ?thesis by simp
qed

theorem expired_release_is_never_recovered_witness:
  "mg_current (co_owner (reconcile calm_env (Retry ((sample_coordinator ''browser'')\<lparr>co_owner :=
     fst (Replace ((calm (\<lambda>_. (None, None)))\<lparr>tr_ctx_released := Some (External ''deadline'')\<rparr>)
       (sy_m (sample_sys ''browser'')))\<rparr>)))) = None"
proof -
  let ?m = "sy_m (sample_sys ''browser'')"
  let ?tr = "(calm (\<lambda>_. (None, None)))\<lparr>tr_ctx_released := Some (External ''deadline'')\<rparr>"
  let ?c = "Retry ((sample_coordinator ''browser'')\<lparr>co_owner := fst (Replace ?tr ?m)\<rparr>)"
  have "\<not> mg_persistent ?m" "\<not> mg_stopped ?m" "\<not> mg_launchBlocked ?m" "mg_leases ?m = 0" by code_simp+
  moreover have "calm_transition (?tr\<lparr>tr_ctx_released := None\<rparr>)" "tr_launch ?tr = Some (\<lambda>_. (None, None))"
    "tr_ctx_released ?tr = Some (External ''deadline'')"
    by (simp_all add: calm_def calm_transition_def)
  moreover have "co_owner ?c = fst (Replace ?tr ?m)" by (simp add: Retry_def notify_def)
  ultimately show ?thesis using expired_release_is_never_recovered [of ?tr _ _ ?m ?c calm_env] by simp
qed

text \<open>Captures are routed to the backend of the running generation: with a Ready headless owner only
  to the headless process or to the fixture backend bound to that generation, with a Ready browser owner only to
  the collector bound to that generation and only for X and Facebook, and otherwise the capture fails
  without reaching a backend.\<close>

lemma capture_routed_to_running_generation:
  assumes "capture_backend source c = Some b"
  shows "mg_state (co_owner c) = Ready \<and>
    (owner_driver (co_owner c) = Some ''headless'' \<and>
       (co_headless c = Some b \<or>
        co_fixtureHeadless c = Some b \<and> co_fixtureHeadlessGeneration c = mg_generation (co_owner c) \<and>
        (co_fixtureHooks c \<or> co_concurrentReader c \<noteq> None)) \<or>
     owner_driver (co_owner c) = Some ''browser'' \<and> co_browserCollector c = Some b \<and>
       co_browserGeneration c = mg_generation (co_owner c) \<and> source \<in> {SourceX, SourceFacebook})"
proof -
  have sn: "sn_State (owner_snapshot c) = mg_state (co_owner c)"
    "sn_Generation (owner_snapshot c) = mg_generation (co_owner c)"
    "d \<noteq> [] \<Longrightarrow> sn_Driver (owner_snapshot c) = d \<longleftrightarrow> owner_driver (co_owner c) = Some d" for d
    by (auto simp: owner_snapshot_def Manager_Snapshot_def owner_driver_def split: option.split)
  show ?thesis
    using assms by (auto simp: capture_backend_def Let_def sn split: if_splits)
qed

theorem capture_routed_to_running_generation_witness:
  "\<exists>c b. capture_backend SourceX c = Some b \<and> co_browserGeneration c = mg_generation (co_owner c)"
proof -
  let ?b = "\<lparr>be_id = 1, be_CaptureAvailable = None\<rparr>"
  let ?c = "SetBrowserCollector 1 (Some ?b) (sample_coordinator ''browser'')"
  have b: "capture_backend SourceX ?c = Some ?b" "co_headless ?c \<noteq> Some ?b" "co_fixtureHeadless ?c \<noteq> Some ?b"
    by code_simp+
  from capture_routed_to_running_generation [OF b(1)] b show ?thesis by blast
qed

end
