(* ===== verification/BatchBehavior.thy ===== *)
theory BatchBehavior
  imports Float64
begin

text \<open>
  \<open>src/internal/batchbehavior/policy.go\<close>: the pacing of captures, a pure decision from the
  recent completions (newest first). Durations are \<open>int64\<close> nanoseconds with wrap-around written out,
  instants are nanoseconds as unbounded integers. The sampler returns any binary64 value, so
  \<open>fl\<close> has NaN and the infinities; the SHA-256 digest behind the default sampler enters as the
  argument \<open>digest\<close>, the big-endian value of its first eight bytes.
\<close>

datatype fl = NaN | NegInf | Fin f64 | PosInf

record Policy =
  po_Enabled :: bool
  po_Interval :: int
  po_Jitter :: int
  po_BackoffBase :: int
  po_BackoffMax :: int

record Completion =
  cm_ID :: string
  cm_At :: int
  cm_Code :: string
  cm_Retryable :: bool

record Decision =
  de_Allowed :: bool
  de_NotBefore :: "int option"
  de_Reason :: string

definition StableSample :: "(string \<Rightarrow> 64 word) \<Rightarrow> string \<Rightarrow> fl" where
  "StableSample digest i = Fin (fdiv (f64_round (of_nat (unat (drop_bit 11 (digest i))))) (2 ^ 53))"

definition Temporary :: "string \<Rightarrow> bool \<Rightarrow> bool" where
  "Temporary code retryable \<longleftrightarrow>
     retryable \<and>
     trim_prefix ''quiet_'' (trim_prefix ''headless_'' code) \<in>
       {''capture_timeout'', ''navigation_timeout'', ''worker_timeout'', ''transport_unavailable'',
        ''capture_lease_expired''}"

text \<open>\<open>fraction\<close> after the three guards of \<open>Decide\<close>.\<close>

fun clamp_fraction :: "fl \<Rightarrow> f64" where
  "clamp_fraction NaN = 0"
| "clamp_fraction NegInf = 0"
| "clamp_fraction PosInf = 1"
| "clamp_fraction (Fin x) = (if x < 0 then 0 else if 1 < x then 1 else x)"

text \<open>\<open>time.Duration(f)\<close>: truncation towards zero; out of range the conversion yields the least
  \<open>int64\<close>, as on amd64.\<close>

definition trunc64 :: "f64 \<Rightarrow> int" where
  "trunc64 x =
     (let n = (if x < 0 then - \<lfloor>- x\<rfloor> else \<lfloor>x\<rfloor>)
      in if - (2 ^ 63) \<le> n \<and> n < 2 ^ 63 then n else - (2 ^ 63))"

text \<open>Go's division truncates towards zero.\<close>

definition half :: "int \<Rightarrow> int" where
  "half x = (if x < 0 then - ((- x) div 2) else x div 2)"

definition next_backoff :: "Policy \<Rightarrow> int \<Rightarrow> int" where
  "next_backoff p backoff =
     (let b = (if backoff = 0 then po_BackoffBase p
               else if backoff < half (po_BackoffMax p) then wrap64 (backoff * 2)
               else po_BackoffMax p)
      in if po_BackoffMax p < b then po_BackoffMax p else b)"

fun backoff_loop :: "Policy \<Rightarrow> Completion list \<Rightarrow> int \<Rightarrow> int" where
  "backoff_loop p [] backoff = backoff"
| "backoff_loop p (c # cs) backoff =
     (if \<not> Temporary (cm_Code c) (cm_Retryable c) then backoff
      else backoff_loop p cs (next_backoff p backoff))"

definition delay_of :: "Policy \<Rightarrow> Completion list \<Rightarrow> fl \<Rightarrow> int" where
  "delay_of p recent fraction =
     (let backoff = backoff_loop p recent 0;
          delay = (if po_Interval p < backoff then backoff else po_Interval p)
      in wrap64 (delay + trunc64 (fmul (f64_round (of_int (po_Jitter p))) (clamp_fraction fraction))))"

definition Decide ::
    "(string \<Rightarrow> 64 word) \<Rightarrow> Policy \<Rightarrow> int \<Rightarrow> bool \<Rightarrow> Completion list \<Rightarrow> (string \<Rightarrow> fl) option \<Rightarrow> Decision" where
  "Decide digest p now running recent sample =
     (if \<not> po_Enabled p then \<lparr>de_Allowed = True, de_NotBefore = None, de_Reason = []\<rparr>
      else if running then \<lparr>de_Allowed = False, de_NotBefore = None, de_Reason = ''capture_active''\<rparr>
      else case recent of
        [] \<Rightarrow> \<lparr>de_Allowed = True, de_NotBefore = None, de_Reason = []\<rparr>
      | newest # _ \<Rightarrow>
          let fraction = (case sample of None \<Rightarrow> StableSample digest (cm_ID newest) | Some f \<Rightarrow> f (cm_ID newest));
              until = cm_At newest + delay_of p recent fraction;
              reason = (if po_Interval p < backoff_loop p recent 0 then ''temporary_backoff'' else ''capture_spacing'')
          in if now < until then \<lparr>de_Allowed = False, de_NotBefore = Some until, de_Reason = reason\<rparr>
             else \<lparr>de_Allowed = True, de_NotBefore = None, de_Reason = []\<rparr>)"

subsection \<open>Fractions and truncation\<close>

lemma clamp_fraction_bounds: "0 \<le> clamp_fraction x \<and> clamp_fraction x \<le> 1"
  by (cases x) auto

lemma trunc64_mono_nonneg: "0 \<le> x \<Longrightarrow> x \<le> y \<Longrightarrow> \<lfloor>y\<rfloor> < 2 ^ 63 \<Longrightarrow> 0 \<le> trunc64 x \<and> trunc64 x \<le> \<lfloor>y\<rfloor>"
proof -
  assume xy: "0 \<le> x" "x \<le> y" "\<lfloor>y\<rfloor> < 2 ^ 63"
  then have "\<lfloor>x\<rfloor> \<le> \<lfloor>y\<rfloor>" "0 \<le> \<lfloor>x\<rfloor>" by (auto intro: floor_mono)
  with xy show ?thesis by (auto simp: trunc64_def Let_def)
qed

lemma jitter_bounds:
  assumes "0 \<le> po_Jitter p" "po_Jitter p \<le> 2 ^ 53"
  shows "0 \<le> trunc64 (fmul (f64_round (of_int (po_Jitter p))) (clamp_fraction f)) \<and>
    trunc64 (fmul (f64_round (of_int (po_Jitter p))) (clamp_fraction f)) \<le> po_Jitter p"
proof -
  let ?j = "f64_round (of_int (po_Jitter p))" and ?c = "clamp_fraction f"
  have jr: "?j = of_int (po_Jitter p)" using assms by (intro f64_round_of_int) simp
  have j: "0 \<le> ?j" using assms(1) by (simp add: f64_round_nonneg)
  have c: "0 \<le> ?c" "?c \<le> 1" using clamp_fraction_bounds by auto
  have "?j * ?c \<le> ?j" using mult_left_mono [OF c(2) j] by simp
  then have "fmul ?j ?c \<le> ?j" using f64_round_mono [of "?j * ?c" ?j] by (simp add: fmul_def)
  moreover have "0 \<le> fmul ?j ?c" using j c by (simp add: fmul_def f64_round_nonneg)
  ultimately show ?thesis using trunc64_mono_nonneg [of "fmul ?j ?c" ?j] assms(2) jr by simp
qed

subsection \<open>Backoff\<close>

lemma half_nonneg: "0 \<le> x \<Longrightarrow> half x = x div 2"
  by (simp add: half_def)

lemma next_backoff_bounds:
  assumes "0 < po_BackoffBase p" "0 < po_BackoffMax p" "po_BackoffMax p < 2 ^ 63" "0 \<le> b" "b \<le> po_BackoffMax p"
  shows "0 < next_backoff p b \<and> next_backoff p b \<le> po_BackoffMax p"
    and "0 < b \<Longrightarrow> min (po_BackoffMax p) (2 * b) \<le> next_backoff p b"
proof -
  have w: "b < half (po_BackoffMax p) \<Longrightarrow> wrap64 (b * 2) = b * 2"
    using assms by (intro wrap64_id) (simp_all add: half_nonneg)
  show "0 < next_backoff p b \<and> next_backoff p b \<le> po_BackoffMax p"
    using assms w by (auto simp: next_backoff_def Let_def)
  show "0 < b \<Longrightarrow> min (po_BackoffMax p) (2 * b) \<le> next_backoff p b"
    using assms w by (auto simp: next_backoff_def Let_def)
qed

definition temporary_run :: "Completion list \<Rightarrow> nat" where
  "temporary_run recent = length (takeWhile (\<lambda>c. Temporary (cm_Code c) (cm_Retryable c)) recent)"

lemma backoff_loop_bounds:
  assumes "0 < po_BackoffBase p" "0 < po_BackoffMax p" "po_BackoffMax p < 2 ^ 63"
  shows "0 \<le> b \<Longrightarrow> b \<le> po_BackoffMax p \<Longrightarrow>
    0 \<le> backoff_loop p recent b \<and> backoff_loop p recent b \<le> po_BackoffMax p"
proof (induction recent arbitrary: b)
  case Nil
  then show ?case by simp
next
  case (Cons c cs)
  with next_backoff_bounds(1) [OF assms Cons.prems] show ?case by auto
qed

lemma backoff_loop_growth:
  assumes "0 < po_BackoffBase p" "0 < po_BackoffMax p" "po_BackoffMax p < 2 ^ 63"
  shows "0 < b \<Longrightarrow> b \<le> po_BackoffMax p \<Longrightarrow>
    min (po_BackoffMax p) (b * 2 ^ temporary_run recent) \<le> backoff_loop p recent b"
proof (induction recent arbitrary: b)
  case Nil
  then show ?case by (simp add: temporary_run_def)
next
  case (Cons c cs)
  show ?case
  proof (cases "Temporary (cm_Code c) (cm_Retryable c)")
    case True
    let ?n = "next_backoff p b" and ?M = "po_BackoffMax p" and ?k = "2 ^ temporary_run cs :: int"
    have n: "0 < ?n" "?n \<le> ?M" "min ?M (2 * b) \<le> ?n"
      using next_backoff_bounds [OF assms, of b] Cons.prems by auto
    have "min ?M (b * 2 * ?k) \<le> min ?M (?n * ?k)"
    proof (cases "2 * b \<le> ?n")
      case True
      then have "b * 2 * ?k \<le> ?n * ?k" by (intro mult_right_mono) simp_all
      then show ?thesis by (intro min.mono) simp_all
    next
      case False
      with n have "?n = ?M" by auto
      moreover have "?M \<le> ?M * ?k" using assms(2) by simp
      ultimately show ?thesis by simp
    qed
    with Cons.IH [of ?n] n True show ?thesis by (simp add: temporary_run_def mult.assoc)
  next
    case False
    with Cons.prems show ?thesis by (simp add: temporary_run_def)
  qed
qed

lemma backoff_loop_start:
  assumes "0 < po_BackoffBase p" "0 < po_BackoffMax p" "po_BackoffMax p < 2 ^ 63" "temporary_run recent = Suc n"
  shows "min (po_BackoffMax p) (po_BackoffBase p * 2 ^ n) \<le> backoff_loop p recent 0"
proof -
  obtain c cs where r: "recent = c # cs" "Temporary (cm_Code c) (cm_Retryable c)" "temporary_run cs = n"
    using assms(4) by (cases recent) (auto simp: temporary_run_def split: if_splits)
  let ?M = "po_BackoffMax p" and ?b = "next_backoff p 0"
  have b: "?b = min ?M (po_BackoffBase p)" by (simp add: next_backoff_def Let_def)
  have "min ?M (po_BackoffBase p * 2 ^ n) \<le> min ?M (?b * 2 ^ n)"
  proof (cases "po_BackoffBase p \<le> ?M")
    case True
    then show ?thesis by (simp add: b min.absorb2)
  next
    case False
    have "?M \<le> ?M * 2 ^ n" using assms(2) by simp
    with False show ?thesis by (simp add: b min.absorb1)
  qed
  with backoff_loop_growth [OF assms(1-3), of ?b cs] r b assms(1,2) show ?thesis by auto
qed

subsection \<open>Properties\<close>

definition sample_policy :: Policy where
  "sample_policy = \<lparr>po_Enabled = True, po_Interval = 5, po_Jitter = 2, po_BackoffBase = 10, po_BackoffMax = 40\<rparr>"

definition sample_failure :: Completion where
  "sample_failure = \<lparr>cm_ID = ''f'', cm_At = 100, cm_Code = ''quiet_capture_timeout'', cm_Retryable = True\<rparr>"

text \<open>Backoff is exponential, capped and only for temporary failures: after a run of \<open>n + 1\<close> temporary
  failures it is at least the smaller of the cap and \<open>base * 2^n\<close> and never above the cap, with no
  overflow of the doubling; when the newest completion is not a retryable transport or timeout failure
  (a login or a challenge, for instance) there is none.\<close>

theorem backoff_exponential_and_capped:
  assumes "0 < po_BackoffBase p" "0 < po_BackoffMax p" "po_BackoffMax p < 2 ^ 63"
  shows "0 \<le> backoff_loop p recent 0 \<and> backoff_loop p recent 0 \<le> po_BackoffMax p \<and>
    (case temporary_run recent of
       0 \<Rightarrow> backoff_loop p recent 0 = 0
     | Suc n \<Rightarrow> min (po_BackoffMax p) (po_BackoffBase p * 2 ^ n) \<le> backoff_loop p recent 0)"
proof -
  have "backoff_loop p recent 0 = 0" if "temporary_run recent = 0"
    using that by (cases recent) (auto simp: temporary_run_def split: if_splits)
  with backoff_loop_bounds [OF assms, of 0 recent] backoff_loop_start [OF assms] assms(2) show ?thesis
    by (auto split: nat.split)
qed

theorem backoff_exponential_and_capped_witness:
  "20 \<le> backoff_loop sample_policy [sample_failure, sample_failure] 0 \<and>
   backoff_loop sample_policy [sample_failure, sample_failure] 0 \<le> 40"
proof -
  have p: "0 < po_BackoffBase sample_policy" "0 < po_BackoffMax sample_policy" "po_BackoffMax sample_policy < 2 ^ 63"
    "po_BackoffMax sample_policy = 40" "po_BackoffBase sample_policy = 10"
    by (simp_all add: sample_policy_def)
  have "temporary_run [sample_failure, sample_failure] = Suc 1" by code_simp
  with backoff_exponential_and_capped [OF p(1-3), of "[sample_failure, sample_failure]"] p(4,5) show ?thesis by simp
qed

text \<open>Pacing delays a capture but never starves it. With non-negative settings below the \<open>int64\<close> range, whatever
  the sampler returns (NaN and infinities included), an enabled policy with no capture running
  refuses only before the instant it names, that instant is at least the interval and at most the larger of the
  interval and the backoff cap plus the jitter (at most \<open>2^53\<close> ns) after the newest completion, and from then on it allows.\<close>

theorem pacing_wait_is_bounded:
  assumes "po_Enabled p" "0 < po_BackoffBase p" "0 < po_BackoffMax p" "0 \<le> po_Interval p" "0 \<le> po_Jitter p"
    and "po_Jitter p \<le> 2 ^ 53" "max (po_Interval p) (po_BackoffMax p) + po_Jitter p < 2 ^ 63"
    and "recent = newest # older"
  shows "if de_Allowed (Decide digest p now False recent sample) then True
    else (\<exists>until. de_NotBefore (Decide digest p now False recent sample) = Some until \<and> now < until \<and>
       cm_At newest + po_Interval p \<le> until \<and>
       until \<le> cm_At newest + max (po_Interval p) (po_BackoffMax p) + po_Jitter p \<and>
       (\<forall>later. de_Allowed (Decide digest p later False recent sample) \<longleftrightarrow> until \<le> later))"
proof -
  define f where "f = (case sample of None \<Rightarrow> StableSample digest (cm_ID newest) | Some s \<Rightarrow> s (cm_ID newest))"
  have j: "0 \<le> trunc64 (fmul (f64_round (of_int (po_Jitter p))) (clamp_fraction f))"
    "trunc64 (fmul (f64_round (of_int (po_Jitter p))) (clamp_fraction f)) \<le> po_Jitter p"
    using jitter_bounds [OF assms(5,6), of f] by auto
  have b: "0 \<le> backoff_loop p recent 0" "backoff_loop p recent 0 \<le> po_BackoffMax p"
    using backoff_loop_bounds [OF assms(2,3), of 0 recent] assms(3,5,7) by auto
  let ?delay = "if po_Interval p < backoff_loop p recent 0 then backoff_loop p recent 0 else po_Interval p"
  let ?jit = "trunc64 (fmul (f64_round (of_int (po_Jitter p))) (clamp_fraction f))"
  have "wrap64 (?delay + ?jit) = ?delay + ?jit"
    using b j assms(4,7) by (intro wrap64_id) (auto simp: max_def split: if_splits)
  then have d: "delay_of p recent f = ?delay + ?jit" by (simp add: delay_of_def Let_def)
  have "po_Interval p \<le> delay_of p recent f"
    "delay_of p recent f \<le> max (po_Interval p) (po_BackoffMax p) + po_Jitter p"
    using b j unfolding d by (auto simp: max_def)
  then show ?thesis
    using assms(1,8) unfolding Decide_def by (auto simp: Let_def f_def [symmetric])
qed

theorem pacing_wait_is_bounded_witness:
  "\<exists>until. de_NotBefore (Decide (\<lambda>_. 0) sample_policy 101 False [sample_failure] (Some (\<lambda>_. NaN))) = Some until \<and>
     until \<le> 142"
proof -
  let ?d = "Decide (\<lambda>_. 0) sample_policy 101 False [sample_failure] (Some (\<lambda>_. NaN))"
  have a: "\<not> de_Allowed ?d" by code_simp
  have p: "po_Enabled sample_policy" "0 < po_BackoffBase sample_policy" "0 < po_BackoffMax sample_policy"
    "0 \<le> po_Interval sample_policy" "0 \<le> po_Jitter sample_policy"
    "po_Jitter sample_policy \<le> 2 ^ 53"
    "max (po_Interval sample_policy) (po_BackoffMax sample_policy) + po_Jitter sample_policy < 2 ^ 63"
    "max (po_Interval sample_policy) (po_BackoffMax sample_policy) + po_Jitter sample_policy = 42"
    "cm_At sample_failure = 100"
    by (simp_all add: sample_policy_def sample_failure_def)
  from pacing_wait_is_bounded [OF p(1-7) refl, where newest = sample_failure and older = "[]" and digest = "\<lambda>_. 0" and now = 101
      and sample = "Some (\<lambda>_. NaN)"]
    a p(8,9)
  show ?thesis by auto
qed

lemma StableSample_range:
  "\<exists>x. StableSample digest i = Fin x \<and> 0 \<le> x \<and> x \<le> 1"
proof -
  have "unat (drop_bit 11 (digest i)) < 2 ^ 53"
  proof -
    have "unat (drop_bit 11 (digest i)) = unat (digest i) div 2 ^ 11"
      by (simp add: drop_bit_eq_div unat_div)
    moreover have "unat (digest i) < 2 ^ 64" using unsigned_less [of "digest i", where ?'a = nat] by simp
    ultimately show ?thesis by simp
  qed
  then have "(of_nat (unat (drop_bit 11 (digest i))) :: rat) \<le> 2 ^ 53"
    by (metis (mono_tags, lifting) less_imp_le of_nat_le_iff of_nat_numeral of_nat_power)
  then have "f64_round (of_nat (unat (drop_bit 11 (digest i)))) \<le> f64_round (2 ^ 53)" by (rule f64_round_mono)
  moreover have "f64_round (2 ^ 53) = 2 ^ 53" using f64_round_of_int [of "2 ^ 53"] by simp
  ultimately have "f64_round (of_nat (unat (drop_bit 11 (digest i)))) / 2 ^ 53 \<le> 1"
    by (simp add: divide_le_eq)
  then have "fdiv (f64_round (of_nat (unat (drop_bit 11 (digest i))))) (2 ^ 53) \<le> 1"
    unfolding fdiv_def by (rule f64_round_le_1)
  moreover have "0 \<le> fdiv (f64_round (of_nat (unat (drop_bit 11 (digest i))))) (2 ^ 53)"
    unfolding fdiv_def by (intro f64_round_nonneg divide_nonneg_nonneg of_nat_0_le_iff) simp
  ultimately show ?thesis unfolding StableSample_def by blast
qed

end
