(* ===== verification/ActivationGuard.thy ===== *)
theory ActivationGuard
  imports Domain_Types
begin

text \<open>
  \<open>src/internal/activationguard/hold.go\<close>: the maintenance hold, a small JSON file read at start-up
  and rewritten when one source is released. The file system entry of the path is explicit: what
  \<open>Lstat\<close>, \<open>Open\<close> and \<open>ReadAll\<close> answer and the document the bytes hold. A document is the member list of
  its top-level object in file order (so duplicate members are visible) and whether anything follows it.

  Of \<open>encoding/json\<close> the model has what \<open>Decode\<close> does with the three fields: a member selects a field by its name
  up to letter case, \<open>null\<close> leaves a string as it is and makes the slice nil, an array is decoded
  into the slots the slice already has, an unknown member or another type is an error.
\<close>

datatype json_doc =
    Malformed
  | Object "(string \<times> json) list" bool

record file_entry =
  fe_Regular :: bool
  fe_Size :: nat
  fe_Opens :: bool
  fe_Read :: "nat option"
  fe_Doc :: json_doc

datatype dir_entry =
    NotExist
  | StatFails
  | Entry file_entry

record hold_state =
  hs_Schema :: string
  hs_ActivationID :: string
  hs_Sources :: "string list option"

record Guard =
  gu_path :: string
  gu_current :: hold_state

datatype guard_error = ErrNotExist | ErrState

definition Schema :: string where "Schema = ''aku.native-derivation-hold.v1''"

definition zero_state :: hold_state where
  "zero_state = \<lparr>hs_Schema = [], hs_ActivationID = [], hs_Sources = None\<rparr>"

text \<open>\<open>activationID\<close>: 32 lower-case hexadecimal digits.\<close>

definition activationID :: "string \<Rightarrow> bool" where
  "activationID s \<longleftrightarrow>
     length s = 32 \<and>
     list_all (\<lambda>c. let n = of_char c :: nat in 97 \<le> n \<and> n \<le> 102 \<or> 48 \<le> n \<and> n \<le> 57) s"

subsection \<open>Decoding\<close>

text \<open>The value being decoded: the slots of the slice's backing array are kept apart from its length.\<close>

record decoding =
  dc_Schema :: string
  dc_ActivationID :: string
  dc_Slots :: "string list"
  dc_Len :: "nat option"

definition decode_string :: "json \<Rightarrow> string \<Rightarrow> string option" where
  "decode_string v old = (case v of JStr s \<Rightarrow> Some s | JNull \<Rightarrow> Some old | _ \<Rightarrow> None)"

fun decode_slots :: "json list \<Rightarrow> nat \<Rightarrow> string list \<Rightarrow> string list option" where
  "decode_slots [] i slots = Some slots"
| "decode_slots (v # vs) i slots =
     (let grown = (if i < length slots then slots else slots @ [[]])
      in case decode_string v (grown ! i) of
           None \<Rightarrow> None
         | Some s \<Rightarrow> decode_slots vs (i + 1) (grown[i := s]))"

definition decode_member :: "string \<times> json \<Rightarrow> decoding \<Rightarrow> decoding option" where
  "decode_member = (\<lambda>(name, v) d.
     (if to_lower name = ''schema'' then
        map_option (\<lambda>s. d\<lparr>dc_Schema := s\<rparr>) (decode_string v (dc_Schema d))
      else if to_lower name = to_lower ''activationId'' then
        map_option (\<lambda>s. d\<lparr>dc_ActivationID := s\<rparr>) (decode_string v (dc_ActivationID d))
      else if to_lower name = ''sources'' then
        (case v of
           JNull \<Rightarrow> Some (d\<lparr>dc_Slots := [], dc_Len := None\<rparr>)
         | JArr [] \<Rightarrow> Some (d\<lparr>dc_Slots := [], dc_Len := Some 0\<rparr>)
         | JArr vs \<Rightarrow>
             map_option (\<lambda>slots. d\<lparr>dc_Slots := slots, dc_Len := Some (length vs)\<rparr>) (decode_slots vs 0 (dc_Slots d))
         | _ \<Rightarrow> None)
      else None))"

fun decode_members :: "(string \<times> json) list \<Rightarrow> decoding \<Rightarrow> decoding option" where
  "decode_members [] d = Some d"
| "decode_members (m # ms) d = (case decode_member m d of None \<Rightarrow> None | Some e \<Rightarrow> decode_members ms e)"

definition decode_state :: "(string \<times> json) list \<Rightarrow> hold_state option" where
  "decode_state members =
     map_option
       (\<lambda>d. \<lparr>hs_Schema = dc_Schema d, hs_ActivationID = dc_ActivationID d,
             hs_Sources = map_option (\<lambda>n. take n (dc_Slots d)) (dc_Len d)\<rparr>)
       (decode_members members \<lparr>dc_Schema = [], dc_ActivationID = [], dc_Slots = [], dc_Len = None\<rparr>)"

text \<open>The final checks of \<open>read\<close>: the scalar fields, then the loop over the sources.\<close>

fun sources_ok :: "string list \<Rightarrow> string list \<Rightarrow> bool" where
  "sources_ok seen [] = True"
| "sources_ok seen (s # ss) =
     (if s \<noteq> ''x'' \<and> s \<noteq> ''instagram'' \<or> s \<in> set seen then False else sources_ok (s # seen) ss)"

definition state_ok :: "hold_state \<Rightarrow> bool" where
  "state_ok v \<longleftrightarrow>
     hs_Schema v = Schema \<and> activationID (hs_ActivationID v) \<and>
     (case hs_Sources v of None \<Rightarrow> False | Some ss \<Rightarrow> length ss \<le> 2 \<and> sources_ok [] ss)"

definition read_doc :: "json_doc \<Rightarrow> guard_error + hold_state" where
  "read_doc doc =
     (case doc of
        Malformed \<Rightarrow> Inl ErrState
      | Object members trailing \<Rightarrow>
          if \<not> distinct (map fst members) then Inl ErrState
          else case decode_state members of
                 None \<Rightarrow> Inl ErrState
               | Some v \<Rightarrow> if trailing \<or> \<not> state_ok v then Inl ErrState else Inr v)"

definition read_hold :: "dir_entry \<Rightarrow> guard_error + hold_state" where
  "read_hold entry =
     (case entry of
        NotExist \<Rightarrow> Inl ErrNotExist
      | StatFails \<Rightarrow> Inl ErrState
      | Entry f \<Rightarrow>
          if \<not> fe_Regular f \<or> 2048 < fe_Size f then Inl ErrState
          else if \<not> fe_Opens f then Inl ErrState
          else (case fe_Read f of
                  None \<Rightarrow> Inl ErrState
                | Some n \<Rightarrow> if 2048 < n then Inl ErrState else read_doc (fe_Doc f)))"

subsection \<open>The guard\<close>

text \<open>\<open>path_ok\<close>: the path is absolute and clean.\<close>

definition Open :: "bool \<Rightarrow> string \<Rightarrow> dir_entry \<Rightarrow> guard_error + Guard" where
  "Open path_ok path entry =
     (if \<not> path_ok then Inl ErrState
      else case read_hold entry of
             Inl ErrNotExist \<Rightarrow> Inr \<lparr>gu_path = path, gu_current = zero_state\<rparr>
           | Inl ErrState \<Rightarrow> Inl ErrState
           | Inr v \<Rightarrow> Inr \<lparr>gu_path = path, gu_current = v\<rparr>)"

definition held_sources :: "Guard \<Rightarrow> string list" where
  "held_sources g = (case hs_Sources (gu_current g) of None \<Rightarrow> [] | Some ss \<Rightarrow> ss)"

definition Held :: "string \<Rightarrow> Guard option \<Rightarrow> bool" where
  "Held source g = (case g of None \<Rightarrow> False | Some v \<Rightarrow> source \<in> set (held_sources v))"

text \<open>\<open>json.Marshal\<close> of a state and the entry that holds it; \<open>size\<close> is the length of the encoding.\<close>

definition marshal_state :: "hold_state \<Rightarrow> (string \<times> json) list" where
  "marshal_state v =
     [(''schema'', JStr (hs_Schema v)), (''activationId'', JStr (hs_ActivationID v)),
      (''sources'', (case hs_Sources v of None \<Rightarrow> JNull | Some ss \<Rightarrow> JArr (map JStr ss)))]"

definition json_string_size :: "string \<Rightarrow> nat" where
  "json_string_size s = length s + 2"

definition marshal_size :: "hold_state \<Rightarrow> nat" where
  "marshal_size v =
     length ''{!schema!:,!activationId!:,!sources!:}'' + json_string_size (hs_Schema v) +
     json_string_size (hs_ActivationID v) +
     (case hs_Sources v of None \<Rightarrow> 4 | Some ss \<Rightarrow> 2 + sum_list (map (\<lambda>s. json_string_size s + 1) ss) - 1)"

definition written :: "hold_state \<Rightarrow> dir_entry" where
  "written v = Entry \<lparr>fe_Regular = True, fe_Size = marshal_size v, fe_Opens = True,
     fe_Read = Some (marshal_size v), fe_Doc = Object (marshal_state v) False\<rparr>"

text \<open>\<open>write_ok\<close>: the temporary file was created, written, synced, closed and renamed.\<close>

definition release_state :: "string \<Rightarrow> hold_state \<Rightarrow> hold_state" where
  "release_state source actual =
     actual\<lparr>hs_Sources := map_option (filter (\<lambda>item. item \<noteq> source)) (hs_Sources actual)\<rparr>"

definition Release_hold ::
    "bool \<Rightarrow> string \<Rightarrow> Guard option \<Rightarrow> dir_entry \<Rightarrow> Guard option \<times> dir_entry \<times> guard_error option" where
  "Release_hold write_ok source g entry =
     (case g of
        None \<Rightarrow> (None, entry, None)
      | Some v \<Rightarrow>
          if source \<notin> set (held_sources v) then (Some v, entry, None)
          else (case read_hold entry of
                  Inl _ \<Rightarrow> (Some v, entry, Some ErrState)
                | Inr actual \<Rightarrow>
                    if hs_ActivationID actual \<noteq> hs_ActivationID (gu_current v) \<or>
                       (case hs_Sources actual of None \<Rightarrow> [] | Some ss \<Rightarrow> ss) \<noteq> held_sources v
                    then (Some v, entry, Some ErrState)
                    else if \<not> write_ok then (Some v, entry, Some ErrState)
                    else (let nxt = release_state source actual
                          in (Some (v\<lparr>gu_current := nxt\<rparr>), written nxt, None))))"

subsection \<open>What is accepted\<close>

lemma sources_ok_iff:
  "sources_ok seen ss \<longleftrightarrow>
     set ss \<subseteq> {''x'', ''instagram''} \<and> distinct ss \<and> set ss \<inter> set seen = {}"
  by (induction seen ss rule: sources_ok.induct) auto

lemma read_hold_ok: "read_hold entry = Inr v \<Longrightarrow> state_ok v"
  by (auto simp: read_hold_def read_doc_def
      split: dir_entry.splits json_doc.splits if_splits option.splits)

lemma state_ok_sources:
  assumes "state_ok v"
  obtains ss where "hs_Sources v = Some ss" "set ss \<subseteq> {''x'', ''instagram''}" "distinct ss" "length ss \<le> 2"
  using assms by (auto simp: state_ok_def sources_ok_iff split: option.splits)

subsection \<open>The written file is read back\<close>

lemma decode_slots_strings:
  "i = length done_slots \<Longrightarrow> decode_slots (map JStr ss) i done_slots = Some (done_slots @ ss)"
proof (induction ss arbitrary: i done_slots)
  case Nil
  then show ?case by simp
next
  case (Cons s ss)
  have "(done_slots @ [[]])[i := s] = done_slots @ [s]" using Cons.prems by simp
  with Cons.IH [of "Suc i" "done_slots @ [s]"] Cons.prems show ?case by (simp add: decode_string_def)
qed

lemma decode_marshal:
  assumes "hs_Sources v = Some ss"
  shows "decode_state (marshal_state v) = Some v"
proof -
  have slots: "decode_slots (map JStr ss) 0 [] = Some ss"
    using decode_slots_strings [of 0 "[]" ss] by simp
  have names: "to_lower ''schema'' = ''schema''" "to_lower ''sources'' = ''sources''"
    "to_lower ''activationId'' = ''activationid''" by code_simp+
  have "decode_member (''sources'', JArr (map JStr ss)) d =
      Some (d\<lparr>dc_Slots := ss, dc_Len := Some (length ss)\<rparr>)" if "dc_Slots d = []" for d
    using that slots by (cases ss) (simp_all add: decode_member_def names del: to_lower_Cons)
  with assms show ?thesis
    by (simp add: decode_state_def marshal_state_def decode_member_def names decode_string_def del: to_lower_Cons)
qed

lemma sources_short: "set ss \<subseteq> {''x'', ''instagram''} \<Longrightarrow> sum_list (map (\<lambda>s. json_string_size s + 1) ss) \<le> 12 * length ss"
  by (induction ss) (auto simp: json_string_size_def)

lemma read_written:
  assumes "state_ok v"
  shows "read_hold (written v) = Inr v"
proof -
  obtain ss where ss: "hs_Sources v = Some ss" "set ss \<subseteq> {''x'', ''instagram''}" "distinct ss" "length ss \<le> 2"
    using state_ok_sources [OF assms] .
  have "length (hs_Schema v) = 29" "length (hs_ActivationID v) = 32"
    using assms by (simp_all add: state_ok_def activationID_def Schema_def)
  with ss sources_short [OF ss(2)] have "marshal_size v \<le> 2048"
    by (simp add: marshal_size_def json_string_size_def)
  with decode_marshal [OF ss(1)] assms show ?thesis
    by (simp add: read_hold_def written_def read_doc_def marshal_state_def)
qed

lemma release_state_ok: "state_ok v \<Longrightarrow> state_ok (release_state source v)"
  by (auto simp: state_ok_def release_state_def sources_ok_iff split: option.splits)
    (meson le_trans length_filter_le)

subsection \<open>Properties\<close>

text \<open>C39. Releasing one source is durable and exact. When \<open>Release\<close> of a held source succeeds, that source is no longer
  held, every other source is held as before, and a guard opened later on the rewritten file (a
  restart) is the very same guard.\<close>

theorem release_survives_restart:
  assumes "Release_hold write_ok source (Some g) entry = (Some g', entry', None)" "Held source (Some g)"
  shows "\<not> Held source (Some g') \<and> Open True (gu_path g') entry' = Inr g' \<and>
    (other = source \<or> Held other (Some g') = Held other (Some g))"
proof -
  from assms obtain actual where a: "read_hold entry = Inr actual"
    "(case hs_Sources actual of None \<Rightarrow> [] | Some ss \<Rightarrow> ss) = held_sources g"
    "g' = g\<lparr>gu_current := release_state source actual\<rparr>" "entry' = written (release_state source actual)"
    by (auto simp: Release_hold_def Held_def Let_def split: sum.splits if_splits)
  obtain ss where ss: "hs_Sources actual = Some ss" using state_ok_sources [OF read_hold_ok [OF a(1)]] .
  have "Open True (gu_path g') entry' = Inr g'"
    using read_written [OF release_state_ok [OF read_hold_ok [OF a(1)]]] a by (simp add: Open_def)
  with a ss show ?thesis
    by (auto simp: Held_def held_sources_def release_state_def)
qed

definition sample_hold :: hold_state where
  "sample_hold = \<lparr>hs_Schema = Schema, hs_ActivationID = replicate 32 CHR ''a'',
     hs_Sources = Some [''x'', ''instagram'']\<rparr>"

definition sample_guard :: Guard where
  "sample_guard = \<lparr>gu_path = ''/p'', gu_current = sample_hold\<rparr>"

theorem release_survives_restart_witness:
  "\<exists>g' e'. Release_hold True ''x'' (Some sample_guard) (written sample_hold) = (Some g', e', None) \<and>
     \<not> Held ''x'' (Some g') \<and> Held ''instagram'' (Some g')"
proof -
  let ?r = "release_state ''x'' sample_hold"
  have ok: "state_ok sample_hold" by code_simp
  have h: "Held ''x'' (Some sample_guard)" "Held ''instagram'' (Some sample_guard)" by code_simp+
  have "Release_hold True ''x'' (Some sample_guard) (written sample_hold) =
      (Some (sample_guard\<lparr>gu_current := ?r\<rparr>), written ?r, None)"
    using h(1) by (simp add: Release_hold_def Held_def read_written [OF ok])
      (auto simp: sample_guard_def held_sources_def Let_def split: option.split)
  from this release_survives_restart [OF this h(1), of "''instagram''"] h(2) show ?thesis by auto
qed

text \<open>A failed release keeps the hold: on every error path (unreadable or stale file, another activation,
  a failed write) guard and file are unchanged, so the source stays held now and after a restart.\<close>

theorem failed_release_keeps_hold:
  assumes "Release_hold write_ok source g entry = (g', entry', Some e)"
  shows "g' = g \<and> entry' = entry \<and> e = ErrState \<and> Held source g'"
  using assms
  by (auto simp: Release_hold_def Held_def Let_def split: option.splits if_splits sum.splits)

theorem failed_release_keeps_hold_witness:
  "Held ''x'' (fst (Release_hold True ''x'' (Some sample_guard) NotExist))"
proof -
  have "Release_hold True ''x'' (Some sample_guard) NotExist = (Some sample_guard, NotExist, Some ErrState)"
    by code_simp
  from failed_release_keeps_hold [OF this] this show ?thesis by simp
qed

text \<open>C40. An accepted hold file is canonical: a guard that opens holds nothing (no file), or holds distinct
  sources among X and Instagram under the one schema and a well-formed activation id. Everything
  else fails closed.\<close>

theorem open_is_canonical:
  assumes "Open path_ok path entry = Inr g"
  shows "path_ok \<and> gu_path g = path \<and> distinct (held_sources g) \<and>
    set (held_sources g) \<subseteq> {''x'', ''instagram''} \<and>
    (entry = NotExist \<and> held_sources g = [] \<or>
     hs_Schema (gu_current g) = Schema \<and> activationID (hs_ActivationID (gu_current g)))"
proof (cases "read_hold entry")
  case (Inl e)
  with assms have "e = ErrNotExist" "g = \<lparr>gu_path = path, gu_current = zero_state\<rparr>" path_ok
    by (auto simp: Open_def split: if_splits guard_error.splits)
  moreover with Inl have "entry = NotExist"
    by (auto simp: read_hold_def read_doc_def split: dir_entry.splits if_splits option.splits json_doc.splits)
  ultimately show ?thesis by (simp add: held_sources_def zero_state_def)
next
  case (Inr v)
  with assms have g: "g = \<lparr>gu_path = path, gu_current = v\<rparr>" path_ok
    by (auto simp: Open_def split: if_splits)
  have ok: "state_ok v" using read_hold_ok [OF Inr] .
  from state_ok_sources [OF ok] g ok show ?thesis
    by (auto simp: held_sources_def state_ok_def split: option.splits)
qed

theorem open_is_canonical_witness:
  "\<exists>g. Open True ''/p'' (written sample_hold) = Inr g \<and> set (held_sources g) \<subseteq> {''x'', ''instagram''}"
proof -
  have "state_ok sample_hold" by code_simp
  then have "Open True ''/p'' (written sample_hold) = Inr sample_guard"
    by (simp add: Open_def read_written sample_guard_def)
  from this open_is_canonical [OF this] show ?thesis by blast
qed

text \<open>The duplicate-member check compares names exactly while decoding matches them up to letter case: a file
  whose \<open>sources\<close> member holds both sources and that has a second member \<open>Sources\<close> with an empty array passes
  the check and is read as holding nothing.\<close>

theorem case_variant_member_drops_hold:
  "\<exists>members. map_of members ''sources'' = Some (JArr [JStr ''x'', JStr ''instagram'']) \<and>
     map_option hs_Sources (decode_state members) = Some (Some []) \<and>
     read_doc (Object members False) =
       Inr \<lparr>hs_Schema = Schema, hs_ActivationID = replicate 32 CHR ''a'', hs_Sources = Some []\<rparr>"
  by (rule exI [of _ "marshal_state sample_hold @ [(''Sources'', JArr [])]"], intro conjI) code_simp+

end
