(* ===== verification/Sources.thy ===== *)
theory Sources
  imports Domain_Types
begin

text \<open>
  \<open>src/internal/domain/sources.go\<close>: the registry of the four sources and the predicates that read it.
  Of a descriptor the record keeps the fields the code branches on; labels, icons and colours of the
  presentation are left out. \<open>url.Parse\<close> and \<open>URL.String\<close> are the arguments \<open>parse\<close> and \<open>render\<close>.
\<close>

record SourceDescriptor =
  sd_ID :: Source
  sd_DisplayName :: string
  sd_DefaultActive :: bool
  sd_AdapterVersion :: string
  sd_MediaEvidenceAdapterVersion :: string
  sd_ContinuationOverlapRequired :: bool
  sd_FollowUpPlanningPolicy :: string
  sd_FrontierRequiresComplete :: bool
  sd_InitialRoundCandidateTarget :: int
  sd_NativeHosts :: "string list"
  sd_NativePathTokens :: "string list"
  sd_PassiveMediaCapability :: string
  sd_MediaOnlyEvaluationPolicy :: string
  sd_VisionQueueLimit :: int
  sd_PlaybackRecoveryCapability :: string
  sd_TrustedMediaHostSuffixes :: "string list"
  sd_HydrationTimeoutDefaultMS :: int
  sd_HydrationTimeoutMinMS :: int
  sd_HydrationTimeoutMaxMS :: int

text \<open>A parsed URL as the code reads it.\<close>

record URL =
  ur_Scheme :: string
  ur_HasUser :: bool
  ur_Host :: string
  ur_Hostname :: string
  ur_Port :: string
  ur_Path :: string
  ur_RawPath :: string
  ur_ForceQuery :: bool
  ur_RawQuery :: string
  ur_Fragment :: string

definition sourceRegistry :: "SourceDescriptor list" where
  "sourceRegistry =
     [\<lparr>sd_ID = SourceX, sd_DisplayName = ''X'', sd_DefaultActive = True, sd_AdapterVersion = ''x-dom-v23'',
       sd_MediaEvidenceAdapterVersion = ''x-response-evidence-v2'', sd_ContinuationOverlapRequired = False,
       sd_FollowUpPlanningPolicy = ''guarded_request_frontier'', sd_FrontierRequiresComplete = False,
       sd_InitialRoundCandidateTarget = 0, sd_NativeHosts = [''x.com''], sd_NativePathTokens = [''/status/''],
       sd_PassiveMediaCapability = ''x_response'', sd_MediaOnlyEvaluationPolicy = [], sd_VisionQueueLimit = 0,
       sd_PlaybackRecoveryCapability = ''native_post_recapture'', sd_TrustedMediaHostSuffixes = [''pbs.twimg.com''],
       sd_HydrationTimeoutDefaultMS = 12000, sd_HydrationTimeoutMinMS = 7000, sd_HydrationTimeoutMaxMS = 17000\<rparr>,
      \<lparr>sd_ID = SourceLinkedIn, sd_DisplayName = ''LinkedIn'', sd_DefaultActive = True,
       sd_AdapterVersion = ''linkedin-dom-v22'', sd_MediaEvidenceAdapterVersion = ''linkedin-main-world-video-v1'',
       sd_ContinuationOverlapRequired = True, sd_FollowUpPlanningPolicy = ''local_frontier'',
       sd_FrontierRequiresComplete = True, sd_InitialRoundCandidateTarget = 1,
       sd_NativeHosts = [''www.linkedin.com''], sd_NativePathTokens = [''/posts/'', ''/feed/update/''],
       sd_PassiveMediaCapability = [], sd_MediaOnlyEvaluationPolicy = [], sd_VisionQueueLimit = 0,
       sd_PlaybackRecoveryCapability = ''native_post_recapture'',
       sd_TrustedMediaHostSuffixes = [''media.licdn.com'', ''dms.licdn.com''],
       sd_HydrationTimeoutDefaultMS = 18000, sd_HydrationTimeoutMinMS = 13000, sd_HydrationTimeoutMaxMS = 23000\<rparr>,
      \<lparr>sd_ID = SourceFacebook, sd_DisplayName = ''Facebook'', sd_DefaultActive = True,
       sd_AdapterVersion = ''facebook-dom-v19'', sd_MediaEvidenceAdapterVersion = ''facebook-structured-video-v1'',
       sd_ContinuationOverlapRequired = False, sd_FollowUpPlanningPolicy = ''local_frontier'',
       sd_FrontierRequiresComplete = False, sd_InitialRoundCandidateTarget = 0,
       sd_NativeHosts = [''facebook.com'', ''www.facebook.com'', ''m.facebook.com''],
       sd_NativePathTokens = [''/posts/'', ''/permalink/'', ''/story.php'', ''/photo'', ''/watch/'', ''/video.php'',
         ''/videos/'', ''/reel/''],
       sd_PassiveMediaCapability = [], sd_MediaOnlyEvaluationPolicy = [], sd_VisionQueueLimit = 0,
       sd_PlaybackRecoveryCapability = ''native_post_recapture'',
       sd_TrustedMediaHostSuffixes = [''fbcdn.net'', ''fbsbx.com''],
       sd_HydrationTimeoutDefaultMS = 25000, sd_HydrationTimeoutMinMS = 20000, sd_HydrationTimeoutMaxMS = 30000\<rparr>,
      \<lparr>sd_ID = SourceInstagram, sd_DisplayName = ''Instagram'', sd_DefaultActive = True,
       sd_AdapterVersion = ''instagram-dom-v6'', sd_MediaEvidenceAdapterVersion = ''instagram-structured-carousel-v2'',
       sd_ContinuationOverlapRequired = False, sd_FollowUpPlanningPolicy = ''local_frontier'',
       sd_FrontierRequiresComplete = False, sd_InitialRoundCandidateTarget = 0,
       sd_NativeHosts = [''instagram.com'', ''www.instagram.com''], sd_NativePathTokens = [''/p/'', ''/reel/'', ''/tv/''],
       sd_PassiveMediaCapability = [], sd_MediaOnlyEvaluationPolicy = ''bounded_vision'', sd_VisionQueueLimit = 8,
       sd_PlaybackRecoveryCapability = ''native_post_recapture'',
       sd_TrustedMediaHostSuffixes = [''fbcdn.net'', ''cdninstagram.com''],
       sd_HydrationTimeoutDefaultMS = 15000, sd_HydrationTimeoutMinMS = 10000, sd_HydrationTimeoutMaxMS = 20000\<rparr>]"

definition Sources :: "SourceDescriptor list" where
  "Sources = sourceRegistry"

definition SourceByID :: "Source \<Rightarrow> SourceDescriptor option" where
  "SourceByID source = List.find (\<lambda>d. sd_ID d = source) sourceRegistry"

definition Source_Valid :: "Source \<Rightarrow> bool" where
  "Source_Valid s = (SourceByID s \<noteq> None)"

definition DefaultSources :: "Source list" where
  "DefaultSources = map sd_ID (filter sd_DefaultActive sourceRegistry)"

definition DefaultSourceHydrationTimeouts :: "(Source \<times> int) list" where
  "DefaultSourceHydrationTimeouts = map (\<lambda>d. (sd_ID d, sd_HydrationTimeoutDefaultMS d)) sourceRegistry"

definition SourceIDs :: "string list" where
  "SourceIDs = map sd_ID sourceRegistry"

definition ExpectedAdapterVersions :: "(string \<times> string) list" where
  "ExpectedAdapterVersions = map (\<lambda>d. (sd_ID d, sd_AdapterVersion d)) sourceRegistry"

definition ExpectedMediaEvidenceAdapterVersions :: "(string \<times> string) list" where
  "ExpectedMediaEvidenceAdapterVersions =
     map (\<lambda>d. (sd_ID d, sd_MediaEvidenceAdapterVersion d))
       (filter (\<lambda>d. trim_space (sd_MediaEvidenceAdapterVersion d) \<noteq> []) sourceRegistry)"

text \<open>\<open>linkedInProgressivePlaybackPath\<close>: \<open>/mp4-\<close>, two to four digits, \<open>p\<close>, then \<open>-\<close> or \<open>/\<close>, anywhere.\<close>

definition is_digit :: "char \<Rightarrow> bool" where
  "is_digit c = (let n = of_char c :: nat in 48 \<le> n \<and> n \<le> 57)"

definition progressive_here :: "string \<Rightarrow> bool" where
  "progressive_here s \<longleftrightarrow>
     has_prefix ''/mp4-'' s \<and>
     (let r = drop 5 s; ds = takeWhile is_digit r; t = dropWhile is_digit r
      in 2 \<le> length ds \<and> length ds \<le> 4 \<and> (has_prefix ''p-'' t \<or> has_prefix ''p/'' t))"

fun linkedInProgressivePlaybackPath :: "string \<Rightarrow> bool" where
  "linkedInProgressivePlaybackPath [] = False"
| "linkedInProgressivePlaybackPath (c # s) = (progressive_here (c # s) \<or> linkedInProgressivePlaybackPath s)"

definition host_within :: "string \<Rightarrow> string \<Rightarrow> bool" where
  "host_within host suffix \<longleftrightarrow> host = suffix \<or> has_suffix (CHR ''.'' # suffix) host"

definition inline_playback_ok :: "Source \<Rightarrow> string \<Rightarrow> string \<Rightarrow> bool" where
  "inline_playback_ok source hostname path =
     (if source = SourceX then
        hostname = ''video.twimg.com'' \<and>
        (has_prefix ''/amplify_video/'' path \<or> has_prefix ''/ext_tw_video/'' path \<or> has_prefix ''/tweet_video/'' path) \<and>
        has_suffix ''.mp4'' path
      else if source = SourceLinkedIn then
        hostname = ''dms.licdn.com'' \<and> has_prefix ''/playlist/'' path \<and> linkedInProgressivePlaybackPath path
      else if source = SourceFacebook then
        (host_within hostname ''fbcdn.net'' \<or> host_within hostname ''fbsbx.com'') \<and> has_suffix ''.mp4'' path
      else if source = SourceInstagram then
        (host_within hostname ''fbcdn.net'' \<or> host_within hostname ''cdninstagram.com'') \<and> has_suffix ''.mp4'' path
      else False)"

definition CanonicalInlinePlaybackURL ::
    "(string \<Rightarrow> URL option) \<Rightarrow> (URL \<Rightarrow> string) \<Rightarrow> Source \<Rightarrow> string \<Rightarrow> string option" where
  "CanonicalInlinePlaybackURL parse render source raw =
     (case parse (trim_space raw) of
        None \<Rightarrow> None
      | Some u \<Rightarrow>
          if ur_Scheme u \<noteq> ''https'' \<or> ur_HasUser u \<or> ur_Port u \<noteq> [] then None
          else if \<not> inline_playback_ok source (to_lower (ur_Hostname u)) (to_lower (ur_Path u)) then None
          else Some (render (u\<lparr>ur_Fragment := []\<rparr>)))"

definition SupportsPlaybackErrorRecapture :: "Source \<Rightarrow> bool" where
  "SupportsPlaybackErrorRecapture source =
     (case SourceByID source of
        None \<Rightarrow> False
      | Some d \<Rightarrow> sd_PlaybackRecoveryCapability d = ''native_post_recapture'')"

definition ValidatedMediaURL :: "(string \<Rightarrow> URL option) \<Rightarrow> Source \<Rightarrow> jmap \<Rightarrow> bool" where
  "ValidatedMediaURL parse source media =
     (let raw = (if trim_space (string_at media ''url'') = [] then string_at media ''posterUrl''
                 else string_at media ''url'')
      in case parse (trim_space raw) of
           None \<Rightarrow> False
         | Some u \<Rightarrow>
             if ur_Scheme u \<noteq> ''https'' \<or> ur_Host u = [] \<or> ur_HasUser u \<or> ur_Port u \<noteq> [] then False
             else (case SourceByID source of
                     None \<Rightarrow> False
                   | Some d \<Rightarrow>
                       list_ex (\<lambda>suffix. host_within (to_lower (ur_Hostname u)) (to_lower (trim_space suffix)))
                         (sd_TrustedMediaHostSuffixes d)))"

definition MediaOnlyVisionRequired :: "(string \<Rightarrow> URL option) \<Rightarrow> Source \<Rightarrow> string \<Rightarrow> jmap list \<Rightarrow> bool" where
  "MediaOnlyVisionRequired parse source text media =
     (case SourceByID source of
        None \<Rightarrow> False
      | Some d \<Rightarrow>
          if sd_MediaOnlyEvaluationPolicy d \<noteq> ''bounded_vision'' \<or> trim_space text \<noteq> [] then False
          else list_ex (ValidatedMediaURL parse source) media)"

subsection \<open>Facts on the registry\<close>

lemma registry_ids: "map sd_ID sourceRegistry = [SourceX, SourceLinkedIn, SourceFacebook, SourceInstagram]"
  by (simp add: sourceRegistry_def)

lemma SourceByID_Some: "SourceByID s = Some d \<Longrightarrow> d \<in> set sourceRegistry \<and> sd_ID d = s"
  by (auto simp: SourceByID_def find_Some_iff)

lemma Source_Valid_iff: "Source_Valid s \<longleftrightarrow> s \<in> {SourceX, SourceLinkedIn, SourceFacebook, SourceInstagram}"
proof -
  have "Source_Valid s \<longleftrightarrow> s \<in> set (map sd_ID sourceRegistry)"
    by (auto simp: Source_Valid_def SourceByID_def find_None_iff)
  then show ?thesis by (simp add: registry_ids)
qed

lemma find_distinct_key: "distinct (map f xs) \<Longrightarrow> x \<in> set xs \<Longrightarrow> List.find (\<lambda>y. f y = f x) xs = Some x"
  by (induction xs) auto

lemma SourceByID_registered: "d \<in> set sourceRegistry \<Longrightarrow> SourceByID (sd_ID d) = Some d"
  unfolding SourceByID_def by (rule find_distinct_key) (simp add: registry_ids)

lemma registry_timeouts:
  "d \<in> set sourceRegistry \<Longrightarrow>
   0 < sd_HydrationTimeoutMinMS d \<and> sd_HydrationTimeoutMinMS d \<le> sd_HydrationTimeoutDefaultMS d \<and>
   sd_HydrationTimeoutDefaultMS d \<le> sd_HydrationTimeoutMaxMS d \<and> sd_HydrationTimeoutDefaultMS d mod 1000 = 0"
  by (auto simp: sourceRegistry_def)

lemma media_only_is_instagram:
  assumes "MediaOnlyVisionRequired parse source text media"
  shows "source = SourceInstagram \<and> trim_space text = [] \<and> list_ex (ValidatedMediaURL parse source) media"
proof -
  from assms obtain d where d: "SourceByID source = Some d" "sd_MediaOnlyEvaluationPolicy d = ''bounded_vision''"
    "trim_space text = []" "list_ex (ValidatedMediaURL parse source) media"
    by (auto simp: MediaOnlyVisionRequired_def split: option.splits if_splits)
  from SourceByID_Some [OF d(1)] d(2) have "source = SourceInstagram"
    by (auto simp: sourceRegistry_def)
  with d show ?thesis by simp
qed

end
