(* ===== verification/Domain_Settings.thy ===== *)
theory Domain_Settings
  imports Sources
begin

text \<open>
  \<open>src/internal/domain/types.go\<close>: the settings record with its defaults, load profiles,
  normalisation and validation, and the update policy. A Go map is an association list with
  distinct keys (nil is \<^const>\<open>None\<close>); where \<open>Validate\<close> ranges over a map and several entries are wrong, Go
  leaves open which one is reported, the model reports the first of the list. An error keeps the fixed
  text of its message and the offending value.
\<close>

record ReasoningProfileSet =
  rp_Acquisition :: string
  rp_Evaluation :: string
  rp_Semantic :: string
  rp_AIDeep :: string

record Settings =
  st_LoadProfile :: string
  st_CaptureVisibility :: string
  st_CollectionMode :: string
  st_OpenMissingSource :: bool
  st_ActiveSources :: "Source list"
  st_SourceHydrationTimeoutMS :: "(Source \<times> int) list option"
  st_SourceWaitMode :: string
  st_TimelineCapacity :: int
  st_MaxItemsPerSource :: int
  st_MaxItemsTotal :: int
  st_MaxScrolls :: int
  st_QualityRetrySettleMS :: int
  st_PreferenceEligibilityMode :: string
  st_CalibrationEnabled :: bool
  st_CalibrationBatchSize :: int
  st_DefaultPresentation :: string
  st_StreamWidth :: string
  st_SingleImageFit :: string
  st_PostFreshnessStyle :: string
  st_ContentContextUpScrollMode :: string
  st_TimelineBatchGapPX :: int
  st_TimelineBoundaryCueMode :: string
  st_TimelineBoundaryReturnMS :: int
  st_ShowLearningPanel :: bool
  st_SemanticEventMode :: string
  st_SemanticEventShortlist :: int
  st_SemanticEventMergeThreshold :: f64
  st_KnowledgeRetentionDays :: int
  st_KnowledgeStorageLimitMB :: int
  st_AIDetectionPresentation :: string
  st_AIDetectionEnabled :: bool
  st_ResurfaceMode :: string
  st_ResurfaceCooldownDays :: int
  st_ReasoningProvider :: string
  st_ReasoningExecutablePath :: string
  st_ReasoningAcquisitionProfile :: string
  st_ReasoningEvaluationProfile :: string
  st_ReasoningSemanticProfile :: string
  st_ReasoningAIDeepProfile :: string
  st_ReasoningProfilesByProvider :: "(string \<times> ReasoningProfileSet) list option"
  st_AutoUpdateEnabled :: bool
  st_AutoUpdateMode :: string
  st_AutoUpdateRefillMinutes :: int
  st_PreparedBatchLimit :: int
  st_AutoUpdateDailyTokenBudget :: int
  st_AutoUpdateManualReservePct :: int
  st_PreparedBatchMaxAgeHours :: int
  st_NextBatchBehavior :: string

datatype settings_error = Msg string | Unsupported string string

definition DefaultSemanticMergeThreshold :: f64 where "DefaultSemanticMergeThreshold = f64_round (23 / 25)"
definition MinSemanticMergeThreshold :: f64 where "MinSemanticMergeThreshold = f64_round (17 / 20)"
definition MaxSemanticMergeThreshold :: f64 where "MaxSemanticMergeThreshold = f64_round (19 / 20)"

subsection \<open>Reasoning profiles\<close>

definition ActiveReasoningProfileSet :: "Settings \<Rightarrow> ReasoningProfileSet" where
  "ActiveReasoningProfileSet s =
     \<lparr>rp_Acquisition = st_ReasoningAcquisitionProfile s, rp_Evaluation = st_ReasoningEvaluationProfile s,
      rp_Semantic = st_ReasoningSemanticProfile s, rp_AIDeep = st_ReasoningAIDeepProfile s\<rparr>"

definition ApplyReasoningProfileSet :: "ReasoningProfileSet \<Rightarrow> Settings \<Rightarrow> Settings" where
  "ApplyReasoningProfileSet v s =
     s\<lparr>st_ReasoningAcquisitionProfile := rp_Acquisition v, st_ReasoningEvaluationProfile := rp_Evaluation v,
       st_ReasoningSemanticProfile := rp_Semantic v, st_ReasoningAIDeepProfile := rp_AIDeep v\<rparr>"

text \<open>Assignment to a map entry.\<close>

fun put :: "'k \<Rightarrow> 'v \<Rightarrow> ('k \<times> 'v) list \<Rightarrow> ('k \<times> 'v) list" where
  "put k v [] = [(k, v)]"
| "put k v ((k', v') # m) = (if k = k' then (k, v) # m else (k', v') # put k v m)"

definition RememberReasoningProfileSet :: "string \<Rightarrow> Settings \<Rightarrow> Settings \<times> bool" where
  "RememberReasoningProfileSet provider s =
     (let provider = trim_space provider
      in if provider = [] then (s, False)
         else
           let m = (case st_ReasoningProfilesByProvider s of None \<Rightarrow> [] | Some m \<Rightarrow> m);
               value = ActiveReasoningProfileSet s;
               s1 = s\<lparr>st_ReasoningProfilesByProvider := Some m\<rparr>
           in if map_of m provider = Some value then (s1, False)
              else (s\<lparr>st_ReasoningProfilesByProvider := Some (put provider value m)\<rparr>, True))"

subsection \<open>Defaults and normalisation\<close>

definition profile_values :: "int \<Rightarrow> int \<Rightarrow> int \<Rightarrow> int \<Rightarrow> int \<Rightarrow> Settings \<Rightarrow> Settings" where
  "profile_values scrolls perSource itemsTotal capacity settle s =
     s\<lparr>st_MaxScrolls := scrolls, st_MaxItemsPerSource := perSource, st_MaxItemsTotal := itemsTotal,
       st_TimelineCapacity := capacity, st_QualityRetrySettleMS := settle\<rparr>"

definition ApplyProfile :: "Settings \<Rightarrow> Settings" where
  "ApplyProfile s =
     (if st_LoadProfile s = ''standard'' then profile_values 2 5 10 12 300 s
      else if st_LoadProfile s = ''expanded'' then profile_values 4 10 20 24 1000 s
      else if st_LoadProfile s = ''stress'' then profile_values 6 15 30 36 1000 s
      else if st_LoadProfile s = ''custom'' then s
      else profile_values 2 5 10 12 300 (s\<lparr>st_LoadProfile := ''standard''\<rparr>))"

definition DefaultSettings :: "string \<Rightarrow> string \<Rightarrow> string \<Rightarrow> bool \<Rightarrow> Settings" where
  "DefaultSettings profile visibility preferenceMode openMissing =
     ApplyProfile
      \<lparr>st_LoadProfile = profile, st_CaptureVisibility = visibility, st_CollectionMode = ''browser'',
        st_OpenMissingSource = openMissing, st_ActiveSources = DefaultSources,
        st_SourceHydrationTimeoutMS = Some DefaultSourceHydrationTimeouts,
        st_SourceWaitMode = ''progressive_wait'', st_TimelineCapacity = 0, st_MaxItemsPerSource = 0,
        st_MaxItemsTotal = 0, st_MaxScrolls = 0, st_QualityRetrySettleMS = 0,
        st_PreferenceEligibilityMode = preferenceMode, st_CalibrationEnabled = True,
        st_CalibrationBatchSize = 10, st_DefaultPresentation = ''source'', st_StreamWidth = ''social'',
        st_SingleImageFit = ''cover'', st_PostFreshnessStyle = ''header_shade'',
        st_ContentContextUpScrollMode = ''close_offscreen'', st_TimelineBatchGapPX = 36,
        st_TimelineBoundaryCueMode = ''follow'', st_TimelineBoundaryReturnMS = 350,
        st_ShowLearningPanel = True, st_SemanticEventMode = ''collapse'', st_SemanticEventShortlist = 10,
        st_SemanticEventMergeThreshold = DefaultSemanticMergeThreshold, st_KnowledgeRetentionDays = 30,
        st_KnowledgeStorageLimitMB = 100, st_AIDetectionPresentation = ''drawer'',
        st_AIDetectionEnabled = True, st_ResurfaceMode = ''smart'', st_ResurfaceCooldownDays = 7,
        st_ReasoningProvider = [], st_ReasoningExecutablePath = [],
        st_ReasoningAcquisitionProfile = ''luna_high'', st_ReasoningEvaluationProfile = ''luna_high'',
        st_ReasoningSemanticProfile = ''luna_high'', st_ReasoningAIDeepProfile = ''luna_high'',
        st_ReasoningProfilesByProvider = None, st_AutoUpdateEnabled = True, st_AutoUpdateMode = ''adaptive'',
        st_AutoUpdateRefillMinutes = 15, st_PreparedBatchLimit = 2, st_AutoUpdateDailyTokenBudget = 2000000,
        st_AutoUpdateManualReservePct = 25, st_PreparedBatchMaxAgeHours = 24,
        st_NextBatchBehavior = ''require_action''\<rparr>"

definition or_default :: "string \<Rightarrow> string \<Rightarrow> string" where
  "or_default d v = (if v = [] then d else v)"

definition or_default_int :: "int \<Rightarrow> int \<Rightarrow> int" where
  "or_default_int d v = (if v = 0 then d else v)"

definition normalize_timeout :: "SourceDescriptor \<Rightarrow> (Source \<times> int) list \<Rightarrow> (Source \<times> int) list" where
  "normalize_timeout d m =
     (if (case map_of m (sd_ID d) of None \<Rightarrow> 0 | Some v \<Rightarrow> v) = 0
      then put (sd_ID d) (sd_HydrationTimeoutDefaultMS d) m else m)"

definition normalize_timeouts :: "(Source \<times> int) list option \<Rightarrow> (Source \<times> int) list option" where
  "normalize_timeouts m =
     Some (case m of None \<Rightarrow> DefaultSourceHydrationTimeouts | Some v \<Rightarrow> fold normalize_timeout Sources v)"

definition normalize_freshness :: "string \<Rightarrow> string" where
  "normalize_freshness v =
     (if v = [] then ''header_shade''
      else if v = ''pill'' \<or> v = ''header_tint'' then ''header_shade''
      else if v = ''card_tint'' then ''border_shade'' else v)"

text \<open>The assignments of \<open>Normalize\<close> before \<open>ApplyProfile\<close>; each reads only the field it sets, apart from
  \<open>AutoUpdateEnabled\<close>, which is set when \<open>AutoUpdateMode\<close> was missing.\<close>

definition fill_defaults :: "Settings \<Rightarrow> Settings" where
  "fill_defaults s =
     s\<lparr>st_CollectionMode := or_default ''browser'' (st_CollectionMode s),
       st_SourceWaitMode := or_default ''progressive_wait'' (st_SourceWaitMode s),
       st_SourceHydrationTimeoutMS := normalize_timeouts (st_SourceHydrationTimeoutMS s),
       st_DefaultPresentation := or_default ''source'' (st_DefaultPresentation s),
       st_StreamWidth := or_default ''social'' (st_StreamWidth s),
       st_SingleImageFit := or_default ''cover'' (st_SingleImageFit s),
       st_PostFreshnessStyle := normalize_freshness (st_PostFreshnessStyle s),
       st_ContentContextUpScrollMode := or_default ''close_offscreen'' (st_ContentContextUpScrollMode s),
       st_TimelineBatchGapPX := or_default_int 36 (st_TimelineBatchGapPX s),
       st_TimelineBoundaryCueMode := or_default ''follow'' (st_TimelineBoundaryCueMode s),
       st_TimelineBoundaryReturnMS := or_default_int 350 (st_TimelineBoundaryReturnMS s),
       st_SemanticEventMode := or_default ''collapse'' (st_SemanticEventMode s),
       st_SemanticEventShortlist := or_default_int 10 (st_SemanticEventShortlist s),
       st_SemanticEventMergeThreshold :=
         (if st_SemanticEventMergeThreshold s = 0 then DefaultSemanticMergeThreshold
          else st_SemanticEventMergeThreshold s),
       st_KnowledgeRetentionDays := or_default_int 30 (st_KnowledgeRetentionDays s),
       st_KnowledgeStorageLimitMB := or_default_int 100 (st_KnowledgeStorageLimitMB s),
       st_AIDetectionPresentation := or_default ''drawer'' (st_AIDetectionPresentation s),
       st_ResurfaceMode := or_default ''smart'' (st_ResurfaceMode s),
       st_ResurfaceCooldownDays := or_default_int 7 (st_ResurfaceCooldownDays s),
       st_ReasoningAcquisitionProfile := or_default ''luna_high'' (st_ReasoningAcquisitionProfile s),
       st_ReasoningEvaluationProfile := or_default ''luna_high'' (st_ReasoningEvaluationProfile s),
       st_ReasoningSemanticProfile := or_default ''luna_high'' (st_ReasoningSemanticProfile s),
       st_ReasoningAIDeepProfile := or_default ''luna_high'' (st_ReasoningAIDeepProfile s),
       st_AutoUpdateEnabled := (st_AutoUpdateMode s = [] \<or> st_AutoUpdateEnabled s),
       st_AutoUpdateMode := or_default ''adaptive'' (st_AutoUpdateMode s),
       st_PreparedBatchLimit := or_default_int 2 (st_PreparedBatchLimit s),
       st_AutoUpdateRefillMinutes :=
         (if st_AutoUpdateRefillMinutes s = 3 then 15 else or_default_int 15 (st_AutoUpdateRefillMinutes s)),
       st_AutoUpdateDailyTokenBudget :=
         (if st_AutoUpdateDailyTokenBudget s < 1000000 then 2000000 else st_AutoUpdateDailyTokenBudget s),
       st_AutoUpdateManualReservePct := or_default_int 25 (st_AutoUpdateManualReservePct s),
       st_PreparedBatchMaxAgeHours := or_default_int 24 (st_PreparedBatchMaxAgeHours s),
       st_NextBatchBehavior := or_default ''require_action'' (st_NextBatchBehavior s)\<rparr>"

definition Normalize :: "Settings \<Rightarrow> Settings" where
  "Normalize s = ApplyProfile (fill_defaults s)"

subsection \<open>Validation\<close>

definition ContentContextUpScrollMode_Valid :: "string \<Rightarrow> bool" where
  "ContentContextUpScrollMode_Valid m \<longleftrightarrow> m = ''close_offscreen'' \<or> m = ''preserve''"

definition validReasoningProfileID :: "string \<Rightarrow> bool" where
  "validReasoningProfileID v \<longleftrightarrow>
     v \<noteq> [] \<and> length v \<le> 64 \<and>
     list_all (\<lambda>c. let n = of_char c :: nat in 97 \<le> n \<and> n \<le> 122 \<or> 48 \<le> n \<and> n \<le> 57 \<or> n = 95 \<or> n = 45) v"

text \<open>\<open>math.Round\<close>: nearest integer, halves away from zero.\<close>

definition math_Round :: "f64 \<Rightarrow> f64" where
  "math_Round x = (if x < 0 then - of_int \<lfloor>- x + 1 / 2\<rfloor> else of_int \<lfloor>x + 1 / 2\<rfloor>)"

definition hundredths :: "f64 \<Rightarrow> bool" where
  "hundredths x = (let scaled = fmul x 100 in \<bar>fsub scaled (math_Round scaled)\<bar> \<le> f64_round (1 / 10 ^ 9))"

definition one_of :: "string \<Rightarrow> string \<Rightarrow> string list \<Rightarrow> bool \<times> settings_error" where
  "one_of what v allowed = (v \<notin> set allowed, Unsupported what v)"

definition int_of :: "string \<Rightarrow> int \<Rightarrow> int list \<Rightarrow> bool \<times> settings_error" where
  "int_of what v allowed = (v \<notin> set allowed, Msg what)"

definition in_range :: "string \<Rightarrow> int \<Rightarrow> int \<Rightarrow> int \<Rightarrow> bool \<times> settings_error" where
  "in_range what v lo hi = (v < lo \<or> hi < v, Msg what)"

definition check_modes :: "Settings \<Rightarrow> (bool \<times> settings_error) list" where
  "check_modes s =
     [one_of ''collection mode'' (st_CollectionMode s) [[], ''browser'', ''headless''],
      one_of ''load profile'' (st_LoadProfile s) [''standard'', ''expanded'', ''stress'', ''custom''],
      one_of ''capture visibility'' (st_CaptureVisibility s) [''quiet_multi_window'', ''quiet'', ''adaptive_fidelity''],
      one_of ''source wait mode'' (st_SourceWaitMode s) [''full_wait'', ''progressive_wait''],
      one_of ''preference mode'' (st_PreferenceEligibilityMode s)
        [''rank_only'', ''promote_unused_budget'', ''guarded_live''],
      one_of ''default presentation'' (st_DefaultPresentation s) [''source'', ''brief''],
      one_of ''stream width'' (st_StreamWidth s) [''compact'', ''social'', ''comfortable'', ''wide''],
      one_of ''single image fit'' (st_SingleImageFit s) [''cover'', ''contain''],
      one_of ''post freshness style'' (st_PostFreshnessStyle s) [''header_shade'', ''border_shade'', ''off''],
      (\<not> ContentContextUpScrollMode_Valid (st_ContentContextUpScrollMode s),
         Unsupported ''content context upward scroll mode'' (st_ContentContextUpScrollMode s)),
      in_range ''timelineBatchGapPx must be between 16 and 80'' (st_TimelineBatchGapPX s) 16 80,
      one_of ''timeline boundary cue mode'' (st_TimelineBoundaryCueMode s) [''follow'', ''static''],
      in_range ''timelineBoundaryReturnMs must be between 100 and 1000'' (st_TimelineBoundaryReturnMS s) 100 1000,
      one_of ''semantic event mode'' (st_SemanticEventMode s) [''collapse'', ''show_all'', ''hide''],
      int_of ''semanticEventShortlist must be 5, 10, or 15'' (st_SemanticEventShortlist s) [5, 10, 15],
      (st_SemanticEventMergeThreshold s < MinSemanticMergeThreshold \<or>
         MaxSemanticMergeThreshold < st_SemanticEventMergeThreshold s,
         Msg ''semanticEventMergeThreshold must be between 0.85 and 0.95''),
      (\<not> hundredths (st_SemanticEventMergeThreshold s),
         Msg ''semanticEventMergeThreshold must use increments of 0.01'')]"

definition check_lifecycle :: "Settings \<Rightarrow> (bool \<times> settings_error) list" where
  "check_lifecycle s =
     [int_of ''knowledgeRetentionDays must be 30, 60, or 90'' (st_KnowledgeRetentionDays s) [30, 60, 90],
      int_of ''knowledgeStorageLimitMb must be 100, 200, 300, 400, 500, or 1024'' (st_KnowledgeStorageLimitMB s)
        [100, 200, 300, 400, 500, 1024],
      one_of ''AI detection presentation'' (st_AIDetectionPresentation s) [''inline'', ''drawer'', ''hide''],
      one_of ''resurface mode'' (st_ResurfaceMode s) [''smart'', ''evaluate_all''],
      int_of ''resurfaceCooldownDays must be 1, 2, 7, 14, or 30'' (st_ResurfaceCooldownDays s) [1, 2, 7, 14, 30],
      one_of ''auto update mode'' (st_AutoUpdateMode s) [''adaptive'', ''fixed''],
      int_of ''autoUpdateRefillMinutes must be 5, 10, 15, 30, or 60'' (st_AutoUpdateRefillMinutes s) [5, 10, 15, 30, 60],
      in_range ''preparedBatchLimit must be between 1 and 3'' (st_PreparedBatchLimit s) 1 3,
      int_of ''autoUpdateDailyTokenBudget must be 1000000, 2000000, 3000000, or 5000000''
        (st_AutoUpdateDailyTokenBudget s) [1000000, 2000000, 3000000, 5000000],
      int_of ''autoUpdateManualReservePct must be 10, 25, or 40'' (st_AutoUpdateManualReservePct s) [10, 25, 40],
      int_of ''preparedBatchMaxAgeHours must be 6, 12, 24, or 48'' (st_PreparedBatchMaxAgeHours s) [6, 12, 24, 48],
      one_of ''next batch behavior'' (st_NextBatchBehavior s) [''require_action'', ''auto_at_finish''],
      (4096 < length (st_ReasoningExecutablePath s) \<or> CHR 0x00 \<in> set (st_ReasoningExecutablePath s),
         Msg ''reasoningExecutablePath is invalid'')]"

definition check_provider :: "string \<times> ReasoningProfileSet \<Rightarrow> (bool \<times> settings_error) list" where
  "check_provider = (\<lambda>(provider, ps).
     (\<not> validReasoningProfileID provider,
        Unsupported ''reasoningProfilesByProvider contains an invalid provider id'' provider) #
     map (\<lambda>profile. (profile \<noteq> [] \<and> \<not> validReasoningProfileID profile,
          Unsupported ''reasoningProfilesByProvider contains an invalid profile id'' provider))
       [rp_Acquisition ps, rp_Evaluation ps, rp_Semantic ps, rp_AIDeep ps])"

definition check_reasoning :: "Settings \<Rightarrow> (bool \<times> settings_error) list" where
  "check_reasoning s =
     (let m = (case st_ReasoningProfilesByProvider s of None \<Rightarrow> [] | Some m \<Rightarrow> m)
      in map (\<lambda>(name, profile). (\<not> validReasoningProfileID profile, Unsupported ''invalid profile id'' name))
           [(''reasoningAcquisitionProfile'', st_ReasoningAcquisitionProfile s),
            (''reasoningEvaluationProfile'', st_ReasoningEvaluationProfile s),
            (''reasoningSemanticProfile'', st_ReasoningSemanticProfile s),
            (''reasoningAiDeepProfile'', st_ReasoningAIDeepProfile s)]
         @ [(32 < length m, Msg ''reasoningProfilesByProvider contains too many providers'')]
         @ concat (map check_provider m))"

definition check_budgets :: "Settings \<Rightarrow> (bool \<times> settings_error) list" where
  "check_budgets s =
     [in_range ''maxScrolls must be between 0 and 6'' (st_MaxScrolls s) 0 6,
      in_range ''maxItemsPerSource must be between 1 and 15'' (st_MaxItemsPerSource s) 1 15,
      in_range ''maxItemsTotal must be between 1 and 30'' (st_MaxItemsTotal s) 1 30,
      in_range ''timelineCapacity must be between 1 and 50'' (st_TimelineCapacity s) 1 50,
      in_range ''qualityRetrySettleMs must be between 0 and 5000'' (st_QualityRetrySettleMS s) 0 5000,
      in_range ''calibrationBatchSize must be between 2 and 10'' (st_CalibrationBatchSize s) 2 10,
      (st_ActiveSources s = [] \<or> length Sources < length (st_ActiveSources s),
         Msg ''activeSources must contain between one and 4 sources'')]"

text \<open>The loop over the active sources with its \<open>seen\<close> map.\<close>

fun check_active :: "Source list \<Rightarrow> Source list \<Rightarrow> (bool \<times> settings_error) list" where
  "check_active seen [] = []"
| "check_active seen (s # ss) =
     (\<not> Source_Valid s \<or> s \<in> set seen, Unsupported ''active source'' s) # check_active (s # seen) ss"

definition check_timeout :: "Source \<times> int \<Rightarrow> (bool \<times> settings_error) list" where
  "check_timeout = (\<lambda>(source, timeoutMS).
     (case SourceByID source of
        None \<Rightarrow> [(True, Unsupported ''sourceHydrationTimeoutMs contains unknown source'' source)]
      | Some d \<Rightarrow>
          [(timeoutMS < sd_HydrationTimeoutMinMS d \<or> sd_HydrationTimeoutMaxMS d < timeoutMS,
              Unsupported ''sourceHydrationTimeoutMs range'' source),
           (timeoutMS mod 1000 \<noteq> 0, Unsupported ''sourceHydrationTimeoutMs increments'' source)]))"

definition check_timeouts :: "Settings \<Rightarrow> (bool \<times> settings_error) list" where
  "check_timeouts s =
     (let m = (case st_SourceHydrationTimeoutMS s of None \<Rightarrow> [] | Some m \<Rightarrow> m)
      in (length m \<noteq> length Sources, Msg ''sourceHydrationTimeoutMs must contain exactly 4 registered sources'')
         # concat (map check_timeout m))"

definition Validate :: "Settings \<Rightarrow> settings_error option" where
  "Validate s =
     first_error (check_modes s @ check_lifecycle s @ check_reasoning s @ check_budgets s @
       check_active [] (st_ActiveSources s) @ check_timeouts s)"

definition SourceHydrationTimeout :: "Settings \<Rightarrow> Source \<Rightarrow> int" where
  "SourceHydrationTimeout s source =
     (let v = (case st_SourceHydrationTimeoutMS s of
                 None \<Rightarrow> 0 | Some m \<Rightarrow> (case map_of m source of None \<Rightarrow> 0 | Some v \<Rightarrow> v))
      in if 0 < v then v
         else case SourceByID source of Some d \<Rightarrow> sd_HydrationTimeoutDefaultMS d | None \<Rightarrow> 12000)"

subsection \<open>Update policy\<close>

record UpdatePolicy =
  up_Trigger :: string
  up_Delivery :: string
  up_BudgetAuthority :: string

definition UpdatePolicy_Validate :: "UpdatePolicy \<Rightarrow> settings_error option" where
  "UpdatePolicy_Validate p =
     (let visible = (up_Delivery p = ''visible'' \<and> up_BudgetAuthority p = ''user'');
          prepared = (up_Delivery p = ''prepared'' \<and> up_BudgetAuthority p = ''automatic'')
      in first_error
        [one_of ''update trigger'' (up_Trigger p) [''onboarding'', ''scheduler'', ''user''],
         one_of ''update delivery'' (up_Delivery p) [''prepared'', ''visible''],
         one_of ''budget authority'' (up_BudgetAuthority p) [''automatic'', ''user''],
         (up_Trigger p = ''onboarding'' \<and> \<not> visible, Msg ''onboarding updates must be visible and user-authorized''),
         (up_Trigger p = ''scheduler'' \<and> \<not> prepared,
            Msg ''scheduler updates must be prepared and use automatic budget''),
         (up_Trigger p = ''user'' \<and> \<not> visible \<and> \<not> prepared,
            Msg ''user updates must either publish with user budget or prepare with automatic budget'')])"

subsection \<open>Maps as association lists\<close>

lemma map_of_put: "map_of (put k v m) = (map_of m)(k \<mapsto> v)"
  by (induction k v m rule: put.induct) auto

lemma set_fst_put: "set (map fst (put k v m)) = insert k (set (map fst m))"
  by (induction k v m rule: put.induct) auto

lemma distinct_put: "distinct (map fst m) \<Longrightarrow> distinct (map fst (put k v m))"
proof (induction k v m rule: put.induct)
  case (2 k v k' v' m)
  then show ?case using set_fst_put [of k v m] by auto
qed simp

lemma length_put_present: "map_of m k \<noteq> None \<Longrightarrow> length (put k v m) = length m"
  by (induction k v m rule: put.induct) auto

subsection \<open>Normalisation is idempotent\<close>

definition timeouts_filled :: "SourceDescriptor list \<Rightarrow> (Source \<times> int) list \<Rightarrow> bool" where
  "timeouts_filled ds m \<longleftrightarrow> (\<forall>d \<in> set ds. \<exists>v. map_of m (sd_ID d) = Some v \<and> v \<noteq> 0)"

lemma normalize_timeout_keeps:
  "map_of m k = Some v \<Longrightarrow> v \<noteq> 0 \<Longrightarrow> map_of (normalize_timeout d m) k = Some v"
  by (auto simp: normalize_timeout_def map_of_put)

lemma fold_normalize_keeps:
  "map_of m k = Some v \<Longrightarrow> v \<noteq> 0 \<Longrightarrow> map_of (fold normalize_timeout ds m) k = Some v"
  by (induction ds arbitrary: m) (simp_all add: normalize_timeout_keeps)

lemma fold_normalize_filled:
  "\<forall>d \<in> set ds. sd_HydrationTimeoutDefaultMS d \<noteq> 0 \<Longrightarrow> timeouts_filled ds (fold normalize_timeout ds m)"
proof (induction ds arbitrary: m)
  case Nil
  then show ?case by (simp add: timeouts_filled_def)
next
  case (Cons d ds)
  have "\<exists>v. map_of (normalize_timeout d m) (sd_ID d) = Some v \<and> v \<noteq> 0"
    using Cons.prems by (auto simp: normalize_timeout_def map_of_put split: option.splits)
  with Cons show ?case
    by (auto simp: timeouts_filled_def dest: fold_normalize_keeps)
qed

lemma fold_normalize_id: "timeouts_filled ds m \<Longrightarrow> fold normalize_timeout ds m = m"
  by (induction ds) (auto simp: timeouts_filled_def normalize_timeout_def)

lemma registry_nonzero: "\<forall>d \<in> set Sources. sd_HydrationTimeoutDefaultMS d \<noteq> 0"
  using registry_timeouts by (fastforce simp: Sources_def)

lemma default_timeouts_filled: "timeouts_filled Sources DefaultSourceHydrationTimeouts"
  by (simp add: timeouts_filled_def Sources_def DefaultSourceHydrationTimeouts_def sourceRegistry_def)

lemma normalize_timeouts_idem: "normalize_timeouts (normalize_timeouts m) = normalize_timeouts m"
  using fold_normalize_filled [OF registry_nonzero] default_timeouts_filled
  by (auto simp: normalize_timeouts_def fold_normalize_id split: option.split)

lemma or_default_idem [simp]: "d \<noteq> [] \<Longrightarrow> or_default d (or_default d v) = or_default d v"
  by (simp add: or_default_def)

lemma or_default_int_idem [simp]: "d \<noteq> 0 \<Longrightarrow> or_default_int d (or_default_int d v) = or_default_int d v"
  by (simp add: or_default_int_def)

lemma normalize_freshness_idem [simp]: "normalize_freshness (normalize_freshness v) = normalize_freshness v"
  by (simp add: normalize_freshness_def)

lemma threshold_nonzero: "DefaultSemanticMergeThreshold \<noteq> 0"
  unfolding DefaultSemanticMergeThreshold_def by code_simp

lemma fill_defaults_fields [simp]:
  "st_LoadProfile (fill_defaults s) = st_LoadProfile s"
  "st_CaptureVisibility (fill_defaults s) = st_CaptureVisibility s"
  "st_CollectionMode (fill_defaults s) = or_default ''browser'' (st_CollectionMode s)"
  "st_OpenMissingSource (fill_defaults s) = st_OpenMissingSource s"
  "st_ActiveSources (fill_defaults s) = st_ActiveSources s"
  "st_SourceHydrationTimeoutMS (fill_defaults s) = normalize_timeouts (st_SourceHydrationTimeoutMS s)"
  "st_SourceWaitMode (fill_defaults s) = or_default ''progressive_wait'' (st_SourceWaitMode s)"
  "st_TimelineCapacity (fill_defaults s) = st_TimelineCapacity s"
  "st_MaxItemsPerSource (fill_defaults s) = st_MaxItemsPerSource s"
  "st_MaxItemsTotal (fill_defaults s) = st_MaxItemsTotal s"
  "st_MaxScrolls (fill_defaults s) = st_MaxScrolls s"
  "st_QualityRetrySettleMS (fill_defaults s) = st_QualityRetrySettleMS s"
  "st_PreferenceEligibilityMode (fill_defaults s) = st_PreferenceEligibilityMode s"
  "st_CalibrationEnabled (fill_defaults s) = st_CalibrationEnabled s"
  "st_CalibrationBatchSize (fill_defaults s) = st_CalibrationBatchSize s"
  "st_DefaultPresentation (fill_defaults s) = or_default ''source'' (st_DefaultPresentation s)"
  "st_StreamWidth (fill_defaults s) = or_default ''social'' (st_StreamWidth s)"
  "st_SingleImageFit (fill_defaults s) = or_default ''cover'' (st_SingleImageFit s)"
  "st_PostFreshnessStyle (fill_defaults s) = normalize_freshness (st_PostFreshnessStyle s)"
  "st_ContentContextUpScrollMode (fill_defaults s) = or_default ''close_offscreen'' (st_ContentContextUpScrollMode s)"
  "st_TimelineBatchGapPX (fill_defaults s) = or_default_int 36 (st_TimelineBatchGapPX s)"
  "st_TimelineBoundaryCueMode (fill_defaults s) = or_default ''follow'' (st_TimelineBoundaryCueMode s)"
  "st_TimelineBoundaryReturnMS (fill_defaults s) = or_default_int 350 (st_TimelineBoundaryReturnMS s)"
  "st_ShowLearningPanel (fill_defaults s) = st_ShowLearningPanel s"
  "st_SemanticEventMode (fill_defaults s) = or_default ''collapse'' (st_SemanticEventMode s)"
  "st_SemanticEventShortlist (fill_defaults s) = or_default_int 10 (st_SemanticEventShortlist s)"
  "st_SemanticEventMergeThreshold (fill_defaults s) = (if st_SemanticEventMergeThreshold s = 0 then DefaultSemanticMergeThreshold else st_SemanticEventMergeThreshold s)"
  "st_KnowledgeRetentionDays (fill_defaults s) = or_default_int 30 (st_KnowledgeRetentionDays s)"
  "st_KnowledgeStorageLimitMB (fill_defaults s) = or_default_int 100 (st_KnowledgeStorageLimitMB s)"
  "st_AIDetectionPresentation (fill_defaults s) = or_default ''drawer'' (st_AIDetectionPresentation s)"
  "st_AIDetectionEnabled (fill_defaults s) = st_AIDetectionEnabled s"
  "st_ResurfaceMode (fill_defaults s) = or_default ''smart'' (st_ResurfaceMode s)"
  "st_ResurfaceCooldownDays (fill_defaults s) = or_default_int 7 (st_ResurfaceCooldownDays s)"
  "st_ReasoningProvider (fill_defaults s) = st_ReasoningProvider s"
  "st_ReasoningExecutablePath (fill_defaults s) = st_ReasoningExecutablePath s"
  "st_ReasoningAcquisitionProfile (fill_defaults s) = or_default ''luna_high'' (st_ReasoningAcquisitionProfile s)"
  "st_ReasoningEvaluationProfile (fill_defaults s) = or_default ''luna_high'' (st_ReasoningEvaluationProfile s)"
  "st_ReasoningSemanticProfile (fill_defaults s) = or_default ''luna_high'' (st_ReasoningSemanticProfile s)"
  "st_ReasoningAIDeepProfile (fill_defaults s) = or_default ''luna_high'' (st_ReasoningAIDeepProfile s)"
  "st_ReasoningProfilesByProvider (fill_defaults s) = st_ReasoningProfilesByProvider s"
  "st_AutoUpdateEnabled (fill_defaults s) = (st_AutoUpdateMode s = [] \<or> st_AutoUpdateEnabled s)"
  "st_AutoUpdateMode (fill_defaults s) = or_default ''adaptive'' (st_AutoUpdateMode s)"
  "st_AutoUpdateRefillMinutes (fill_defaults s) = (if st_AutoUpdateRefillMinutes s = 3 then 15 else or_default_int 15 (st_AutoUpdateRefillMinutes s))"
  "st_PreparedBatchLimit (fill_defaults s) = or_default_int 2 (st_PreparedBatchLimit s)"
  "st_AutoUpdateDailyTokenBudget (fill_defaults s) = (if st_AutoUpdateDailyTokenBudget s < 1000000 then 2000000 else st_AutoUpdateDailyTokenBudget s)"
  "st_AutoUpdateManualReservePct (fill_defaults s) = or_default_int 25 (st_AutoUpdateManualReservePct s)"
  "st_PreparedBatchMaxAgeHours (fill_defaults s) = or_default_int 24 (st_PreparedBatchMaxAgeHours s)"
  "st_NextBatchBehavior (fill_defaults s) = or_default ''require_action'' (st_NextBatchBehavior s)"
  by (simp_all add: fill_defaults_def)

lemma ApplyProfile_fields [simp]:
  "st_CaptureVisibility (ApplyProfile s) = st_CaptureVisibility s"
  "st_CollectionMode (ApplyProfile s) = st_CollectionMode s"
  "st_OpenMissingSource (ApplyProfile s) = st_OpenMissingSource s"
  "st_ActiveSources (ApplyProfile s) = st_ActiveSources s"
  "st_SourceHydrationTimeoutMS (ApplyProfile s) = st_SourceHydrationTimeoutMS s"
  "st_SourceWaitMode (ApplyProfile s) = st_SourceWaitMode s"
  "st_PreferenceEligibilityMode (ApplyProfile s) = st_PreferenceEligibilityMode s"
  "st_CalibrationEnabled (ApplyProfile s) = st_CalibrationEnabled s"
  "st_CalibrationBatchSize (ApplyProfile s) = st_CalibrationBatchSize s"
  "st_DefaultPresentation (ApplyProfile s) = st_DefaultPresentation s"
  "st_StreamWidth (ApplyProfile s) = st_StreamWidth s"
  "st_SingleImageFit (ApplyProfile s) = st_SingleImageFit s"
  "st_PostFreshnessStyle (ApplyProfile s) = st_PostFreshnessStyle s"
  "st_ContentContextUpScrollMode (ApplyProfile s) = st_ContentContextUpScrollMode s"
  "st_TimelineBatchGapPX (ApplyProfile s) = st_TimelineBatchGapPX s"
  "st_TimelineBoundaryCueMode (ApplyProfile s) = st_TimelineBoundaryCueMode s"
  "st_TimelineBoundaryReturnMS (ApplyProfile s) = st_TimelineBoundaryReturnMS s"
  "st_ShowLearningPanel (ApplyProfile s) = st_ShowLearningPanel s"
  "st_SemanticEventMode (ApplyProfile s) = st_SemanticEventMode s"
  "st_SemanticEventShortlist (ApplyProfile s) = st_SemanticEventShortlist s"
  "st_SemanticEventMergeThreshold (ApplyProfile s) = st_SemanticEventMergeThreshold s"
  "st_KnowledgeRetentionDays (ApplyProfile s) = st_KnowledgeRetentionDays s"
  "st_KnowledgeStorageLimitMB (ApplyProfile s) = st_KnowledgeStorageLimitMB s"
  "st_AIDetectionPresentation (ApplyProfile s) = st_AIDetectionPresentation s"
  "st_AIDetectionEnabled (ApplyProfile s) = st_AIDetectionEnabled s"
  "st_ResurfaceMode (ApplyProfile s) = st_ResurfaceMode s"
  "st_ResurfaceCooldownDays (ApplyProfile s) = st_ResurfaceCooldownDays s"
  "st_ReasoningProvider (ApplyProfile s) = st_ReasoningProvider s"
  "st_ReasoningExecutablePath (ApplyProfile s) = st_ReasoningExecutablePath s"
  "st_ReasoningAcquisitionProfile (ApplyProfile s) = st_ReasoningAcquisitionProfile s"
  "st_ReasoningEvaluationProfile (ApplyProfile s) = st_ReasoningEvaluationProfile s"
  "st_ReasoningSemanticProfile (ApplyProfile s) = st_ReasoningSemanticProfile s"
  "st_ReasoningAIDeepProfile (ApplyProfile s) = st_ReasoningAIDeepProfile s"
  "st_ReasoningProfilesByProvider (ApplyProfile s) = st_ReasoningProfilesByProvider s"
  "st_AutoUpdateEnabled (ApplyProfile s) = st_AutoUpdateEnabled s"
  "st_AutoUpdateMode (ApplyProfile s) = st_AutoUpdateMode s"
  "st_AutoUpdateRefillMinutes (ApplyProfile s) = st_AutoUpdateRefillMinutes s"
  "st_PreparedBatchLimit (ApplyProfile s) = st_PreparedBatchLimit s"
  "st_AutoUpdateDailyTokenBudget (ApplyProfile s) = st_AutoUpdateDailyTokenBudget s"
  "st_AutoUpdateManualReservePct (ApplyProfile s) = st_AutoUpdateManualReservePct s"
  "st_PreparedBatchMaxAgeHours (ApplyProfile s) = st_PreparedBatchMaxAgeHours s"
  "st_NextBatchBehavior (ApplyProfile s) = st_NextBatchBehavior s"
  by (simp_all add: ApplyProfile_def profile_values_def)

lemma ApplyProfile_profile [simp]:
  "st_LoadProfile (ApplyProfile s) =
     (if st_LoadProfile s \<in> {''standard'', ''expanded'', ''stress'', ''custom''} then st_LoadProfile s else ''standard'')"
  by (auto simp: ApplyProfile_def profile_values_def)

definition profile_budget :: "(int \<times> int \<times> int \<times> int \<times> int) \<Rightarrow> string \<Rightarrow> (int \<times> int \<times> int \<times> int \<times> int)" where
  "profile_budget own profile =
     (if profile = ''expanded'' then (4, 10, 20, 24, 1000)
      else if profile = ''stress'' then (6, 15, 30, 36, 1000)
      else if profile = ''custom'' then own else (2, 5, 10, 12, 300))"

definition budget_of :: "Settings \<Rightarrow> int \<times> int \<times> int \<times> int \<times> int" where
  "budget_of s = (st_MaxScrolls s, st_MaxItemsPerSource s, st_MaxItemsTotal s, st_TimelineCapacity s,
     st_QualityRetrySettleMS s)"

lemma ApplyProfile_budget [simp]: "budget_of (ApplyProfile s) = profile_budget (budget_of s) (st_LoadProfile s)"
  by (auto simp: ApplyProfile_def profile_values_def budget_of_def profile_budget_def)

lemma budget_eqI:
  assumes "budget_of s = budget_of t"
  shows "st_MaxScrolls s = st_MaxScrolls t" "st_MaxItemsPerSource s = st_MaxItemsPerSource t"
    "st_MaxItemsTotal s = st_MaxItemsTotal t" "st_TimelineCapacity s = st_TimelineCapacity t"
    "st_QualityRetrySettleMS s = st_QualityRetrySettleMS t"
  using assms by (simp_all add: budget_of_def)

lemma fill_defaults_budget [simp]: "budget_of (fill_defaults s) = budget_of s"
  by (simp add: budget_of_def)

text \<open>Normalising twice is normalising once, field by field.\<close>

lemma Normalize_budget: "budget_of (Normalize (Normalize s)) = budget_of (Normalize s)"
  unfolding Normalize_def by (auto simp: profile_budget_def)

lemma Normalize_idem: "Normalize (Normalize s) = Normalize s"
proof (rule Settings.equality)
  show "st_SourceHydrationTimeoutMS (Normalize (Normalize s)) = st_SourceHydrationTimeoutMS (Normalize s)"
    by (simp add: Normalize_def normalize_timeouts_idem)
  show "st_SemanticEventMergeThreshold (Normalize (Normalize s)) = st_SemanticEventMergeThreshold (Normalize s)"
    by (simp add: Normalize_def threshold_nonzero)
qed (use budget_eqI [OF Normalize_budget, of s] in
    \<open>simp_all add: Normalize_def or_default_def or_default_int_def\<close>)

subsection \<open>Normalisation keeps settings valid\<close>

text \<open>The checks as a whole and one by one.\<close>

abbreviation passes :: "(bool \<times> settings_error) list \<Rightarrow> bool" where
  "passes cs \<equiv> list_all (\<lambda>c. \<not> fst c) cs"

lemma Validate_passes:
  "Validate s = None \<longleftrightarrow>
     passes (check_modes s) \<and> passes (check_lifecycle s) \<and> passes (check_reasoning s) \<and>
     passes (check_budgets s) \<and> passes (check_active [] (st_ActiveSources s)) \<and> passes (check_timeouts s)"
  by (auto simp: Validate_def first_error_None list_all_iff)

lemma one_of_default: "\<not> fst (one_of w v as) \<Longrightarrow> d \<in> set as \<Longrightarrow> \<not> fst (one_of w (or_default d v) as)"
  by (simp add: one_of_def or_default_def)

lemma int_of_default: "\<not> fst (int_of w v as) \<Longrightarrow> d \<in> set as \<Longrightarrow> \<not> fst (int_of w (or_default_int d v) as)"
  by (simp add: int_of_def or_default_int_def)

lemma in_range_default:
  "\<not> fst (in_range w v lo hi) \<Longrightarrow> lo \<le> d \<Longrightarrow> d \<le> hi \<Longrightarrow> \<not> fst (in_range w (or_default_int d v) lo hi)"
  by (simp add: in_range_def or_default_int_def)

lemmas default_passes = one_of_default int_of_default in_range_default

lemma freshness_passes:
  "\<not> fst (one_of w v [''header_shade'', ''border_shade'', ''off'']) \<Longrightarrow>
   \<not> fst (one_of w (normalize_freshness v) [''header_shade'', ''border_shade'', ''off''])"
  by (simp add: one_of_def normalize_freshness_def)

lemma threshold_positive: "0 < MinSemanticMergeThreshold"
  unfolding MinSemanticMergeThreshold_def by code_simp

lemma modes_normalized: "passes (check_modes s) \<Longrightarrow> passes (check_modes (Normalize s))"
proof -
  assume p: "passes (check_modes s)"
  then have "MinSemanticMergeThreshold \<le> st_SemanticEventMergeThreshold s" by (simp add: check_modes_def)
  then have t: "st_SemanticEventMergeThreshold s \<noteq> 0" using threshold_positive by simp
  have l: "\<not> fst (one_of w v [''standard'', ''expanded'', ''stress'', ''custom'']) \<Longrightarrow>
    \<not> fst (one_of w (if v \<in> {''standard'', ''expanded'', ''stress'', ''custom''} then v else ''standard'')
      [''standard'', ''expanded'', ''stress'', ''custom''])" for w v by (simp add: one_of_def)
  have u: "ContentContextUpScrollMode_Valid m \<Longrightarrow> ContentContextUpScrollMode_Valid (or_default ''close_offscreen'' m)" for m
    by (simp add: ContentContextUpScrollMode_Valid_def or_default_def)
  show ?thesis
    using p t unfolding check_modes_def Normalize_def
    by (simp only: list.pred_inject fst_conv fill_defaults_fields ApplyProfile_fields ApplyProfile_profile if_False simp_thms)
      (intro conjI; (elim conjE)?; (assumption | rule default_passes freshness_passes l u | simp)+)
qed

lemma lifecycle_normalized: "passes (check_lifecycle s) \<Longrightarrow> passes (check_lifecycle (Normalize s))"
proof -
  assume p: "passes (check_lifecycle s)"
  have r: "\<not> fst (int_of w v [5, 10, 15, 30, 60]) \<Longrightarrow>
    \<not> fst (int_of w (if v = 3 then 15 else or_default_int 15 v) [5, 10, 15, 30, 60])" for w v
    by (simp add: int_of_def or_default_int_def)
  have b: "\<not> fst (int_of w v [1000000, 2000000, 3000000, 5000000]) \<Longrightarrow>
    \<not> fst (int_of w (if v < 1000000 then 2000000 else v) [1000000, 2000000, 3000000, 5000000])" for w v
    by (simp add: int_of_def)
  show ?thesis
    using p unfolding check_lifecycle_def Normalize_def
    by (simp only: list.pred_inject fst_conv fill_defaults_fields ApplyProfile_fields simp_thms)
      (intro conjI; (elim conjE)?; (assumption | rule default_passes r b | simp)+)
qed

lemma valid_profile_default:
  "validReasoningProfileID v \<Longrightarrow> validReasoningProfileID (or_default ''luna_high'' v)"
  by (auto simp: or_default_def validReasoningProfileID_def)

lemma reasoning_normalized: "passes (check_reasoning s) \<Longrightarrow> passes (check_reasoning (Normalize s))"
  by (auto simp: check_reasoning_def Normalize_def Let_def valid_profile_default)

lemma budgets_normalized:
  assumes "passes (check_budgets s)"
  shows "passes (check_budgets (Normalize s))"
proof -
  have b: "budget_of (Normalize s) = profile_budget (budget_of s) (st_LoadProfile s)"
    by (simp add: Normalize_def)
  have "(\<lambda>(a, b, c, d, e). 0 \<le> a \<and> a \<le> 6 \<and> 1 \<le> b \<and> b \<le> 15 \<and> 1 \<le> c \<and> c \<le> 30 \<and> 1 \<le> d \<and> d \<le> 50 \<and>
      0 \<le> e \<and> e \<le> 5000) (budget_of (Normalize s))"
    using assms unfolding b by (auto simp: check_budgets_def in_range_def profile_budget_def budget_of_def)
  with assms show ?thesis
    by (simp add: check_budgets_def in_range_def budget_of_def Normalize_def)
qed

subsection \<open>Timeouts of valid settings\<close>

lemma valid_timeouts:
  assumes "passes (check_timeouts s)"
  obtains m where "st_SourceHydrationTimeoutMS s = Some m" "length m = 4"
    "\<forall>(source, v) \<in> set m. \<exists>d. SourceByID source = Some d \<and> sd_HydrationTimeoutMinMS d \<le> v \<and>
       v \<le> sd_HydrationTimeoutMaxMS d \<and> v mod 1000 = 0"
proof -
  have four: "length Sources = 4" by (simp add: Sources_def sourceRegistry_def)
  obtain m where m: "st_SourceHydrationTimeoutMS s = Some m"
    using assms four by (cases "st_SourceHydrationTimeoutMS s") (auto simp: check_timeouts_def)
  have "length m = 4" "passes (concat (map check_timeout m))"
    using assms m four by (simp_all add: check_timeouts_def)
  moreover have "\<exists>d. SourceByID source = Some d \<and> sd_HydrationTimeoutMinMS d \<le> v \<and>
      v \<le> sd_HydrationTimeoutMaxMS d \<and> v mod 1000 = 0" if "(source, v) \<in> set m" for source v
  proof -
    have "passes (check_timeout (source, v))"
      using \<open>passes (concat (map check_timeout m))\<close> that by (auto simp: list_all_iff)
    then show ?thesis by (auto simp: check_timeout_def split: option.splits)
  qed
  ultimately show ?thesis using that m by blast
qed

text \<open>A map with four distinct registered keys has every registered key.\<close>

lemma four_registered_keys:
  assumes "distinct (map fst m)" "length m = 4" "\<forall>p \<in> set m. Source_Valid (fst p)" "Source_Valid source"
  shows "\<exists>v. (source, v) \<in> set m"
proof -
  let ?R = "{SourceX, SourceLinkedIn, SourceFacebook, SourceInstagram}"
  have "card (set (map fst m)) = 4" using assms(1,2) distinct_card [OF assms(1)] by simp
  moreover have "set (map fst m) \<subseteq> ?R" using assms(3) by (auto simp: Source_Valid_iff)
  moreover have "card ?R = 4" by simp
  ultimately have "set (map fst m) = ?R" by (intro card_subset_eq) simp_all
  with assms(4) have "source \<in> set (map fst m)" by (simp add: Source_Valid_iff)
  then show ?thesis by auto
qed

lemma valid_timeout_of:
  assumes "passes (check_timeouts s)" "distinct (map fst (case st_SourceHydrationTimeoutMS s of None \<Rightarrow> [] | Some m \<Rightarrow> m))"
    "SourceByID source = Some d"
  shows "sd_HydrationTimeoutMinMS d \<le> SourceHydrationTimeout s source \<and>
    SourceHydrationTimeout s source \<le> sd_HydrationTimeoutMaxMS d \<and> SourceHydrationTimeout s source mod 1000 = 0"
    and "\<exists>m v. st_SourceHydrationTimeoutMS s = Some m \<and> map_of m source = Some v \<and> 0 < v"
proof -
  obtain m where m: "st_SourceHydrationTimeoutMS s = Some m" "length m = 4"
    "\<forall>(source, v) \<in> set m. \<exists>d. SourceByID source = Some d \<and> sd_HydrationTimeoutMinMS d \<le> v \<and>
       v \<le> sd_HydrationTimeoutMaxMS d \<and> v mod 1000 = 0"
    using valid_timeouts [OF assms(1)] .
  have "\<forall>p \<in> set m. Source_Valid (fst p)" using m(3) by (fastforce simp: Source_Valid_def)
  then obtain v where v: "(source, v) \<in> set m"
    using four_registered_keys [of m source] assms(2,3) m(1,2) by (auto simp: Source_Valid_def)
  then have mv: "map_of m source = Some v" using assms(2) m(1) by (simp add: map_of_eq_Some_iff)
  have b: "sd_HydrationTimeoutMinMS d \<le> v" "v \<le> sd_HydrationTimeoutMaxMS d" "v mod 1000 = 0"
    using m(3) v assms(3) by fastforce+
  have "0 < v" using registry_timeouts [of d] SourceByID_Some [OF assms(3)] b by simp
  with b m(1) mv show "sd_HydrationTimeoutMinMS d \<le> SourceHydrationTimeout s source \<and>
    SourceHydrationTimeout s source \<le> sd_HydrationTimeoutMaxMS d \<and> SourceHydrationTimeout s source mod 1000 = 0"
    and "\<exists>m v. st_SourceHydrationTimeoutMS s = Some m \<and> map_of m source = Some v \<and> 0 < v"
    by (simp_all add: SourceHydrationTimeout_def)
qed

lemma timeouts_normalized:
  assumes "passes (check_timeouts s)" "distinct (map fst (case st_SourceHydrationTimeoutMS s of None \<Rightarrow> [] | Some m \<Rightarrow> m))"
  shows "passes (check_timeouts (Normalize s))"
proof -
  obtain m where m: "st_SourceHydrationTimeoutMS s = Some m" using valid_timeouts [OF assms(1)] .
  have "timeouts_filled Sources m"
    using valid_timeout_of(2) [OF assms SourceByID_registered] m
    by (fastforce simp: timeouts_filled_def Sources_def)
  then have "normalize_timeouts (st_SourceHydrationTimeoutMS s) = st_SourceHydrationTimeoutMS s"
    using m by (simp add: normalize_timeouts_def fold_normalize_id)
  with assms(1) show ?thesis by (simp add: check_timeouts_def Normalize_def)
qed

subsection \<open>Properties\<close>

text \<open>Normalising settings is idempotent: a settings value that was loaded and normalised once is a fixed
  point, whatever fields were missing or legacy in the stored value.\<close>

lemma settings_normalize_idempotent: "Normalize (Normalize s) = Normalize s"
  by (rule Normalize_idem)

text \<open>Normalisation never breaks valid settings: what passes \<open>Validate\<close> still passes after \<open>Normalize\<close>,
  although the load profile rewrites the budgets.\<close>

theorem settings_normalize_keeps_valid:
  assumes "Validate s = None"
    "distinct (map fst (case st_SourceHydrationTimeoutMS s of None \<Rightarrow> [] | Some m \<Rightarrow> m))"
  shows "Validate (Normalize s) = None"
proof -
  have "st_ActiveSources (Normalize s) = st_ActiveSources s" by (simp add: Normalize_def)
  with assms show ?thesis
    using modes_normalized lifecycle_normalized reasoning_normalized budgets_normalized timeouts_normalized [of s]
    by (simp add: Validate_passes)
qed

text \<open>The default settings of the stress profile, with the threshold's checks evaluated.\<close>

definition sample_settings :: Settings where
  "sample_settings = DefaultSettings ''stress'' ''quiet'' ''guarded_live'' False"

lemma default_threshold_ok:
  "MinSemanticMergeThreshold \<le> DefaultSemanticMergeThreshold"
  "DefaultSemanticMergeThreshold \<le> MaxSemanticMergeThreshold" "hundredths DefaultSemanticMergeThreshold"
proof -
  have c: "DefaultSemanticMergeThreshold = 8286623314361713 / 9007199254740992"
    unfolding DefaultSemanticMergeThreshold_def by code_simp
  have s: "f64_round (207165582859042825 / 2251799813685248) = 92"
  proof -
    have "\<lfloor>207165582859042825 / 32 :: rat\<rfloor> = 6473924464345088" by (simp add: floor_eq_iff)
    then show ?thesis by (subst f64_round_in_binade [of "- 46"]) (simp_all add: pow2_def round_even_def Let_def)
  qed
  show "MinSemanticMergeThreshold \<le> DefaultSemanticMergeThreshold"
    "DefaultSemanticMergeThreshold \<le> MaxSemanticMergeThreshold"
    unfolding MinSemanticMergeThreshold_def MaxSemanticMergeThreshold_def DefaultSemanticMergeThreshold_def
    by (intro f64_round_mono; simp)+
  have "fmul DefaultSemanticMergeThreshold 100 = 92" using s by (simp add: c fmul_def)
  moreover have "\<lfloor>185 / 2 :: rat\<rfloor> = 92" by (simp add: floor_eq_iff)
  ultimately show "hundredths DefaultSemanticMergeThreshold"
    by (simp add: hundredths_def math_Round_def fsub_def f64_round_nonneg)
qed

lemma default_settings_fields:
  "st_SemanticEventMergeThreshold (DefaultSettings p v m b) = DefaultSemanticMergeThreshold"
  "st_SourceHydrationTimeoutMS (DefaultSettings p v m b) = Some DefaultSourceHydrationTimeouts"
  "st_ActiveSources (DefaultSettings p v m b) = DefaultSources"
  "st_ReasoningProfilesByProvider (DefaultSettings p v m b) = None"
  "budget_of (DefaultSettings p v m b) = profile_budget (0, 0, 0, 0, 0) p"
  by (simp_all add: DefaultSettings_def) (simp add: budget_of_def)

lemma default_registry:
  "DefaultSources = [SourceX, SourceLinkedIn, SourceFacebook, SourceInstagram]"
  "DefaultSourceHydrationTimeouts =
     [(SourceX, 12000), (SourceLinkedIn, 18000), (SourceFacebook, 25000), (SourceInstagram, 15000)]"
  by (simp_all add: DefaultSources_def DefaultSourceHydrationTimeouts_def sourceRegistry_def)

lemma default_active_ok: "passes (check_active [] DefaultSources)"
  by (simp add: default_registry Source_Valid_iff)

lemma default_timeouts_ok: "passes (check_timeouts (DefaultSettings p v m b))"
proof -
  have "passes (concat (map check_timeout DefaultSourceHydrationTimeouts))"
    by (simp add: default_registry check_timeout_def SourceByID_def sourceRegistry_def)
  then show ?thesis
    by (simp add: check_timeouts_def default_settings_fields Sources_def sourceRegistry_def default_registry)
qed

lemma default_modes_ok:
  assumes "profile \<in> {''standard'', ''expanded'', ''stress''}"
    "visibility \<in> {''quiet_multi_window'', ''quiet'', ''adaptive_fidelity''}"
    "mode \<in> {''rank_only'', ''promote_unused_budget'', ''guarded_live''}"
  shows "passes (check_modes (DefaultSettings profile visibility mode b))"
proof -
  have "st_LoadProfile (DefaultSettings profile visibility mode b) = profile"
    using assms(1) by (auto simp: DefaultSettings_def)
  moreover have "\<not> fst (one_of w visibility [''quiet_multi_window'', ''quiet'', ''adaptive_fidelity''])"
    "\<not> fst (one_of w mode [''rank_only'', ''promote_unused_budget'', ''guarded_live''])"
    "\<not> fst (one_of w profile [''standard'', ''expanded'', ''stress'', ''custom''])" for w
    using assms by (auto simp: one_of_def)
  ultimately show ?thesis
    using default_threshold_ok
    by (simp add: check_modes_def default_settings_fields)
      (simp add: DefaultSettings_def one_of_def int_of_def in_range_def ContentContextUpScrollMode_Valid_def)
qed

lemma default_rest_ok:
  assumes "profile \<in> {''standard'', ''expanded'', ''stress''}"
  shows "passes (check_lifecycle (DefaultSettings profile visibility mode b))"
    "passes (check_reasoning (DefaultSettings profile visibility mode b))"
    "passes (check_budgets (DefaultSettings profile visibility mode b))"
proof -
  show "passes (check_lifecycle (DefaultSettings profile visibility mode b))"
    by (simp add: check_lifecycle_def DefaultSettings_def one_of_def int_of_def in_range_def)
  have "validReasoningProfileID ''luna_high''" by code_simp
  then show "passes (check_reasoning (DefaultSettings profile visibility mode b))"
    by (simp add: check_reasoning_def DefaultSettings_def)
  have b: "budget_of (DefaultSettings profile visibility mode b) = profile_budget (0, 0, 0, 0, 0) profile"
    by (rule default_settings_fields)
  have "st_CalibrationBatchSize (DefaultSettings profile visibility mode b) = 10" by (simp add: DefaultSettings_def)
  with b show "passes (check_budgets (DefaultSettings profile visibility mode b))"
    using assms
    by (auto simp: check_budgets_def in_range_def budget_of_def profile_budget_def default_settings_fields
        default_registry Sources_def sourceRegistry_def)
qed

lemma DefaultSettings_valid:
  assumes "profile \<in> {''standard'', ''expanded'', ''stress''}"
    "visibility \<in> {''quiet_multi_window'', ''quiet'', ''adaptive_fidelity''}"
    "mode \<in> {''rank_only'', ''promote_unused_budget'', ''guarded_live''}"
  shows "Validate (DefaultSettings profile visibility mode openMissing) = None"
  using default_modes_ok [OF assms] default_rest_ok [OF assms(1)] default_active_ok default_timeouts_ok
  by (simp add: Validate_passes default_settings_fields)

lemma sample_settings_valid: "Validate sample_settings = None"
  unfolding sample_settings_def by (rule DefaultSettings_valid) simp_all

lemma sample_settings_distinct:
  "distinct (map fst (case st_SourceHydrationTimeoutMS sample_settings of None \<Rightarrow> [] | Some m \<Rightarrow> m))"
  by (simp add: sample_settings_def default_settings_fields default_registry)

theorem settings_normalize_keeps_valid_witness: "Validate (Normalize sample_settings) = None"
  by (rule settings_normalize_keeps_valid [OF sample_settings_valid sample_settings_distinct])

text \<open>The defaults are valid: for every named load profile, capture visibility and preference mode the settings of a
  fresh installation pass \<open>Validate\<close>, the 0.92 merge threshold included with its binary64 rounding.\<close>

lemma default_settings_valid:
  assumes "profile \<in> {''standard'', ''expanded'', ''stress''}"
    "visibility \<in> {''quiet_multi_window'', ''quiet'', ''adaptive_fidelity''}"
    "mode \<in> {''rank_only'', ''promote_unused_budget'', ''guarded_live''}"
  shows "Validate (DefaultSettings profile visibility mode openMissing) = None"
  by (rule DefaultSettings_valid [OF assms])

theorem default_settings_valid_witness:
  "Validate (DefaultSettings ''standard'' ''quiet_multi_window'' ''rank_only'' True) = None"
  by (rule default_settings_valid) simp_all

text \<open>Valid settings give every registered source a hydration timeout within its descriptor's bounds and in whole
  seconds: the lookup never falls back on the default and never returns an out-of-range value.\<close>

lemma valid_settings_bound_timeouts:
  assumes "Validate s = None"
    "distinct (map fst (case st_SourceHydrationTimeoutMS s of None \<Rightarrow> [] | Some m \<Rightarrow> m))"
    "SourceByID source = Some d"
  shows "sd_HydrationTimeoutMinMS d \<le> SourceHydrationTimeout s source \<and>
    SourceHydrationTimeout s source \<le> sd_HydrationTimeoutMaxMS d \<and> SourceHydrationTimeout s source mod 1000 = 0"
  using valid_timeout_of(1) [OF _ assms(2,3)] assms(1) by (simp add: Validate_passes)

theorem valid_settings_bound_timeouts_witness:
  "\<exists>d. SourceByID SourceFacebook = Some d \<and> SourceHydrationTimeout sample_settings SourceFacebook \<le> 30000"
proof -
  obtain d where d: "SourceByID SourceFacebook = Some d" "sd_HydrationTimeoutMaxMS d = 30000"
    by (simp add: SourceByID_def sourceRegistry_def)
  with valid_settings_bound_timeouts [OF sample_settings_valid sample_settings_distinct d(1)] show ?thesis by auto
qed

text \<open>The update policy admits exactly four combinations of trigger, delivery and budget: onboarding
  updates are visible on the user's budget, scheduled ones prepared on the automatic budget, and a user may
  have either pairing; every other policy is an error.\<close>

lemma update_policy_exact:
  "UpdatePolicy_Validate p = None \<longleftrightarrow>
     (up_Trigger p, up_Delivery p, up_BudgetAuthority p) \<in>
       {(''onboarding'', ''visible'', ''user''), (''scheduler'', ''prepared'', ''automatic''),
        (''user'', ''visible'', ''user''), (''user'', ''prepared'', ''automatic'')}"
  by (auto simp: UpdatePolicy_Validate_def Let_def one_of_def split: if_splits)

text \<open>Remembering and re-applying a provider's reasoning profiles is a round trip: after
  \<open>RememberReasoningProfileSet\<close> for a non-blank provider the stored set is the active one, applying it gives back the
  active selection, other providers' sets are untouched, and a second call reports no change.\<close>

lemma reasoning_profiles_roundtrip:
  assumes "trim_space provider \<noteq> []" "RememberReasoningProfileSet provider s = (t, changed)"
  shows "\<exists>m. st_ReasoningProfilesByProvider t = Some m \<and>
    map_of m (trim_space provider) = Some (ActiveReasoningProfileSet s) \<and>
    (other = trim_space provider \<or>
      map_of m other = map_of (case st_ReasoningProfilesByProvider s of None \<Rightarrow> [] | Some m0 \<Rightarrow> m0) other) \<and>
    ActiveReasoningProfileSet (ApplyReasoningProfileSet (ActiveReasoningProfileSet s) u) = ActiveReasoningProfileSet s \<and>
    RememberReasoningProfileSet provider t = (t, False)"
proof -
  define m0 where "m0 = (case st_ReasoningProfilesByProvider s of None \<Rightarrow> [] | Some m \<Rightarrow> m)"
  define m where "m = (if map_of m0 (trim_space provider) = Some (ActiveReasoningProfileSet s) then m0
    else put (trim_space provider) (ActiveReasoningProfileSet s) m0)"
  have t: "t = s\<lparr>st_ReasoningProfilesByProvider := Some m\<rparr>"
    using assms unfolding RememberReasoningProfileSet_def Let_def m0_def [symmetric] m_def
    by (auto split: if_splits)
  have a: "ActiveReasoningProfileSet t = ActiveReasoningProfileSet s"
    by (simp add: t ActiveReasoningProfileSet_def)
  have m1: "map_of m (trim_space provider) = Some (ActiveReasoningProfileSet s)"
    by (simp add: m_def map_of_put)
  have "RememberReasoningProfileSet provider t = (t, False)"
    using assms(1) m1 a by (simp add: RememberReasoningProfileSet_def Let_def t)
  moreover have "other = trim_space provider \<or> map_of m other = map_of m0 other"
    by (simp add: m_def map_of_put)
  moreover have "ActiveReasoningProfileSet (ApplyReasoningProfileSet v u) = v" for v :: ReasoningProfileSet
    by (simp add: ActiveReasoningProfileSet_def ApplyReasoningProfileSet_def)
  ultimately show ?thesis using m1 t by (auto simp: m0_def)
qed

theorem reasoning_profiles_roundtrip_witness:
  "\<exists>t m. RememberReasoningProfileSet '' codex '' sample_settings = (t, True) \<and>
     st_ReasoningProfilesByProvider t = Some m \<and> map_of m ''codex'' \<noteq> None"
proof -
  have p: "trim_space '' codex '' = ''codex''" by code_simp
  obtain t c where t: "RememberReasoningProfileSet '' codex '' sample_settings = (t, c)" by fastforce
  have "c" using t p
    by (auto simp: RememberReasoningProfileSet_def sample_settings_def default_settings_fields Let_def)
  with t reasoning_profiles_roundtrip [OF _ t, of "''codex''" undefined] p show ?thesis by auto
qed

end
