(* ===== verification/Semantic_Text.thy ===== *)
theory Semantic_Text
  imports Domain_Types "HOL-Library.List_Lexorder" "HOL-Library.Char_ord"
begin

text \<open>
  The text side of the semantic event engine (\<open>src/internal/eventengine\<close>): removal of URLs, the
  significant words of a text, the overlap of two texts, event keys, and the bounded excerpts
  that the resolver prompt carries (\<open>resolver.go\<close>). A \<open>map[string]bool\<close> used as a set of words is
  the list of its keys without repetition; every observable use sorts it, so the order is
  immaterial (\<open>intersection_cong\<close>). \<open>sort.Strings\<close> orders byte strings lexicographically, which is
  the library's order on lists of characters.

  \<open>unicode.IsLetter\<close> and \<open>IsDigit\<close> are those of ASCII, with every byte above 127 counted as part
  of a word: non-ASCII letters are read as the code reads them, a non-ASCII punctuation mark is not
  taken as a separator.
\<close>

subsection \<open>URLs\<close>

text \<open>\<open>\S\<close> of Go's \<open>regexp\<close>: any byte but tab, newline, form feed, carriage return and space.\<close>

definition visible :: "char \<Rightarrow> bool" where
  "visible c = (of_char c \<notin> {9, 10, 12, 13, 32::nat})"

definition url_schemes :: "string list" where
  "url_schemes = [''https://'', ''http://'', ''www.'']"

text \<open>\<open>url_rest s\<close>: what is left of \<open>s\<close> after a match of \<open>urlPattern\<close> at its start, if there is one.\<close>

definition url_rest :: "string \<Rightarrow> string option" where
  "url_rest s =
     (case List.find (\<lambda>p. to_lower (take (length p) s) = p) url_schemes of
        None \<Rightarrow> None
      | Some p \<Rightarrow>
          (case drop (length p) s of
             [] \<Rightarrow> None
           | c # t \<Rightarrow> if visible c then Some (dropWhile visible t) else None))"

lemma url_rest_shorter: "url_rest s = Some r \<Longrightarrow> length r < length s"
proof -
  assume "url_rest s = Some r"
  then obtain p :: string and c t where "drop (length p) s = c # t" "r = dropWhile visible t"
    by (auto simp: url_rest_def split: option.splits list.splits if_splits)
  moreover from this(1) have "length t < length s"
    by (metis length_Cons length_drop lessI less_le_trans diff_le_self)
  ultimately show "length r < length s"
    using length_dropWhile_le [of visible t] by simp
qed

text \<open>\<open>urlPattern.ReplaceAllString(value, " ")\<close>.\<close>

function strip_urls :: "string \<Rightarrow> string" where
  "strip_urls [] = []"
| "strip_urls (c # s) =
     (case url_rest (c # s) of
        Some r \<Rightarrow> CHR '' '' # strip_urls r
      | None \<Rightarrow> c # strip_urls s)"
  by pat_completeness auto
termination
  by (relation "measure length") (auto dest: url_rest_shorter)

subsection \<open>Words\<close>

definition word_char :: "char \<Rightarrow> bool" where
  "word_char c =
     (let n = of_char c :: nat in
      48 \<le> n \<and> n \<le> 57 \<or> 65 \<le> n \<and> n \<le> 90 \<or> 97 \<le> n \<and> n \<le> 122 \<or> 128 \<le> n)"

text \<open>\<open>strings.FieldsFunc\<close> with the separators that are no word characters.\<close>

fun words_acc :: "string \<Rightarrow> string \<Rightarrow> string list" where
  "words_acc w [] = (if w = [] then [] else [rev w])"
| "words_acc w (c # s) =
     (if word_char c then words_acc (c # w) s
      else if w = [] then words_acc [] s else rev w # words_acc [] s)"

definition stopWords :: "string list" where
  "stopWords =
    [''about'', ''after'', ''again'', ''akan'', ''adalah'', ''also'', ''and'', ''are'', ''atau'',
     ''bahwa'', ''bisa'', ''but'', ''can'', ''com'', ''could'', ''dari'', ''dengan'', ''did'',
     ''does'', ''feed'', ''for'', ''from'', ''full'', ''had'', ''has'', ''have'', ''here'',
     ''how'', ''http'', ''https'', ''ini'', ''instead'', ''into'', ''its'', ''itu'', ''karena'',
     ''linkedin'', ''lnkd'', ''may'', ''more'', ''most'', ''never'', ''new'', ''news'', ''not'',
     ''now'', ''one'', ''only'', ''our'', ''pada'', ''post'', ''posts'', ''reported'', ''said'',
     ''saat'', ''say'', ''says'', ''saya'', ''share'', ''shared'', ''should'', ''status'', ''still'',
     ''sudah'', ''than'', ''that'', ''the'', ''their'', ''them'', ''then'', ''there'', ''they'',
     ''think'', ''this'', ''through'', ''tidak'', ''time'', ''toward'', ''twitter'', ''under'',
     ''untuk'', ''update'', ''very'', ''via'', ''was'', ''were'', ''will'', ''with'', ''would'',
     ''www'', ''yang'', ''year'', ''you'', ''your'']"

definition tokens :: "string \<Rightarrow> string list" where
  "tokens value =
     remdups (filter (\<lambda>w. 3 \<le> rune_count w \<and> w \<notin> set stopWords)
       (words_acc [] (to_lower (strip_urls value))))"

definition intersection :: "string list \<Rightarrow> string list \<Rightarrow> string list" where
  "intersection left right = sort (filter (\<lambda>v. v \<in> set right) left)"

definition normalizeEventKey :: "string \<Rightarrow> string" where
  "normalizeEventKey value = join ''-'' (intersection (tokens value) (tokens value))"

definition receiptEventKey :: "string \<Rightarrow> string" where
  "receiptEventKey value = join '' '' (sort (tokens value))"

subsection \<open>Bounded text\<close>

text \<open>The ellipsis rune U+2026 in UTF-8.\<close>

definition ellipsis :: string where
  "ellipsis = map char_of [0xE2, 0x80, 0xA6 :: nat]"

definition boundedText :: "string \<Rightarrow> nat \<Rightarrow> string" where
  "boundedText value limit =
     (let v = trim_space value in
      if rune_count v \<le> limit then v else trim_space (take_runes limit v) @ ellipsis)"

subsection \<open>Facts about URLs\<close>

text \<open>At most one scheme starts a text: the first found is the only one.\<close>

lemma url_schemes_disjoint:
  assumes "p \<in> set url_schemes" "q \<in> set url_schemes" "has_prefix p s" "has_prefix q s"
  shows "p = q"
proof -
  obtain a where a: "s = p @ a" using assms(3) unfolding has_prefix_iff ..
  obtain b where b: "s = q @ b" using assms(4) unfolding has_prefix_iff ..
  from a b have "take 5 (p @ a) = take 5 (q @ b)" by simp
  with assms(1,2) show ?thesis by (auto simp: url_schemes_def)
qed

lemma find_scheme:
  "p \<in> set url_schemes \<Longrightarrow> has_prefix p s \<Longrightarrow> List.find (\<lambda>q. has_prefix q s) url_schemes = Some p"
proof (cases "List.find (\<lambda>q. has_prefix q s) url_schemes")
  case None
  assume "p \<in> set url_schemes" "has_prefix p s"
  with None show ?thesis by (auto simp: find_None_iff)
next
  case (Some q)
  assume "p \<in> set url_schemes" "has_prefix p s"
  moreover from Some have "q \<in> set url_schemes" "has_prefix q s" by (auto simp: find_Some_iff)
  ultimately have "p = q" by (intro url_schemes_disjoint)
  with Some show ?thesis by simp
qed

lemma scheme_matches: "to_lower (take (length p) s) = p \<longleftrightarrow> has_prefix p (to_lower s)"
  by (simp add: has_prefix_def to_lower_def take_map)

text \<open>Where a match starts: a scheme in any letter case, then a visible character.\<close>

definition url_at :: "string \<Rightarrow> bool" where
  "url_at s \<longleftrightarrow> (\<exists>p d t. s = p @ d # t \<and> to_lower p \<in> set url_schemes \<and> visible d)"

lemma url_rest_None: "url_rest s = None \<longleftrightarrow> \<not> url_at s"
proof
  show "url_rest s = None \<Longrightarrow> \<not> url_at s"
  proof
    assume none: "url_rest s = None" and "url_at s"
    then obtain p d t where s: "s = p @ d # t" "to_lower p \<in> set url_schemes" "visible d"
      by (auto simp: url_at_def)
    then have "has_prefix (to_lower p) (to_lower s)" by (simp add: to_lower_append)
    from find_scheme [OF s(2) this] none have "drop (length (to_lower p)) s = [] \<or> \<not> visible d"
      unfolding url_rest_def scheme_matches using s(1) by (auto split: if_splits)
    with s show False by simp
  qed
next
  assume no: "\<not> url_at s"
  show "url_rest s = None"
  proof (rule ccontr)
    assume "url_rest s \<noteq> None"
    then obtain q c t where q: "List.find (\<lambda>p. has_prefix p (to_lower s)) url_schemes = Some q"
      "drop (length q) s = c # t" "visible c"
      by (auto simp: url_rest_def scheme_matches split: option.splits list.splits if_splits)
    then have scheme: "q \<in> set url_schemes" "take (length q) (to_lower s) = q"
      by (auto simp: find_Some_iff has_prefix_def)
    then have "to_lower (take (length q) s) = q" by (simp add: to_lower_def take_map)
    moreover have "s = take (length q) s @ c # t" using q(2) by (metis append_take_drop_id)
    ultimately have "url_at s" using scheme(1) q(3) unfolding url_at_def by metis
    with no show False ..
  qed
qed

fun url_free :: "string \<Rightarrow> bool" where
  "url_free [] = True"
| "url_free (c # s) = (url_rest (c # s) = None \<and> url_free s)"

text \<open>Up to its first space, the stripped text is the text.\<close>

lemma strip_urls_visible_part:
  "strip_urls s = a @ b \<Longrightarrow> CHR '' '' \<notin> set a \<Longrightarrow> \<exists>b'. s = a @ b'"
proof (induction a arbitrary: s)
  case Nil
  then show ?case by simp
next
  case (Cons x a)
  then obtain c s' where s: "s = c # s'" by (cases s) auto
  with Cons.prems have "url_rest s = None" by (auto split: option.splits)
  with Cons.prems s have "strip_urls s' = a @ b" "x = c" by auto
  with Cons.IH [of s'] Cons.prems(2) s show ?case by auto
qed

lemma space_in_scheme: "to_lower p \<in> set url_schemes \<Longrightarrow> CHR '' '' \<notin> set p"
proof
  assume p: "to_lower p \<in> set url_schemes" and "CHR '' '' \<in> set p"
  then have "lower_char CHR '' '' \<in> set (to_lower p)" by (auto simp: to_lower_def)
  then have "CHR '' '' \<in> set (to_lower p)" by (simp add: lower_char_def)
  with p show False by (auto simp: url_schemes_def)
qed

lemma url_at_strip: "url_at (c # strip_urls s) \<Longrightarrow> url_at (c # s)"
proof -
  assume "url_at (c # strip_urls s)"
  then obtain p d t where p: "c # strip_urls s = p @ d # t" "to_lower p \<in> set url_schemes" "visible d"
    by (auto simp: url_at_def)
  from p(2) obtain q where q: "p = c # q" using p(1) by (cases p) (auto simp: url_schemes_def)
  have "CHR '' '' \<notin> set (q @ [d])"
    using space_in_scheme [OF p(2)] p(3) q by (auto simp: visible_def)
  moreover have "strip_urls s = (q @ [d]) @ t" using p(1) q by simp
  ultimately obtain b where "s = (q @ [d]) @ b" using strip_urls_visible_part by blast
  then have "c # s = p @ d # b" using q by simp
  with p show "url_at (c # s)" unfolding url_at_def by blast
qed

lemma url_at_space: "\<not> url_at (CHR '' '' # s)"
proof
  assume "url_at (CHR '' '' # s)"
  then obtain p d t where "CHR '' '' # s = p @ d # t" "to_lower p \<in> set url_schemes"
    by (auto simp: url_at_def)
  then show False using space_in_scheme [of p] by (cases p) (auto simp: url_schemes_def)
qed

text \<open>No URL survives the replacement, not even one put together by it; so it is idempotent.\<close>

lemma strip_urls_free: "url_free (strip_urls s)"
proof (induction s rule: strip_urls.induct)
  case 1
  show ?case by simp
next
  case (2 c s)
  show ?case
  proof (cases "url_rest (c # s)")
    case None
    then have "url_rest (c # strip_urls s) = None"
      using url_at_strip url_rest_None by blast
    with None 2 show ?thesis by simp
  next
    case (Some r)
    with 2 url_at_space show ?thesis by (simp add: url_rest_None)
  qed
qed

lemma strip_urls_id: "url_free s \<Longrightarrow> strip_urls s = s"
  by (induction s) auto

lemma strip_urls_idem [simp]: "strip_urls (strip_urls s) = strip_urls s"
  by (simp add: strip_urls_id strip_urls_free)

lemma url_free_dropWhile: "url_free s \<Longrightarrow> url_free (dropWhile P s)"
  by (induction s) auto

lemma url_at_append: "url_at s \<Longrightarrow> url_at (s @ t)"
  unfolding url_at_def by (metis append_assoc append_Cons)

lemma url_free_append1: "url_free (s @ t) \<Longrightarrow> url_free s"
proof (induction s)
  case Nil
  show ?case by simp
next
  case (Cons c s)
  then show ?case using url_at_append [of "c # s" t] by (auto simp: url_rest_None)
qed

lemma url_free_trim_space: "url_free s \<Longrightarrow> url_free (trim_space s)"
proof -
  assume "url_free s"
  then have l: "url_free (dropWhile is_space s)" by (rule url_free_dropWhile)
  define l' where "l' = dropWhile is_space s"
  have "rev (takeWhile is_space (rev l') @ dropWhile is_space (rev l')) = l'" by simp
  then have "rev (dropWhile is_space (rev l')) @ rev (takeWhile is_space (rev l')) = l'"
    by (simp only: rev_append)
  with l have "url_free (rev (dropWhile is_space (rev l')))"
    unfolding l'_def [symmetric] by (metis url_free_append1)
  then show ?thesis by (simp add: trim_space_def trim_left_def l'_def)
qed

subsection \<open>Facts about words\<close>

lemma distinct_tokens [simp]: "distinct (tokens value)"
  by (simp add: tokens_def)

lemma tokens_significant: "w \<in> set (tokens value) \<Longrightarrow> 3 \<le> rune_count w \<and> w \<notin> set stopWords"
  by (simp add: tokens_def)

lemma set_intersection [simp]: "set (intersection l r) = set l \<inter> set r"
  by (auto simp: intersection_def)

lemma sorted_intersection [simp]: "sorted (intersection l r)"
  by (simp add: intersection_def)

lemma distinct_intersection [simp]: "distinct l \<Longrightarrow> distinct (intersection l r)"
  by (simp add: intersection_def)

text \<open>The overlap depends only on the two sets of words, and is symmetric.\<close>

lemma intersection_cong:
  assumes "distinct l" "distinct l'" "set l \<inter> set r = set l' \<inter> set r'"
  shows "intersection l r = intersection l' r'"
  using assms by (intro sorted_distinct_set_unique) simp_all

lemma intersection_commute: "distinct l \<Longrightarrow> distinct r \<Longrightarrow> intersection l r = intersection r l"
  by (rule intersection_cong) auto

lemma length_intersection_le:
  assumes "distinct l"
  shows "length (intersection l r) \<le> length l"
  by (simp add: intersection_def)

text \<open>Two event keys with the same significant words are the same key.\<close>

lemma event_keys_cong:
  assumes "set (tokens a) = set (tokens b)"
  shows "normalizeEventKey a = normalizeEventKey b" "receiptEventKey a = receiptEventKey b"
proof -
  have "intersection (tokens a) (tokens a) = intersection (tokens b) (tokens b)"
    using assms by (intro intersection_cong) simp_all
  then show "normalizeEventKey a = normalizeEventKey b" by (simp add: normalizeEventKey_def)
  have "sort (tokens a) = sort (tokens b)"
    using assms by (intro sorted_distinct_set_unique) simp_all
  then show "receiptEventKey a = receiptEventKey b" by (simp add: receiptEventKey_def)
qed

subsection \<open>Facts about bounded text\<close>

lemma rune_count_dropWhile: "rune_count (dropWhile P s) \<le> rune_count s"
  by (induction s) (auto simp: rune_count_def)

lemma rune_count_rev [simp]: "rune_count (rev s) = rune_count s"
  by (simp add: rune_count_def rev_filter [symmetric])

lemma rune_count_trim_space: "rune_count (trim_space s) \<le> rune_count s"
  unfolding trim_space_def trim_left_def
  by (metis rune_count_dropWhile rune_count_rev le_trans)

lemma rune_count_ellipsis [simp]: "rune_count ellipsis = 1"
  by (simp add: rune_count_def ellipsis_def continuation_byte_def)

text \<open>A bounded text has at most one rune (the ellipsis) more than its limit.\<close>

lemma boundedText_bound: "rune_count (boundedText value limit) \<le> limit + 1"
proof -
  have "rune_count (trim_space (take_runes limit v)) \<le> limit" for v
    using rune_count_trim_space rune_count_take_runes le_trans by blast
  then show ?thesis
    by (simp add: boundedText_def Let_def rune_count_def [of "_ @ _"] rune_count_def [symmetric] add_mono)
qed

end
