(* ===== verification/Ranking.thy ===== *)
theory Ranking
  imports Main "HOL-Library.Multiset"
begin

text \<open>
  \<open>sort.SliceStable\<close> with a comparison of the caller's: a stable insertion sort, and the contract under
  which it is well defined and yields a ranking, the locale of strict weak orders. The event engine
  ranks its shortlist with it and the content context its matches.
\<close>

fun insert_by :: "('a \<Rightarrow> 'a \<Rightarrow> bool) \<Rightarrow> 'a \<Rightarrow> 'a list \<Rightarrow> 'a list" where
  "insert_by lt x [] = [x]"
| "insert_by lt x (y # ys) = (if lt y x then y # insert_by lt x ys else x # y # ys)"

definition sort_by :: "('a \<Rightarrow> 'a \<Rightarrow> bool) \<Rightarrow> 'a list \<Rightarrow> 'a list" where
  "sort_by lt xs = foldr (insert_by lt) xs []"

abbreviation in_order :: "('a \<Rightarrow> 'a \<Rightarrow> bool) \<Rightarrow> 'a list \<Rightarrow> bool" where
  "in_order lt \<equiv> sorted_wrt (\<lambda>a b. \<not> lt b a)"

definition tied :: "('a \<Rightarrow> 'a \<Rightarrow> bool) \<Rightarrow> 'a \<Rightarrow> 'a \<Rightarrow> bool" where
  "tied lt a b \<longleftrightarrow> \<not> lt a b \<and> \<not> lt b a"

locale strict_weak_order =
  fixes lt :: "'a \<Rightarrow> 'a \<Rightarrow> bool"
  assumes asym: "lt a b \<Longrightarrow> \<not> lt b a"
    and negtrans: "\<not> lt a b \<Longrightarrow> \<not> lt b c \<Longrightarrow> \<not> lt a c"
begin

lemma mset_insert_by [simp]: "mset (insert_by lt x ys) = add_mset x (mset ys)"
  by (induction ys) auto

lemma set_insert_by [simp]: "set (insert_by lt x ys) = insert x (set ys)"
  by (metis mset_insert_by set_mset_add_mset_insert set_mset_mset)

lemma mset_sort_by [simp]: "mset (sort_by lt xs) = mset xs"
  unfolding sort_by_def by (induction xs) auto

lemma set_sort_by [simp]: "set (sort_by lt xs) = set xs"
  by (metis mset_sort_by set_mset_mset)

lemma length_sort_by [simp]: "length (sort_by lt xs) = length xs"
  by (metis mset_sort_by size_mset)

lemma insert_by_in_order: "in_order lt ys \<Longrightarrow> in_order lt (insert_by lt x ys)"
proof (induction ys)
  case (Cons y ys)
  show ?case
  proof (cases "lt y x")
    case True
    with Cons show ?thesis by (auto dest: asym)
  next
    case False
    have "\<not> lt z x" if "z \<in> set ys" for z using negtrans [of z y x] Cons.prems that False by auto
    with False Cons.prems show ?thesis by auto
  qed
qed simp

lemma sort_by_in_order: "in_order lt (sort_by lt xs)"
  unfolding sort_by_def by (induction xs) (auto intro: insert_by_in_order)

lemma filter_insert_by:
  assumes "in_order lt ys"
  shows "filter (tied lt z) (insert_by lt x ys) = (if tied lt z x then x # filter (tied lt z) ys else filter (tied lt z) ys)"
  using assms
proof (induction ys)
  case (Cons y ys)
  have "\<not> tied lt z y" if "lt y x" "tied lt z x"
    using that negtrans [of y z x] by (auto simp: tied_def)
  with Cons show ?case by auto
qed simp

text \<open>Stability: tied elements keep their order.\<close>

lemma sort_by_stable: "filter (tied lt z) (sort_by lt xs) = filter (tied lt z) xs"
proof (induction xs)
  case (Cons x xs)
  have "sort_by lt (x # xs) = insert_by lt x (sort_by lt xs)" by (simp add: sort_by_def)
  with Cons filter_insert_by [OF sort_by_in_order] show ?case by simp
qed (simp add: sort_by_def)

text \<open>The first \<open>n\<close> are the best: what is left out ranks before none of them.\<close>

lemma take_sort_by:
  "\<exists>rest. mset xs = mset (take n (sort_by lt xs) @ rest) \<and> in_order lt (take n (sort_by lt xs) @ rest) \<and>
     (rest = [] \<or> length (take n (sort_by lt xs)) = n)"
proof (intro exI conjI)
  show "mset xs = mset (take n (sort_by lt xs) @ drop n (sort_by lt xs))" by simp
  show "in_order lt (take n (sort_by lt xs) @ drop n (sort_by lt xs))" using sort_by_in_order by simp
  show "drop n (sort_by lt xs) = [] \<or> length (take n (sort_by lt xs)) = n" by auto
qed

end

end
