(* ===== verification/EventEngine.thy ===== *)
theory EventEngine
  imports Semantic_Text Domain_Settings Ranking "HOL-Library.AList" "HOL-Library.Sublist"
begin

text \<open>
  The semantic event engine (\<open>src/internal/eventengine/engine.go\<close>): which captured reports the
  model has to compare, which past events it may compare them with, and how its decisions, the
  user's corrections and exact replays of a source post are turned into stored reports.

  What the engine gets from outside is a parameter: the answers of the store, the structured
  resolver, \<open>domain.NewID\<close>, \<open>domain.Now\<close> and \<open>time.Parse\<close> (an instant in nanoseconds, \<open>None\<close> for an
  error). A \<open>map[string]string\<close> is the association list of its entries, each key once; Go
  iterates over a map in an unspecified order, so the loops of \<open>resolveReports\<close> over the
  constraints of a report take the order as a parameter of each loop.
\<close>

subsection \<open>Data\<close>

record SemanticEventDelta =
  ed_ID :: string
  ed_EventID :: string
  ed_Claim :: string
  ed_Kind :: string
  ed_Source :: Source
  ed_EvidenceKey :: string
  ed_Confidence :: f64
  ed_FirstSeenAt :: string
  ed_LastSeenAt :: string

record SemanticEvent =
  ev_ID :: string
  ev_CanonicalClaim :: string
  ev_Actor :: string
  ev_Action :: string
  ev_Object :: string
  ev_EventKind :: string
  ev_EventStart :: "string option"
  ev_EventEnd :: "string option"
  ev_Aliases :: "string list"
  ev_KnownDeltas :: "SemanticEventDelta list"
  ev_ReportCount :: int
  ev_FirstSeenAt :: string
  ev_LastSeenAt :: string

record ReasonedItem =
  ri_ID :: string
  ri_WhatChanged :: string
  ri_WhyItMatters :: string
  ri_Source :: Source
  ri_SourceURL :: string
  ri_SourceURLKind :: string
  ri_EvidenceKey :: string
  ri_EventKey :: string
  ri_KnowledgeDelta :: string
  ri_Author :: string
  ri_PublishedAt :: "string option"
  ri_Confidence :: f64
  ri_EvidenceState :: string

record SemanticCandidate =
  sc_Alias :: string
  sc_TimelineID :: string
  sc_SessionID :: string
  sc_RunID :: string
  sc_EvidenceKey :: string
  sc_Source :: Source
  sc_Author :: string
  sc_PublishedAt :: "string option"
  sc_Text :: string
  sc_WhatChanged :: string
  sc_EventKey :: string
  sc_TopicTags :: "string list"
  sc_Item :: ReasonedItem

record SemanticDecision =
  de_CandidateAlias :: string
  de_Relation :: string
  de_TargetAlias :: "string option"
  de_Confidence :: f64
  de_Reason :: string
  de_Event :: SemanticEvent

text \<open>\<open>SemanticResolution\<close> is its list of decisions.\<close>

type_synonym SemanticResolution = "SemanticDecision list"

record ResolvedSemanticReport =
  rp_Candidate :: SemanticCandidate
  rp_Event :: SemanticEvent
  rp_Relation :: string
  rp_Confidence :: f64
  rp_Reason :: string
  rp_Corrected :: bool

record triggerSignal =
  ts_Strong :: bool
  ts_Overlap :: nat
  ts_Tokens :: "string list"
  ts_Reason :: string

text \<open>\<open>map[string]map[string]string\<close>: per evidence key, the kind of constraint per event id.\<close>

type_synonym constraint_map = "string \<Rightarrow> (string \<times> string) list"

definition zero_event :: SemanticEvent where
  "zero_event = \<lparr>ev_ID = '''', ev_CanonicalClaim = '''', ev_Actor = '''', ev_Action = '''',
     ev_Object = '''', ev_EventKind = '''', ev_EventStart = None, ev_EventEnd = None,
     ev_Aliases = [], ev_KnownDeltas = [], ev_ReportCount = 0, ev_FirstSeenAt = '''', ev_LastSeenAt = ''''\<rparr>"

subsection \<open>Helpers\<close>

definition historicalOverlapMinimum :: nat where "historicalOverlapMinimum = 3"
definition intraCheckOverlapMinimum :: nat where "intraCheckOverlapMinimum = 3"

definition candidateEvidenceKeys :: "SemanticCandidate list \<Rightarrow> string list" where
  "candidateEvidenceKeys candidates = map sc_EvidenceKey candidates"

definition candidateText :: "SemanticCandidate \<Rightarrow> string" where
  "candidateText value = join '' '' ([sc_WhatChanged value, sc_EventKey value] @ sc_TopicTags value)"

definition candidateAnchorText :: "SemanticCandidate \<Rightarrow> string" where
  "candidateAnchorText value = join '' '' ([sc_EventKey value] @ sc_TopicTags value)"

definition eventText :: "SemanticEvent \<Rightarrow> string" where
  "eventText value = join '' ''
     ([ev_CanonicalClaim value, ev_Actor value, ev_Action value, ev_Object value, ev_EventKind value]
      @ ev_Aliases value)"

definition validRelation :: "string \<Rightarrow> bool" where
  "validRelation value = (value \<in> set [''new_event'', ''duplicate_report'', ''material_update'',
     ''contradiction'', ''new_consequence'', ''context_only''])"

definition clampConfidence :: "f64 \<Rightarrow> f64" where
  "clampConfidence value = (if value < 0 then 0 else if value > 1 then 1 else value)"

definition defaultValue :: "string \<Rightarrow> string \<Rightarrow> string" where
  "defaultValue value fallback = (if trim_space value = '''' then fallback else value)"

definition uniqueAliases :: "string list \<Rightarrow> string list" where
  "uniqueAliases values' =
     collect_unique (\<lambda>v. if v = '''' then None else Some (to_lower v)) 8 [] (map trim_space values')"

text \<open>\<open>Time.Sub\<close> saturates at the bounds of a 64-bit \<open>Duration\<close>.\<close>

definition time_sub :: "int \<Rightarrow> int \<Rightarrow> int" where
  "time_sub a b = max (- (2 ^ 63)) (min (2 ^ 63 - 1) (a - b))"

definition hour_ns :: int where
  "hour_ns = 3600000000000"

definition compatibleEventTime ::
  "(string \<Rightarrow> int option) \<Rightarrow> string option \<Rightarrow> SemanticEvent \<Rightarrow> int \<Rightarrow> bool" where
  "compatibleEventTime parse published event retentionDays =
     (case (published, ev_EventStart event) of
        (Some p, Some s) \<Rightarrow>
          (case (parse p, parse s) of
             (Some candidateTime, Some eventTime) \<Rightarrow>
               (let delta = time_sub candidateTime eventTime;
                    delta = (if delta < 0 then wrap64 (- delta) else delta)
                in delta \<le> wrap64 (wrap64 (retentionDays * 24) * hour_ns))
           | _ \<Rightarrow> True)
      | _ \<Rightarrow> True)"

text \<open>\<open>fmt.Sprintf("event_%03d", index+1)\<close>.\<close>

definition event_alias :: "nat \<Rightarrow> string" where
  "event_alias n = ''event_'' @ pad3 n"

subsection \<open>Constraints\<close>

definition retained :: "SemanticEvent list \<Rightarrow> string \<Rightarrow> bool" where
  "retained catalog eventID = (eventID \<in> set (map ev_ID catalog))"

definition apply_replay :: "SemanticEvent list \<Rightarrow> string \<times> string \<Rightarrow> constraint_map \<Rightarrow> constraint_map" where
  "apply_replay catalog entry constraints =
     (let (evidenceKey, eventID) = entry in
      if \<not> retained catalog eventID then constraints
      else if map_of (constraints evidenceKey) eventID = Some ''must_not_merge'' then constraints
      else constraints (evidenceKey :=
             AList.update eventID ''exact_source_replay'' (constraints evidenceKey)))"

definition applyExactReplayConstraints ::
  "constraint_map \<Rightarrow> (string \<times> string) list \<Rightarrow> SemanticEvent list \<Rightarrow> constraint_map" where
  "applyExactReplayConstraints constraints exactEventIDs catalog =
     fold (apply_replay catalog) exactEventIDs constraints"

definition deterministic :: "constraint_map \<Rightarrow> SemanticCandidate \<Rightarrow> bool" where
  "deterministic constraints candidate =
     (\<exists>kind \<in> set (map snd (constraints (sc_EvidenceKey candidate))).
        kind = ''must_merge'' \<or> kind = ''exact_source_replay'')"

definition candidatesRequiringResolution ::
  "SemanticCandidate list \<Rightarrow> constraint_map \<Rightarrow> SemanticCandidate list" where
  "candidatesRequiringResolution candidates constraints =
     filter (\<lambda>c. \<not> deterministic constraints c) candidates"

subsection \<open>The shortlist and the intra-check signal\<close>

record rankedEvent =
  rk_event :: SemanticEvent
  rk_score :: nat
  rk_tokens :: "string list"

fun best_overlap :: "SemanticEvent \<Rightarrow> SemanticCandidate list \<Rightarrow> string list \<Rightarrow> string list" where
  "best_overlap event [] best = best"
| "best_overlap event (candidate # rest) best =
     (let shared = intersection (tokens (candidateText candidate)) (tokens (eventText event)) in
      best_overlap event rest (if length shared > length best then shared else best))"

definition rank_event :: "SemanticCandidate list \<Rightarrow> SemanticEvent \<Rightarrow> rankedEvent" where
  "rank_event candidates event =
     (let best = best_overlap event candidates [] in
      \<lparr>rk_event = event, rk_score = length best, rk_tokens = best\<rparr>)"

text \<open>The comparison of \<open>sort.SliceStable\<close>.\<close>

definition ranks_before :: "rankedEvent \<Rightarrow> rankedEvent \<Rightarrow> bool" where
  "ranks_before a b =
     (if rk_score a = rk_score b then ev_LastSeenAt (rk_event a) > ev_LastSeenAt (rk_event b)
      else rk_score a > rk_score b)"

definition rank_sort :: "rankedEvent list \<Rightarrow> rankedEvent list" where
  "rank_sort xs = sort_by ranks_before xs"

definition ranked_events :: "SemanticCandidate list \<Rightarrow> SemanticEvent list \<Rightarrow> rankedEvent list" where
  "ranked_events candidates catalog =
     filter (\<lambda>r. rk_score r \<ge> historicalOverlapMinimum) (map (rank_event candidates) catalog)"

text \<open>A negative \<open>limit\<close> makes the slice expression \<open>ranked[:limit]\<close> (and \<open>make\<close>) panic: \<open>None\<close>.\<close>

definition rankShortlist ::
  "SemanticCandidate list \<Rightarrow> SemanticEvent list \<Rightarrow> int \<Rightarrow> (SemanticEvent list \<times> triggerSignal) option" where
  "rankShortlist candidates catalog limit =
     (let ranked = rank_sort (ranked_events candidates catalog) in
      if limit < 0 then None
      else Some
        (map rk_event (take (nat limit) ranked),
         (case ranked of
            [] \<Rightarrow> \<lparr>ts_Strong = False, ts_Overlap = 0, ts_Tokens = [], ts_Reason = ''historical_shortlist''\<rparr>
          | best # _ \<Rightarrow> \<lparr>ts_Strong = True, ts_Overlap = rk_score best, ts_Tokens = rk_tokens best,
                         ts_Reason = ''historical_shortlist''\<rparr>)))"

definition pair_signal :: "SemanticCandidate \<Rightarrow> SemanticCandidate \<Rightarrow> triggerSignal" where
  "pair_signal leftCandidate rightCandidate =
     (let leftEventKey = normalizeEventKey (sc_EventKey leftCandidate);
          rightEventKey = normalizeEventKey (sc_EventKey rightCandidate);
          shared = intersection (tokens (candidateText leftCandidate)) (tokens (candidateText rightCandidate));
          anchors = intersection (tokens (candidateAnchorText leftCandidate))
                      (tokens (candidateAnchorText rightCandidate));
          same = leftEventKey \<noteq> '''' \<and> leftEventKey = rightEventKey
      in \<lparr>ts_Strong = same \<or> length shared \<ge> intraCheckOverlapMinimum \<and> length anchors > 0,
          ts_Overlap = length shared, ts_Tokens = shared,
          ts_Reason = (if same then ''matching_event_key'' else ''strong_intra_check_overlap'')\<rparr>)"

definition stronger :: "triggerSignal \<Rightarrow> triggerSignal \<Rightarrow> triggerSignal" where
  "stronger signal strongest =
     (if ts_Strong signal \<and> \<not> ts_Strong strongest \<or>
         ts_Strong signal = ts_Strong strongest \<and> ts_Overlap signal > ts_Overlap strongest
      then signal else strongest)"

fun intra_loop :: "SemanticCandidate list \<Rightarrow> triggerSignal \<Rightarrow> triggerSignal" where
  "intra_loop [] strongest = strongest"
| "intra_loop (left # rest) strongest =
     intra_loop rest (fold (\<lambda>right. stronger (pair_signal left right)) rest strongest)"

definition weak_signal :: triggerSignal where
  "weak_signal = \<lparr>ts_Strong = False, ts_Overlap = 0, ts_Tokens = [], ts_Reason = ''weak_intra_check_overlap''\<rparr>"

definition strongestIntraCheckSignal :: "SemanticCandidate list \<Rightarrow> triggerSignal" where
  "strongestIntraCheckSignal candidates =
     (let strongest = intra_loop candidates weak_signal in
      if \<not> ts_Strong strongest then strongest \<lparr>ts_Reason := ''weak_intra_check_overlap''\<rparr> else strongest)"

subsection \<open>Reports\<close>

text \<open>What the engine reads from its surroundings during one \<open>resolveReports\<close>: \<open>en_NewID i\<close> is the
  identifier drawn for the \<open>i\<close>-th candidate, \<open>en_Created i\<close> and \<open>en_Seen i\<close> the clock readings of
  its \<open>newEvent\<close> and of its \<open>LastSeenAt\<close>, \<open>en_Merges\<close> and \<open>en_Replays\<close> the orders in which the two
  loops meet the entries of a map.\<close>

record environment =
  en_NewID :: "nat \<Rightarrow> string"
  en_Created :: "nat \<Rightarrow> string"
  en_Seen :: "nat \<Rightarrow> string"
  en_Parse :: "string \<Rightarrow> int option"
  en_Merges :: "nat \<Rightarrow> (string \<times> string) list \<Rightarrow> (string \<times> string) list"
  en_Replays :: "nat \<Rightarrow> (string \<times> string) list \<Rightarrow> (string \<times> string) list"

definition newEvent :: "environment \<Rightarrow> nat \<Rightarrow> SemanticCandidate \<Rightarrow> SemanticEvent \<Rightarrow> SemanticEvent" where
  "newEvent env i candidate proposed =
     (let now = en_Created env i;
          claim = trim_space (ev_CanonicalClaim proposed);
          claim = (if claim = '''' then trim_space (sc_WhatChanged candidate) else claim);
          actor = trim_space (ev_Actor proposed);
          actor = (if actor = '''' then trim_space (sc_Author candidate) else actor);
          aliases = uniqueAliases (ev_Aliases proposed @ [sc_EventKey candidate, sc_Author candidate]
                      @ sc_TopicTags candidate);
          start = (case ev_EventStart proposed of None \<Rightarrow> sc_PublishedAt candidate | Some s \<Rightarrow> Some s)
      in \<lparr>ev_ID = en_NewID env i, ev_CanonicalClaim = claim, ev_Actor = actor,
          ev_Action = trim_space (ev_Action proposed), ev_Object = trim_space (ev_Object proposed),
          ev_EventKind = defaultValue (ev_EventKind proposed) ''other'', ev_EventStart = start,
          ev_EventEnd = ev_EventEnd proposed, ev_Aliases = aliases, ev_KnownDeltas = [],
          ev_ReportCount = 1, ev_FirstSeenAt = now, ev_LastSeenAt = now\<rparr>)"

text \<open>The tables \<open>resolveReports\<close> builds before its loop: the first decision per alias, the
  shortlist by alias, the catalog by id (a later entry replaces an earlier one).\<close>

definition decisions :: "SemanticResolution \<Rightarrow> string \<rightharpoonup> SemanticDecision" where
  "decisions resolution = map_of (map (\<lambda>d. (de_CandidateAlias d, d)) resolution)"

definition eventAliases :: "SemanticEvent list \<Rightarrow> string \<rightharpoonup> SemanticEvent" where
  "eventAliases shortlist =
     map_of (rev (zip (map (\<lambda>i. event_alias (i + 1)) [0..<length shortlist]) shortlist))"

definition allEvents :: "SemanticEvent list \<Rightarrow> string \<rightharpoonup> SemanticEvent" where
  "allEvents catalog = map_of (rev (map (\<lambda>e. (ev_ID e, e)) catalog))"

text \<open>The target of a report with its relation, confidence and reason.\<close>

record choice =
  ch_target :: SemanticEvent
  ch_relation :: string
  ch_confidence :: f64
  ch_reason :: string

definition first_of_kind :: "string \<Rightarrow> (string \<times> string) list \<Rightarrow> string option" where
  "first_of_kind kind entries = map_option fst (List.find (\<lambda>e. snd e = kind) entries)"

definition confirmed_choice ::
  "environment \<Rightarrow> nat \<Rightarrow> SemanticEvent list \<Rightarrow> constraint_map \<Rightarrow> constraint_map \<Rightarrow> SemanticCandidate
   \<Rightarrow> choice option" where
  "confirmed_choice env i catalog constraints novelty candidate =
     (case first_of_kind ''must_merge'' (en_Merges env i (constraints (sc_EvidenceKey candidate))) of
        None \<Rightarrow> None
      | Some eventID \<Rightarrow>
          (case allEvents catalog eventID of
             None \<Rightarrow> None
           | Some value \<Rightarrow>
               (let known = (case map_of (novelty (sc_EvidenceKey candidate)) eventID of
                               None \<Rightarrow> '''' | Some r \<Rightarrow> r)
                in Some \<lparr>ch_target = value,
                    ch_relation = (if known = '''' then ''duplicate_report'' else known),
                    ch_confidence = 1,
                    ch_reason = ''User-confirmed semantic event and information novelty.''\<rparr>)))"

definition replay_choice ::
  "environment \<Rightarrow> nat \<Rightarrow> SemanticEvent list \<Rightarrow> constraint_map \<Rightarrow> SemanticCandidate \<Rightarrow> choice option" where
  "replay_choice env i catalog constraints candidate =
     (case first_of_kind ''exact_source_replay'' (en_Replays env i (constraints (sc_EvidenceKey candidate))) of
        None \<Rightarrow> None
      | Some eventID \<Rightarrow>
          map_option (\<lambda>value. \<lparr>ch_target = value, ch_relation = ''duplicate_report'', ch_confidence = 1,
            ch_reason = ''Exact native source post was already captured.''\<rparr>) (allEvents catalog eventID))"

text \<open>The event a decision of the model names: a shortlisted one or that of an earlier candidate.\<close>

definition named_target ::
  "SemanticEvent list \<Rightarrow> (string \<rightharpoonup> SemanticEvent) \<Rightarrow> SemanticDecision \<Rightarrow> SemanticEvent option" where
  "named_target shortlist candidateEvents decision =
     (if validRelation (de_Relation decision) \<and> de_Relation decision \<noteq> ''new_event'' then
        (case de_TargetAlias decision of
           None \<Rightarrow> None
         | Some a \<Rightarrow> (case eventAliases shortlist a of Some v \<Rightarrow> Some v | None \<Rightarrow> candidateEvents a))
      else None)"

definition target_allowed ::
  "environment \<Rightarrow> constraint_map \<Rightarrow> int \<Rightarrow> f64 \<Rightarrow> SemanticCandidate \<Rightarrow> SemanticDecision \<Rightarrow> SemanticEvent \<Rightarrow> bool" where
  "target_allowed env constraints retentionDays mergeThreshold candidate decision target =
     (map_of (constraints (sc_EvidenceKey candidate)) (ev_ID target) \<noteq> Some ''must_not_merge'' \<and>
      compatibleEventTime (en_Parse env) (sc_PublishedAt candidate) target retentionDays \<and>
      \<not> (de_Relation decision = ''duplicate_report'' \<and> de_Confidence decision < mergeThreshold))"

definition model_choice ::
  "environment \<Rightarrow> SemanticEvent list \<Rightarrow> constraint_map \<Rightarrow> int \<Rightarrow> f64 \<Rightarrow> (string \<rightharpoonup> SemanticEvent)
   \<Rightarrow> SemanticCandidate \<Rightarrow> SemanticDecision option \<Rightarrow> choice option" where
  "model_choice env shortlist constraints retentionDays mergeThreshold candidateEvents candidate decision =
     (case decision of
        None \<Rightarrow> None
      | Some d \<Rightarrow>
          (case named_target shortlist candidateEvents d of
             None \<Rightarrow> None
           | Some target \<Rightarrow>
               if target_allowed env constraints retentionDays mergeThreshold candidate d target
               then Some \<lparr>ch_target = target, ch_relation = de_Relation d,
                          ch_confidence = de_Confidence d, ch_reason = de_Reason d\<rparr>
               else None))"

definition new_choice :: "environment \<Rightarrow> nat \<Rightarrow> SemanticCandidate \<Rightarrow> SemanticDecision option \<Rightarrow> choice" where
  "new_choice env i candidate decision =
     (let default_reason = ''No plausible semantic overlap in the bounded local index.'' in
      \<lparr>ch_target = newEvent env i candidate
         (case decision of None \<Rightarrow> zero_event | Some d \<Rightarrow> de_Event d),
       ch_relation = ''new_event'',
       ch_confidence = (case decision of None \<Rightarrow> 1 | Some d \<Rightarrow> de_Confidence d),
       ch_reason = (case decision of None \<Rightarrow> default_reason
                    | Some d \<Rightarrow> if trim_space (de_Reason d) \<noteq> '''' then de_Reason d else default_reason)\<rparr>)"

record resolution_input =
  in_shortlist :: "SemanticEvent list"
  in_catalog :: "SemanticEvent list"
  in_resolution :: SemanticResolution
  in_constraints :: constraint_map
  in_novelty :: constraint_map
  in_retentionDays :: int
  in_mergeThreshold :: f64

definition settle ::
  "environment \<Rightarrow> resolution_input \<Rightarrow> nat \<Rightarrow> (string \<rightharpoonup> SemanticEvent) \<Rightarrow> SemanticCandidate \<Rightarrow> choice" where
  "settle env inp i candidateEvents candidate =
     (let decision = decisions (in_resolution inp) (sc_Alias candidate) in
      case confirmed_choice env i (in_catalog inp) (in_constraints inp) (in_novelty inp) candidate of
        Some ch \<Rightarrow> ch
      | None \<Rightarrow>
          (case replay_choice env i (in_catalog inp) (in_constraints inp) candidate of
             Some ch \<Rightarrow> ch
           | None \<Rightarrow>
               (case model_choice env (in_shortlist inp) (in_constraints inp) (in_retentionDays inp)
                       (in_mergeThreshold inp) candidateEvents candidate decision of
                  Some ch \<Rightarrow> ch
                | None \<Rightarrow> new_choice env i candidate decision)))"

definition report_of ::
  "environment \<Rightarrow> resolution_input \<Rightarrow> nat \<Rightarrow> (string \<rightharpoonup> SemanticEvent) \<Rightarrow> SemanticCandidate
   \<Rightarrow> ResolvedSemanticReport" where
  "report_of env inp i candidateEvents candidate =
     (let ch = settle env inp i candidateEvents candidate in
      \<lparr>rp_Candidate = candidate, rp_Event = (ch_target ch) \<lparr>ev_LastSeenAt := en_Seen env i\<rparr>,
       rp_Relation = ch_relation ch, rp_Confidence = clampConfidence (ch_confidence ch),
       rp_Reason = ch_reason ch, rp_Corrected = False\<rparr>)"

fun report_loop ::
  "environment \<Rightarrow> resolution_input \<Rightarrow> nat \<Rightarrow> (string \<rightharpoonup> SemanticEvent) \<Rightarrow> SemanticCandidate list
   \<Rightarrow> ResolvedSemanticReport list" where
  "report_loop env inp i candidateEvents [] = []"
| "report_loop env inp i candidateEvents (candidate # rest) =
     (let report = report_of env inp i candidateEvents candidate in
      report # report_loop env inp (i + 1) (candidateEvents(sc_Alias candidate \<mapsto> rp_Event report)) rest)"

definition resolveReports ::
  "environment \<Rightarrow> resolution_input \<Rightarrow> SemanticCandidate list \<Rightarrow> ResolvedSemanticReport list" where
  "resolveReports env inp candidates = report_loop env inp 0 Map.empty candidates"

subsection \<open>The ranking\<close>

text \<open>\<open>ranks_before\<close> is a strict weak order, so the stable sort is well defined.\<close>

interpretation shortlist_rank: strict_weak_order ranks_before
  by unfold_locales (auto simp: ranks_before_def split: if_splits)

abbreviation ranked_in_order :: "rankedEvent list \<Rightarrow> bool" where
  "ranked_in_order \<equiv> sorted_wrt (\<lambda>a b. \<not> ranks_before b a)"

lemma set_rank_sort [simp]: "set (rank_sort xs) = set xs"
  by (simp add: rank_sort_def)

lemma length_rank_sort [simp]: "length (rank_sort xs) = length xs"
  by (simp add: rank_sort_def)

lemma rank_sort_in_order: "ranked_in_order (rank_sort xs)"
  unfolding rank_sort_def by (rule shortlist_rank.sort_by_in_order)

definition overlap :: "SemanticEvent \<Rightarrow> SemanticCandidate \<Rightarrow> nat" where
  "overlap event c = length (intersection (tokens (candidateText c)) (tokens (eventText event)))"

text \<open>The score of an event is its greatest overlap with a candidate.\<close>

lemma best_overlap_length:
  "length (best_overlap event cs best) = Max (insert (length best) (overlap event ` set cs))"
proof (induction cs arbitrary: best)
  case Nil
  show ?case by simp
next
  case (Cons c cs)
  let ?shared = "intersection (tokens (candidateText c)) (tokens (eventText event))"
  have "length (best_overlap event (c # cs) best) =
      Max (insert (max (length best) (overlap event c)) (overlap event ` set cs))"
    using Cons [of "if length ?shared > length best then ?shared else best"]
    by (simp add: Let_def overlap_def max_def)
  also have "\<dots> = Max (insert (length best) (insert (overlap event c) (overlap event ` set cs)))"
    by (cases "set cs = {}") (simp_all add: max.assoc)
  finally show ?case by simp
qed

lemma rank_event_sel [simp]:
  "rk_event (rank_event cs e) = e"
  "rk_score (rank_event cs e) = Max (insert 0 (overlap e ` set cs))"
  by (simp_all add: rank_event_def Let_def best_overlap_length)

lemma in_ranked_events:
  "r \<in> set (ranked_events cs catalog) \<longleftrightarrow>
     (\<exists>e \<in> set catalog. r = rank_event cs e \<and> historicalOverlapMinimum \<le> rk_score r)"
  by (auto simp: ranked_events_def)

lemma score_reaches:
  "0 < n \<Longrightarrow> n \<le> rk_score (rank_event cs e) \<longleftrightarrow> (\<exists>c \<in> set cs. n \<le> overlap e c)"
  by (subst rank_event_sel, subst Max_ge_iff) auto

subsection \<open>Lookup tables\<close>

lemma allEvents_Some: "allEvents catalog x = Some e \<Longrightarrow> e \<in> set catalog \<and> ev_ID e = x"
  unfolding allEvents_def by (auto dest!: map_of_SomeD)

lemma allEvents_dom: "allEvents catalog x \<noteq> None \<longleftrightarrow> x \<in> ev_ID ` set catalog"
  unfolding allEvents_def by (auto simp: map_of_eq_None_iff image_image)

lemma eventAliases_Some: "eventAliases shortlist a = Some e \<Longrightarrow> e \<in> set shortlist"
  unfolding eventAliases_def by (auto dest!: map_of_SomeD set_zip_rightD)

lemma decisions_Some: "decisions resolution a = Some d \<Longrightarrow> d \<in> set resolution \<and> de_CandidateAlias d = a"
  unfolding decisions_def by (auto dest!: map_of_SomeD)

lemma first_of_kind_Some: "first_of_kind kind entries = Some x \<Longrightarrow> (x, kind) \<in> set entries"
  by (induction entries) (auto simp: first_of_kind_def split: if_splits)

lemma first_of_kind_None: "first_of_kind kind entries = None \<longleftrightarrow> kind \<notin> snd ` set entries"
  by (induction entries) (auto simp: first_of_kind_def)

subsection \<open>The four ways to settle a report\<close>

lemma confirmed_choice_Some:
  assumes "confirmed_choice env i catalog constraints novelty c = Some ch"
  shows "(ev_ID (ch_target ch), ''must_merge'') \<in> set (en_Merges env i (constraints (sc_EvidenceKey c)))"
    and "ch_target ch \<in> set catalog" and "ch_confidence ch = 1"
proof -
  obtain x where x: "first_of_kind ''must_merge'' (en_Merges env i (constraints (sc_EvidenceKey c))) = Some x"
    "allEvents catalog x = Some (ch_target ch)" "ch_confidence ch = 1"
    using assms by (auto simp: confirmed_choice_def Let_def split: option.splits)
  from allEvents_Some [OF x(2)] first_of_kind_Some [OF x(1)] x(3)
  show "(ev_ID (ch_target ch), ''must_merge'') \<in> set (en_Merges env i (constraints (sc_EvidenceKey c)))"
    "ch_target ch \<in> set catalog" "ch_confidence ch = 1" by simp_all
qed

lemma replay_choice_Some:
  assumes "replay_choice env i catalog constraints c = Some ch"
  shows "(ev_ID (ch_target ch), ''exact_source_replay'') \<in>
      set (en_Replays env i (constraints (sc_EvidenceKey c)))"
    and "ch_target ch \<in> set catalog"
    and "ch_relation ch = ''duplicate_report''" "ch_confidence ch = 1"
proof -
  obtain x e where x: "first_of_kind ''exact_source_replay'' (en_Replays env i (constraints (sc_EvidenceKey c))) = Some x"
    "allEvents catalog x = Some e" "ch_target ch = e" "ch_relation ch = ''duplicate_report''" "ch_confidence ch = 1"
    using assms by (auto simp: replay_choice_def split: option.splits)
  from allEvents_Some [OF x(2)] first_of_kind_Some [OF x(1)] x(3-)
  show "(ev_ID (ch_target ch), ''exact_source_replay'') \<in>
      set (en_Replays env i (constraints (sc_EvidenceKey c)))"
    "ch_target ch \<in> set catalog"
    "ch_relation ch = ''duplicate_report''" "ch_confidence ch = 1" by simp_all
qed

lemma model_choice_Some:
  assumes "model_choice env shortlist constraints days threshold m c decision = Some ch"
  obtains d where "decision = Some d" "named_target shortlist m d = Some (ch_target ch)"
    "target_allowed env constraints days threshold c d (ch_target ch)" "ch_relation ch = de_Relation d"
    "ch_confidence ch = de_Confidence d"
  using assms by (auto simp: model_choice_def split: option.splits if_splits)

lemma named_target_Some:
  assumes "named_target shortlist m d = Some e"
  obtains a where "de_TargetAlias d = Some a" "e \<in> set shortlist \<or> m a = Some e"
    "de_Relation d \<noteq> ''new_event''"
  using assms by (auto simp: named_target_def split: option.splits if_splits dest: eventAliases_Some)

lemma settle_cases:
  obtains (confirmed) "confirmed_choice env i (in_catalog inp) (in_constraints inp) (in_novelty inp) c
      = Some (settle env inp i m c)"
  | (replay) "replay_choice env i (in_catalog inp) (in_constraints inp) c = Some (settle env inp i m c)"
  | (model) "model_choice env (in_shortlist inp) (in_constraints inp) (in_retentionDays inp)
      (in_mergeThreshold inp) m c (decisions (in_resolution inp) (sc_Alias c)) = Some (settle env inp i m c)"
  | (fresh) "settle env inp i m c = new_choice env i c (decisions (in_resolution inp) (sc_Alias c))"
proof -
  let ?a = "confirmed_choice env i (in_catalog inp) (in_constraints inp) (in_novelty inp) c"
  let ?b = "replay_choice env i (in_catalog inp) (in_constraints inp) c"
  let ?d = "decisions (in_resolution inp) (sc_Alias c)"
  let ?e = "model_choice env (in_shortlist inp) (in_constraints inp) (in_retentionDays inp)
      (in_mergeThreshold inp) m c ?d"
  have "?a = Some (settle env inp i m c) \<or> ?b = Some (settle env inp i m c) \<or>
      ?e = Some (settle env inp i m c) \<or> settle env inp i m c = new_choice env i c ?d"
    by (cases ?a; cases ?b; cases ?e) (simp_all add: settle_def)
  then show thesis using that by blast
qed

lemma report_of_sel [simp]:
  "rp_Candidate (report_of env inp i m c) = c"
  "ev_ID (rp_Event (report_of env inp i m c)) = ev_ID (ch_target (settle env inp i m c))"
  "rp_Relation (report_of env inp i m c) = ch_relation (settle env inp i m c)"
  "rp_Confidence (report_of env inp i m c) = clampConfidence (ch_confidence (settle env inp i m c))"
  by (simp_all add: report_of_def Let_def)

lemma new_choice_sel [simp]:
  "ev_ID (ch_target (new_choice env i c d)) = en_NewID env i"
  "ch_relation (new_choice env i c d) = ''new_event''"
  by (simp_all add: new_choice_def newEvent_def Let_def)

lemma clampConfidence_range: "0 \<le> clampConfidence x \<and> clampConfidence x \<le> 1"
  by (simp add: clampConfidence_def)

subsection \<open>The loop\<close>

lemma length_report_loop [simp]: "length (report_loop env inp k m cs) = length cs"
  by (induction cs arbitrary: k m) (auto simp: Let_def)

lemma report_loop_candidates: "map rp_Candidate (report_loop env inp k m cs) = cs"
  by (induction cs arbitrary: k m) (auto simp: Let_def)

text \<open>The \<open>i\<close>-th report is made with a table that holds only events of earlier reports.\<close>

lemma report_loop_nth:
  "i < length cs \<Longrightarrow>
   \<exists>m'. report_loop env inp k m cs ! i = report_of env inp (k + i) m' (cs ! i) \<and>
     (\<forall>a e. m' a = Some e \<longrightarrow> m a = Some e \<or>
        (\<exists>j < i. sc_Alias (cs ! j) = a \<and> rp_Event (report_loop env inp k m cs ! j) = e))"
proof (induction cs arbitrary: i k m)
  case Nil
  then show ?case by simp
next
  case (Cons c cs)
  show ?case
  proof (cases i)
    case 0
    then show ?thesis by (auto simp: Let_def)
  next
    case (Suc i')
    define r where "r = report_of env inp k m c"
    define rest where "rest = report_loop env inp (k + 1) (m(sc_Alias c \<mapsto> rp_Event r)) cs"
    have loop: "report_loop env inp k m (c # cs) = r # rest"
      by (simp add: Let_def r_def rest_def)
    from Suc Cons.prems have "i' < length cs" by simp
    from Cons.IH [OF this, of "k + 1" "m(sc_Alias c \<mapsto> rp_Event r)"] obtain m' where
      m': "rest ! i' = report_of env inp (k + 1 + i') m' (cs ! i')"
      "\<And>a e. m' a = Some e \<Longrightarrow> (m(sc_Alias c \<mapsto> rp_Event r)) a = Some e \<or>
         (\<exists>j < i'. sc_Alias (cs ! j) = a \<and> rp_Event (rest ! j) = e)"
      unfolding rest_def by blast
    have "m a = Some e \<or> (\<exists>j < i. sc_Alias ((c # cs) ! j) = a \<and> rp_Event ((r # rest) ! j) = e)"
      if "m' a = Some e" for a e
      using m'(2) [OF that]
    proof
      assume "(m(sc_Alias c \<mapsto> rp_Event r)) a = Some e"
      then consider "m a = Some e" | "sc_Alias c = a \<and> rp_Event r = e" by (auto split: if_splits)
      then show ?thesis using Suc by cases (simp, force)
    next
      assume "\<exists>j < i'. sc_Alias (cs ! j) = a \<and> rp_Event (rest ! j) = e"
      then obtain j where "j < i'" "sc_Alias (cs ! j) = a" "rp_Event (rest ! j) = e" by blast
      then show ?thesis using Suc by (intro disjI2 exI [of _ "Suc j"]) simp
    qed
    with m'(1) Suc loop show ?thesis by auto
  qed
qed

lemma resolveReports_nth:
  assumes "i < length cs"
  obtains m where "resolveReports env inp cs ! i = report_of env inp i m (cs ! i)"
    "\<And>a e. m a = Some e \<Longrightarrow>
       \<exists>j < i. sc_Alias (cs ! j) = a \<and> rp_Event (resolveReports env inp cs ! j) = e"
  using report_loop_nth [OF assms, of env inp 0 Map.empty] unfolding resolveReports_def by auto

lemma length_resolveReports [simp]: "length (resolveReports env inp cs) = length cs"
  by (simp add: resolveReports_def)

lemma resolveReports_memberE:
  assumes "r \<in> set (resolveReports env inp cs)"
  obtains i m where "i < length cs" "r = report_of env inp i m (cs ! i)"
    "r = resolveReports env inp cs ! i"
    "\<And>a e. m a = Some e \<Longrightarrow>
       \<exists>j < i. sc_Alias (cs ! j) = a \<and> rp_Event (resolveReports env inp cs ! j) = e"
proof -
  from assms obtain i where i: "i < length cs" "r = resolveReports env inp cs ! i"
    by (auto simp: in_set_conv_nth)
  from resolveReports_nth [OF i(1), of env inp] i that show thesis by metis
qed

subsection \<open>Aliases of the shortlist\<close>

lemma event_alias_inj: "event_alias m = event_alias n \<Longrightarrow> m = n"
  by (simp add: event_alias_def pad3_inj)

text \<open>The \<open>k\<close>-th shortlisted event is the one the prompt shows under the alias \<open>event_00k\<close>.\<close>

lemma eventAliases_nth:
  assumes "k < length shortlist"
  shows "eventAliases shortlist (event_alias (k + 1)) = Some (shortlist ! k)"
proof -
  let ?as = "map (\<lambda>i. event_alias (i + 1)) [0..<length shortlist]"
  have "distinct ?as" by (auto simp: distinct_map inj_on_def dest: event_alias_inj)
  then have "distinct (map fst (rev (zip ?as shortlist)))" by (simp add: rev_map [symmetric])
  moreover have "(event_alias (k + 1), shortlist ! k) \<in> set (rev (zip ?as shortlist))"
    using assms by (auto simp: set_zip intro!: exI [of _ k])
  ultimately show ?thesis unfolding eventAliases_def by (rule map_of_is_SomeI)
qed

subsection \<open>Event times\<close>

lemma retention_ns:
  assumes "0 \<le> days" "days \<le> 106751"
  shows "wrap64 (wrap64 (days * 24) * hour_ns) = days * 24 * hour_ns"
proof -
  have "wrap64 (days * 24) = days * 24" using assms by (intro wrap64_id) simp_all
  moreover have "wrap64 (days * 24 * hour_ns) = days * 24 * hour_ns"
    using assms by (intro wrap64_id) (simp_all add: hour_ns_def)
  ultimately show ?thesis by simp
qed

text \<open>Within the range of a \<open>Duration\<close> the check is the distance of the two instants.\<close>

lemma compatible_time_exact:
  assumes "parse p = Some t" "parse s = Some u" "ev_EventStart e = Some s"
    and "0 \<le> days" "days \<le> 106751" "\<bar>t - u\<bar> < 2 ^ 63"
  shows "compatibleEventTime parse (Some p) e days \<longleftrightarrow> \<bar>t - u\<bar> \<le> days * 24 * hour_ns"
proof -
  have d: "time_sub t u = t - u" using assms(6) by (auto simp: time_sub_def max_def min_def)
  have "wrap64 (- (t - u)) = - (t - u)" using assms(6) by (intro wrap64_id) auto
  then show ?thesis
    using assms(1-3) d retention_ns [OF assms(4,5)]
    by (auto simp: compatibleEventTime_def Let_def)
qed

lemma compatible_far_past:
  assumes "parse p = Some t" "parse s = Some u" "ev_EventStart e = Some s"
    and "0 \<le> days" "days \<le> 106751" "t + 2 ^ 63 \<le> u"
  shows "compatibleEventTime parse (Some p) e days"
proof -
  have d: "time_sub t u = - (2 ^ 63)" using assms(6) by (auto simp: time_sub_def max_def min_def)
  have "wrap64 (2 ^ 63) = - (2 ^ 63)" by (simp add: wrap64_def)
  moreover have "- (2 ^ 63) \<le> days * 24 * hour_ns" using assms(4) by (simp add: hour_ns_def)
  ultimately show ?thesis
    using assms(1-3) d retention_ns [OF assms(4,5)]
    by (simp add: compatibleEventTime_def Let_def)
qed

lemma compatible_far_future:
  assumes "parse p = Some t" "parse s = Some u" "ev_EventStart e = Some s"
    and "0 \<le> days" "days \<le> 106751" "u + 2 ^ 63 \<le> t"
  shows "\<not> compatibleEventTime parse (Some p) e days"
proof -
  have d: "time_sub t u = 2 ^ 63 - 1" using assms(6) by (auto simp: time_sub_def max_def min_def)
  moreover have "days * 24 * hour_ns < 2 ^ 63 - 1" using assms(5) by (simp add: hour_ns_def)
  ultimately show ?thesis
    using assms(1-3) retention_ns [OF assms(4,5)]
    by (simp add: compatibleEventTime_def Let_def)
qed

subsection \<open>Properties\<close>

text \<open>\<open>resolveReports\<close> answers every candidate exactly once and in order, whatever the model
  returned (missing, repeated, unknown or malformed decisions), and every stored confidence is in
  the unit interval.\<close>

lemma reports_one_per_candidate:
  "map rp_Candidate (resolveReports env inp cs) = cs \<and>
   list_all (\<lambda>r. 0 \<le> rp_Confidence r \<and> rp_Confidence r \<le> 1) (resolveReports env inp cs)"
proof
  show "map rp_Candidate (resolveReports env inp cs) = cs"
    by (simp add: resolveReports_def report_loop_candidates)
  show "list_all (\<lambda>r. 0 \<le> rp_Confidence r \<and> rp_Confidence r \<le> 1) (resolveReports env inp cs)"
    unfolding list_all_iff
  proof
    fix r assume "r \<in> set (resolveReports env inp cs)"
    then obtain i m where "r = report_of env inp i m (cs ! i)" by (rule resolveReports_memberE)
    then show "0 \<le> rp_Confidence r \<and> rp_Confidence r \<le> 1" by (simp add: clampConfidence_range)
  qed
qed

text \<open>What Go promises of the iteration over a map and of \<open>domain.NewID\<close>: each entry is met
  once, and a new identifier is not one the user has constrained.\<close>

definition orders_ok :: "environment \<Rightarrow> constraint_map \<Rightarrow> bool" where
  "orders_ok env constraints \<longleftrightarrow>
     (\<forall>i k. set (en_Merges env i (constraints k)) = set (constraints k) \<and>
            set (en_Replays env i (constraints k)) = set (constraints k))"

definition maps_ok :: "constraint_map \<Rightarrow> bool" where
  "maps_ok constraints \<longleftrightarrow> (\<forall>k. distinct (map fst (constraints k)))"

lemma settle_respects_split:
  assumes "orders_ok env (in_constraints inp)" "maps_ok (in_constraints inp)"
    and "map_of (in_constraints inp (sc_EvidenceKey c)) (ev_ID (ch_target (settle env inp i m c)))
      = Some ''must_not_merge''"
  shows "ch_relation (settle env inp i m c) = ''new_event'' \<and>
    ev_ID (ch_target (settle env inp i m c)) = en_NewID env i"
proof -
  let ?cs = "in_constraints inp (sc_EvidenceKey c)" and ?x = "ev_ID (ch_target (settle env inp i m c))"
  have kind: "(?x, kind) \<notin> set ?cs" if "kind \<noteq> ''must_not_merge''" for kind
    using assms(2,3) that unfolding maps_ok_def by (metis map_of_is_SomeI option.inject)
  show ?thesis
  proof (cases rule: settle_cases [of env i inp c m])
    case confirmed
    from confirmed_choice_Some(1) [OF this] assms(1) kind [of "''must_merge''"]
    show ?thesis by (simp add: orders_ok_def)
  next
    case replay
    from replay_choice_Some(1) [OF this] assms(1) kind [of "''exact_source_replay''"]
    show ?thesis by (simp add: orders_ok_def)
  next
    case model
    then show ?thesis by (rule model_choice_Some) (simp add: target_allowed_def assms(3))
  next
    case fresh
    then show ?thesis by simp
  qed
qed

text \<open>C36. A report is never stored under an event from which the user split it: if an event
  carries \<open>must_not_merge\<close> for the report's evidence, the report's event is another one, whatever
  the model decided, as long as fresh identifiers are not among the constrained ones.\<close>

theorem split_correction_respected:
  assumes "orders_ok env (in_constraints inp)" "maps_ok (in_constraints inp)"
    and "\<And>i k. en_NewID env i \<notin> fst ` set (in_constraints inp k)"
    and "r \<in> set (resolveReports env inp cs)"
  shows "map_of (in_constraints inp (sc_EvidenceKey (rp_Candidate r))) (ev_ID (rp_Event r))
    \<noteq> Some ''must_not_merge''"
  using assms(4)
proof (rule resolveReports_memberE)
  fix i m
  assume r: "r = report_of env inp i m (cs ! i)"
  show ?thesis
  proof
    assume split: "map_of (in_constraints inp (sc_EvidenceKey (rp_Candidate r))) (ev_ID (rp_Event r))
      = Some ''must_not_merge''"
    with r settle_respects_split [OF assms(1,2), of "cs ! i" i m]
    have "ev_ID (rp_Event r) = en_NewID env i" by simp
    with split assms(3) [of i] show False by (metis map_of_SomeD image_eqI fst_conv)
  qed
qed

definition sample_env :: environment where
  "sample_env = \<lparr>en_NewID = (\<lambda>i. ''event_new'' @ decimal i), en_Created = (\<lambda>_. ''2025-02-01T00:00:00Z''),
     en_Seen = (\<lambda>_. ''2025-02-01T00:00:00Z''), en_Parse = (\<lambda>_. Some 0),
     en_Merges = (\<lambda>_ xs. xs), en_Replays = (\<lambda>_ xs. rev xs)\<rparr>"

definition sample_candidate :: "string \<Rightarrow> string \<Rightarrow> SemanticCandidate" where
  "sample_candidate alias text = \<lparr>sc_Alias = alias, sc_TimelineID = '''', sc_SessionID = ''s'', sc_RunID = ''r'',
     sc_EvidenceKey = ''key_'' @ alias, sc_Source = ''x'', sc_Author = ''Ana'',
     sc_PublishedAt = Some ''2025-01-02T00:00:00Z'', sc_Text = text, sc_WhatChanged = text,
     sc_EventKey = '''', sc_TopicTags = [],
     sc_Item = \<lparr>ri_ID = '''', ri_WhatChanged = text, ri_WhyItMatters = '''', ri_Source = ''x'', ri_SourceURL = '''',
       ri_SourceURLKind = '''', ri_EvidenceKey = ''key_'' @ alias, ri_EventKey = '''', ri_KnowledgeDelta = '''',
       ri_Author = ''Ana'', ri_PublishedAt = None, ri_Confidence = 1, ri_EvidenceState = ''''\<rparr>\<rparr>"

definition sample_event :: "string \<Rightarrow> string \<Rightarrow> SemanticEvent" where
  "sample_event x claim = zero_event \<lparr>ev_ID := x, ev_CanonicalClaim := claim,
     ev_EventStart := Some ''2025-01-01T00:00:00Z'', ev_LastSeenAt := ''2025-01-01T00:00:00Z''\<rparr>"

definition sample_decision :: "string \<Rightarrow> string \<Rightarrow> f64 \<Rightarrow> SemanticDecision" where
  "sample_decision alias target confidence = \<lparr>de_CandidateAlias = alias, de_Relation = ''duplicate_report'',
     de_TargetAlias = Some target, de_Confidence = confidence, de_Reason = ''same'', de_Event = zero_event\<rparr>"

text \<open>Two reports, both called duplicates of the only shortlisted event; the user has split the
  second one from it.\<close>

definition sample_cs :: "SemanticCandidate list" where
  "sample_cs = [sample_candidate ''c1'' ''Acme ships rocket engine'', sample_candidate ''c2'' ''Acme rocket engine delayed'']"

definition sample_inp :: resolution_input where
  "sample_inp = \<lparr>in_shortlist = [sample_event ''e1'' ''Acme rocket engine shipped''],
     in_catalog = [sample_event ''e1'' ''Acme rocket engine shipped''],
     in_resolution = [sample_decision ''c1'' ''event_001'' (9 / 10), sample_decision ''c2'' ''event_001'' (9 / 10)],
     in_constraints = (\<lambda>k. if k = ''key_c2'' then [(''e1'', ''must_not_merge'')] else []),
     in_novelty = (\<lambda>_. []), in_retentionDays = 30, in_mergeThreshold = 8 / 10\<rparr>"

lemma sample_inp_ok:
  "orders_ok sample_env (in_constraints sample_inp)" "maps_ok (in_constraints sample_inp)"
  "en_NewID sample_env i \<notin> fst ` set (in_constraints sample_inp k)"
  by (auto simp: orders_ok_def maps_ok_def sample_env_def sample_inp_def)

theorem split_correction_respected_witness:
  "map (\<lambda>r. (ev_ID (rp_Event r), rp_Relation r)) (resolveReports sample_env sample_inp sample_cs) =
     [(''e1'', ''duplicate_report''), (''event_new1'', ''new_event'')] \<and>
   map_of (in_constraints sample_inp (sc_EvidenceKey (rp_Candidate (resolveReports sample_env sample_inp sample_cs ! 1))))
     (ev_ID (rp_Event (resolveReports sample_env sample_inp sample_cs ! 1))) \<noteq> Some ''must_not_merge''"
proof
  show "map (\<lambda>r. (ev_ID (rp_Event r), rp_Relation r)) (resolveReports sample_env sample_inp sample_cs) =
     [(''e1'', ''duplicate_report''), (''event_new1'', ''new_event'')]"
    by code_simp
  have "resolveReports sample_env sample_inp sample_cs ! 1 \<in> set (resolveReports sample_env sample_inp sample_cs)"
    by (rule nth_mem) (simp add: sample_cs_def)
  from split_correction_respected [OF sample_inp_ok this]
  show "map_of (in_constraints sample_inp (sc_EvidenceKey (rp_Candidate (resolveReports sample_env sample_inp sample_cs ! 1))))
     (ev_ID (rp_Event (resolveReports sample_env sample_inp sample_cs ! 1))) \<noteq> Some ''must_not_merge''" .
qed

text \<open>A report is collapsed as a duplicate only on one of three grounds: the user merged its
  evidence into that very event, the event is the exact replay of its source post, or the model said
  so with at least the configured confidence about a shortlisted event or the event of an earlier
  report of the same check, at a compatible time and not against a split correction.\<close>

theorem duplicate_needs_grounds:
  assumes "orders_ok env (in_constraints inp)" "i < length cs"
    and "r = resolveReports env inp cs ! i" "rp_Relation r = ''duplicate_report''"
  shows "(ev_ID (rp_Event r), ''must_merge'') \<in> set (in_constraints inp (sc_EvidenceKey (cs ! i))) \<or>
    (ev_ID (rp_Event r), ''exact_source_replay'') \<in> set (in_constraints inp (sc_EvidenceKey (cs ! i))) \<or>
    (\<exists>d target. d \<in> set (in_resolution inp) \<and> de_CandidateAlias d = sc_Alias (cs ! i) \<and>
       de_Relation d = ''duplicate_report'' \<and> in_mergeThreshold inp \<le> de_Confidence d \<and>
       ev_ID (rp_Event r) = ev_ID target \<and>
       (target \<in> set (in_shortlist inp) \<or> (\<exists>j < i. target = rp_Event (resolveReports env inp cs ! j))) \<and>
       target_allowed env (in_constraints inp) (in_retentionDays inp) (in_mergeThreshold inp) (cs ! i) d target)"
proof (rule resolveReports_nth [OF assms(2), of env inp])
  fix m
  assume m: "resolveReports env inp cs ! i = report_of env inp i m (cs ! i)"
    and tbl: "\<And>a e. m a = Some e \<Longrightarrow> \<exists>j < i. sc_Alias (cs ! j) = a \<and> rp_Event (resolveReports env inp cs ! j) = e"
  let ?ch = "settle env inp i m (cs ! i)"
  have r: "ev_ID (rp_Event r) = ev_ID (ch_target ?ch)" "ch_relation ?ch = ''duplicate_report''"
    using m assms(3,4) by simp_all
  show ?thesis
  proof (cases rule: settle_cases [of env i inp "cs ! i" m])
    case confirmed
    from confirmed_choice_Some(1) [OF this] assms(1) r show ?thesis by (simp add: orders_ok_def)
  next
    case replay
    from replay_choice_Some(1) [OF this] assms(1) r show ?thesis by (simp add: orders_ok_def)
  next
    case model
    then obtain d where d: "decisions (in_resolution inp) (sc_Alias (cs ! i)) = Some d"
      "named_target (in_shortlist inp) m d = Some (ch_target ?ch)" "ch_relation ?ch = de_Relation d"
      "target_allowed env (in_constraints inp) (in_retentionDays inp) (in_mergeThreshold inp) (cs ! i) d (ch_target ?ch)"
      by (rule model_choice_Some)
    from d(2) tbl have "ch_target ?ch \<in> set (in_shortlist inp) \<or>
        (\<exists>j < i. ch_target ?ch = rp_Event (resolveReports env inp cs ! j))"
      by (metis named_target_Some)
    moreover have "in_mergeThreshold inp \<le> de_Confidence d"
      using d(3,4) r(2) by (auto simp: target_allowed_def)
    ultimately show ?thesis using d r decisions_Some [OF d(1)] by auto
  next
    case fresh
    with r(2) show ?thesis by simp
  qed
qed

theorem duplicate_needs_grounds_witness:
  "rp_Relation (resolveReports sample_env sample_inp sample_cs ! 0) = ''duplicate_report'' \<and>
   (\<exists>d. d \<in> set (in_resolution sample_inp) \<and> in_mergeThreshold sample_inp \<le> de_Confidence d)"
proof
  show dup: "rp_Relation (resolveReports sample_env sample_inp sample_cs ! 0) = ''duplicate_report''"
    by code_simp
  have none: "in_constraints sample_inp (sc_EvidenceKey (sample_cs ! 0)) = []" by code_simp
  have "0 < length sample_cs" by (simp add: sample_cs_def)
  from duplicate_needs_grounds [OF sample_inp_ok(1) this refl dup] none
  show "\<exists>d. d \<in> set (in_resolution sample_inp) \<and> in_mergeThreshold sample_inp \<le> de_Confidence d"
    by auto
qed

lemma first_of_kind_unique:
  assumes "(x, kind) \<in> set entries" "\<And>y. (y, kind) \<in> set entries \<Longrightarrow> y = x"
  shows "first_of_kind kind entries = Some x"
proof (cases "first_of_kind kind entries")
  case None
  with assms(1) show ?thesis by (force simp: first_of_kind_None)
next
  case (Some y)
  with assms(2) first_of_kind_Some show ?thesis by metis
qed

text \<open>A user's merge correction decides: when the evidence of a report must be merged into
  one retained event, the report gets that event, the relation the user confirmed (a duplicate if
  none is recorded) and full confidence, in every iteration order of the map, whatever the model
  answered and whatever replays were found.\<close>

theorem user_merge_wins:
  assumes "orders_ok env (in_constraints inp)" "i < length cs"
    and "(x, ''must_merge'') \<in> set (in_constraints inp (sc_EvidenceKey (cs ! i)))"
    and "\<And>y. (y, ''must_merge'') \<in> set (in_constraints inp (sc_EvidenceKey (cs ! i))) \<Longrightarrow> y = x"
    and "x \<in> ev_ID ` set (in_catalog inp)"
  shows "ev_ID (rp_Event (resolveReports env inp cs ! i)) = x \<and>
    rp_Relation (resolveReports env inp cs ! i) =
      (case map_of (in_novelty inp (sc_EvidenceKey (cs ! i))) x of
         Some r \<Rightarrow> if r = '''' then ''duplicate_report'' else r | None \<Rightarrow> ''duplicate_report'') \<and>
    rp_Confidence (resolveReports env inp cs ! i) = 1"
proof (rule resolveReports_nth [OF assms(2), of env inp])
  fix m
  assume r: "resolveReports env inp cs ! i = report_of env inp i m (cs ! i)"
  have first: "first_of_kind ''must_merge'' (en_Merges env i (in_constraints inp (sc_EvidenceKey (cs ! i)))) = Some x"
  proof (rule first_of_kind_unique)
    have same: "set (en_Merges env i (in_constraints inp (sc_EvidenceKey (cs ! i)))) =
        set (in_constraints inp (sc_EvidenceKey (cs ! i)))"
      using assms(1) unfolding orders_ok_def by blast
    from assms(3) show "(x, ''must_merge'') \<in> set (en_Merges env i (in_constraints inp (sc_EvidenceKey (cs ! i))))"
      unfolding same .
    show "y = x" if "(y, ''must_merge'') \<in> set (en_Merges env i (in_constraints inp (sc_EvidenceKey (cs ! i))))" for y
      using that unfolding same by (rule assms(4))
  qed
  from assms(5) obtain e where e: "allEvents (in_catalog inp) x = Some e"
    by (auto simp flip: allEvents_dom)
  with allEvents_Some [OF e] first r show ?thesis
    by (auto simp: settle_def confirmed_choice_def Let_def clampConfidence_def split: option.splits)
qed

definition merged_inp :: resolution_input where
  "merged_inp = sample_inp \<lparr>in_constraints := (\<lambda>k. if k = ''key_c2'' then [(''e1'', ''must_merge'')] else []),
     in_novelty := (\<lambda>_. [(''e1'', ''material_update'')]), in_resolution := []\<rparr>"

theorem user_merge_wins_witness:
  "ev_ID (rp_Event (resolveReports sample_env merged_inp sample_cs ! 1)) = ''e1'' \<and>
   rp_Relation (resolveReports sample_env merged_inp sample_cs ! 1) = ''material_update''"
proof -
  have ok: "orders_ok sample_env (in_constraints merged_inp)"
    by (simp add: orders_ok_def sample_env_def merged_inp_def)
  have cs: "in_constraints merged_inp (sc_EvidenceKey (sample_cs ! 1)) = [(''e1'', ''must_merge'')]"
    by code_simp
  have novelty: "map_of (in_novelty merged_inp (sc_EvidenceKey (sample_cs ! 1))) ''e1'' = Some ''material_update''"
    by code_simp
  have two: "1 < length sample_cs" by (simp add: sample_cs_def)
  have retained: "''e1'' \<in> ev_ID ` set (in_catalog merged_inp)" by code_simp
  have "ev_ID (rp_Event (resolveReports sample_env merged_inp sample_cs ! 1)) = ''e1'' \<and>
    rp_Relation (resolveReports sample_env merged_inp sample_cs ! 1) =
      (case map_of (in_novelty merged_inp (sc_EvidenceKey (sample_cs ! 1))) ''e1'' of
         Some r \<Rightarrow> if r = '''' then ''duplicate_report'' else r | None \<Rightarrow> ''duplicate_report'') \<and>
    rp_Confidence (resolveReports sample_env merged_inp sample_cs ! 1) = 1"
  proof (rule user_merge_wins [OF ok two _ _ retained])
    show "(''e1'', ''must_merge'') \<in> set (in_constraints merged_inp (sc_EvidenceKey (sample_cs ! 1)))"
      unfolding cs by simp
    show "y = ''e1''" if "(y, ''must_merge'') \<in> set (in_constraints merged_inp (sc_EvidenceKey (sample_cs ! 1)))" for y
      using that unfolding cs by simp
  qed
  then show ?thesis unfolding novelty by simp
qed

text \<open>The shortlist is the best of the catalog: its length is the limit or the number of
  events sharing at least three significant words with a candidate, whichever is smaller; each
  listed event is such an event; the list is ordered by overlap, then recency; and no such event
  left out ranks before a listed one.\<close>

theorem shortlist_is_best:
  assumes "rankShortlist cs catalog limit = Some (shortlist, signal)"
  shows "int (length shortlist) = min limit (int (length (ranked_events cs catalog))) \<and>
    list_all (\<lambda>e. e \<in> set catalog \<and> (\<exists>c \<in> set cs. 3 \<le> overlap e c)) shortlist \<and>
    ranked_in_order (map (rank_event cs) shortlist) \<and>
    (\<forall>e c e'. e \<in> set catalog \<longrightarrow> c \<in> set cs \<longrightarrow> 3 \<le> overlap e c \<longrightarrow> e \<notin> set shortlist \<longrightarrow>
       e' \<in> set shortlist \<longrightarrow> \<not> ranks_before (rank_event cs e) (rank_event cs e'))"
proof -
  define ranked where "ranked = rank_sort (ranked_events cs catalog)"
  have sl: "shortlist = map rk_event (take (nat limit) ranked)" and lim: "0 \<le> limit"
    using assms by (auto simp: rankShortlist_def Let_def ranked_def split: if_splits)
  have own: "r \<in> set ranked \<Longrightarrow> rank_event cs (rk_event r) = r" for r
    by (auto simp: ranked_def in_ranked_events)
  have re: "map (rank_event cs) shortlist = take (nat limit) ranked"
    unfolding sl map_map by (rule map_idI) (auto simp: own dest: in_set_takeD)
  have order: "ranked_in_order ranked" unfolding ranked_def by (rule rank_sort_in_order)
  have drop: "e \<in> rk_event ` set (drop (nat limit) ranked)"
    if "e \<in> set catalog" "c \<in> set cs" "3 \<le> overlap e c" "e \<notin> set shortlist" for e c
  proof -
    have "3 \<le> rk_score (rank_event cs e)"
      using that score_reaches [of 3 cs e] by auto
    with that have "rank_event cs e \<in> set ranked"
      by (auto simp: ranked_def in_ranked_events historicalOverlapMinimum_def)
    then have "rank_event cs e \<in> set (take (nat limit) ranked) \<union> set (drop (nat limit) ranked)"
      by (metis append_take_drop_id set_append)
    with that(4) sl show ?thesis by (force simp: image_iff)
  qed
  have "\<not> ranks_before (rank_event cs e) (rank_event cs e')"
    if "e \<in> set catalog" "c \<in> set cs" "3 \<le> overlap e c" "e \<notin> set shortlist" "e' \<in> set shortlist" for e c e'
  proof -
    from drop [OF that(1-4)] own have "rank_event cs e \<in> set (drop (nat limit) ranked)"
      by (metis (no_types, lifting) image_iff in_set_dropD)
    moreover have "rank_event cs e' \<in> set (take (nat limit) ranked)"
      using that(5) re by (metis image_eqI image_set)
    moreover have "ranked_in_order (take (nat limit) ranked @ drop (nat limit) ranked)"
      using order by simp
    ultimately show ?thesis by (simp only: sorted_wrt_append) blast
  qed
  moreover have "int (length shortlist) = min limit (int (length (ranked_events cs catalog)))"
    using lim by (auto simp: sl ranked_def min_def)
  moreover have "ranked_in_order (map (rank_event cs) shortlist)"
    unfolding re using order by (rule sorted_wrt_take)
  moreover have "e \<in> set catalog \<and> (\<exists>c \<in> set cs. 3 \<le> overlap e c)" if "e \<in> set shortlist" for e
    using that score_reaches [of 3 cs e]
    by (auto simp: sl ranked_def in_ranked_events historicalOverlapMinimum_def dest!: in_set_takeD)
  ultimately show ?thesis unfolding list_all_iff by blast
qed

theorem shortlist_is_best_witness:
  "\<exists>shortlist signal.
     rankShortlist [sample_candidate ''c1'' ''Abc def ghi''] [sample_event ''e0'' ''abc def the'',
       sample_event ''e1'' ''ghi abc def''] 2 = Some (shortlist, signal) \<and>
     map ev_ID shortlist = [''e1''] \<and> ts_Overlap signal = 3 \<and>
     ranked_in_order (map (rank_event [sample_candidate ''c1'' ''Abc def ghi'']) shortlist)"
proof -
  let ?cs = "[sample_candidate ''c1'' ''Abc def ghi'']"
  let ?catalog = "[sample_event ''e0'' ''abc def the'', sample_event ''e1'' ''ghi abc def'']"
  have run: "map_option (\<lambda>(l, s). (map ev_ID l, ts_Overlap s)) (rankShortlist ?cs ?catalog 2) =
      Some ([''e1''], 3)"
    by code_simp
  then obtain l s where ls: "rankShortlist ?cs ?catalog 2 = Some (l, s)" "map ev_ID l = [''e1'']" "ts_Overlap s = 3"
    by (auto simp: map_option_case split: option.splits)
  moreover have "ranked_in_order (map (rank_event ?cs) l)" using shortlist_is_best [OF ls(1)] by blast
  ultimately show ?thesis by metis
qed

text \<open>A report dated more than 292 years before an event counts as published at a compatible
  time: \<open>Sub\<close> saturates at the least \<open>Duration\<close>, whose negation is itself, so the distance stays
  negative and passes the retention check; a report as far after the event does not.\<close>

theorem ancient_report_counts_as_compatible:
  assumes "parse p = Some t" "parse s = Some u" "ev_EventStart e = Some s"
    and "0 \<le> days" "days \<le> 106751" "t + 2 ^ 63 \<le> u"
  shows "compatibleEventTime parse (Some p) e days \<and>
    (\<forall>q. parse q = Some (2 * u - t) \<longrightarrow> \<not> compatibleEventTime parse (Some q) e days)"
  using compatible_far_past [of parse p t s u e days] compatible_far_future [of parse _ "2 * u - t" s u e days] assms
  by fastforce

theorem ancient_report_counts_as_compatible_witness:
  "compatibleEventTime (\<lambda>s. if s = ''0001-01-01T00:00:00Z'' then Some 0 else Some (2 ^ 65))
     (Some ''0001-01-01T00:00:00Z'') (sample_event ''e1'' ''claim'') 30"
  using ancient_report_counts_as_compatible
    [of "\<lambda>s. if s = ''0001-01-01T00:00:00Z'' then Some 0 else Some (2 ^ 65)" "''0001-01-01T00:00:00Z''" 0
        "''2025-01-01T00:00:00Z''" "2 ^ 65" "sample_event ''e1'' ''claim''" 30]
  by (simp add: sample_event_def)

end
