(* ===== verification/SemanticSession.thy ===== *)
theory SemanticSession
  imports EventEngine
begin

text \<open>
  A whole run of the semantic event engine over a session (\<open>processSession\<close>) or one restored
  timeline item (\<open>ProcessTimelineItem\<close>) of \<open>src/internal/eventengine/engine.go\<close>, the aggregate signal
  receipt it stores (\<open>semantic_receipt.go\<close>), the replay report computed from the stored receipts
  (\<open>semantic_replay.go\<close>), and the request schema and excerpts of \<open>resolver.go\<close>. The answers of the
  store and of the resolver are parameters; what a run writes to the store is the log of its result.
\<close>

subsection \<open>The signal receipt\<close>

record SemanticSignalReceipt =
  rc_Version :: string
  rc_CandidateCount :: nat
  rc_ShortlistedEventCount :: nat
  rc_TopOverlap :: nat
  rc_TriggerTokenTotal :: nat
  rc_TriggerRareTokenCount :: nat
  rc_TriggerCommonTokenCount :: nat
  rc_TriggerUnknownTokenCount :: nat
  rc_ActorOverlapCount :: nat
  rc_ActorUnavailableCount :: nat
  rc_ObjectOverlapCount :: nat
  rc_ObjectUnavailableCount :: nat
  rc_TimeWithin24HoursCount :: nat
  rc_TimeWithin7DaysCount :: nat
  rc_TimeBeyond7DaysCount :: nat
  rc_TimeUnavailableCount :: nat
  rc_ExactEventKeyMatchCount :: nat
  rc_ExactEventKeyUnavailableCount :: nat

definition semanticSignalReceiptVersion :: string where
  "semanticSignalReceiptVersion = ''semantic-signal-receipt-v1''"

definition receiptText :: "SemanticEvent \<Rightarrow> string" where
  "receiptText event = join '' '' [ev_CanonicalClaim event, ev_Actor event, ev_Action event, ev_Object event,
     join '' '' (ev_Aliases event)]"

definition receiptTokenFrequencies :: "SemanticEvent list \<Rightarrow> string \<Rightarrow> nat" where
  "receiptTokenFrequencies events token =
     length (filter (\<lambda>event. token \<in> set (tokens (receiptText event))) events)"

definition commonThreshold :: "SemanticEvent list \<Rightarrow> nat" where
  "commonThreshold catalog = max 2 (length catalog div 5)"

definition count_token :: "SemanticEvent list \<Rightarrow> string \<Rightarrow> SemanticSignalReceipt \<Rightarrow> SemanticSignalReceipt" where
  "count_token catalog token receipt =
     (let frequency = receiptTokenFrequencies catalog token in
      if frequency = 0 then receipt \<lparr>rc_TriggerUnknownTokenCount := rc_TriggerUnknownTokenCount receipt + 1\<rparr>
      else if frequency \<ge> commonThreshold catalog
      then receipt \<lparr>rc_TriggerCommonTokenCount := rc_TriggerCommonTokenCount receipt + 1\<rparr>
      else receipt \<lparr>rc_TriggerRareTokenCount := rc_TriggerRareTokenCount receipt + 1\<rparr>)"

text \<open>The loop over the shortlist that \<open>countCandidateActor\<close> and \<open>countCandidateObject\<close> share: whether
  some event has the field at all, and whether one of them shares a word with the text.\<close>

definition comparable_in :: "(SemanticEvent \<Rightarrow> string) \<Rightarrow> SemanticEvent list \<Rightarrow> bool" where
  "comparable_in field shortlist = list_ex (\<lambda>event. trim_space (field event) \<noteq> '''') shortlist"

definition matched_in :: "string \<Rightarrow> (SemanticEvent \<Rightarrow> string) \<Rightarrow> SemanticEvent list \<Rightarrow> bool" where
  "matched_in text field shortlist =
     list_ex (\<lambda>event. trim_space (field event) \<noteq> '''' \<and>
       length (intersection (tokens text) (tokens (field event))) > 0) shortlist"

definition countCandidateActor ::
  "SemanticCandidate \<Rightarrow> SemanticEvent list \<Rightarrow> SemanticSignalReceipt \<Rightarrow> SemanticSignalReceipt" where
  "countCandidateActor candidate shortlist receipt =
     (if trim_space (sc_Author candidate) = '''' \<or> \<not> comparable_in ev_Actor shortlist
      then receipt \<lparr>rc_ActorUnavailableCount := rc_ActorUnavailableCount receipt + 1\<rparr>
      else if matched_in (sc_Author candidate) ev_Actor shortlist
      then receipt \<lparr>rc_ActorOverlapCount := rc_ActorOverlapCount receipt + 1\<rparr> else receipt)"

definition countCandidateObject ::
  "SemanticCandidate \<Rightarrow> SemanticEvent list \<Rightarrow> SemanticSignalReceipt \<Rightarrow> SemanticSignalReceipt" where
  "countCandidateObject candidate shortlist receipt =
     (if trim_space (sc_WhatChanged candidate) = '''' \<or> \<not> comparable_in ev_Object shortlist
      then receipt \<lparr>rc_ObjectUnavailableCount := rc_ObjectUnavailableCount receipt + 1\<rparr>
      else if matched_in (sc_WhatChanged candidate) ev_Object shortlist
      then receipt \<lparr>rc_ObjectOverlapCount := rc_ObjectOverlapCount receipt + 1\<rparr> else receipt)"

definition semanticEventTimeWindow :: "(string \<Rightarrow> int option) \<Rightarrow> SemanticEvent \<Rightarrow> (int \<times> int) option" where
  "semanticEventTimeWindow parse event =
     (case Option.bind (ev_EventStart event) parse of
        None \<Rightarrow> None
      | Some start \<Rightarrow>
          (let stop = (case Option.bind (ev_EventEnd event) parse of None \<Rightarrow> start | Some e \<Rightarrow> e)
           in Some (if stop < start then (stop, start) else (start, stop))))"

definition window_distance :: "int \<Rightarrow> int \<times> int \<Rightarrow> int" where
  "window_distance t w =
     (if t < fst w then time_sub (fst w) t else if t > snd w then time_sub t (snd w) else 0)"

fun minimum_distance ::
  "(string \<Rightarrow> int option) \<Rightarrow> int \<Rightarrow> SemanticEvent list \<Rightarrow> int option \<Rightarrow> int option" where
  "minimum_distance parse t [] best = best"
| "minimum_distance parse t (event # rest) best =
     minimum_distance parse t rest
       (case semanticEventTimeWindow parse event of
          None \<Rightarrow> best
        | Some w \<Rightarrow>
            (let distance = window_distance t w in
             case best of None \<Rightarrow> Some distance
             | Some b \<Rightarrow> if distance < b then Some distance else Some b))"

definition countCandidateTime ::
  "(string \<Rightarrow> int option) \<Rightarrow> SemanticCandidate \<Rightarrow> SemanticEvent list \<Rightarrow> SemanticSignalReceipt
   \<Rightarrow> SemanticSignalReceipt" where
  "countCandidateTime parse candidate shortlist receipt =
     (case Option.bind (sc_PublishedAt candidate) parse of
        None \<Rightarrow> receipt \<lparr>rc_TimeUnavailableCount := rc_TimeUnavailableCount receipt + 1\<rparr>
      | Some t \<Rightarrow>
          (case minimum_distance parse t shortlist None of
             None \<Rightarrow> receipt \<lparr>rc_TimeUnavailableCount := rc_TimeUnavailableCount receipt + 1\<rparr>
           | Some d \<Rightarrow>
               if d \<le> 24 * hour_ns
               then receipt \<lparr>rc_TimeWithin24HoursCount := rc_TimeWithin24HoursCount receipt + 1\<rparr>
               else if d \<le> 7 * 24 * hour_ns
               then receipt \<lparr>rc_TimeWithin7DaysCount := rc_TimeWithin7DaysCount receipt + 1\<rparr>
               else receipt \<lparr>rc_TimeBeyond7DaysCount := rc_TimeBeyond7DaysCount receipt + 1\<rparr>))"

definition alias_keys :: "SemanticEvent list \<Rightarrow> string list" where
  "alias_keys shortlist = filter (\<lambda>k. k \<noteq> '''') (map receiptEventKey (concat (map ev_Aliases shortlist)))"

definition countCandidateEventKey ::
  "SemanticCandidate \<Rightarrow> SemanticEvent list \<Rightarrow> SemanticSignalReceipt \<Rightarrow> SemanticSignalReceipt" where
  "countCandidateEventKey candidate shortlist receipt =
     (let key = receiptEventKey (sc_EventKey candidate) in
      if key = '''' \<or> alias_keys shortlist = []
      then receipt \<lparr>rc_ExactEventKeyUnavailableCount := rc_ExactEventKeyUnavailableCount receipt + 1\<rparr>
      else if key \<in> set (alias_keys shortlist)
      then receipt \<lparr>rc_ExactEventKeyMatchCount := rc_ExactEventKeyMatchCount receipt + 1\<rparr> else receipt)"

definition count_candidate ::
  "(string \<Rightarrow> int option) \<Rightarrow> SemanticEvent list \<Rightarrow> SemanticCandidate \<Rightarrow> SemanticSignalReceipt
   \<Rightarrow> SemanticSignalReceipt" where
  "count_candidate parse shortlist candidate receipt =
     (if shortlist = [] then
        receipt \<lparr>rc_ActorUnavailableCount := rc_ActorUnavailableCount receipt + 1,
          rc_ObjectUnavailableCount := rc_ObjectUnavailableCount receipt + 1,
          rc_TimeUnavailableCount := rc_TimeUnavailableCount receipt + 1,
          rc_ExactEventKeyUnavailableCount := rc_ExactEventKeyUnavailableCount receipt + 1\<rparr>
      else countCandidateEventKey candidate shortlist
        (countCandidateTime parse candidate shortlist
          (countCandidateObject candidate shortlist
            (countCandidateActor candidate shortlist receipt))))"

definition empty_receipt :: SemanticSignalReceipt where
  "empty_receipt = \<lparr>rc_Version = semanticSignalReceiptVersion, rc_CandidateCount = 0,
     rc_ShortlistedEventCount = 0, rc_TopOverlap = 0, rc_TriggerTokenTotal = 0,
     rc_TriggerRareTokenCount = 0, rc_TriggerCommonTokenCount = 0, rc_TriggerUnknownTokenCount = 0,
     rc_ActorOverlapCount = 0, rc_ActorUnavailableCount = 0, rc_ObjectOverlapCount = 0,
     rc_ObjectUnavailableCount = 0, rc_TimeWithin24HoursCount = 0, rc_TimeWithin7DaysCount = 0,
     rc_TimeBeyond7DaysCount = 0, rc_TimeUnavailableCount = 0, rc_ExactEventKeyMatchCount = 0,
     rc_ExactEventKeyUnavailableCount = 0\<rparr>"

definition buildSemanticSignalReceipt ::
  "(string \<Rightarrow> int option) \<Rightarrow> SemanticCandidate list \<Rightarrow> SemanticEvent list \<Rightarrow> SemanticEvent list
   \<Rightarrow> triggerSignal \<Rightarrow> SemanticSignalReceipt" where
  "buildSemanticSignalReceipt parse candidates shortlist catalog trigger =
     (let receipt = empty_receipt \<lparr>rc_CandidateCount := length candidates,
            rc_ShortlistedEventCount := length shortlist, rc_TopOverlap := ts_Overlap trigger,
            rc_TriggerTokenTotal := length (ts_Tokens trigger)\<rparr>
      in fold (count_candidate parse shortlist) candidates
           (fold (count_token catalog) (ts_Tokens trigger) receipt))"

subsection \<open>A run over a session\<close>

record ModelUsage =
  mu_Input :: "int option"
  mu_CachedInput :: "int option"
  mu_Output :: "int option"
  mu_ReasoningOutput :: "int option"
  mu_ProviderModel :: string
  mu_NativeReasoning :: string
  mu_ReasoningTier :: string
  mu_ModelDescriptorVersion :: string
  mu_ModelMaturity :: string
  mu_CallerLatencyMS :: int
  mu_QueueWaitMS :: int
  mu_ProviderExecutionMS :: int
  mu_ResponseTotalMS :: int

record Failure =
  fa_Code :: string
  fa_Stage :: string
  fa_Message :: string
  fa_Retryable :: bool

record EventResolutionSummary =
  es_SessionID :: string
  es_Status :: string
  es_Provider :: string
  es_Model :: string
  es_Effort :: string
  es_ModelDescriptorVersion :: string
  es_ModelMaturity :: string
  es_CandidateCount :: int
  es_HistoricalEventCount :: int
  es_ShortlistCount :: int
  es_UniqueItems :: int
  es_DuplicateReports :: int
  es_ResolverInvoked :: bool
  es_TriggerReason :: string
  es_StrongestOverlap :: int
  es_TriggerTokens :: "string list"
  es_SignalReceipt :: "SemanticSignalReceipt option"
  es_DurationMS :: int
  es_CallerLatencyMS :: int
  es_QueueWaitMS :: int
  es_ProviderExecutionMS :: int
  es_ResponseTotalMS :: int
  es_Usage :: ModelUsage
  es_Error :: "Failure option"
  es_CreatedAt :: string

definition zero_usage :: ModelUsage where
  "zero_usage = \<lparr>mu_Input = None, mu_CachedInput = None, mu_Output = None, mu_ReasoningOutput = None,
     mu_ProviderModel = '''', mu_NativeReasoning = '''', mu_ReasoningTier = '''',
     mu_ModelDescriptorVersion = '''', mu_ModelMaturity = '''', mu_CallerLatencyMS = 0, mu_QueueWaitMS = 0,
     mu_ProviderExecutionMS = 0, mu_ResponseTotalMS = 0\<rparr>"

text \<open>The zero \<open>EventResolutionSummary\<close>; the fields \<open>UserSplitCorrections\<close> and \<open>UserMergeCorrections\<close>
  are filled by the store only and left out.\<close>

definition zero_summary :: EventResolutionSummary where
  "zero_summary = \<lparr>es_SessionID = '''', es_Status = '''', es_Provider = '''', es_Model = '''', es_Effort = '''',
     es_ModelDescriptorVersion = '''', es_ModelMaturity = '''', es_CandidateCount = 0,
     es_HistoricalEventCount = 0, es_ShortlistCount = 0, es_UniqueItems = 0, es_DuplicateReports = 0,
     es_ResolverInvoked = False, es_TriggerReason = '''', es_StrongestOverlap = 0, es_TriggerTokens = [],
     es_SignalReceipt = None, es_DurationMS = 0, es_CallerLatencyMS = 0, es_QueueWaitMS = 0,
     es_ProviderExecutionMS = 0, es_ResponseTotalMS = 0, es_Usage = zero_usage, es_Error = None,
     es_CreatedAt = ''''\<rparr>"

definition applyReceiptMetadata :: "EventResolutionSummary \<Rightarrow> EventResolutionSummary" where
  "applyReceiptMetadata summary =
     (let usage = es_Usage summary in
      summary \<lparr>es_Model := (if mu_ProviderModel usage \<noteq> '''' then mu_ProviderModel usage else es_Model summary),
        es_Effort := (if mu_NativeReasoning usage \<noteq> '''' then mu_NativeReasoning usage else es_Effort summary),
        es_ModelDescriptorVersion := mu_ModelDescriptorVersion usage,
        es_ModelMaturity := mu_ModelMaturity usage\<rparr>)"

text \<open>An answer of a resolver: its resolution, usage, duration in nanoseconds, and error if any. A
  \<open>ProfiledResolver\<close> also chooses the model and answers by profile.\<close>

type_synonym answer = "SemanticResolution \<times> ModelUsage \<times> int \<times> string option"

record Resolver =
  rs_Name :: string
  rs_Model :: "string \<times> string"
  rs_Resolve :: "SemanticCandidate list \<Rightarrow> SemanticEvent list \<Rightarrow> answer"
  rs_Profiled :: "((string \<Rightarrow> string \<times> string) \<times>
    (SemanticCandidate list \<Rightarrow> SemanticEvent list \<Rightarrow> string \<Rightarrow> answer)) option"

definition modelForProfile :: "Resolver \<Rightarrow> string \<Rightarrow> string \<times> string" where
  "modelForProfile resolver profileID =
     (case rs_Profiled resolver of None \<Rightarrow> rs_Model resolver | Some (model, _) \<Rightarrow> model profileID)"

text \<open>\<open>Duration.Milliseconds\<close> truncates towards zero.\<close>

definition milliseconds :: "int \<Rightarrow> int" where
  "milliseconds d = (if d < 0 then - (- d div 1000000) else d div 1000000)"

definition resolve :: "Resolver \<Rightarrow> SemanticCandidate list \<Rightarrow> SemanticEvent list \<Rightarrow> string \<Rightarrow> answer" where
  "resolve resolver candidates shortlist profileID =
     (let (result, usage, duration, err) =
        (case rs_Profiled resolver of
           None \<Rightarrow> rs_Resolve resolver candidates shortlist
         | Some (_, run) \<Rightarrow> run candidates shortlist profileID)
      in (result, usage, milliseconds duration, err))"

text \<open>The store as the engine sees it: what each query answers and whether a write fails.\<close>

record Store =
  db_SemanticCandidates :: "string \<Rightarrow> string + SemanticCandidate list"
  db_SemanticCandidate :: "string \<Rightarrow> string + SemanticCandidate"
  db_ListSemanticEvents :: "string \<Rightarrow> nat \<Rightarrow> string + SemanticEvent list"
  db_SemanticConstraints :: "string list \<Rightarrow> string + constraint_map"
  db_SemanticNoveltyConstraints :: "string list \<Rightarrow> string + constraint_map"
  db_ExactSemanticEventIDs :: "string list \<Rightarrow> string + (string \<times> string) list"
  db_ResurfaceSemanticReevaluationKeys :: "string \<Rightarrow> string + string list"
  db_SaveSemanticReports :: "ResolvedSemanticReport list \<Rightarrow> string option"
  db_SaveEventResolutionSummary :: "EventResolutionSummary \<Rightarrow> string option"
  db_RefreshEventResolutionCounts :: "string \<Rightarrow> string option"

datatype store_write =
    SavedReports "ResolvedSemanticReport list"
  | SavedSummary EventResolutionSummary
  | RefreshedCounts string

text \<open>What a run read from the store before it decides.\<close>

record retrieved =
  re_catalog :: "SemanticEvent list"
  re_constraints :: constraint_map
  re_novelty :: constraint_map
  re_exact :: "(string \<times> string) list"

definition localCatalogLimit :: nat where "localCatalogLimit = 2000"

definition retrieve :: "Store \<Rightarrow> string \<Rightarrow> string list \<Rightarrow> string + retrieved" where
  "retrieve db cutoff keys =
     (case db_ListSemanticEvents db cutoff localCatalogLimit of
        Inl e \<Rightarrow> Inl e
      | Inr catalog \<Rightarrow>
     (case db_SemanticConstraints db keys of
        Inl e \<Rightarrow> Inl e
      | Inr constraints \<Rightarrow>
     (case db_SemanticNoveltyConstraints db keys of
        Inl e \<Rightarrow> Inl e
      | Inr novelty \<Rightarrow>
     (case db_ExactSemanticEventIDs db keys of
        Inl e \<Rightarrow> Inl e
      | Inr exact \<Rightarrow> Inr \<lparr>re_catalog = catalog, re_constraints = constraints, re_novelty = novelty,
                           re_exact = exact\<rparr>))))"

text \<open>The plan of a run: what is compared with what, and why.\<close>

record run_plan =
  pl_constraints :: constraint_map
  pl_candidates :: "SemanticCandidate list"
  pl_shortlist :: "SemanticEvent list"
  pl_should :: bool
  pl_signal :: triggerSignal
  pl_reason :: string

definition no_signal :: triggerSignal where
  "no_signal = \<lparr>ts_Strong = False, ts_Overlap = 0, ts_Tokens = [], ts_Reason = ''''\<rparr>"

definition make_plan ::
  "bool \<Rightarrow> Settings \<Rightarrow> SemanticCandidate list \<Rightarrow> SemanticEvent list \<Rightarrow> constraint_map
   \<Rightarrow> (string \<times> string) list \<Rightarrow> run_plan option" where
  "make_plan onboarding settings candidates catalog constraints0 exact =
     (let constraints = applyExactReplayConstraints constraints0 exact catalog;
          resolverCandidates = candidatesRequiringResolution candidates constraints
      in case rankShortlist resolverCandidates catalog (st_SemanticEventShortlist settings) of
        None \<Rightarrow> None
      | Some (shortlist, historicalSignal) \<Rightarrow>
          (let intra = strongestIntraCheckSignal resolverCandidates in
           Some (if onboarding then
              \<lparr>pl_constraints = constraints, pl_candidates = resolverCandidates, pl_shortlist = [],
               pl_should = False, pl_signal = no_signal,
               pl_reason = (if resolverCandidates = [] then ''exact_source_replays'' else ''onboarding_local_index'')\<rparr>
            else
              \<lparr>pl_constraints = constraints, pl_candidates = resolverCandidates, pl_shortlist = shortlist,
               pl_should = (shortlist \<noteq> [] \<or> ts_Strong intra),
               pl_signal = (if shortlist \<noteq> [] then historicalSignal else intra),
               pl_reason = (if resolverCandidates = [] then ''exact_source_replays''
                 else if shortlist \<noteq> [] then ''historical_shortlist''
                 else if ts_Strong intra then ts_Reason intra else ''local_new_events'')\<rparr>)))"

definition planned_summary ::
  "(string \<Rightarrow> int option) \<Rightarrow> EventResolutionSummary \<Rightarrow> SemanticEvent list \<Rightarrow> run_plan \<Rightarrow> EventResolutionSummary" where
  "planned_summary parse summary catalog pl =
     summary \<lparr>es_HistoricalEventCount := int (length catalog),
       es_ShortlistCount := int (length (pl_shortlist pl)),
       es_TriggerReason := pl_reason pl,
       es_StrongestOverlap := int (ts_Overlap (pl_signal pl)),
       es_TriggerTokens := ts_Tokens (pl_signal pl),
       es_SignalReceipt := Some (buildSemanticSignalReceipt parse (pl_candidates pl) (pl_shortlist pl)
         catalog (pl_signal pl))\<rparr>"

definition invoked_summary ::
  "Resolver \<Rightarrow> string \<Rightarrow> ModelUsage \<Rightarrow> int \<Rightarrow> EventResolutionSummary \<Rightarrow> EventResolutionSummary" where
  "invoked_summary resolver profileID usage duration summary =
     (let (model, effort) = modelForProfile resolver profileID in
      applyReceiptMetadata
        (summary \<lparr>es_ResolverInvoked := True, es_Provider := rs_Name resolver, es_Model := model,
          es_Effort := effort, es_Usage := usage, es_DurationMS := duration,
          es_CallerLatencyMS := (if mu_CallerLatencyMS usage = 0 then duration else mu_CallerLatencyMS usage),
          es_QueueWaitMS := mu_QueueWaitMS usage, es_ProviderExecutionMS := mu_ProviderExecutionMS usage,
          es_ResponseTotalMS := mu_ResponseTotalMS usage\<rparr>))"

definition failed_summary :: "string \<Rightarrow> EventResolutionSummary \<Rightarrow> EventResolutionSummary" where
  "failed_summary err summary =
     summary \<lparr>es_Status := ''failed'', es_Error := Some \<lparr>fa_Code = ''semantic_resolution_failed'',
       fa_Stage = ''semantic_event_resolution'', fa_Message = err, fa_Retryable = True\<rparr>\<rparr>"

definition duplicate_count :: "ResolvedSemanticReport list \<Rightarrow> int" where
  "duplicate_count reports = int (length (filter (\<lambda>r. rp_Relation r = ''duplicate_report'') reports))"

text \<open>A run that returns gives its log, its summary and its error; \<open>None\<close> is the panic of a negative
  shortlist limit. Saving the reports and the summary ends it.\<close>

type_synonym 'a engine_run = "(store_write list \<times> 'a \<times> string option) option"

definition finish_session ::
  "Store \<Rightarrow> environment \<Rightarrow> resolution_input \<Rightarrow> SemanticCandidate list \<Rightarrow> EventResolutionSummary
   \<Rightarrow> EventResolutionSummary engine_run" where
  "finish_session db env inp candidates summary0 =
     (let reports = resolveReports env inp candidates;
          summary = summary0 \<lparr>es_DuplicateReports := duplicate_count reports,
            es_UniqueItems := int (length reports) - duplicate_count reports\<rparr>
      in case db_SaveSemanticReports db reports of
        Some e \<Rightarrow> Some ([SavedReports reports], summary, Some e)
      | None \<Rightarrow> Some ([SavedReports reports, SavedSummary summary], summary,
                      db_SaveEventResolutionSummary db summary))"

definition input_of :: "Settings \<Rightarrow> retrieved \<Rightarrow> run_plan \<Rightarrow> SemanticResolution \<Rightarrow> resolution_input" where
  "input_of settings got pl resolution =
     \<lparr>in_shortlist = pl_shortlist pl, in_catalog = re_catalog got, in_resolution = resolution,
      in_constraints = pl_constraints pl, in_novelty = re_novelty got,
      in_retentionDays = st_KnowledgeRetentionDays settings,
      in_mergeThreshold = st_SemanticEventMergeThreshold settings\<rparr>"

definition resolve_session ::
  "Store \<Rightarrow> Resolver option \<Rightarrow> environment \<Rightarrow> Settings \<Rightarrow> SemanticCandidate list \<Rightarrow> retrieved \<Rightarrow> run_plan
   \<Rightarrow> EventResolutionSummary \<Rightarrow> EventResolutionSummary engine_run" where
  "resolve_session db resolver env settings candidates got pl summary =
     (case resolver of
        Some r \<Rightarrow>
          if pl_should pl \<and> pl_candidates pl \<noteq> [] then
            (let (resolution, usage, duration, err) =
                   resolve r (pl_candidates pl) (pl_shortlist pl) (st_ReasoningSemanticProfile settings);
                 summary = invoked_summary r (st_ReasoningSemanticProfile settings) usage duration summary
             in case err of
               Some e \<Rightarrow> (let failed = failed_summary e summary in Some ([SavedSummary failed], failed, Some e))
             | None \<Rightarrow> finish_session db env (input_of settings got pl resolution) candidates summary)
          else finish_session db env (input_of settings got pl []) candidates summary
      | None \<Rightarrow> finish_session db env (input_of settings got pl []) candidates summary)"

text \<open>\<open>now\<close> is the reading of \<open>domain.Now\<close> for the summary, \<open>cutoff\<close> the retention cutoff as the code
  formats it.\<close>

definition processSession ::
  "Store \<Rightarrow> Resolver option \<Rightarrow> environment \<Rightarrow> string \<Rightarrow> (int \<Rightarrow> string) \<Rightarrow> string \<Rightarrow> Settings \<Rightarrow> bool
   \<Rightarrow> EventResolutionSummary engine_run" where
  "processSession db resolver env now cutoff sessionID settings onboardingFastPath =
     (if st_SemanticEventMode settings = ''show_all'' then
        Some ([], zero_summary \<lparr>es_SessionID := sessionID, es_Status := ''bypassed'', es_Provider := ''disabled'',
          es_TriggerReason := ''engine_disabled'', es_CreatedAt := now\<rparr>, None)
      else case db_SemanticCandidates db sessionID of
        Inl e \<Rightarrow> Some ([], zero_summary, Some e)
      | Inr candidates \<Rightarrow>
          (let summary = zero_summary \<lparr>es_SessionID := sessionID, es_Status := ''completed'',
                 es_Provider := ''local-index'', es_Model := ''none'', es_Effort := ''none'',
                 es_CandidateCount := int (length candidates), es_UniqueItems := int (length candidates),
                 es_TriggerReason := ''local_new_events'', es_CreatedAt := now\<rparr>
           in if candidates = [] then
                (let none = summary \<lparr>es_TriggerReason := ''no_candidates''\<rparr>
                 in Some ([SavedSummary none], none, None))
              else case retrieve db (cutoff (st_KnowledgeRetentionDays settings)) (candidateEvidenceKeys candidates) of
                Inl e \<Rightarrow> Some ([], summary, Some e)
              | Inr got \<Rightarrow>
                  (case db_ResurfaceSemanticReevaluationKeys db sessionID of
                     Inl e \<Rightarrow> Some ([], summary, Some e)
                   | Inr again \<Rightarrow>
                       (let exact = filter (\<lambda>(k, _). k \<notin> set again) (re_exact got) in
                        case make_plan onboardingFastPath settings candidates (re_catalog got)
                               (re_constraints got) exact of
                          None \<Rightarrow> None
                        | Some pl \<Rightarrow> resolve_session db resolver env settings candidates got pl
                            (planned_summary (en_Parse env) summary (re_catalog got) pl)))))"

definition ProcessSession where
  "ProcessSession db resolver env now cutoff sessionID settings =
     processSession db resolver env now cutoff sessionID settings False"

definition ProcessOnboardingSession where
  "ProcessOnboardingSession db resolver env now cutoff sessionID settings =
     processSession db resolver env now cutoff sessionID settings True"

definition zero_candidate :: SemanticCandidate where
  "zero_candidate = \<lparr>sc_Alias = '''', sc_TimelineID = '''', sc_SessionID = '''', sc_RunID = '''', sc_EvidenceKey = '''',
     sc_Source = '''', sc_Author = '''', sc_PublishedAt = None, sc_Text = '''', sc_WhatChanged = '''',
     sc_EventKey = '''', sc_TopicTags = [],
     sc_Item = \<lparr>ri_ID = '''', ri_WhatChanged = '''', ri_WhyItMatters = '''', ri_Source = '''', ri_SourceURL = '''',
       ri_SourceURLKind = '''', ri_EvidenceKey = '''', ri_EventKey = '''', ri_KnowledgeDelta = '''',
       ri_Author = '''', ri_PublishedAt = None, ri_Confidence = 0, ri_EvidenceState = ''''\<rparr>\<rparr>"

definition zero_report :: ResolvedSemanticReport where
  "zero_report = \<lparr>rp_Candidate = zero_candidate, rp_Event = zero_event, rp_Relation = '''', rp_Confidence = 0,
     rp_Reason = '''', rp_Corrected = False\<rparr>"

definition finish_item ::
  "Store \<Rightarrow> environment \<Rightarrow> resolution_input \<Rightarrow> SemanticCandidate \<Rightarrow> ResolvedSemanticReport engine_run" where
  "finish_item db env inp candidate =
     (case resolveReports env inp [candidate] of
        [report] \<Rightarrow>
          (case db_SaveSemanticReports db [report] of
             Some e \<Rightarrow> Some ([SavedReports [report]], zero_report, Some e)
           | None \<Rightarrow>
               (case db_RefreshEventResolutionCounts db (sc_SessionID candidate) of
                  Some e \<Rightarrow> Some ([SavedReports [report], RefreshedCounts (sc_SessionID candidate)],
                             zero_report, Some e)
                | None \<Rightarrow> Some ([SavedReports [report], RefreshedCounts (sc_SessionID candidate)], report, None)))
      | _ \<Rightarrow> Some ([], zero_report, Some ''selection correction produced no semantic report''))"

definition ProcessTimelineItem ::
  "Store \<Rightarrow> Resolver option \<Rightarrow> environment \<Rightarrow> (int \<Rightarrow> string) \<Rightarrow> string \<Rightarrow> Settings
   \<Rightarrow> ResolvedSemanticReport engine_run" where
  "ProcessTimelineItem db resolver env cutoff timelineID settings =
     (case db_SemanticCandidate db timelineID of
        Inl e \<Rightarrow> Some ([], zero_report, Some e)
      | Inr candidate \<Rightarrow>
          if st_SemanticEventMode settings = ''show_all'' then
            Some ([RefreshedCounts (sc_SessionID candidate)],
              zero_report \<lparr>rp_Candidate := candidate, rp_Relation := ''new_event'', rp_Confidence := 1,
                rp_Reason := ''Semantic event engine is disabled.''\<rparr>, None)
          else case retrieve db (cutoff (st_KnowledgeRetentionDays settings)) [sc_EvidenceKey candidate] of
            Inl e \<Rightarrow> Some ([], zero_report, Some e)
          | Inr got \<Rightarrow>
              (let constraints = applyExactReplayConstraints (re_constraints got) (re_exact got) (re_catalog got);
                   resolverCandidates = candidatesRequiringResolution [candidate] constraints
               in case rankShortlist resolverCandidates (re_catalog got) (st_SemanticEventShortlist settings) of
                 None \<Rightarrow> None
               | Some (shortlist, _) \<Rightarrow>
                   (let inp = (\<lambda>resolution. \<lparr>in_shortlist = shortlist, in_catalog = re_catalog got,
                          in_resolution = resolution, in_constraints = constraints, in_novelty = re_novelty got,
                          in_retentionDays = st_KnowledgeRetentionDays settings,
                          in_mergeThreshold = st_SemanticEventMergeThreshold settings\<rparr>)
                    in case resolver of
                      Some r \<Rightarrow>
                        if shortlist \<noteq> [] \<and> resolverCandidates \<noteq> [] then
                          (let (resolution, _, _, err) =
                             resolve r resolverCandidates shortlist (st_ReasoningSemanticProfile settings)
                           in case err of
                             Some e \<Rightarrow> Some ([], zero_report, Some e)
                           | None \<Rightarrow> finish_item db env (inp resolution) candidate)
                        else finish_item db env (inp []) candidate
                    | None \<Rightarrow> finish_item db env (inp []) candidate)))"

subsection \<open>The replay report\<close>

record SemanticReplaySession =
  se_Status :: string
  se_InvocationStatus :: string
  se_ResolverInvoked :: bool
  se_DiagnosticsAvailable :: bool
  se_StrongestOverlap :: int
  se_CandidateCount :: int
  se_ShortlistCount :: int
  se_TriggerReason :: string
  se_SignalReceipt :: "SemanticSignalReceipt option"
  se_ActiveCorrections :: int
  se_UndoneCorrections :: int
  se_Reports :: "string list"

record SemanticReplayCompatibility =
  hc_Actor :: nat
  hc_Object :: nat
  hc_Time :: nat
  hc_ExactEventKey :: nat

record SemanticReplayClassification =
  cl_ObservedLocalBypass :: nat
  cl_CounterfactualReviewCandidate :: nat
  cl_ReceiptBackedReviewCandidate :: nat
  cl_LegacyAllNewReviewCandidate :: nat
  cl_RequiresModel :: nat
  cl_InsufficientData :: nat

record SemanticSignalReceiptAggregate =
  ag_SessionsWithReceipt :: nat
  ag_TopOverlapMax :: nat
  ag_Sums :: SemanticSignalReceipt

text \<open>A \<open>map[string]int\<close> of counters is the function of its values, 0 where a key is missing; the
  receipt aggregate keeps the sums of the receipts in the fields of a receipt. The fields with one
  constant value (schema version, assessment flag, limitations) are left out.\<close>

record SemanticReplayReport =
  rr_SessionsAnalyzed :: nat
  rr_ReportsAnalyzed :: nat
  rr_CorpusEventsObserved :: nat
  rr_CorpusEventsCapped :: bool
  rr_SessionStatuses :: "string \<Rightarrow> nat"
  rr_InvocationStatuses :: "string \<Rightarrow> nat"
  rr_Relations :: "string \<Rightarrow> nat"
  rr_TriggerOverlapBuckets :: "string \<Rightarrow> nat"
  rr_TriggerRarityBuckets :: "string \<Rightarrow> nat"
  rr_SignalReceipt :: SemanticSignalReceiptAggregate
  rr_HistoricalCompatibility :: SemanticReplayCompatibility
  rr_ActiveUserCorrections :: int
  rr_UndoneUserCorrections :: int
  rr_Classification :: SemanticReplayClassification
  rr_UnavailableSignals :: "(string \<times> nat) list"

definition replayOverlapBucket :: "int \<Rightarrow> bool \<Rightarrow> string" where
  "replayOverlapBucket shared available =
     (if \<not> available then ''unavailable'' else if shared = 0 then ''none''
      else if shared \<le> 2 then ''low'' else ''high'')"

definition receiptRarityBucket :: "SemanticSignalReceipt \<Rightarrow> string" where
  "receiptRarityBucket receipt =
     (if rc_TriggerTokenTotal receipt = 0 then ''unavailable''
      else if rc_TriggerUnknownTokenCount receipt > 0 then ''unknown''
      else if rc_TriggerRareTokenCount receipt > 0 \<and> rc_TriggerCommonTokenCount receipt > 0 then ''mixed''
      else if rc_TriggerCommonTokenCount receipt > 0 then ''common''
      else if rc_TriggerRareTokenCount receipt > 0 then ''rare'' else ''unavailable'')"

definition add_receipts :: "SemanticSignalReceipt \<Rightarrow> SemanticSignalReceipt \<Rightarrow> SemanticSignalReceipt" where
  "add_receipts a r = a \<lparr>
     rc_CandidateCount := rc_CandidateCount a + rc_CandidateCount r,
     rc_ShortlistedEventCount := rc_ShortlistedEventCount a + rc_ShortlistedEventCount r,
     rc_TriggerTokenTotal := rc_TriggerTokenTotal a + rc_TriggerTokenTotal r,
     rc_TriggerRareTokenCount := rc_TriggerRareTokenCount a + rc_TriggerRareTokenCount r,
     rc_TriggerCommonTokenCount := rc_TriggerCommonTokenCount a + rc_TriggerCommonTokenCount r,
     rc_TriggerUnknownTokenCount := rc_TriggerUnknownTokenCount a + rc_TriggerUnknownTokenCount r,
     rc_ActorOverlapCount := rc_ActorOverlapCount a + rc_ActorOverlapCount r,
     rc_ActorUnavailableCount := rc_ActorUnavailableCount a + rc_ActorUnavailableCount r,
     rc_ObjectOverlapCount := rc_ObjectOverlapCount a + rc_ObjectOverlapCount r,
     rc_ObjectUnavailableCount := rc_ObjectUnavailableCount a + rc_ObjectUnavailableCount r,
     rc_TimeWithin24HoursCount := rc_TimeWithin24HoursCount a + rc_TimeWithin24HoursCount r,
     rc_TimeWithin7DaysCount := rc_TimeWithin7DaysCount a + rc_TimeWithin7DaysCount r,
     rc_TimeBeyond7DaysCount := rc_TimeBeyond7DaysCount a + rc_TimeBeyond7DaysCount r,
     rc_TimeUnavailableCount := rc_TimeUnavailableCount a + rc_TimeUnavailableCount r,
     rc_ExactEventKeyMatchCount := rc_ExactEventKeyMatchCount a + rc_ExactEventKeyMatchCount r,
     rc_ExactEventKeyUnavailableCount := rc_ExactEventKeyUnavailableCount a + rc_ExactEventKeyUnavailableCount r\<rparr>"

definition aggregateSignalReceipt ::
  "SemanticSignalReceipt \<Rightarrow> SemanticSignalReceiptAggregate \<Rightarrow> SemanticSignalReceiptAggregate" where
  "aggregateSignalReceipt receipt aggregate = aggregate \<lparr>
     ag_TopOverlapMax := max (ag_TopOverlapMax aggregate) (rc_TopOverlap receipt),
     ag_Sums := add_receipts (ag_Sums aggregate) receipt\<rparr>"

abbreviation increment :: "string \<Rightarrow> (string \<Rightarrow> nat) \<Rightarrow> string \<Rightarrow> nat" where
  "increment k m \<equiv> m(k := m k + 1)"

definition count_receipt :: "SemanticReplaySession \<Rightarrow> SemanticReplayReport \<Rightarrow> SemanticReplayReport" where
  "count_receipt session report =
     (case se_SignalReceipt session of
        None \<Rightarrow> report \<lparr>rr_TriggerRarityBuckets := increment ''unavailable'' (rr_TriggerRarityBuckets report),
            rr_TriggerOverlapBuckets := increment
              (replayOverlapBucket (se_StrongestOverlap session) (se_DiagnosticsAvailable session))
              (rr_TriggerOverlapBuckets report)\<rparr>
      | Some receipt \<Rightarrow>
          report \<lparr>rr_TriggerRarityBuckets := increment (receiptRarityBucket receipt) (rr_TriggerRarityBuckets report),
            rr_SignalReceipt := aggregateSignalReceipt receipt
              ((rr_SignalReceipt report) \<lparr>ag_SessionsWithReceipt :=
                 ag_SessionsWithReceipt (rr_SignalReceipt report) + 1\<rparr>),
            rr_TriggerOverlapBuckets := increment (replayOverlapBucket (int (rc_TopOverlap receipt)) True)
              (rr_TriggerOverlapBuckets report)\<rparr>)"

definition local_bypass :: "SemanticReplaySession \<Rightarrow> bool" where
  "local_bypass session = (\<not> se_ResolverInvoked session \<and>
     (se_InvocationStatus session = ''completed'' \<or> se_InvocationStatus session = ''bypassed''))"

definition review_candidate :: "SemanticReplaySession \<Rightarrow> bool" where
  "review_candidate session = (se_ResolverInvoked session \<and> se_InvocationStatus session = ''completed'' \<and>
     list_all (\<lambda>r. r = ''new_event'') (se_Reports session) \<and>
     se_ActiveCorrections session = 0 \<and> se_UndoneCorrections session = 0)"

definition classify_session ::
  "SemanticReplaySession \<Rightarrow> SemanticReplayClassification \<Rightarrow> SemanticReplayClassification" where
  "classify_session session c =
     (let c = (if local_bypass session then c \<lparr>cl_ObservedLocalBypass := cl_ObservedLocalBypass c + 1\<rparr> else c)
      in if se_Reports session = [] then c \<lparr>cl_InsufficientData := cl_InsufficientData c + 1\<rparr>
      else
        (let c = (if se_ResolverInvoked session then c \<lparr>cl_RequiresModel := cl_RequiresModel c + 1\<rparr> else c)
         in if review_candidate session then
              (let c = c \<lparr>cl_CounterfactualReviewCandidate := cl_CounterfactualReviewCandidate c + 1\<rparr>
               in case se_SignalReceipt session of
                    None \<Rightarrow> c \<lparr>cl_LegacyAllNewReviewCandidate := cl_LegacyAllNewReviewCandidate c + 1\<rparr>
                  | Some _ \<Rightarrow> c \<lparr>cl_ReceiptBackedReviewCandidate := cl_ReceiptBackedReviewCandidate c + 1\<rparr>)
            else c))"

definition count_reports :: "string list \<Rightarrow> SemanticReplayReport \<Rightarrow> SemanticReplayReport" where
  "count_reports relations report =
     report \<lparr>rr_ReportsAnalyzed := rr_ReportsAnalyzed report + length relations,
       rr_Relations := fold increment relations (rr_Relations report),
       rr_HistoricalCompatibility := (let h = rr_HistoricalCompatibility report in
         \<lparr>hc_Actor = hc_Actor h + length relations, hc_Object = hc_Object h + length relations,
          hc_Time = hc_Time h + length relations, hc_ExactEventKey = hc_ExactEventKey h + length relations\<rparr>)\<rparr>"

definition analyze_session :: "SemanticReplaySession \<Rightarrow> SemanticReplayReport \<Rightarrow> SemanticReplayReport" where
  "analyze_session session report0 =
     (let report = report0 \<lparr>rr_SessionStatuses := increment (se_Status session) (rr_SessionStatuses report0),
            rr_InvocationStatuses := increment (se_InvocationStatus session) (rr_InvocationStatuses report0)\<rparr>;
          report = count_receipt session report
      in count_reports (se_Reports session) (report \<lparr>
           rr_ActiveUserCorrections := rr_ActiveUserCorrections report + se_ActiveCorrections session,
           rr_UndoneUserCorrections := rr_UndoneUserCorrections report + se_UndoneCorrections session,
           rr_Classification := classify_session session (rr_Classification report)\<rparr>))"

definition empty_replay :: SemanticReplayReport where
  "empty_replay = \<lparr>rr_SessionsAnalyzed = 0, rr_ReportsAnalyzed = 0, rr_CorpusEventsObserved = 0,
     rr_CorpusEventsCapped = False, rr_SessionStatuses = (\<lambda>_. 0), rr_InvocationStatuses = (\<lambda>_. 0),
     rr_Relations = (\<lambda>_. 0), rr_TriggerOverlapBuckets = (\<lambda>_. 0), rr_TriggerRarityBuckets = (\<lambda>_. 0),
     rr_SignalReceipt = \<lparr>ag_SessionsWithReceipt = 0, ag_TopOverlapMax = 0, ag_Sums = empty_receipt\<rparr>,
     rr_HistoricalCompatibility = \<lparr>hc_Actor = 0, hc_Object = 0, hc_Time = 0, hc_ExactEventKey = 0\<rparr>,
     rr_ActiveUserCorrections = 0, rr_UndoneUserCorrections = 0,
     rr_Classification = \<lparr>cl_ObservedLocalBypass = 0, cl_CounterfactualReviewCandidate = 0,
       cl_ReceiptBackedReviewCandidate = 0, cl_LegacyAllNewReviewCandidate = 0, cl_RequiresModel = 0,
       cl_InsufficientData = 0\<rparr>, rr_UnavailableSignals = []\<rparr>"

definition AnalyzeSemanticReplay ::
  "string + SemanticReplaySession list \<times> nat \<Rightarrow> string + SemanticReplayReport" where
  "AnalyzeSemanticReplay answer =
     (case answer of
        Inl e \<Rightarrow> Inl e
      | Inr (sessions, corpus) \<Rightarrow>
          (let report = fold analyze_session sessions (empty_replay \<lparr>
                 rr_SessionsAnalyzed := length sessions, rr_CorpusEventsObserved := corpus,
                 rr_CorpusEventsCapped := (corpus = 1000)\<rparr>)
           in Inr (report \<lparr>rr_UnavailableSignals :=
                [(''historical_actor_compatibility'', hc_Actor (rr_HistoricalCompatibility report)),
                 (''historical_object_compatibility'', hc_Object (rr_HistoricalCompatibility report)),
                 (''historical_time_compatibility'', hc_Time (rr_HistoricalCompatibility report)),
                 (''historical_exact_event_key_compatibility'', hc_ExactEventKey (rr_HistoricalCompatibility report)),
                 (''trigger_rarity'', rr_TriggerRarityBuckets report ''unavailable''),
                 (''signal_receipt'', rr_SessionsAnalyzed report - ag_SessionsWithReceipt (rr_SignalReceipt report))]\<rparr>)))"

subsection \<open>The request to the resolver\<close>

definition compactEvidenceExcerpt :: "SemanticCandidate \<Rightarrow> string" where
  "compactEvidenceExcerpt candidate =
     (let value = trim_space (strip_urls (sc_Text candidate)) in
      if value = '''' \<or> value = trim_space (sc_WhatChanged candidate) then '''' else boundedText value 600)"

text \<open>What the prompt shows of an event (an alias for its id, its descriptor, the first three known
  deltas with bounded claims) and of a candidate.\<close>

record deltaReference =
  dr_Claim :: string
  dr_Kind :: string
  dr_Source :: Source
  dr_Confidence :: f64

record eventReference =
  er_Alias :: string
  er_CanonicalClaim :: string
  er_Actor :: string
  er_Action :: string
  er_Object :: string
  er_EventKind :: string
  er_EventStart :: "string option"
  er_EventEnd :: "string option"
  er_Aliases :: "string list"
  er_KnownDeltas :: "deltaReference list"
  er_LastSeenAt :: string
  er_ReportCount :: int

record candidateReference =
  cr_Alias :: string
  cr_Source :: Source
  cr_Author :: string
  cr_PublishedAt :: "string option"
  cr_EvidenceExcerpt :: string
  cr_WhatChanged :: string
  cr_EventKey :: string
  cr_TopicTags :: "string list"

definition delta_reference :: "SemanticEventDelta \<Rightarrow> deltaReference" where
  "delta_reference delta = \<lparr>dr_Claim = boundedText (ed_Claim delta) 240, dr_Kind = ed_Kind delta,
     dr_Source = ed_Source delta, dr_Confidence = ed_Confidence delta\<rparr>"

definition event_reference :: "nat \<Rightarrow> SemanticEvent \<Rightarrow> eventReference" where
  "event_reference index event = \<lparr>er_Alias = event_alias (index + 1),
     er_CanonicalClaim = ev_CanonicalClaim event, er_Actor = ev_Actor event, er_Action = ev_Action event,
     er_Object = ev_Object event, er_EventKind = ev_EventKind event, er_EventStart = ev_EventStart event,
     er_EventEnd = ev_EventEnd event, er_Aliases = ev_Aliases event,
     er_KnownDeltas = map delta_reference (take 3 (ev_KnownDeltas event)),
     er_LastSeenAt = ev_LastSeenAt event, er_ReportCount = ev_ReportCount event\<rparr>"

definition event_references :: "SemanticEvent list \<Rightarrow> eventReference list" where
  "event_references events = map2 event_reference [0..<length events] events"

definition candidate_reference :: "SemanticCandidate \<Rightarrow> candidateReference" where
  "candidate_reference candidate = \<lparr>cr_Alias = sc_Alias candidate, cr_Source = sc_Source candidate,
     cr_Author = sc_Author candidate, cr_PublishedAt = sc_PublishedAt candidate,
     cr_EvidenceExcerpt = compactEvidenceExcerpt candidate,
     cr_WhatChanged = boundedText (sc_WhatChanged candidate) 600, cr_EventKey = sc_EventKey candidate,
     cr_TopicTags = sc_TopicTags candidate\<rparr>"

datatype schema_error =
    NoCandidates int
  | NotAnObject
  | NoProperties
  | NoDecisions
  | TooManyCandidates int int

definition member :: "string \<Rightarrow> json \<Rightarrow> json option" where
  "member k v = (case v of JObj kvs \<Rightarrow> map_of kvs k | _ \<Rightarrow> None)"

definition with_member :: "string \<Rightarrow> json \<Rightarrow> json \<Rightarrow> json" where
  "with_member k x v = (case v of JObj kvs \<Rightarrow> JObj (AList.update k x kvs) | _ \<Rightarrow> v)"

definition is_object :: "json \<Rightarrow> bool" where
  "is_object v = (case v of JObj _ \<Rightarrow> True | _ \<Rightarrow> False)"

text \<open>\<open>int(maximum)\<close> of a \<open>float64\<close>: truncation towards zero.\<close>

definition int_of_float :: "f64 \<Rightarrow> int" where
  "int_of_float x = (if x < 0 then \<lceil>x\<rceil> else \<lfloor>x\<rfloor>)"

definition exceeds_maximum :: "json \<Rightarrow> int \<Rightarrow> int option" where
  "exceeds_maximum decisions_schema candidateCount =
     (case member ''maxItems'' decisions_schema of
        Some (JNum m) \<Rightarrow> if candidateCount > int_of_float m then Some (int_of_float m) else None
      | _ \<Rightarrow> None)"

definition exactSemanticDecisionCountSchema :: "json \<Rightarrow> int \<Rightarrow> schema_error + json" where
  "exactSemanticDecisionCountSchema schema candidateCount =
     (if candidateCount < 1 then Inl (NoCandidates candidateCount)
      else if \<not> is_object schema \<and> schema \<noteq> JNull then Inl NotAnObject
      else case member ''properties'' schema of
        Some (JObj ps) \<Rightarrow>
          (case map_of ps ''decisions'' of
             Some (JObj ds) \<Rightarrow>
               (case exceeds_maximum (JObj ds) candidateCount of
                  Some maximum \<Rightarrow> Inl (TooManyCandidates maximum candidateCount)
                | None \<Rightarrow>
                    Inr (with_member ''properties''
                      (with_member ''decisions''
                        (with_member ''maxItems'' (JNum (of_int candidateCount))
                          (with_member ''minItems'' (JNum (of_int candidateCount)) (JObj ds)))
                        (JObj ps)) schema))
           | _ \<Rightarrow> Inl NoDecisions)
      | _ \<Rightarrow> Inl NoProperties)"

subsection \<open>Receipts count everything once\<close>

definition token_total :: "SemanticSignalReceipt \<Rightarrow> nat" where
  "token_total r = rc_TriggerRareTokenCount r + rc_TriggerCommonTokenCount r + rc_TriggerUnknownTokenCount r"

definition time_total :: "SemanticSignalReceipt \<Rightarrow> nat" where
  "time_total r = rc_TimeWithin24HoursCount r + rc_TimeWithin7DaysCount r + rc_TimeBeyond7DaysCount r +
     rc_TimeUnavailableCount r"

definition actor_total :: "SemanticSignalReceipt \<Rightarrow> nat" where
  "actor_total r = rc_ActorOverlapCount r + rc_ActorUnavailableCount r"

definition object_total :: "SemanticSignalReceipt \<Rightarrow> nat" where
  "object_total r = rc_ObjectOverlapCount r + rc_ObjectUnavailableCount r"

definition key_total :: "SemanticSignalReceipt \<Rightarrow> nat" where
  "key_total r = rc_ExactEventKeyMatchCount r + rc_ExactEventKeyUnavailableCount r"

lemmas receipt_totals = token_total_def time_total_def actor_total_def object_total_def key_total_def

lemma fold_count_token:
  "token_total (fold (count_token catalog) ts r) = token_total r + length ts \<and>
   rc_TriggerTokenTotal (fold (count_token catalog) ts r) = rc_TriggerTokenTotal r \<and>
   rc_CandidateCount (fold (count_token catalog) ts r) = rc_CandidateCount r \<and>
   time_total (fold (count_token catalog) ts r) = time_total r \<and>
   actor_total (fold (count_token catalog) ts r) = actor_total r \<and>
   object_total (fold (count_token catalog) ts r) = object_total r \<and>
   key_total (fold (count_token catalog) ts r) = key_total r"
  by (induction ts arbitrary: r) (simp_all add: count_token_def Let_def receipt_totals)

lemma count_actor:
  "actor_total (countCandidateActor c sl r) \<le> actor_total r + 1" "token_total (countCandidateActor c sl r) = token_total r"
  "time_total (countCandidateActor c sl r) = time_total r" "object_total (countCandidateActor c sl r) = object_total r"
  "key_total (countCandidateActor c sl r) = key_total r"
  "rc_TriggerTokenTotal (countCandidateActor c sl r) = rc_TriggerTokenTotal r"
  "rc_CandidateCount (countCandidateActor c sl r) = rc_CandidateCount r"
  by (simp_all add: countCandidateActor_def receipt_totals)

lemma count_object:
  "object_total (countCandidateObject c sl r) \<le> object_total r + 1" "token_total (countCandidateObject c sl r) = token_total r"
  "time_total (countCandidateObject c sl r) = time_total r" "actor_total (countCandidateObject c sl r) = actor_total r"
  "key_total (countCandidateObject c sl r) = key_total r"
  "rc_TriggerTokenTotal (countCandidateObject c sl r) = rc_TriggerTokenTotal r"
  "rc_CandidateCount (countCandidateObject c sl r) = rc_CandidateCount r"
  by (simp_all add: countCandidateObject_def receipt_totals)

lemma count_time:
  "time_total (countCandidateTime parse c sl r) = time_total r + 1"
  "token_total (countCandidateTime parse c sl r) = token_total r"
  "object_total (countCandidateTime parse c sl r) = object_total r"
  "actor_total (countCandidateTime parse c sl r) = actor_total r"
  "key_total (countCandidateTime parse c sl r) = key_total r"
  "rc_TriggerTokenTotal (countCandidateTime parse c sl r) = rc_TriggerTokenTotal r"
  "rc_CandidateCount (countCandidateTime parse c sl r) = rc_CandidateCount r"
  by (simp_all add: countCandidateTime_def receipt_totals split: option.split)

lemma count_key:
  "key_total (countCandidateEventKey c sl r) \<le> key_total r + 1"
  "token_total (countCandidateEventKey c sl r) = token_total r"
  "time_total (countCandidateEventKey c sl r) = time_total r"
  "object_total (countCandidateEventKey c sl r) = object_total r"
  "actor_total (countCandidateEventKey c sl r) = actor_total r"
  "rc_TriggerTokenTotal (countCandidateEventKey c sl r) = rc_TriggerTokenTotal r"
  "rc_CandidateCount (countCandidateEventKey c sl r) = rc_CandidateCount r"
  by (simp_all add: countCandidateEventKey_def Let_def receipt_totals)

lemmas count_dimensions = count_actor(2-) count_object(2-) count_time count_key(2-)

lemma count_candidate_totals:
  "time_total (count_candidate parse sl c r) = time_total r + 1"
  "actor_total (count_candidate parse sl c r) \<le> actor_total r + 1"
  "object_total (count_candidate parse sl c r) \<le> object_total r + 1"
  "key_total (count_candidate parse sl c r) \<le> key_total r + 1"
  "token_total (count_candidate parse sl c r) = token_total r"
  "rc_TriggerTokenTotal (count_candidate parse sl c r) = rc_TriggerTokenTotal r"
  "rc_CandidateCount (count_candidate parse sl c r) = rc_CandidateCount r"
proof -
  let ?a = "countCandidateActor c sl r"
  let ?o = "countCandidateObject c sl ?a"
  let ?t = "countCandidateTime parse c sl ?o"
  have step: "count_candidate parse sl c r =
    (if sl = [] then r \<lparr>rc_ActorUnavailableCount := rc_ActorUnavailableCount r + 1,
          rc_ObjectUnavailableCount := rc_ObjectUnavailableCount r + 1,
          rc_TimeUnavailableCount := rc_TimeUnavailableCount r + 1,
          rc_ExactEventKeyUnavailableCount := rc_ExactEventKeyUnavailableCount r + 1\<rparr>
     else countCandidateEventKey c sl ?t)"
    by (simp add: count_candidate_def)
  show "time_total (count_candidate parse sl c r) = time_total r + 1"
    unfolding step by (simp add: count_dimensions) (simp add: receipt_totals)
  show "actor_total (count_candidate parse sl c r) \<le> actor_total r + 1"
    unfolding step using count_actor(1) [of c sl r] by (simp add: count_dimensions) (simp add: receipt_totals)
  show "object_total (count_candidate parse sl c r) \<le> object_total r + 1"
    unfolding step using count_object(1) [of c sl ?a] by (simp add: count_dimensions) (simp add: receipt_totals)
  show "key_total (count_candidate parse sl c r) \<le> key_total r + 1"
    unfolding step using count_key(1) [of c sl ?t] by (simp add: count_dimensions) (simp add: receipt_totals)
  show "token_total (count_candidate parse sl c r) = token_total r"
    unfolding step by (simp add: count_dimensions) (simp add: receipt_totals)
  show "rc_TriggerTokenTotal (count_candidate parse sl c r) = rc_TriggerTokenTotal r"
    unfolding step by (simp add: count_dimensions)
  show "rc_CandidateCount (count_candidate parse sl c r) = rc_CandidateCount r"
    unfolding step by (simp add: count_dimensions)
qed

lemma fold_count_candidate:
  "time_total (fold (count_candidate parse sl) cs r) = time_total r + length cs \<and>
   actor_total (fold (count_candidate parse sl) cs r) \<le> actor_total r + length cs \<and>
   object_total (fold (count_candidate parse sl) cs r) \<le> object_total r + length cs \<and>
   key_total (fold (count_candidate parse sl) cs r) \<le> key_total r + length cs \<and>
   token_total (fold (count_candidate parse sl) cs r) = token_total r \<and>
   rc_TriggerTokenTotal (fold (count_candidate parse sl) cs r) = rc_TriggerTokenTotal r \<and>
   rc_CandidateCount (fold (count_candidate parse sl) cs r) = rc_CandidateCount r"
proof (induction cs arbitrary: r)
  case Nil
  show ?case by simp
next
  case (Cons c cs)
  from Cons [of "count_candidate parse sl c r"] count_candidate_totals [of parse sl c r]
  show ?case by auto
qed

text \<open>A stored signal receipt is consistent: the rare, common and unknown trigger words add up to
  their total, the four time classes to the number of candidates compared, and the actor, object
  and event-key counts never exceed it.\<close>

lemma receipt_counts_consistent:
  fixes parse candidates shortlist catalog trigger
  defines "r \<equiv> buildSemanticSignalReceipt parse candidates shortlist catalog trigger"
  shows "rc_TriggerRareTokenCount r + rc_TriggerCommonTokenCount r + rc_TriggerUnknownTokenCount r = rc_TriggerTokenTotal r \<and>
    rc_TimeWithin24HoursCount r + rc_TimeWithin7DaysCount r + rc_TimeBeyond7DaysCount r + rc_TimeUnavailableCount r
      = rc_CandidateCount r \<and>
    rc_ActorOverlapCount r + rc_ActorUnavailableCount r \<le> rc_CandidateCount r \<and>
    rc_ObjectOverlapCount r + rc_ObjectUnavailableCount r \<le> rc_CandidateCount r \<and>
    rc_ExactEventKeyMatchCount r + rc_ExactEventKeyUnavailableCount r \<le> rc_CandidateCount r \<and>
    rc_CandidateCount r = length candidates"
proof -
  define r0 where "r0 = empty_receipt \<lparr>rc_CandidateCount := length candidates,
            rc_ShortlistedEventCount := length shortlist, rc_TopOverlap := ts_Overlap trigger,
            rc_TriggerTokenTotal := length (ts_Tokens trigger)\<rparr>"
  have r: "r = fold (count_candidate parse shortlist) candidates (fold (count_token catalog) (ts_Tokens trigger) r0)"
    by (simp add: r_def buildSemanticSignalReceipt_def Let_def r0_def)
  have z: "token_total r0 = 0" "time_total r0 = 0" "actor_total r0 = 0" "object_total r0 = 0" "key_total r0 = 0"
    "rc_TriggerTokenTotal r0 = length (ts_Tokens trigger)" "rc_CandidateCount r0 = length candidates"
    by (simp_all add: r0_def empty_receipt_def receipt_totals)
  have "token_total r = rc_TriggerTokenTotal r \<and> time_total r = rc_CandidateCount r \<and>
      actor_total r \<le> rc_CandidateCount r \<and> object_total r \<le> rc_CandidateCount r \<and>
      key_total r \<le> rc_CandidateCount r \<and> rc_CandidateCount r = length candidates"
    using fold_count_candidate [of parse shortlist candidates "fold (count_token catalog) (ts_Tokens trigger) r0"]
      fold_count_token [of catalog "ts_Tokens trigger" r0] z
    unfolding r [symmetric] by simp
  then show ?thesis by (simp add: receipt_totals)
qed

subsection \<open>Outcomes of a run\<close>

lemma finish_session_cases:
  assumes "finish_session db env inp cs s = Some (writes, summary, err)"
  obtains (refused) e where "err = Some e" "db_SaveSemanticReports db (resolveReports env inp cs) = Some e"
      "writes = [SavedReports (resolveReports env inp cs)]"
      "summary = s \<lparr>es_DuplicateReports := duplicate_count (resolveReports env inp cs),
         es_UniqueItems := int (length cs) - duplicate_count (resolveReports env inp cs)\<rparr>"
  | (stored) "db_SaveSemanticReports db (resolveReports env inp cs) = None"
      "writes = [SavedReports (resolveReports env inp cs), SavedSummary summary]"
      "err = db_SaveEventResolutionSummary db summary"
      "summary = s \<lparr>es_DuplicateReports := duplicate_count (resolveReports env inp cs),
         es_UniqueItems := int (length cs) - duplicate_count (resolveReports env inp cs)\<rparr>"
proof -
  define reports where "reports = resolveReports env inp cs"
  define s1 where "s1 = s \<lparr>es_DuplicateReports := duplicate_count reports,
      es_UniqueItems := int (length cs) - duplicate_count reports\<rparr>"
  have run: "finish_session db env inp cs s = (case db_SaveSemanticReports db reports of
        Some e \<Rightarrow> Some ([SavedReports reports], s1, Some e)
      | None \<Rightarrow> Some ([SavedReports reports, SavedSummary s1], s1, db_SaveEventResolutionSummary db s1))"
    unfolding finish_session_def Let_def s1_def reports_def length_resolveReports ..
  show thesis
  proof (cases "db_SaveSemanticReports db reports")
    case None
    with assms run have "writes = [SavedReports reports, SavedSummary s1]" "summary = s1"
      "err = db_SaveEventResolutionSummary db s1" by auto
    with None show thesis by (intro stored) (simp_all add: reports_def s1_def)
  next
    case (Some e)
    with assms run have "writes = [SavedReports reports]" "summary = s1" "err = Some e" by auto
    with Some show thesis by (intro refused [of e]) (simp_all add: reports_def s1_def)
  qed
qed

lemma resolve_session_cases:
  assumes "resolve_session db resolver env settings cs got pl s = Some (writes, summary, err)"
  obtains (failed) e where "err = Some e" "writes = [SavedSummary summary]" "es_Status summary = ''failed''"
  | (finished) inp s' where "finish_session db env inp cs s' = Some (writes, summary, err)"
      "es_CandidateCount s' = es_CandidateCount s" "es_Status s' = es_Status s" "in_constraints inp = pl_constraints pl"
proof (cases "\<exists>r. resolver = Some r \<and> pl_should pl \<and> pl_candidates pl \<noteq> []")
  case True
  then obtain r where r: "resolver = Some r" "pl_should pl" "pl_candidates pl \<noteq> []" by blast
  obtain resolution usage duration e where a:
    "resolve r (pl_candidates pl) (pl_shortlist pl) (st_ReasoningSemanticProfile settings) = (resolution, usage, duration, e)"
    by (metis prod_cases4)
  let ?s = "invoked_summary r (st_ReasoningSemanticProfile settings) usage duration s"
  have keep: "es_CandidateCount ?s = es_CandidateCount s" "es_Status ?s = es_Status s"
    by (simp_all add: invoked_summary_def applyReceiptMetadata_def Let_def split_def)
  show thesis
  proof (cases e)
    case None
    with assms r a have "finish_session db env (input_of settings got pl resolution) cs ?s = Some (writes, summary, err)"
      by (simp add: resolve_session_def Let_def)
    with keep finished show thesis by (simp add: input_of_def)
  next
    case (Some x)
    with assms r a failed show thesis by (auto simp: resolve_session_def Let_def failed_summary_def)
  qed
next
  case False
  with assms have "finish_session db env (input_of settings got pl []) cs s = Some (writes, summary, err)"
    by (auto simp: resolve_session_def split: option.splits)
  with finished show thesis by (simp add: input_of_def)
qed

lemma processSession_cases:
  assumes "processSession db resolver env now cutoff sid settings onboarding = Some (writes, summary, err)"
    and "st_SemanticEventMode settings \<noteq> ''show_all''"
    and "db_SemanticCandidates db sid = Inr cs"
  obtains (empty) "cs = []" "writes = [SavedSummary summary]" "err = None" "es_CandidateCount summary = 0"
      "es_UniqueItems summary = 0" "es_DuplicateReports summary = 0"
  | (unread) e where "cs \<noteq> []" "err = Some e" "writes = []"
  | (run) got pl s where "cs \<noteq> []" "resolve_session db resolver env settings cs got pl s = Some (writes, summary, err)"
      "es_CandidateCount s = int (length cs)" "es_Status s = ''completed''"
proof -
  define s0 where "s0 = zero_summary \<lparr>es_SessionID := sid, es_Status := ''completed'',
                 es_Provider := ''local-index'', es_Model := ''none'', es_Effort := ''none'',
                 es_CandidateCount := int (length cs), es_UniqueItems := int (length cs),
                 es_TriggerReason := ''local_new_events'', es_CreatedAt := now\<rparr>"
  note run' = assms(1) [unfolded processSession_def Let_def assms(3) sum.case, folded s0_def]
  show thesis
  proof (cases "cs = []")
    case True
    with run' assms(2) empty show thesis by (auto simp: s0_def zero_summary_def)
  next
    case False
    show thesis
    proof (cases "retrieve db (cutoff (st_KnowledgeRetentionDays settings)) (candidateEvidenceKeys cs)")
      case (Inl e)
      with run' assms(2) False have "err = Some e" "writes = []" by auto
      with False show thesis by (rule unread)
    next
      case (Inr got)
      show thesis
      proof (cases "db_ResurfaceSemanticReevaluationKeys db sid")
        case (Inl e)
        with run' assms(2) False Inr have "err = Some e" "writes = []" by auto
        with False show thesis by (rule unread)
      next
        case (Inr again)
        with run' assms(2) False \<open>retrieve _ _ _ = Inr got\<close> obtain pl where
          "resolve_session db resolver env settings cs got pl
             (planned_summary (en_Parse env) s0 (re_catalog got) pl) = Some (writes, summary, err)"
          by (auto split: option.splits)
        then show thesis by (rule run [OF False]) (simp_all add: planned_summary_def s0_def)
      qed
    qed
  qed
qed

lemma duplicate_count_range: "0 \<le> duplicate_count rs \<and> duplicate_count rs \<le> int (length rs)"
  by (simp add: duplicate_count_def)

definition sample_store :: "SemanticEvent list \<Rightarrow> Store" where
  "sample_store catalog = \<lparr>db_SemanticCandidates = (\<lambda>_. Inr [sample_candidate ''c1'' ''Abc def ghi'']),
     db_SemanticCandidate = (\<lambda>_. Inr (sample_candidate ''c1'' ''Abc def ghi'')),
     db_ListSemanticEvents = (\<lambda>_ _. Inr catalog), db_SemanticConstraints = (\<lambda>_. Inr (\<lambda>_. [])),
     db_SemanticNoveltyConstraints = (\<lambda>_. Inr (\<lambda>_. [])), db_ExactSemanticEventIDs = (\<lambda>_. Inr []),
     db_ResurfaceSemanticReevaluationKeys = (\<lambda>_. Inr []), db_SaveSemanticReports = (\<lambda>_. None),
     db_SaveEventResolutionSummary = (\<lambda>_. None), db_RefreshEventResolutionCounts = (\<lambda>_. None)\<rparr>"

definition sample_resolver :: "answer \<Rightarrow> Resolver" where
  "sample_resolver a = \<lparr>rs_Name = ''structured-inference'', rs_Model = (''m'', ''low''), rs_Resolve = (\<lambda>_ _. a),
     rs_Profiled = None\<rparr>"

definition session_settings :: Settings where
  "session_settings = sample_settings \<lparr>st_SemanticEventMode := ''collapse'', st_SemanticEventShortlist := 10,
     st_KnowledgeRetentionDays := 30, st_SemanticEventMergeThreshold := 9 / 10\<rparr>"

text \<open>C37. A run that succeeds accounts for every candidate of the session: the counts of unique items
  and duplicates add up to the candidates, and unless there were none, exactly one list of reports is
  stored, one report per candidate in order with a confidence in the unit interval, followed by the
  summary that is returned; its duplicate count is that of the stored reports.\<close>

theorem session_accounts_for_every_candidate:
  assumes "processSession db resolver env now cutoff sid settings onboarding = Some (writes, summary, None)"
    and "st_SemanticEventMode settings \<noteq> ''show_all''"
    and "db_SemanticCandidates db sid = Inr cs"
  shows "es_CandidateCount summary = int (length cs) \<and>
    es_UniqueItems summary + es_DuplicateReports summary = int (length cs) \<and>
    0 \<le> es_UniqueItems summary \<and> 0 \<le> es_DuplicateReports summary \<and>
    (cs = [] \<and> writes = [SavedSummary summary] \<or>
     cs \<noteq> [] \<and> (\<exists>reports. writes = [SavedReports reports, SavedSummary summary] \<and> map rp_Candidate reports = cs \<and>
       list_all (\<lambda>r. 0 \<le> rp_Confidence r \<and> rp_Confidence r \<le> 1) reports \<and>
       es_DuplicateReports summary = duplicate_count reports))"
  using assms
proof (cases rule: processSession_cases)
  case empty
  then show ?thesis by simp
next
  case (run got pl s)
  from run(2) show ?thesis
  proof (cases rule: resolve_session_cases)
    case (finished inp s')
    from finished(1) show ?thesis
    proof (cases rule: finish_session_cases)
      case stored
      have "es_DuplicateReports summary = duplicate_count (resolveReports env inp cs)"
        "es_UniqueItems summary = int (length cs) - duplicate_count (resolveReports env inp cs)"
        "es_CandidateCount summary = int (length cs)"
        using stored(4) finished(2) run(3) by simp_all
      moreover have "duplicate_count (resolveReports env inp cs) \<le> int (length cs)"
        "0 \<le> duplicate_count (resolveReports env inp cs)"
        using duplicate_count_range [of "resolveReports env inp cs"] by simp_all
      ultimately show ?thesis
        using run(1) stored(2) reports_one_per_candidate [of env inp cs] by simp
    qed simp
  qed simp
qed simp

theorem session_accounts_for_every_candidate_witness:
  "\<exists>writes summary. processSession (sample_store [sample_event ''e1'' ''ghi abc def''])
      (Some (sample_resolver ([sample_decision ''c1'' ''event_001'' (19 / 20)], zero_usage, 5, None))) sample_env
      ''now'' (\<lambda>_. ''cutoff'') ''s'' session_settings False = Some (writes, summary, None) \<and>
    es_DuplicateReports summary = 1 \<and> es_UniqueItems summary + es_DuplicateReports summary = 1"
proof -
  let ?run = "processSession (sample_store [sample_event ''e1'' ''ghi abc def''])
      (Some (sample_resolver ([sample_decision ''c1'' ''event_001'' (19 / 20)], zero_usage, 5, None))) sample_env
      ''now'' (\<lambda>_. ''cutoff'') ''s'' session_settings False"
  have "map_option (\<lambda>(w, s, e). (es_DuplicateReports s, e)) ?run = Some (1, None)"
    by code_simp
  then obtain writes summary where run: "?run = Some (writes, summary, None)" "es_DuplicateReports summary = 1"
    by (auto simp: map_option_case split: option.splits)
  have mode: "st_SemanticEventMode session_settings \<noteq> ''show_all''" by (simp add: session_settings_def)
  have cs: "db_SemanticCandidates (sample_store [sample_event ''e1'' ''ghi abc def'']) ''s'' =
      Inr [sample_candidate ''c1'' ''Abc def ghi'']"
    by (simp add: sample_store_def)
  from session_accounts_for_every_candidate [OF run(1) mode cs]
  have "es_UniqueItems summary + es_DuplicateReports summary = 1" by simp
  with run show ?thesis by blast
qed

text \<open>A run that fails keeps the stored reports as they were, unless the store itself refused a
  write: an error of a query writes nothing, an error of the model writes only a summary marked
  failed, and reports are written only if the error is the store's answer to that write or to the
  write of the summary after it.\<close>

theorem failed_session_keeps_reports:
  assumes "processSession db resolver env now cutoff sid settings onboarding = Some (writes, summary, Some e)"
    and "st_SemanticEventMode settings \<noteq> ''show_all''"
    and "db_SemanticCandidates db sid = Inr cs"
  shows "writes = [] \<or>
    writes = [SavedSummary summary] \<and> es_Status summary = ''failed'' \<or>
    (\<exists>reports. writes = [SavedReports reports] \<and> db_SaveSemanticReports db reports = Some e) \<or>
    (\<exists>reports. writes = [SavedReports reports, SavedSummary summary] \<and>
       db_SaveSemanticReports db reports = None \<and> db_SaveEventResolutionSummary db summary = Some e)"
  using assms
proof (cases rule: processSession_cases)
  case (run got pl s)
  from run(2) show ?thesis
  proof (cases rule: resolve_session_cases)
    case (finished inp s')
    from finished(1) show ?thesis
      by (cases rule: finish_session_cases) simp_all
  qed simp
qed simp_all

theorem failed_session_keeps_reports_witness:
  "\<exists>writes summary. processSession (sample_store [sample_event ''e1'' ''ghi abc def''])
      (Some (sample_resolver ([], zero_usage, 5, Some ''offline''))) sample_env
      ''now'' (\<lambda>_. ''cutoff'') ''s'' session_settings False = Some (writes, summary, Some ''offline'') \<and>
    writes = [SavedSummary summary] \<and> es_Status summary = ''failed''"
proof -
  let ?db = "sample_store [sample_event ''e1'' ''ghi abc def'']"
  let ?run = "processSession ?db
      (Some (sample_resolver ([], zero_usage, 5, Some ''offline''))) sample_env
      ''now'' (\<lambda>_. ''cutoff'') ''s'' session_settings False"
  have "map_option (\<lambda>(w, s, e). (length w, e)) ?run = Some (1, Some ''offline'')"
    by code_simp
  then obtain writes summary where run: "?run = Some (writes, summary, Some ''offline'')" "length writes = 1"
    by (auto simp: map_option_case split: option.splits)
  have mode: "st_SemanticEventMode session_settings \<noteq> ''show_all''" by (simp add: session_settings_def)
  have cs: "db_SemanticCandidates ?db ''s'' = Inr [sample_candidate ''c1'' ''Abc def ghi'']"
    and save: "db_SaveSemanticReports ?db rs = None" for rs
    by (simp_all add: sample_store_def)
  from failed_session_keeps_reports [OF run(1) mode cs] run(2)
  have "writes = [SavedSummary summary] \<and> es_Status summary = ''failed''"
    by (auto simp: save)
  with run show ?thesis by blast
qed

text \<open>An onboarding run never asks the model: its result does not depend on the resolver.\<close>

lemma onboarding_ignores_resolver:
  "processSession db resolver env now cutoff sid settings True =
   processSession db None env now cutoff sid settings True"
proof -
  have "resolve_session db resolver env settings cs got pl s = resolve_session db None env settings cs got pl s"
    if "make_plan True settings cs' catalog constraints exact = Some pl" for cs cs' got pl s catalog constraints exact
  proof -
    from that have "\<not> pl_should pl" by (auto simp: make_plan_def Let_def split: option.splits)
    then show ?thesis by (simp add: resolve_session_def split: option.splits)
  qed
  then show ?thesis unfolding processSession_def Let_def by (auto split: sum.splits option.splits)
qed

subsection \<open>The replay report counts every session once\<close>

definition bucket_sum :: "string list \<Rightarrow> (string \<Rightarrow> nat) \<Rightarrow> nat" where
  "bucket_sum names m = sum_list (map m names)"

lemma bucket_sum_increment:
  "distinct names \<Longrightarrow> k \<in> set names \<Longrightarrow> bucket_sum names (increment k m) = bucket_sum names m + 1"
proof -
  have "k \<notin> set names \<Longrightarrow> sum_list (map (increment k m) names) = sum_list (map m names)" for names
    by (induction names) auto
  then show "distinct names \<Longrightarrow> k \<in> set names \<Longrightarrow> bucket_sum names (increment k m) = bucket_sum names m + 1"
    unfolding bucket_sum_def by (induction names) auto
qed

abbreviation overlap_names :: "string list" where
  "overlap_names \<equiv> [''unavailable'', ''none'', ''low'', ''high'']"

abbreviation rarity_names :: "string list" where
  "rarity_names \<equiv> [''unavailable'', ''rare'', ''mixed'', ''common'', ''unknown'']"

abbreviation overlap_buckets :: "SemanticReplayReport \<Rightarrow> nat" where
  "overlap_buckets r \<equiv> bucket_sum overlap_names (rr_TriggerOverlapBuckets r)"

abbreviation rarity_buckets :: "SemanticReplayReport \<Rightarrow> nat" where
  "rarity_buckets r \<equiv> bucket_sum rarity_names (rr_TriggerRarityBuckets r)"

text \<open>The invariant of the loop after \<open>n\<close> sessions.\<close>

definition replay_inv :: "nat \<Rightarrow> nat \<Rightarrow> nat \<Rightarrow> SemanticReplayReport \<Rightarrow> bool" where
  "replay_inv n with_receipt reports r \<longleftrightarrow>
     overlap_buckets r = n \<and> rarity_buckets r = n \<and>
     ag_SessionsWithReceipt (rr_SignalReceipt r) = with_receipt \<and>
     rr_ReportsAnalyzed r = reports \<and> rr_HistoricalCompatibility r =
       \<lparr>hc_Actor = reports, hc_Object = reports, hc_Time = reports, hc_ExactEventKey = reports\<rparr> \<and>
     cl_CounterfactualReviewCandidate (rr_Classification r) =
       cl_ReceiptBackedReviewCandidate (rr_Classification r) + cl_LegacyAllNewReviewCandidate (rr_Classification r) \<and>
     cl_CounterfactualReviewCandidate (rr_Classification r) \<le> cl_RequiresModel (rr_Classification r) \<and>
     cl_RequiresModel (rr_Classification r) + cl_InsufficientData (rr_Classification r) \<le> n \<and>
     cl_ReceiptBackedReviewCandidate (rr_Classification r) \<le> with_receipt"

lemma overlap_bucket_known: "replayOverlapBucket x b \<in> set overlap_names"
  by (simp add: replayOverlapBucket_def)

lemma rarity_bucket_known: "receiptRarityBucket r \<in> set rarity_names"
  by (simp add: receiptRarityBucket_def)

lemma overlap_increment:
  "bucket_sum overlap_names (increment (replayOverlapBucket x b) m) = bucket_sum overlap_names m + 1"
  by (rule bucket_sum_increment [OF _ overlap_bucket_known]) simp

lemma rarity_increment:
  "bucket_sum rarity_names (increment (receiptRarityBucket r) m) = bucket_sum rarity_names m + 1"
  "bucket_sum rarity_names (increment ''unavailable'' m) = bucket_sum rarity_names m + 1"
  by (rule bucket_sum_increment [OF _ rarity_bucket_known], simp) (rule bucket_sum_increment; simp)

lemma count_receipt_buckets:
  "overlap_buckets (count_receipt s r) = overlap_buckets r + 1"
  "rarity_buckets (count_receipt s r) = rarity_buckets r + 1"
  "ag_SessionsWithReceipt (rr_SignalReceipt (count_receipt s r)) =
     ag_SessionsWithReceipt (rr_SignalReceipt r) + (if se_SignalReceipt s = None then 0 else 1)"
  "rr_ReportsAnalyzed (count_receipt s r) = rr_ReportsAnalyzed r"
  "rr_HistoricalCompatibility (count_receipt s r) = rr_HistoricalCompatibility r"
  "rr_Classification (count_receipt s r) = rr_Classification r"
proof -
  have "overlap_buckets (count_receipt s r) = overlap_buckets r + 1 \<and>
    rarity_buckets (count_receipt s r) = rarity_buckets r + 1"
    unfolding count_receipt_def
    by (cases "se_SignalReceipt s")
      (simp_all add: overlap_increment [simplified] rarity_increment [simplified])
  then show "overlap_buckets (count_receipt s r) = overlap_buckets r + 1"
    "rarity_buckets (count_receipt s r) = rarity_buckets r + 1" by simp_all
  show "ag_SessionsWithReceipt (rr_SignalReceipt (count_receipt s r)) =
     ag_SessionsWithReceipt (rr_SignalReceipt r) + (if se_SignalReceipt s = None then 0 else 1)"
    "rr_ReportsAnalyzed (count_receipt s r) = rr_ReportsAnalyzed r"
    "rr_HistoricalCompatibility (count_receipt s r) = rr_HistoricalCompatibility r"
    "rr_Classification (count_receipt s r) = rr_Classification r"
    unfolding count_receipt_def
    by (simp_all add: aggregateSignalReceipt_def split: option.split)
qed

lemma classify_session_cases:
  fixes s c
  defines "c' \<equiv> classify_session s c"
  shows "cl_RequiresModel c' + cl_InsufficientData c' \<le> cl_RequiresModel c + cl_InsufficientData c + 1 \<and>
    (cl_RequiresModel c \<le> cl_RequiresModel c' \<and>
     cl_CounterfactualReviewCandidate c' = cl_CounterfactualReviewCandidate c \<and>
     cl_LegacyAllNewReviewCandidate c' = cl_LegacyAllNewReviewCandidate c \<and>
     cl_ReceiptBackedReviewCandidate c' = cl_ReceiptBackedReviewCandidate c \<or>
     cl_RequiresModel c' = cl_RequiresModel c + 1 \<and>
     cl_CounterfactualReviewCandidate c' = cl_CounterfactualReviewCandidate c + 1 \<and>
     (se_SignalReceipt s = None \<and> cl_LegacyAllNewReviewCandidate c' = cl_LegacyAllNewReviewCandidate c + 1 \<and>
        cl_ReceiptBackedReviewCandidate c' = cl_ReceiptBackedReviewCandidate c \<or>
      se_SignalReceipt s \<noteq> None \<and> cl_ReceiptBackedReviewCandidate c' = cl_ReceiptBackedReviewCandidate c + 1 \<and>
        cl_LegacyAllNewReviewCandidate c' = cl_LegacyAllNewReviewCandidate c))"
  unfolding c'_def classify_session_def Let_def
  by (cases "se_SignalReceipt s") (auto simp: review_candidate_def)

lemma analyze_session_inv:
  assumes "replay_inv n w m r"
  shows "replay_inv (n + 1) (w + (if se_SignalReceipt s = None then 0 else 1)) (m + length (se_Reports s))
    (analyze_session s r)"
proof -
  define r1 where "r1 = r \<lparr>rr_SessionStatuses := increment (se_Status s) (rr_SessionStatuses r),
            rr_InvocationStatuses := increment (se_InvocationStatus s) (rr_InvocationStatuses r)\<rparr>"
  define r2 where "r2 = count_receipt s r1"
  define c' where "c' = classify_session s (rr_Classification r)"
  have same: "overlap_buckets r1 = overlap_buckets r" "rarity_buckets r1 = rarity_buckets r"
    by (simp_all add: r1_def)
  have cls: "rr_Classification r2 = rr_Classification r" by (simp add: r2_def r1_def count_receipt_buckets)
  have a: "analyze_session s r = count_reports (se_Reports s) (r2 \<lparr>
           rr_ActiveUserCorrections := rr_ActiveUserCorrections r2 + se_ActiveCorrections s,
           rr_UndoneUserCorrections := rr_UndoneUserCorrections r2 + se_UndoneCorrections s,
           rr_Classification := c'\<rparr>)"
    by (simp add: analyze_session_def Let_def r1_def r2_def c'_def count_receipt_buckets(6))
  have buckets: "overlap_buckets (analyze_session s r) = overlap_buckets r + 1"
    "rarity_buckets (analyze_session s r) = rarity_buckets r + 1"
    using count_receipt_buckets(1,2) [of s r1] same
    by (simp_all add: a count_reports_def r2_def)
  have rest: "ag_SessionsWithReceipt (rr_SignalReceipt (analyze_session s r)) =
      ag_SessionsWithReceipt (rr_SignalReceipt r) + (if se_SignalReceipt s = None then 0 else 1)"
    "rr_ReportsAnalyzed (analyze_session s r) = rr_ReportsAnalyzed r + length (se_Reports s)"
    "rr_HistoricalCompatibility (analyze_session s r) = (let h = rr_HistoricalCompatibility r; k = length (se_Reports s) in
       \<lparr>hc_Actor = hc_Actor h + k, hc_Object = hc_Object h + k, hc_Time = hc_Time h + k,
        hc_ExactEventKey = hc_ExactEventKey h + k\<rparr>)"
    "rr_Classification (analyze_session s r) = c'"
    using count_receipt_buckets(3-5) [of s r1] by (simp_all add: a count_reports_def r2_def r1_def Let_def)
  from classify_session_cases [of s "rr_Classification r"] show ?thesis
    using assms buckets rest unfolding c'_def [symmetric] replay_inv_def
    by (elim conjE disjE) (simp_all add: Let_def)
qed

lemma fold_analyze_inv:
  "replay_inv n w m r \<Longrightarrow>
   replay_inv (n + length ss) (w + length (filter (\<lambda>s. se_SignalReceipt s \<noteq> None) ss))
     (m + sum_list (map (\<lambda>s. length (se_Reports s)) ss)) (fold analyze_session ss r)"
proof (induction ss arbitrary: n w m r)
  case Nil
  then show ?case by simp
next
  case (Cons s ss)
  from Cons.IH [OF analyze_session_inv [OF Cons.prems, of s]] show ?case
    by (cases "se_SignalReceipt s") (simp_all add: add.assoc)
qed

lemma analyze_session_count: "rr_SessionsAnalyzed (analyze_session s r) = rr_SessionsAnalyzed r"
  unfolding analyze_session_def Let_def count_reports_def count_receipt_def
  by (simp split: option.split)

lemma fold_analyze_count: "rr_SessionsAnalyzed (fold analyze_session ss r) = rr_SessionsAnalyzed r"
  by (induction ss arbitrary: r) (simp_all add: analyze_session_count)

text \<open>The replay report accounts for every session: each falls into one overlap and one rarity
  bucket, review candidates are those with a receipt plus the legacy ones and all needed the model,
  sessions needing the model and sessions without reports are disjoint, every report counts once in
  each unavailable dimension, and the missing receipts are exactly the sessions without one.\<close>

lemma replay_accounts_for_every_session:
  assumes "AnalyzeSemanticReplay (Inr (sessions, corpus)) = Inr report"
  shows "rr_SessionsAnalyzed report = length sessions \<and>
    bucket_sum overlap_names (rr_TriggerOverlapBuckets report) = length sessions \<and>
    bucket_sum rarity_names (rr_TriggerRarityBuckets report) = length sessions \<and>
    cl_CounterfactualReviewCandidate (rr_Classification report) =
      cl_ReceiptBackedReviewCandidate (rr_Classification report) + cl_LegacyAllNewReviewCandidate (rr_Classification report) \<and>
    cl_CounterfactualReviewCandidate (rr_Classification report) \<le> cl_RequiresModel (rr_Classification report) \<and>
    cl_RequiresModel (rr_Classification report) + cl_InsufficientData (rr_Classification report) \<le> length sessions \<and>
    rr_ReportsAnalyzed report = sum_list (map (\<lambda>s. length (se_Reports s)) sessions) \<and>
    map_of (rr_UnavailableSignals report) ''historical_time_compatibility'' = Some (rr_ReportsAnalyzed report) \<and>
    map_of (rr_UnavailableSignals report) ''signal_receipt'' =
      Some (length (filter (\<lambda>s. se_SignalReceipt s = None) sessions))"
proof -
  define r0 where "r0 = empty_replay \<lparr>rr_SessionsAnalyzed := length sessions, rr_CorpusEventsObserved := corpus,
                 rr_CorpusEventsCapped := (corpus = 1000)\<rparr>"
  define r where "r = fold analyze_session sessions r0"
  have "replay_inv 0 0 0 r0"
    by (simp add: replay_inv_def r0_def empty_replay_def bucket_sum_def)
  from fold_analyze_inv [OF this, of sessions]
  have inv: "replay_inv (length sessions) (length (filter (\<lambda>s. se_SignalReceipt s \<noteq> None) sessions))
      (sum_list (map (\<lambda>s. length (se_Reports s)) sessions)) r"
    by (simp add: r_def)
  have n: "rr_SessionsAnalyzed r = length sessions"
    by (simp add: r_def fold_analyze_count r0_def)
  have miss: "length sessions - length (filter (\<lambda>s. se_SignalReceipt s \<noteq> None) sessions) =
      length (filter (\<lambda>s. se_SignalReceipt s = None) sessions)"
    using sum_length_filter_compl [of "\<lambda>s. se_SignalReceipt s = None" sessions] by simp
  have rep: "report = r \<lparr>rr_UnavailableSignals := rr_UnavailableSignals report\<rparr>"
    "map_of (rr_UnavailableSignals report) ''historical_time_compatibility'' = Some (hc_Time (rr_HistoricalCompatibility r))"
    "map_of (rr_UnavailableSignals report) ''signal_receipt'' =
       Some (rr_SessionsAnalyzed r - ag_SessionsWithReceipt (rr_SignalReceipt r))"
    using assms by (auto simp: AnalyzeSemanticReplay_def Let_def r_def r0_def)
  have fields: "rr_SessionsAnalyzed report = rr_SessionsAnalyzed r" "rr_ReportsAnalyzed report = rr_ReportsAnalyzed r"
    "rr_TriggerOverlapBuckets report = rr_TriggerOverlapBuckets r"
    "rr_TriggerRarityBuckets report = rr_TriggerRarityBuckets r"
    "rr_Classification report = rr_Classification r"
    by (subst rep(1), simp)+
  from inv n miss show ?thesis unfolding fields rep(2,3) replay_inv_def by simp
qed

definition sample_replay :: "SemanticReplaySession list" where
  "sample_replay =
    [\<lparr>se_Status = ''completed'', se_InvocationStatus = ''completed'', se_ResolverInvoked = True,
      se_DiagnosticsAvailable = True, se_StrongestOverlap = 3, se_CandidateCount = 1, se_ShortlistCount = 1,
      se_TriggerReason = '''', se_SignalReceipt = Some empty_receipt, se_ActiveCorrections = 0,
      se_UndoneCorrections = 0, se_Reports = [''new_event'']\<rparr>,
     \<lparr>se_Status = ''completed'', se_InvocationStatus = ''bypassed'', se_ResolverInvoked = False,
      se_DiagnosticsAvailable = False, se_StrongestOverlap = 0, se_CandidateCount = 0, se_ShortlistCount = 0,
      se_TriggerReason = '''', se_SignalReceipt = None, se_ActiveCorrections = 0,
      se_UndoneCorrections = 0, se_Reports = []\<rparr>]"

theorem replay_accounts_for_every_session_witness:
  "\<exists>report. AnalyzeSemanticReplay (Inr (sample_replay, 7)) = Inr report \<and>
     map_of (rr_UnavailableSignals report) ''signal_receipt'' = Some 1 \<and> rr_ReportsAnalyzed report = 1"
proof -
  obtain report where r: "AnalyzeSemanticReplay (Inr (sample_replay, 7)) = Inr report"
    by (simp add: AnalyzeSemanticReplay_def Let_def)
  from replay_accounts_for_every_session [OF r] r show ?thesis by (simp add: sample_replay_def)
qed

subsection \<open>The request schema asks for exactly one decision per candidate\<close>

lemma member_with_member: "is_object v \<Longrightarrow> member k (with_member j x v) = (if j = k then Some x else member k v)"
  by (cases v) (auto simp: is_object_def member_def with_member_def update_conv')

lemma decision_count_schema:
  assumes "exactSemanticDecisionCountSchema schema n = Inr projected"
  obtains ps ds where "member ''properties'' projected = Some ps" "member ''decisions'' ps = Some ds"
    "member ''minItems'' ds = Some (JNum (of_int n))" "member ''maxItems'' ds = Some (JNum (of_int n))" "1 \<le> n"
proof -
  obtain qs es where q: "member ''properties'' schema = Some (JObj qs)" "map_of qs ''decisions'' = Some (JObj es)" "1 \<le> n"
    "projected = with_member ''properties''
                      (with_member ''decisions''
                        (with_member ''maxItems'' (JNum (of_int n))
                          (with_member ''minItems'' (JNum (of_int n)) (JObj es)))
                        (JObj qs)) schema"
    using assms
    by (auto simp: exactSemanticDecisionCountSchema_def split: if_splits option.splits json.splits)
  let ?ds = "with_member ''maxItems'' (JNum (of_int n)) (with_member ''minItems'' (JNum (of_int n)) (JObj es))"
  let ?ps = "with_member ''decisions'' ?ds (JObj qs)"
  have "is_object schema" using q(1) by (auto simp: member_def is_object_def split: json.splits)
  then have "member ''properties'' projected = Some ?ps" by (simp add: q(4) member_with_member)
  moreover have "member ''decisions'' ?ps = Some ?ds" by (simp add: member_with_member is_object_def)
  moreover have "member ''minItems'' ?ds = Some (JNum (of_int n))" "member ''maxItems'' ?ds = Some (JNum (of_int n))"
    by (simp_all add: with_member_def member_def update_conv')
  ultimately show thesis using that q(3) by blast
qed

text \<open>The alias the prompt shows for an event is resolved to that event when a decision names it; what
  is shown of an evidence text is bounded.\<close>

lemma prompt_aliases_resolve:
  assumes "k < length shortlist"
  shows "eventAliases shortlist (er_Alias (event_references shortlist ! k)) = Some (shortlist ! k)"
  using assms eventAliases_nth [OF assms] by (simp add: event_references_def event_reference_def)

lemma prompt_excerpt_bounded:
  "rune_count (cr_EvidenceExcerpt (candidate_reference c)) \<le> 601 \<and> rune_count (cr_WhatChanged (candidate_reference c)) \<le> 601"
  using boundedText_bound [of _ 600]
  by (simp add: candidate_reference_def compactEvidenceExcerpt_def Let_def rune_count_def [of "[]"])

end
