(* ===== verification/Go_Regexp.thy ===== *)
theory Go_Regexp
  imports Prelude
begin

text \<open>
  The part of Go's \<open>regexp\<close> the packages use, as data: case-insensitive literals, character classes,
  \<open>\s+\<close>, word boundaries, sequence, alternation and option. \<open>ends r s i\<close> lists where a match starting
  at byte \<open>i\<close> may end, in the order in which a leftmost-first engine prefers them; its head is the match.
  \<open>rx_match\<close> is the reference meaning, and the two agree (\<open>ends_iff\<close>). Case folding and word
  characters are those of ASCII.
\<close>

datatype rx =
    Lit string
  | Class string
  | Spaces
  | Bound
  | Seq rx rx
  | Alt rx rx
  | Opt rx

text \<open>\<open>\s\<close> and \<open>\w\<close>.\<close>

definition rx_space :: "char \<Rightarrow> bool" where
  "rx_space c = (of_char c \<in> {9, 10, 12, 13, 32::nat})"

definition rx_word :: "char \<Rightarrow> bool" where
  "rx_word c =
     (let n = of_char c :: nat in
      48 \<le> n \<and> n \<le> 57 \<or> 65 \<le> n \<and> n \<le> 90 \<or> n = 95 \<or> 97 \<le> n \<and> n \<le> 122)"

definition at_boundary :: "string \<Rightarrow> nat \<Rightarrow> bool" where
  "at_boundary s i =
     ((0 < i \<and> i \<le> length s \<and> rx_word (s ! (i - 1))) \<noteq> (i < length s \<and> rx_word (s ! i)))"

fun ends :: "rx \<Rightarrow> string \<Rightarrow> nat \<Rightarrow> nat list" where
  "ends (Lit w) s i =
     (if i + length w \<le> length s \<and> to_lower (take (length w) (drop i s)) = to_lower w
      then [i + length w] else [])"
| "ends (Class cs) s i = (if i < length s \<and> s ! i \<in> set cs then [i + 1] else [])"
| "ends Spaces s i = rev [i + 1..<i + 1 + length (takeWhile rx_space (drop i s))]"
| "ends Bound s i = (if at_boundary s i then [i] else [])"
| "ends (Seq a b) s i = concat (map (ends b s) (ends a s i))"
| "ends (Alt a b) s i = ends a s i @ ends b s i"
| "ends (Opt a) s i = ends a s i @ [i]"

text \<open>\<open>MatchString\<close>: a match starts somewhere.\<close>

definition MatchString :: "rx \<Rightarrow> string \<Rightarrow> bool" where
  "MatchString r s = list_ex (\<lambda>i. ends r s i \<noteq> []) [0..<length s + 1]"

text \<open>\<open>FindAllStringIndex(s, -1)\<close>: successive matches from left to right, none overlapping.\<close>

function find_all :: "rx \<Rightarrow> string \<Rightarrow> nat \<Rightarrow> (nat \<times> nat) list" where
  "find_all r s i =
     (if length s < i then []
      else case ends r s i of
        [] \<Rightarrow> find_all r s (i + 1)
      | e # _ \<Rightarrow> (i, e) # find_all r s (max e (i + 1)))"
  by pat_completeness auto
termination
  by (relation "measure (\<lambda>(r, s, i). length s + 1 - i)") auto

declare find_all.simps [simp del]

subsection \<open>Reference meaning\<close>

inductive rx_match :: "rx \<Rightarrow> string \<Rightarrow> nat \<Rightarrow> nat \<Rightarrow> bool" where
  lit: "i + length w \<le> length s \<Longrightarrow> to_lower (take (length w) (drop i s)) = to_lower w \<Longrightarrow>
    rx_match (Lit w) s i (i + length w)"
| cls: "i < length s \<Longrightarrow> s ! i \<in> set cs \<Longrightarrow> rx_match (Class cs) s i (i + 1)"
| spaces: "i < j \<Longrightarrow> j \<le> length s \<Longrightarrow> (\<And>k. i \<le> k \<Longrightarrow> k < j \<Longrightarrow> rx_space (s ! k)) \<Longrightarrow> rx_match Spaces s i j"
| bound: "at_boundary s i \<Longrightarrow> rx_match Bound s i i"
| seq: "rx_match a s i k \<Longrightarrow> rx_match b s k j \<Longrightarrow> rx_match (Seq a b) s i j"
| alt1: "rx_match a s i j \<Longrightarrow> rx_match (Alt a b) s i j"
| alt2: "rx_match b s i j \<Longrightarrow> rx_match (Alt a b) s i j"
| opt1: "rx_match a s i j \<Longrightarrow> rx_match (Opt a) s i j"
| opt2: "rx_match (Opt a) s i i"

inductive_simps rx_match_simps [simp]:
  "rx_match (Lit w) s i j" "rx_match (Class cs) s i j" "rx_match Spaces s i j" "rx_match Bound s i j"
  "rx_match (Seq a b) s i j" "rx_match (Alt a b) s i j" "rx_match (Opt a) s i j"

lemma takeWhile_reaches:
  assumes "i < j"
  shows "j \<le> i + length (takeWhile P (drop i s)) \<longleftrightarrow> j \<le> length s \<and> (\<forall>k. i \<le> k \<longrightarrow> k < j \<longrightarrow> P (s ! k))"
proof
  assume j: "j \<le> i + length (takeWhile P (drop i s))"
  have "length (takeWhile P (drop i s)) \<le> length s - i"
    using length_takeWhile_le [of P "drop i s"] by simp
  with j assms have "j \<le> length s" by simp
  moreover have "P (s ! k)" if "i \<le> k" "k < j" for k
  proof -
    have k: "k - i < length (takeWhile P (drop i s))" using that j by simp
    then have "P (takeWhile P (drop i s) ! (k - i))" using nth_mem set_takeWhileD by metis
    moreover have "takeWhile P (drop i s) ! (k - i) = s ! k"
      using k that takeWhile_nth [of "k - i" P "drop i s"] length_takeWhile_le [of P "drop i s"] by simp
    ultimately show ?thesis by simp
  qed
  ultimately show "j \<le> length s \<and> (\<forall>k. i \<le> k \<longrightarrow> k < j \<longrightarrow> P (s ! k))" by blast
next
  assume j: "j \<le> length s \<and> (\<forall>k. i \<le> k \<longrightarrow> k < j \<longrightarrow> P (s ! k))"
  show "j \<le> i + length (takeWhile P (drop i s))"
  proof (rule ccontr)
    assume "\<not> ?thesis"
    then have n: "length (takeWhile P (drop i s)) < j - i" "length (takeWhile P (drop i s)) < length (drop i s)"
      using j assms by auto
    from nth_length_takeWhile [OF n(2)] have "\<not> P (drop i s ! length (takeWhile P (drop i s)))" .
    with j n show False by simp
  qed
qed

text \<open>The engine finds exactly the matches.\<close>

lemma ends_iff: "j \<in> set (ends r s i) \<longleftrightarrow> rx_match r s i j"
proof (induction r arbitrary: i j)
  case Spaces
  have "j \<in> set (ends Spaces s i) \<longleftrightarrow> i < j \<and> j \<le> i + length (takeWhile rx_space (drop i s))"
    by auto
  then show ?case using takeWhile_reaches [of i j rx_space s] by auto
qed auto

lemma MatchString_iff: "MatchString r s \<longleftrightarrow> (\<exists>i j. i \<le> length s \<and> rx_match r s i j)"
proof -
  have "ends r s i \<noteq> [] \<longleftrightarrow> (\<exists>j. rx_match r s i j)" for i
    by (metis ends_iff list.set_intros(1) list.set_cases empty_iff list.set(1) neq_Nil_conv)
  moreover have "set [0..<length s + 1] = {i. i \<le> length s}" by auto
  ultimately show ?thesis by (simp add: MatchString_def list_ex_iff del: upt_Suc)
qed

lemma rx_match_bounds: "rx_match r s i j \<Longrightarrow> i \<le> length s \<Longrightarrow> i \<le> j \<and> j \<le> length s"
  by (induction rule: rx_match.induct) auto

subsection \<open>Building expressions\<close>

fun alts :: "rx list \<Rightarrow> rx" where
  "alts [] = Class []"
| "alts [r] = r"
| "alts (r # rs) = Alt r (alts rs)"

fun seqs :: "rx list \<Rightarrow> rx" where
  "seqs [] = Lit []"
| "seqs [r] = r"
| "seqs (r # rs) = Seq r (seqs rs)"

text \<open>\<open>\b(?:...)\b\<close>.\<close>

definition word_of :: "rx list \<Rightarrow> rx" where
  "word_of rs = seqs [Bound, alts rs, Bound]"

lemma rx_match_alts: "rx_match (alts rs) s i j \<longleftrightarrow> (\<exists>r \<in> set rs. rx_match r s i j)"
  by (induction rs rule: alts.induct) auto

end
