(* ===== verification/LivingTopics.thy ===== *)
theory LivingTopics
  imports EventEngine Go_Regexp
begin

text \<open>
  The Living Topics resolver (\<open>src/internal/livingtopics/resolver.go\<close>): what the model is shown of the
  evidence and of the topics, and the host's validation of what it answers, which decides what may be
  stored as a claim of a topic. The lexical rules that allow a terminal lifecycle status are modelled
  down to their regular expressions. The provider call with the decoding of its JSON is a parameter.
\<close>

subsection \<open>Data\<close>

text \<open>The fields of \<open>domain.MemoryItem\<close> the resolver reads.\<close>

record MemoryItem =
  mi_ID :: string
  mi_Source :: Source
  mi_Title :: string
  mi_Summary :: string
  mi_Author :: string
  mi_PublishedAt :: "string option"
  mi_Tags :: "string list"
  mi_Facets :: "string list"
  mi_FullContent :: "string option"

record evidenceReference =
  vr_Alias :: string
  vr_Source :: Source
  vr_Title :: string
  vr_Summary :: string
  vr_Author :: string
  vr_PublishedAt :: "string option"
  vr_Tags :: "string list"
  vr_Facets :: "string list"
  vr_RetainedText :: string

record structuredClaim =
  cm_Key :: string
  cm_LifecycleSubject :: string
  cm_LifecycleEvidenceAlias :: string
  cm_LifecycleEvidenceQuote :: string
  cm_MaterialValue :: string
  cm_Text :: string
  cm_Assessment :: string
  cm_Centrality :: string
  cm_Subtopic :: string
  cm_TemporalStatus :: string
  cm_EventStatus :: string
  cm_EvidenceAliases :: "string list"

record structuredEvidenceRole =
  sr_EvidenceAlias :: string
  sr_Role :: string
  sr_Subtopic :: string
  sr_SourceCluster :: string
  sr_EpistemicClass :: string

record structuredDelta =
  sd_Kind :: string
  sd_Text :: string
  sd_EvidenceAliases :: "string list"

record structuredResult =
  sx_Status :: string
  sx_Overview :: string
  sx_Claims :: "structuredClaim list"
  sx_Deltas :: "structuredDelta list"
  sx_EvidenceRoles :: "structuredEvidenceRole list"
  sx_CoverageState :: string

record LivingTopicLifecycleProof =
  lp_EvidenceID :: string
  lp_Quote :: string

record LivingTopicClaim =
  lc_Key :: string
  lc_MaterialValue :: string
  lc_Text :: string
  lc_Assessment :: string
  lc_Centrality :: string
  lc_Subtopic :: string
  lc_LifecycleSubject :: string
  lc_TemporalStatus :: string
  lc_EventStatus :: string
  lc_LifecycleProof :: "LivingTopicLifecycleProof option"
  lc_EvidenceIDs :: "string list"

record LivingTopicEvidenceRole =
  lr_MemoryItemID :: string
  lr_Role :: string
  lr_Subtopic :: string
  lr_SourceCluster :: string
  lr_EpistemicClass :: string

record LivingTopicDelta =
  ld_Kind :: string
  ld_Text :: string
  ld_EvidenceIDs :: "string list"

record LivingTopicSnapshotResult =
  ls_Status :: string
  ls_Overview :: string
  ls_Claims :: "LivingTopicClaim list"
  ls_Deltas :: "LivingTopicDelta list"
  ls_EvidenceRoles :: "LivingTopicEvidenceRole list"
  ls_CoverageState :: string

datatype topic_error =
    TooMuchEvidence
  | Provider string
  | UnsupportedStatus string
  | BadOverview
  | BadCounts
  | TooManyRoles
  | InvalidClaim
  | CitationCount
  | UnknownAlias string
  | InvalidClaimScope
  | InvalidDelta
  | InvalidCoverage
  | RolesIncomplete
  | InvalidRole
  | InvalidClassification
  | OnlyPeripheral
  | RoutingCount nat nat
  | InvalidDecision

text \<open>\<open>map[string]string\<close> from the alias shown to the model to an id or a text, as its entries.\<close>

type_synonym alias_map = "(string \<times> string) list"

subsection \<open>Bounded projections\<close>

definition bounded :: "string \<Rightarrow> nat \<Rightarrow> string" where
  "bounded value limit = boundedText value limit"

definition boundedOptional :: "string option \<Rightarrow> nat \<Rightarrow> string option" where
  "boundedOptional value limit =
     (case value of None \<Rightarrow> None
      | Some v \<Rightarrow> (let b = bounded v limit in if b = '''' then None else Some b))"

definition boundedStrings :: "string list \<Rightarrow> nat \<Rightarrow> nat \<Rightarrow> string list" where
  "boundedStrings values' limit runeLimit =
     filter (\<lambda>v. v \<noteq> '''') (map (\<lambda>v. bounded v runeLimit) (take limit values'))"

definition retained_text :: "MemoryItem \<Rightarrow> string" where
  "retained_text item = (case mi_FullContent item of None \<Rightarrow> '''' | Some c \<Rightarrow> bounded c 4000)"

definition evidence_alias :: "nat \<Rightarrow> string" where
  "evidence_alias n = ''evidence_'' @ pad3 n"

definition evidence_aliases :: "MemoryItem list \<Rightarrow> alias_map" where
  "evidence_aliases evidence = map2 (\<lambda>i item. (evidence_alias (i + 1), mi_ID item)) [0..<length evidence] evidence"

definition retained_by_alias :: "MemoryItem list \<Rightarrow> alias_map" where
  "retained_by_alias evidence =
     map2 (\<lambda>i item. (evidence_alias (i + 1), retained_text item)) [0..<length evidence] evidence"

definition evidence_references :: "MemoryItem list \<Rightarrow> evidenceReference list" where
  "evidence_references evidence =
     map2 (\<lambda>i item. \<lparr>vr_Alias = evidence_alias (i + 1), vr_Source = mi_Source item,
        vr_Title = bounded (mi_Title item) 300, vr_Summary = bounded (mi_Summary item) 1200,
        vr_Author = bounded (mi_Author item) 300, vr_PublishedAt = boundedOptional (mi_PublishedAt item) 80,
        vr_Tags = boundedStrings (mi_Tags item) 16 120, vr_Facets = boundedStrings (mi_Facets item) 16 120,
        vr_RetainedText = retained_text item\<rparr>) [0..<length evidence] evidence"

subsection \<open>Lifecycle patterns\<close>

definition lifecycleSubjectSeparatorPattern :: rx where
  "lifecycleSubjectSeparatorPattern =
     alts [word_of [Lit ''and''], word_of [Lit ''or''], word_of [Lit ''plus''], word_of [Lit ''as well as''],
       word_of [Lit ''along with''], Class '';&'', Lit ''/'']"

definition lifecycleMarkerPattern :: rx where
  "lifecycleMarkerPattern = word_of
     [Lit ''rollout'', Seq (Lit ''launch'') (Opt (Alt (Lit ''ing'') (Lit ''ed''))), Lit ''release'',
      Lit ''deployment'', Seq (Lit ''deploy'') (Opt (Alt (Lit ''ed'') (Lit ''ment''))), Lit ''migration'',
      Lit ''reset'', Lit ''issuance'', Lit ''issue'', Lit ''redemption'',
      Seq (Lit ''redeem'') (Opt (Lit ''ed'')), Lit ''expiry'', Lit ''expiration'',
      seqs [Lit ''cancel'', Opt (Lit ''l''), Lit ''ation''], seqs [Lit ''cancel'', Opt (Lit ''l''), Lit ''ed''],
      Lit ''shutdown'', Lit ''upgrade'', Lit ''transfer'', Lit ''refund'', Lit ''payment'']"

definition lifecycleFuturePattern :: rx where
  "lifecycleFuturePattern = alts
     [word_of [Lit ''will'', Lit ''would'', Lit ''may'', Lit ''might'', Lit ''could'',
        Seq (Lit ''plan'') (Opt (Alt (Lit ''ned'') (Lit ''s''))),
        Seq (Lit ''expect'') (Opt (Alt (Lit ''ed'') (Lit ''s''))),
        Seq (Lit ''schedul'') (alts [Lit ''ed'', Lit ''e'', Lit ''es'', Lit ''ing'']),
        Lit ''upcoming'', Lit ''soon'', Lit ''tomorrow'', Lit ''next'',
        Seq (Lit ''intend'') (Opt (Alt (Lit ''ed'') (Lit ''s''))), Lit ''due''],
      seqs [Bound, Lit ''set'', Spaces, Lit ''to'', Bound],
      seqs [Bound, Lit ''to'', Spaces, Lit ''be'', Bound]]"

definition lifecycleNegationPattern :: rx where
  "lifecycleNegationPattern = Alt
     (word_of (map Lit [''not'', ''never'', ''no'', ''without'', ''cannot'', ''can'' @ [CHR 0x27] @ ''t'',
        ''won'' @ [CHR 0x27] @ ''t'', ''didn'' @ [CHR 0x27] @ ''t'', ''doesn'' @ [CHR 0x27] @ ''t'',
        ''isn'' @ [CHR 0x27] @ ''t'', ''aren'' @ [CHR 0x27] @ ''t'', ''wasn'' @ [CHR 0x27] @ ''t'',
        ''weren'' @ [CHR 0x27] @ ''t'', ''hasn'' @ [CHR 0x27] @ ''t'', ''haven'' @ [CHR 0x27] @ ''t'',
        ''hadn'' @ [CHR 0x27] @ ''t'']))
     (seqs [Bound, Alt (Lit ''not'') (Lit ''never''), Spaces, Opt (Seq (Lit ''fully'') Spaces),
        alts [Lit ''complete'', Lit ''completed'', Seq (Lit ''finish'') (Opt (Lit ''ed'')),
          Seq (Lit ''ship'') (Opt (Lit ''ped'')), Seq (Lit ''launch'') (Opt (Lit ''ed'')),
          Seq (Lit ''release'') (Opt (Lit ''d'')), Seq (Lit ''deploy'') (Opt (Alt (Lit ''ed'') (Lit ''ment''))),
          seqs [Lit ''roll'', Opt (Lit ''ed''), Spaces, Lit ''out''],
          Seq (Lit ''cancel'') (Opt (Alt (Lit ''led'') (Lit ''ed'')))], Bound])"

definition lifecycleCompletedPattern :: rx where
  "lifecycleCompletedPattern = Alt
     (word_of [Lit ''completed'', Lit ''finished'', Lit ''shipped'', Lit ''launched'', Lit ''released'',
        Lit ''deployed'', Lit ''migrated'', seqs [Lit ''rolled'', Spaces, Lit ''out''], Lit ''delivered'',
        Lit ''concluded'', Lit ''closed'', Lit ''done''])
     (seqs [Bound, alts [Lit ''is'', Lit ''was'', seqs [Lit ''has'', Spaces, Lit ''been''],
        seqs [Lit ''have'', Spaces, Lit ''been''], Lit ''now'', Lit ''fully''], Spaces, Lit ''complete'', Bound])"

definition lifecycleCancelledPattern :: rx where
  "lifecycleCancelledPattern = word_of
     [Seq (Lit ''cancel'') (Alt (Lit ''led'') (Lit ''ed'')), Lit ''terminated'', Lit ''aborted'',
      seqs [Lit ''called'', Spaces, Lit ''off''], Lit ''withdrawn'', Lit ''stopped'']"

subsection \<open>Lifecycle rules\<close>

text \<open>The texts between successive markers of a value.\<close>

fun gaps :: "string \<Rightarrow> (nat \<times> nat) list \<Rightarrow> string list" where
  "gaps value ((a, b) # (c, d) # rest) = drop b (take c value) # gaps value ((c, d) # rest)"
| "gaps value _ = []"

definition hasMixedLifecycleAssertion :: "string \<Rightarrow> bool" where
  "hasMixedLifecycleAssertion value =
     list_ex (MatchString lifecycleSubjectSeparatorPattern) (gaps value (find_all lifecycleMarkerPattern value 0))"

definition validLifecycleSubject :: "string \<Rightarrow> bool" where
  "validLifecycleSubject value0 =
     (let value = trim_space value0 in
      \<not> (value = '''' \<or> rune_count value > 160 \<or> list_ex (\<lambda>c. c = CHR 0x0D \<or> c = CHR 0x0A) value) \<and>
      \<not> hasMixedLifecycleAssertion value)"

fun index_of :: "string \<Rightarrow> string \<Rightarrow> nat option" where
  "index_of p [] = (if p = [] then Some 0 else None)"
| "index_of p (c # s) = (if has_prefix p (c # s) then Some 0 else map_option Suc (index_of p s))"

definition sentence_end :: "char \<Rightarrow> bool" where
  "sentence_end c = (c \<in> set ''.!?;'' \<or> c = CHR 0x0A)"

definition retainedQuoteContext :: "string \<Rightarrow> string \<Rightarrow> string" where
  "retainedQuoteContext original quote =
     (case index_of quote original of
        None \<Rightarrow> ''''
      | Some index \<Rightarrow>
          (let before = rev (takeWhile (\<lambda>c. \<not> sentence_end c) (rev (take index original)));
               after = drop (index + length quote) original;
               tail = takeWhile (\<lambda>c. \<not> sentence_end c) after @ take 1 (dropWhile (\<lambda>c. \<not> sentence_end c) after)
           in trim_space (before @ quote @ tail)))"

text \<open>\<open>strings.ReplaceAll\<close> of the right single quotation mark (U+2019, three bytes) by an apostrophe.\<close>

fun plain_apostrophes :: "string \<Rightarrow> string" where
  "plain_apostrophes (a # b # c # s) =
     (if a = CHR 0xE2 \<and> b = CHR 0x80 \<and> c = CHR 0x99 then CHR 0x27 # plain_apostrophes s
      else a # plain_apostrophes (b # c # s))"
| "plain_apostrophes s = s"

definition quote_context :: "string \<Rightarrow> string \<Rightarrow> string" where
  "quote_context original quote = plain_apostrophes (retainedQuoteContext original quote)"

definition terminal_words :: "string \<Rightarrow> rx option" where
  "terminal_words status =
     (if status = ''completed'' then Some lifecycleCompletedPattern
      else if status = ''cancelled'' then Some lifecycleCancelledPattern else None)"

text \<open>The wording the quote and its sentence must have.\<close>

definition terminal_wording :: "string \<Rightarrow> string \<Rightarrow> string \<Rightarrow> string \<Rightarrow> bool" where
  "terminal_wording status subject quote context =
     (\<not> (context = '''' \<or> contains_sub ''?'' context \<or> MatchString lifecycleFuturePattern context \<or>
         MatchString lifecycleNegationPattern context) \<and>
      \<not> hasMixedLifecycleAssertion subject \<and> \<not> hasMixedLifecycleAssertion context \<and>
      (case terminal_words status of None \<Rightarrow> False | Some r \<Rightarrow> MatchString r quote \<and> MatchString r context))"

definition validTerminalProof :: "structuredClaim \<Rightarrow> string list \<Rightarrow> alias_map \<Rightarrow> alias_map \<Rightarrow> bool" where
  "validTerminalProof claim ids aliases retainedByAlias =
     (let alias = trim_space (cm_LifecycleEvidenceAlias claim);
          quote = trim_space (cm_LifecycleEvidenceQuote claim);
          subject = trim_space (cm_LifecycleSubject claim)
      in \<not> (alias = '''' \<or> quote = '''' \<or> rune_count quote > 460) \<and>
         (case map_of aliases alias of None \<Rightarrow> False | Some evidenceID \<Rightarrow> evidenceID \<in> set ids) \<and>
         (case map_of retainedByAlias alias of
            None \<Rightarrow> False
          | Some original \<Rightarrow>
              original \<noteq> '''' \<and> contains_sub quote original \<and>
              subject \<noteq> '''' \<and> contains_sub (to_lower subject) (to_lower quote) \<and>
              terminal_wording (cm_EventStatus claim) subject quote (quote_context original quote)))"

definition explicitTerminalAssertion :: "structuredClaim \<Rightarrow> bool" where
  "explicitTerminalAssertion claim =
     list_ex (\<lambda>field. MatchString lifecycleCompletedPattern field \<or> MatchString lifecycleCancelledPattern field)
       [cm_Text claim, cm_MaterialValue claim]"

subsection \<open>Validation of a snapshot\<close>

definition resolveEvidenceAliases :: "string list \<Rightarrow> alias_map \<Rightarrow> topic_error + string list" where
  "resolveEvidenceAliases values' aliases =
     (if values' = [] \<or> length values' > 30 then Inl CitationCount
      else case List.find (\<lambda>a. map_of aliases a = None) values' of
        Some a \<Rightarrow> Inl (UnknownAlias a)
      | None \<Rightarrow> Inr (rev (remdups (rev (map (the \<circ> map_of aliases) values')))))"

definition validTemporalStatus :: "string \<Rightarrow> bool" where
  "validTemporalStatus value = (value \<in> set [''current'', ''historical'', ''unknown''])"

definition validEventStatus :: "string \<Rightarrow> bool" where
  "validEventStatus value = (value \<in> set [''announced'', ''ongoing'', ''completed'', ''cancelled'', ''unknown''])"

definition terminal :: "string \<Rightarrow> bool" where
  "terminal status = (status = ''completed'' \<or> status = ''cancelled'')"

definition claim_well_formed :: "structuredClaim \<Rightarrow> bool" where
  "claim_well_formed claim =
     (let text = trim_space (cm_Text claim) in
      text \<noteq> '''' \<and> rune_count text \<le> 500 \<and>
      cm_Assessment claim \<in> set [''supported'', ''mixed'', ''uncertain'', ''unavailable''])"

definition claim_key :: "structuredClaim \<Rightarrow> string" where
  "claim_key claim = to_lower (trim_space (cm_Key claim))"

definition claim_scope_ok :: "string list \<Rightarrow> structuredClaim \<Rightarrow> bool" where
  "claim_scope_ok seen claim =
     (let key = claim_key claim; materialValue = trim_space (cm_MaterialValue claim);
          centrality = trim_space (cm_Centrality claim); subtopic = trim_space (cm_Subtopic claim);
          subject = trim_space (cm_LifecycleSubject claim);
          temporalStatus = trim_space (cm_TemporalStatus claim); eventStatus = trim_space (cm_EventStatus claim)
      in key \<noteq> '''' \<and> materialValue \<noteq> '''' \<and> key \<notin> set seen \<and> rune_count key \<le> 120 \<and>
         rune_count materialValue \<le> 500 \<and> (centrality = ''central'' \<or> centrality = ''secondary'') \<and>
         subtopic \<noteq> '''' \<and> rune_count subtopic \<le> 120 \<and>
         (validLifecycleSubject subject \<or> terminal eventStatus) \<and>
         validTemporalStatus temporalStatus \<and> validEventStatus eventStatus)"

definition unknown_text :: string where
  "unknown_text = ''The lifecycle state is unknown from the supplied evidence.''"

text \<open>The stored form of a claim that passed the checks, and whether its lifecycle was downgraded.\<close>

definition store_claim ::
  "alias_map \<Rightarrow> alias_map \<Rightarrow> string list \<Rightarrow> structuredClaim \<Rightarrow> LivingTopicClaim \<times> bool" where
  "store_claim aliases retainedByAlias ids claim =
     (let subject = trim_space (cm_LifecycleSubject claim);
          eventStatus = trim_space (cm_EventStatus claim);
          quote = trim_space (cm_LifecycleEvidenceQuote claim);
          plain = \<lparr>lc_Key = claim_key claim, lc_MaterialValue = to_lower (trim_space (cm_MaterialValue claim)),
            lc_Text = trim_space (cm_Text claim), lc_Assessment = cm_Assessment claim,
            lc_Centrality = trim_space (cm_Centrality claim), lc_Subtopic = trim_space (cm_Subtopic claim),
            lc_LifecycleSubject = subject, lc_TemporalStatus = trim_space (cm_TemporalStatus claim),
            lc_EventStatus = eventStatus, lc_LifecycleProof = None, lc_EvidenceIDs = ids\<rparr>;
          downgraded = plain \<lparr>lc_Assessment := ''uncertain'', lc_TemporalStatus := ''unknown'',
            lc_EventStatus := ''unknown'', lc_MaterialValue := ''unknown'', lc_Text := unknown_text\<rparr>
      in if terminal eventStatus then
           (if \<not> validLifecycleSubject subject \<or> \<not> validTerminalProof claim ids aliases retainedByAlias then
              (downgraded \<lparr>lc_LifecycleSubject :=
                 (if \<not> validLifecycleSubject subject then ''unknown lifecycle subject'' else subject)\<rparr>, True)
            else
              (plain \<lparr>lc_Text := ''Source statement: '' @ [CHR 0x22] @ quote @ [CHR 0x22],
                 lc_MaterialValue := to_lower (to_lower (subject @ '' '' @ eventStatus)),
                 lc_LifecycleProof := Some \<lparr>lp_EvidenceID =
                   the (map_of aliases (trim_space (cm_LifecycleEvidenceAlias claim))), lp_Quote = quote\<rparr>\<rparr>, False))
         else if explicitTerminalAssertion claim then (downgraded, True)
         else (plain, False))"

fun validate_claims ::
  "alias_map \<Rightarrow> alias_map \<Rightarrow> string list \<Rightarrow> structuredClaim list \<Rightarrow> topic_error + (LivingTopicClaim \<times> bool) list" where
  "validate_claims aliases retainedByAlias seen [] = Inr []"
| "validate_claims aliases retainedByAlias seen (claim # rest) =
     (if \<not> claim_well_formed claim then Inl InvalidClaim
      else case resolveEvidenceAliases (cm_EvidenceAliases claim) aliases of
        Inl e \<Rightarrow> Inl e
      | Inr ids \<Rightarrow>
          if \<not> claim_scope_ok seen claim then Inl InvalidClaimScope
          else (case validate_claims aliases retainedByAlias (claim_key claim # seen) rest of
                  Inl e \<Rightarrow> Inl e
                | Inr out \<Rightarrow> Inr (store_claim aliases retainedByAlias ids claim # out)))"


definition delta_ok :: "structuredDelta \<Rightarrow> bool" where
  "delta_ok delta =
     (let text = trim_space (sd_Text delta) in
      text \<noteq> '''' \<and> rune_count text \<le> 500 \<and> sd_Kind delta \<in> set [''new'', ''updated'', ''contradicted'', ''removed''])"

definition store_delta :: "string list \<Rightarrow> structuredDelta \<Rightarrow> LivingTopicDelta" where
  "store_delta ids delta = \<lparr>ld_Kind = sd_Kind delta, ld_Text = trim_space (sd_Text delta), ld_EvidenceIDs = ids\<rparr>"

fun validate_deltas :: "alias_map \<Rightarrow> structuredDelta list \<Rightarrow> topic_error + LivingTopicDelta list" where
  "validate_deltas aliases [] = Inr []"
| "validate_deltas aliases (delta # rest) =
     (if \<not> delta_ok delta then Inl InvalidDelta
      else case resolveEvidenceAliases (sd_EvidenceAliases delta) aliases of
        Inl e \<Rightarrow> Inl e
      | Inr ids \<Rightarrow>
          (case validate_deltas aliases rest of
             Inl e \<Rightarrow> Inl e
           | Inr out \<Rightarrow> Inr (store_delta ids delta # out)))"

definition role_kind_ok :: "structuredEvidenceRole \<Rightarrow> bool" where
  "role_kind_ok role =
     (sr_Role role \<in> set [''core'', ''supporting'', ''peripheral'', ''undetermined''] \<and>
      sr_EpistemicClass role \<in> set [''primary'', ''attributed_secondary'', ''unattributed'', ''speculative''])"

definition role_labels_ok :: "structuredEvidenceRole \<Rightarrow> bool" where
  "role_labels_ok role =
     (let subtopic = trim_space (sr_Subtopic role); cluster = trim_space (sr_SourceCluster role)
      in subtopic \<noteq> '''' \<and> cluster \<noteq> '''' \<and> rune_count subtopic \<le> 120 \<and> rune_count cluster \<le> 120)"

definition store_role :: "string \<Rightarrow> structuredEvidenceRole \<Rightarrow> LivingTopicEvidenceRole" where
  "store_role x role = \<lparr>lr_MemoryItemID = x, lr_Role = sr_Role role, lr_Subtopic = trim_space (sr_Subtopic role),
     lr_SourceCluster = trim_space (sr_SourceCluster role), lr_EpistemicClass = sr_EpistemicClass role\<rparr>"

fun validate_roles ::
  "alias_map \<Rightarrow> string list \<Rightarrow> structuredEvidenceRole list \<Rightarrow> topic_error + LivingTopicEvidenceRole list" where
  "validate_roles aliases seen [] = Inr []"
| "validate_roles aliases seen (role # rest) =
     (case map_of aliases (sr_EvidenceAlias role) of
        None \<Rightarrow> Inl InvalidRole
      | Some x \<Rightarrow>
          if x \<in> set seen \<or> \<not> role_kind_ok role then Inl InvalidRole
          else if \<not> role_labels_ok role then Inl InvalidClassification
          else (case validate_roles aliases (x # seen) rest of
                  Inl e \<Rightarrow> Inl e
                | Inr out \<Rightarrow> Inr (store_role x role # out)))"text \<open>The maps from evidence to role and epistemic class; the ids are distinct by then.\<close>

definition role_of :: "LivingTopicEvidenceRole list \<Rightarrow> string \<Rightarrow> string" where
  "role_of roles x = (case map_of (rev (map (\<lambda>r. (lr_MemoryItemID r, lr_Role r)) roles)) x of None \<Rightarrow> '''' | Some r \<Rightarrow> r)"

definition class_of :: "LivingTopicEvidenceRole list \<Rightarrow> string \<Rightarrow> string" where
  "class_of roles x =
     (case map_of (rev (map (\<lambda>r. (lr_MemoryItemID r, lr_EpistemicClass r)) roles)) x of None \<Rightarrow> '''' | Some r \<Rightarrow> r)"

definition reliable :: "LivingTopicEvidenceRole list \<Rightarrow> LivingTopicClaim \<Rightarrow> bool" where
  "reliable roles claim =
     list_ex (\<lambda>x. class_of roles x = ''primary'' \<or> class_of roles x = ''attributed_secondary'') (lc_EvidenceIDs claim)"

definition well_placed :: "LivingTopicEvidenceRole list \<Rightarrow> LivingTopicClaim \<Rightarrow> bool" where
  "well_placed roles claim =
     list_ex (\<lambda>x. role_of roles x = ''core'' \<or> role_of roles x = ''supporting'') (lc_EvidenceIDs claim)"

definition assess :: "LivingTopicEvidenceRole list \<Rightarrow> LivingTopicClaim \<Rightarrow> LivingTopicClaim" where
  "assess roles claim =
     (if lc_Assessment claim = ''supported'' \<and> \<not> reliable roles claim
      then claim \<lparr>lc_Assessment := ''uncertain''\<rparr> else claim)"

definition central_supported :: "LivingTopicClaim \<Rightarrow> bool" where
  "central_supported claim = (lc_Centrality claim = ''central'' \<and> lc_Assessment claim = ''supported'')"

text \<open>The last loop over the claims: it stops with an error at a central supported claim without core or
  supporting evidence.\<close>

fun weigh_claims ::
  "LivingTopicEvidenceRole list \<Rightarrow> LivingTopicClaim list \<Rightarrow> topic_error + LivingTopicClaim list" where
  "weigh_claims roles [] = Inr []"
| "weigh_claims roles (claim # rest) =
     (let claim = assess roles claim in
      if central_supported claim \<and> \<not> well_placed roles claim then Inl OnlyPeripheral
      else (case weigh_claims roles rest of Inl e \<Rightarrow> Inl e | Inr out \<Rightarrow> Inr (claim # out)))"

definition insufficient :: "string \<Rightarrow> LivingTopicSnapshotResult" where
  "insufficient overview = \<lparr>ls_Status = ''insufficient_evidence'', ls_Overview = overview, ls_Claims = [],
     ls_Deltas = [], ls_EvidenceRoles = [], ls_CoverageState = ''''\<rparr>"

definition finish_snapshot ::
  "structuredResult \<Rightarrow> (LivingTopicClaim \<times> bool) list \<Rightarrow> LivingTopicDelta list \<Rightarrow> LivingTopicEvidenceRole list
   \<Rightarrow> topic_error + LivingTopicSnapshotResult" where
  "finish_snapshot value stored deltas roles =
     (case weigh_claims roles (map fst stored) of
        Inl e \<Rightarrow> Inl e
      | Inr claims \<Rightarrow>
          (let lifecycleProofDowngraded = list_ex snd stored;
               result = \<lparr>ls_Status = trim_space (sx_Status value),
                 ls_Overview = (if lifecycleProofDowngraded
                   then ''Current evidence does not establish a terminal lifecycle state.''
                   else trim_space (sx_Overview value)),
                 ls_Claims = claims, ls_Deltas = deltas, ls_EvidenceRoles = roles,
                 ls_CoverageState = sx_CoverageState value\<rparr>
           in if list_ex central_supported claims \<or> lifecycleProofDowngraded then Inr result
              else Inr (insufficient ''Current evidence is not reliable enough to support a central claim.'')))"

definition validateStructuredResultWithEvidence ::
  "structuredResult \<Rightarrow> alias_map \<Rightarrow> alias_map \<Rightarrow> topic_error + LivingTopicSnapshotResult" where
  "validateStructuredResultWithEvidence value aliases retainedByAlias =
     (let status = trim_space (sx_Status value); overview = trim_space (sx_Overview value)
      in if status \<noteq> ''ready'' \<and> status \<noteq> ''insufficient_evidence'' then Inl (UnsupportedStatus status)
         else if overview = '''' \<or> rune_count overview > 1200 then Inl BadOverview
         else if status = ''insufficient_evidence'' then Inr (insufficient overview)
         else if sx_Claims value = [] \<or> length (sx_Claims value) > 8 \<or> length (sx_Deltas value) > 8 then Inl BadCounts
         else if length aliases > 30 then Inl TooManyRoles
         else case validate_claims aliases retainedByAlias [] (sx_Claims value) of
           Inl e \<Rightarrow> Inl e
         | Inr stored \<Rightarrow>
             (case validate_deltas aliases (sx_Deltas value) of
                Inl e \<Rightarrow> Inl e
              | Inr deltas \<Rightarrow>
                  if sx_CoverageState value \<notin> set [''focused'', ''partial'', ''sparse''] then Inl InvalidCoverage
                  else if length (sx_EvidenceRoles value) > 30 \<or> length (sx_EvidenceRoles value) \<noteq> length aliases
                  then Inl RolesIncomplete
                  else (case validate_roles aliases [] (sx_EvidenceRoles value) of
                          Inl e \<Rightarrow> Inl e
                        | Inr roles \<Rightarrow> finish_snapshot value stored deltas roles)))"

definition validateStructuredResult :: "structuredResult \<Rightarrow> alias_map \<Rightarrow> topic_error + LivingTopicSnapshotResult" where
  "validateStructuredResult value aliases = validateStructuredResultWithEvidence value aliases []"

text \<open>\<open>ResolveWithProfile\<close>; \<open>invoke\<close> is the provider call with the decoding of its answer.\<close>

definition ResolveWithProfile ::
  "(evidenceReference list \<Rightarrow> topic_error + structuredResult) \<Rightarrow> MemoryItem list
   \<Rightarrow> topic_error + LivingTopicSnapshotResult" where
  "ResolveWithProfile invoke evidence =
     (if length evidence > 30 then Inl TooMuchEvidence
      else case invoke (evidence_references evidence) of
        Inl e \<Rightarrow> Inl e
      | Inr decoded \<Rightarrow>
          validateStructuredResultWithEvidence decoded (evidence_aliases evidence) (retained_by_alias evidence))"

subsection \<open>Routing\<close>

text \<open>The fields of \<open>domain.LivingTopic\<close> the router reads.\<close>

record LivingTopic =
  lt_ID :: string
  lt_Name :: string
  lt_Description :: string
  lt_Aliases :: "string list"
  lt_IncludeCriteria :: string
  lt_ExcludeCriteria :: string
  lt_RoutingContext :: "MemoryItem list"

record LivingTopicRoutingExample =
  lx_TopicID :: string
  lx_Verdict :: string
  lx_Item :: MemoryItem

record LivingTopicRoutingDecision =
  rd_TopicID :: string
  rd_Match :: bool
  rd_Confidence :: f64
  rd_Mode :: string
  rd_Reason :: string

record routingDecisionWire =
  rw_TopicAlias :: string
  rw_Match :: bool
  rw_Confidence :: f64
  rw_Reason :: string

record routingContextReference =
  xr_Alias :: string
  xr_Source :: Source
  xr_Title :: string
  xr_Summary :: string
  xr_Author :: string
  xr_PublishedAt :: "string option"
  xr_Tags :: "string list"
  xr_Facets :: "string list"

record routingExampleReference =
  xe_Title :: string
  xe_Summary :: string
  xe_Tags :: "string list"
  xe_Facets :: "string list"

record routingTopicReference =
  tr_Alias :: string
  tr_Name :: string
  tr_Description :: string
  tr_Aliases :: "string list"
  tr_Include :: string
  tr_Exclude :: string
  tr_RoutingContext :: "routingContextReference list"
  tr_Positive :: "routingExampleReference list"
  tr_Negative :: "routingExampleReference list"

definition buildRoutingContext :: "MemoryItem list \<Rightarrow> routingContextReference list" where
  "buildRoutingContext items =
     map2 (\<lambda>i item. \<lparr>xr_Alias = ''context_'' @ pad3 (i + 1), xr_Source = mi_Source item,
        xr_Title = bounded (mi_Title item) 300, xr_Summary = bounded (mi_Summary item) 900,
        xr_Author = bounded (mi_Author item) 200, xr_PublishedAt = boundedOptional (mi_PublishedAt item) 80,
        xr_Tags = boundedStrings (mi_Tags item) 12 80, xr_Facets = boundedStrings (mi_Facets item) 12 80\<rparr>)
       [0..<length (take 5 items)] (take 5 items)"

definition example_reference :: "LivingTopicRoutingExample \<Rightarrow> routingExampleReference" where
  "example_reference example = \<lparr>xe_Title = bounded (mi_Title (lx_Item example)) 300,
     xe_Summary = bounded (mi_Summary (lx_Item example)) 600,
     xe_Tags = boundedStrings (mi_Tags (lx_Item example)) 12 80,
     xe_Facets = boundedStrings (mi_Facets (lx_Item example)) 12 80\<rparr>"

definition examples_with :: "string \<Rightarrow> LivingTopic \<Rightarrow> LivingTopicRoutingExample list \<Rightarrow> routingExampleReference list" where
  "examples_with verdict topic examples =
     map example_reference (take 3 (filter (\<lambda>x. lx_TopicID x = lt_ID topic \<and> lx_Verdict x = verdict) examples))"

definition topic_alias :: "nat \<Rightarrow> string" where
  "topic_alias n = ''topic_'' @ pad3 n"

definition topic_aliases :: "LivingTopic list \<Rightarrow> alias_map" where
  "topic_aliases topics = map2 (\<lambda>i topic. (topic_alias (i + 1), lt_ID topic)) [0..<length topics] topics"

definition topic_references :: "LivingTopic list \<Rightarrow> LivingTopicRoutingExample list \<Rightarrow> routingTopicReference list" where
  "topic_references topics examples =
     map2 (\<lambda>i topic. \<lparr>tr_Alias = topic_alias (i + 1), tr_Name = bounded (lt_Name topic) 120,
        tr_Description = bounded (lt_Description topic) 1200, tr_Aliases = boundedStrings (lt_Aliases topic) 12 80,
        tr_Include = bounded (lt_IncludeCriteria topic) 1200, tr_Exclude = bounded (lt_ExcludeCriteria topic) 1200,
        tr_RoutingContext = buildRoutingContext (lt_RoutingContext topic),
        tr_Positive = examples_with ''include'' topic examples,
        tr_Negative = examples_with ''exclude'' topic examples\<rparr>) [0..<length topics] topics"

definition decision_ok :: "routingDecisionWire \<Rightarrow> bool" where
  "decision_ok value =
     (let reason = trim_space (rw_Reason value) in
      0 \<le> rw_Confidence value \<and> rw_Confidence value \<le> 1 \<and> reason \<noteq> '''' \<and> rune_count reason \<le> 240)"

definition store_decision :: "string \<Rightarrow> routingDecisionWire \<Rightarrow> LivingTopicRoutingDecision" where
  "store_decision topicID value = \<lparr>rd_TopicID = topicID, rd_Match = rw_Match value,
     rd_Confidence = rw_Confidence value, rd_Mode = ''llm'', rd_Reason = trim_space (rw_Reason value)\<rparr>"

fun validate_decisions ::
  "alias_map \<Rightarrow> string list \<Rightarrow> routingDecisionWire list \<Rightarrow> topic_error + LivingTopicRoutingDecision list" where
  "validate_decisions aliases seen [] = Inr []"
| "validate_decisions aliases seen (value # rest) =
     (case map_of aliases (rw_TopicAlias value) of
        None \<Rightarrow> Inl InvalidDecision
      | Some topicID \<Rightarrow>
          if topicID \<in> set seen \<or> \<not> decision_ok value then Inl InvalidDecision
          else (case validate_decisions aliases (topicID # seen) rest of
                  Inl e \<Rightarrow> Inl e
                | Inr out \<Rightarrow> Inr (store_decision topicID value # out)))"text \<open>\<open>invoke\<close> is the provider call on the shown topics with the decoding of its answer.\<close>

definition RouteWithProfile ::
  "(routingTopicReference list \<Rightarrow> topic_error + routingDecisionWire list) \<Rightarrow> LivingTopic list
   \<Rightarrow> LivingTopicRoutingExample list \<Rightarrow> topic_error + LivingTopicRoutingDecision list" where
  "RouteWithProfile invoke topics examples =
     (case invoke (topic_references topics examples) of
        Inl e \<Rightarrow> Inl e
      | Inr decoded \<Rightarrow>
          if length decoded \<noteq> length topics then Inl (RoutingCount (length decoded) (length topics))
          else validate_decisions (topic_aliases topics) [] decoded)"

subsection \<open>Facts about the validation loops\<close>

lemma resolveEvidenceAliases_Inr:
  assumes "resolveEvidenceAliases vs aliases = Inr ids"
  shows "ids \<noteq> [] \<and> distinct ids \<and> set ids \<subseteq> snd ` set aliases"
proof -
  have none: "List.find (\<lambda>a. map_of aliases a = None) vs = None" and vs: "vs \<noteq> []"
    and ids: "ids = rev (remdups (rev (map (the \<circ> map_of aliases) vs)))"
    using assms by (auto simp: resolveEvidenceAliases_def split: if_splits option.splits)
  from none have all: "\<forall>a \<in> set vs. \<exists>x. map_of aliases a = Some x" by (auto simp: find_None_iff)
  have "(the \<circ> map_of aliases) a \<in> snd ` set aliases" if "a \<in> set vs" for a
  proof -
    from that all obtain x where x: "map_of aliases a = Some x" by blast
    from map_of_SomeD [OF x] x show ?thesis by force
  qed
  with vs ids show ?thesis by auto
qed

lemma validate_claims_Inr:
  assumes "validate_claims aliases texts seen cs = Inr out"
  shows "length out = length cs \<and> distinct (map (lc_Key \<circ> fst) out) \<and>
    set (map (lc_Key \<circ> fst) out) \<inter> set seen = {}"
    and "p \<in> set out \<Longrightarrow> \<exists>claim ids. claim \<in> set cs \<and> claim_well_formed claim \<and>
      resolveEvidenceAliases (cm_EvidenceAliases claim) aliases = Inr ids \<and> (\<exists>s. claim_scope_ok s claim) \<and>
      p = store_claim aliases texts ids claim"
  using assms
proof (induction cs arbitrary: seen out)
  case Nil
  {
    case 1
    then show ?case by simp
  next
    case 2
    then show ?case by simp
  }
next
  case (Cons c cs)
  have step: "\<exists>ids rest. claim_well_formed c \<and> resolveEvidenceAliases (cm_EvidenceAliases c) aliases = Inr ids \<and>
      claim_scope_ok seen c \<and> validate_claims aliases texts (claim_key c # seen) cs = Inr rest \<and>
      out = store_claim aliases texts ids c # rest"
    if "validate_claims aliases texts seen (c # cs) = Inr out" for seen out
    using that by (auto split: if_splits sum.splits)
  have key: "lc_Key (fst (store_claim aliases texts ids c)) = claim_key c" for ids
    by (simp add: store_claim_def Let_def)
  have fresh: "claim_scope_ok seen c \<Longrightarrow> claim_key c \<notin> set seen" for seen
    by (simp add: claim_scope_ok_def Let_def)
  {
    case 1
    from step [OF 1] obtain ids rest where r: "claim_scope_ok seen c"
      "validate_claims aliases texts (claim_key c # seen) cs = Inr rest" "out = store_claim aliases texts ids c # rest"
      by blast
    from Cons.IH(1) [OF r(2)] r fresh [OF r(1)] show ?case by (auto simp: key)
  next
    case 2
    from step [OF 2(2)] obtain ids rest where r: "claim_well_formed c"
      "resolveEvidenceAliases (cm_EvidenceAliases c) aliases = Inr ids" "claim_scope_ok seen c"
      "validate_claims aliases texts (claim_key c # seen) cs = Inr rest" "out = store_claim aliases texts ids c # rest"
      by blast
    show ?case
    proof (cases "p = store_claim aliases texts ids c")
      case True
      with r show ?thesis by (intro exI [of _ c] exI [of _ ids]) auto
    next
      case False
      with 2(1) r(5) have "p \<in> set rest" by simp
      from Cons.IH(2) [OF this r(4)] obtain claim ids' s where "claim \<in> set cs" "claim_well_formed claim"
        "resolveEvidenceAliases (cm_EvidenceAliases claim) aliases = Inr ids'" "claim_scope_ok s claim"
        "p = store_claim aliases texts ids' claim" by blast
      then show ?thesis by (intro exI [of _ claim] exI [of _ ids']) auto
    qed
  }
qed

lemma weigh_claims_Inr:
  "weigh_claims roles cs = Inr out \<Longrightarrow>
   out = map (assess roles) cs \<and> (\<forall>c \<in> set out. central_supported c \<longrightarrow> well_placed roles c)"
  by (induction cs arbitrary: out) (auto simp: Let_def split: if_splits sum.splits)

lemma assess_sel [simp]:
  "lc_Key (assess roles c) = lc_Key c" "lc_EvidenceIDs (assess roles c) = lc_EvidenceIDs c"
  "lc_EventStatus (assess roles c) = lc_EventStatus c" "lc_LifecycleProof (assess roles c) = lc_LifecycleProof c"
  "lc_LifecycleSubject (assess roles c) = lc_LifecycleSubject c" "lc_Centrality (assess roles c) = lc_Centrality c"
  "lc_Text (assess roles c) = lc_Text c"
  by (simp_all add: assess_def)

lemma assess_supported: "lc_Assessment (assess roles c) = ''supported'' \<Longrightarrow> reliable roles (assess roles c)"
  by (auto simp: assess_def reliable_def split: if_splits)

lemma validate_roles_Inr:
  "validate_roles aliases seen rs = Inr out \<Longrightarrow>
   length out = length rs \<and> distinct (map lr_MemoryItemID out) \<and> set (map lr_MemoryItemID out) \<inter> set seen = {} \<and>
   set (map lr_MemoryItemID out) \<subseteq> snd ` set aliases"
proof (induction rs arbitrary: seen out)
  case Nil
  then show ?case by simp
next
  case (Cons r rs)
  then obtain x rest where x: "map_of aliases (sr_EvidenceAlias r) = Some x" "x \<notin> set seen"
    "validate_roles aliases (x # seen) rs = Inr rest" "out = store_role x r # rest"
    by (auto split: option.splits if_splits sum.splits)
  have ih: "length rest = length rs" "distinct (map lr_MemoryItemID rest)"
    "x \<notin> lr_MemoryItemID ` set rest" "lr_MemoryItemID ` set rest \<inter> set seen = {}"
    "lr_MemoryItemID ` set rest \<subseteq> snd ` set aliases"
    using Cons.IH [OF x(3)] by auto
  have "x \<in> snd ` set aliases" using map_of_SomeD [OF x(1)] by (rule image_eqI [rotated]) simp
  with ih x(2) show ?case unfolding x(4) by (simp add: store_role_def)
qed

lemma validate_decisions_Inr:
  "validate_decisions aliases seen ds = Inr out \<Longrightarrow>
   length out = length ds \<and> distinct (map rd_TopicID out) \<and> set (map rd_TopicID out) \<inter> set seen = {} \<and>
   set (map rd_TopicID out) \<subseteq> snd ` set aliases \<and>
   (\<forall>d \<in> set out. 0 \<le> rd_Confidence d \<and> rd_Confidence d \<le> 1 \<and> rd_Reason d \<noteq> '''' \<and> rune_count (rd_Reason d) \<le> 240)"
proof (induction ds arbitrary: seen out)
  case Nil
  then show ?case by simp
next
  case (Cons d ds)
  then obtain x rest where x: "map_of aliases (rw_TopicAlias d) = Some x" "x \<notin> set seen" "decision_ok d"
    "validate_decisions aliases (x # seen) ds = Inr rest" "out = store_decision x d # rest"
    by (auto split: option.splits if_splits sum.splits)
  have "0 \<le> rd_Confidence (store_decision x d) \<and> rd_Confidence (store_decision x d) \<le> 1 \<and>
      rd_Reason (store_decision x d) \<noteq> '''' \<and> rune_count (rd_Reason (store_decision x d)) \<le> 240"
    using x(3) by (simp add: store_decision_def decision_ok_def Let_def)
  moreover have "rd_TopicID (store_decision x d) = x" by (simp add: store_decision_def)
  moreover have "length rest = length ds" "distinct (map rd_TopicID rest)"
    "x \<notin> rd_TopicID ` set rest" "rd_TopicID ` set rest \<inter> set seen = {}"
    "rd_TopicID ` set rest \<subseteq> snd ` set aliases"
    using Cons.IH [OF x(4)] by auto
  moreover have "x \<in> snd ` set aliases" using map_of_SomeD [OF x(1)] by (rule image_eqI [rotated]) simp
  moreover have "\<forall>d \<in> set rest. 0 \<le> rd_Confidence d \<and> rd_Confidence d \<le> 1 \<and> rd_Reason d \<noteq> '''' \<and>
      rune_count (rd_Reason d) \<le> 240"
    using Cons.IH [OF x(4)] by blast
  ultimately show ?case using x(2) unfolding x(5) by simp
qed

lemma validate_deltas_Inr:
  "validate_deltas aliases ds = Inr out \<Longrightarrow>
   length out = length ds \<and> (\<forall>d \<in> set out. set (ld_EvidenceIDs d) \<subseteq> snd ` set aliases)"
proof (induction ds arbitrary: out)
  case Nil
  then show ?case by simp
next
  case (Cons d ds)
  then obtain ids rest where r: "resolveEvidenceAliases (sd_EvidenceAliases d) aliases = Inr ids"
    "validate_deltas aliases ds = Inr rest" "out = store_delta ids d # rest"
    by (auto split: if_splits sum.splits)
  have "set ids \<subseteq> snd ` set aliases" using resolveEvidenceAliases_Inr [OF r(1)] by blast
  with Cons.IH [OF r(2)] show ?case unfolding r(3) by (simp add: store_delta_def)
qed

text \<open>A ready snapshot passed every stage.\<close>

lemma snapshot_stages:
  assumes "validateStructuredResultWithEvidence value aliases texts = Inr r" "c \<in> set (ls_Claims r)"
  obtains stored deltas roles where "validate_claims aliases texts [] (sx_Claims value) = Inr stored"
    "validate_deltas aliases (sx_Deltas value) = Inr deltas"
    "validate_roles aliases [] (sx_EvidenceRoles value) = Inr roles"
    "length (sx_EvidenceRoles value) = length aliases" "length (sx_Claims value) \<le> 8"
    "weigh_claims roles (map fst stored) = Inr (ls_Claims r)" "ls_EvidenceRoles r = roles" "ls_Deltas r = deltas"
    "list_ex central_supported (ls_Claims r) \<or> list_ex snd stored"
proof -
  have run: "trim_space (sx_Status value) \<noteq> ''insufficient_evidence''"
    using assms by (auto simp: validateStructuredResultWithEvidence_def Let_def insufficient_def split: if_splits)
  obtain stored deltas roles where s: "validate_claims aliases texts [] (sx_Claims value) = Inr stored"
    "validate_deltas aliases (sx_Deltas value) = Inr deltas"
    "validate_roles aliases [] (sx_EvidenceRoles value) = Inr roles"
    "length (sx_EvidenceRoles value) = length aliases" "length (sx_Claims value) \<le> 8"
    "finish_snapshot value stored deltas roles = Inr r"
    using assms(1) run
    by (simp add: validateStructuredResultWithEvidence_def Let_def not_less split: if_splits sum.splits)
  obtain claims where w: "weigh_claims roles (map fst stored) = Inr claims"
    using s(6) by (cases "weigh_claims roles (map fst stored)") (simp_all add: finish_snapshot_def)
  from s(6) w assms(2) have "claims = ls_Claims r" "ls_EvidenceRoles r = roles" "ls_Deltas r = deltas"
    "list_ex central_supported (ls_Claims r) \<or> list_ex snd stored"
    by (auto simp: finish_snapshot_def Let_def insufficient_def split: if_splits)
  with s w show thesis by (intro that) simp_all
qed

lemma snapshot_claim:
  assumes "validateStructuredResultWithEvidence value aliases texts = Inr r" "c \<in> set (ls_Claims r)"
  obtains claim ids where "claim \<in> set (sx_Claims value)" "claim_well_formed claim"
    "resolveEvidenceAliases (cm_EvidenceAliases claim) aliases = Inr ids"
    "c = assess (ls_EvidenceRoles r) (fst (store_claim aliases texts ids claim))"
proof -
  obtain stored deltas roles where s: "validate_claims aliases texts [] (sx_Claims value) = Inr stored"
    "weigh_claims roles (map fst stored) = Inr (ls_Claims r)" "ls_EvidenceRoles r = roles"
    by (rule snapshot_stages [OF assms], blast)
  from weigh_claims_Inr [OF s(2)] assms(2) obtain p where p: "p \<in> set stored" "c = assess roles (fst p)" by auto
  from validate_claims_Inr(2) [OF s(1) p(1)] p(2) s(3) show thesis using that by blast
qed





definition sample_snapshot :: structuredResult where
  "sample_snapshot = \<lparr>sx_Status = ''ready'', sx_Overview = ''o'',
     sx_Claims = [\<lparr>cm_Key = ''K'', cm_LifecycleSubject = ''Reset'', cm_LifecycleEvidenceAlias = ''evidence_001'',
       cm_LifecycleEvidenceQuote = ''Reset done'', cm_MaterialValue = ''m'', cm_Text = ''t'',
       cm_Assessment = ''supported'', cm_Centrality = ''central'', cm_Subtopic = ''s'', cm_TemporalStatus = ''current'',
       cm_EventStatus = ''completed'', cm_EvidenceAliases = [''evidence_001'']\<rparr>],
     sx_Deltas = [],
     sx_EvidenceRoles = [\<lparr>sr_EvidenceAlias = ''evidence_001'', sr_Role = ''core'', sr_Subtopic = ''s'',
       sr_SourceCluster = ''c'', sr_EpistemicClass = ''primary''\<rparr>],
     sx_CoverageState = ''focused''\<rparr>"

text \<open>The snapshot is accepted with its terminal claim when the retained text has the quote.\<close>

lemma sample_snapshot_runs:
  "map_sum id (\<lambda>r. map (\<lambda>c. (lc_EventStatus c, lc_Assessment c)) (ls_Claims r))
     (validateStructuredResultWithEvidence sample_snapshot [(''evidence_001'', ''m1'')] [(''evidence_001'', ''Reset done.'')])
   = Inr [(''completed'', ''supported'')]"
  by code_simp

lemma sample_snapshot_claim:
  obtains r c where "validateStructuredResultWithEvidence sample_snapshot [(''evidence_001'', ''m1'')]
      [(''evidence_001'', ''Reset done.'')] = Inr r" "c \<in> set (ls_Claims r)" "lc_EventStatus c = ''completed''"
    "lc_Assessment c = ''supported''"
proof -
  obtain r where r: "validateStructuredResultWithEvidence sample_snapshot [(''evidence_001'', ''m1'')]
      [(''evidence_001'', ''Reset done.'')] = Inr r"
    "map (\<lambda>c. (lc_EventStatus c, lc_Assessment c)) (ls_Claims r) = [(''completed'', ''supported'')]"
    using sample_snapshot_runs
    by (cases "validateStructuredResultWithEvidence sample_snapshot [(''evidence_001'', ''m1'')]
      [(''evidence_001'', ''Reset done.'')]") simp_all
  from r(2) obtain c where "ls_Claims r = [c]" "lc_EventStatus c = ''completed''" "lc_Assessment c = ''supported''"
    by (cases "ls_Claims r") auto
  moreover from this(1) have "c \<in> set (ls_Claims r)" by simp
  ultimately show thesis using r(1) that by blast
qed


text \<open>A stored claim is called supported only if it cites evidence classified as primary or as an
  attributed secondary source, and a central one only if it also cites core or supporting evidence;
  a snapshot without any supported central claim is stored only when a lifecycle status was downgraded.\<close>

theorem supported_claims_are_reliable:
  assumes "validateStructuredResultWithEvidence value aliases texts = Inr r"
    and "c \<in> set (ls_Claims r)" "lc_Assessment c = ''supported''"
  shows "(\<exists>x \<in> set (lc_EvidenceIDs c). class_of (ls_EvidenceRoles r) x \<in> {''primary'', ''attributed_secondary''}) \<and>
    (lc_Centrality c = ''central'' \<longrightarrow>
       (\<exists>x \<in> set (lc_EvidenceIDs c). role_of (ls_EvidenceRoles r) x \<in> {''core'', ''supporting''}))"
proof -
  obtain stored :: "(LivingTopicClaim \<times> bool) list" and roles where
    s: "weigh_claims roles (map fst stored) = Inr (ls_Claims r)" "ls_EvidenceRoles r = roles"
    by (rule snapshot_stages [OF assms(1,2)], blast)
  from weigh_claims_Inr [OF s(1)] assms(2) have central: "central_supported c \<longrightarrow> well_placed roles c"
    and "c \<in> set (map (assess roles) (map fst stored))" by simp_all
  then obtain p where p: "c = assess roles p" by auto
  from assms(3) p have "reliable roles c" using assess_supported by simp
  moreover have "lc_Centrality c = ''central'' \<longrightarrow> well_placed roles c"
    using central assms(3) by (simp add: central_supported_def)
  ultimately show ?thesis by (auto simp: s(2) reliable_def well_placed_def list_ex_iff)
qed

theorem supported_claims_are_reliable_witness:
  "\<exists>r c. validateStructuredResultWithEvidence sample_snapshot [(''evidence_001'', ''m1'')]
      [(''evidence_001'', ''Reset done.'')] = Inr r \<and> c \<in> set (ls_Claims r) \<and> lc_Assessment c = ''supported'' \<and>
     (\<exists>x \<in> set (lc_EvidenceIDs c). class_of (ls_EvidenceRoles r) x \<in> {''primary'', ''attributed_secondary''})"
proof (rule sample_snapshot_claim)
  fix r c
  assume run: "validateStructuredResultWithEvidence sample_snapshot [(''evidence_001'', ''m1'')]
      [(''evidence_001'', ''Reset done.'')] = Inr r" and c: "c \<in> set (ls_Claims r)" "lc_Assessment c = ''supported''"
  from supported_claims_are_reliable [OF run c] run c show ?thesis by blast
qed

text \<open>A snapshot cites only the evidence it was given: every id in a claim, a delta or a role stands for
  an alias that was shown; each claim cites at least one item, claims have distinct keys and number at
  most eight, and every item of the evidence has exactly one role.\<close>

lemma snapshot_cites_given_evidence:
  assumes "validateStructuredResultWithEvidence value aliases texts = Inr r" "c \<in> set (ls_Claims r)"
  shows "lc_EvidenceIDs c \<noteq> []" "set (lc_EvidenceIDs c) \<subseteq> snd ` set aliases"
    "distinct (map lc_Key (ls_Claims r))" "length (ls_Claims r) \<le> 8"
    "length (ls_EvidenceRoles r) = length aliases" "distinct (map lr_MemoryItemID (ls_EvidenceRoles r))"
proof -
  obtain claim ids where c: "resolveEvidenceAliases (cm_EvidenceAliases claim) aliases = Inr ids"
    "c = assess (ls_EvidenceRoles r) (fst (store_claim aliases texts ids claim))"
    by (rule snapshot_claim [OF assms], blast)
  have "lc_EvidenceIDs c = ids" by (simp add: c(2) store_claim_def Let_def)
  with resolveEvidenceAliases_Inr [OF c(1)]
  show "lc_EvidenceIDs c \<noteq> []" "set (lc_EvidenceIDs c) \<subseteq> snd ` set aliases" by simp_all
  obtain stored roles where s: "validate_claims aliases texts [] (sx_Claims value) = Inr stored"
    "validate_roles aliases [] (sx_EvidenceRoles value) = Inr roles" "length (sx_EvidenceRoles value) = length aliases"
    "length (sx_Claims value) \<le> 8" "weigh_claims roles (map fst stored) = Inr (ls_Claims r)" "ls_EvidenceRoles r = roles"
    by (rule snapshot_stages [OF assms], blast)
  have cs: "ls_Claims r = map (assess roles) (map fst stored)" using weigh_claims_Inr [OF s(5)] by blast
  have "map lc_Key (ls_Claims r) = map (lc_Key \<circ> fst) stored" unfolding cs by simp
  with validate_claims_Inr(1) [OF s(1)] show "distinct (map lc_Key (ls_Claims r))" by simp
  from validate_claims_Inr(1) [OF s(1)] s(4) show "length (ls_Claims r) \<le> 8" unfolding cs by simp
  from validate_roles_Inr [OF s(2)] s(3,6) show "length (ls_EvidenceRoles r) = length aliases"
    "distinct (map lr_MemoryItemID (ls_EvidenceRoles r))" by simp_all
qed

lemma topic_aliases_ids: "snd ` set (topic_aliases topics) = lt_ID ` set topics"
proof -
  have "map snd (topic_aliases topics) = map lt_ID topics"
    unfolding topic_aliases_def by (rule nth_equalityI) simp_all
  then show ?thesis by (metis list.set_map)
qed

text \<open>Routing decides every topic exactly once: when it succeeds over topics with distinct ids, the
  decided topics are exactly the given ones, each once, with a confidence in the unit interval and a
  reason of 1 to 240 characters; any missing, repeated or unknown alias is an error.\<close>

theorem routing_decides_every_topic:
  assumes "RouteWithProfile invoke topics examples = Inr out" "distinct (map lt_ID topics)"
  shows "distinct (map rd_TopicID out) \<and> rd_TopicID ` set out = lt_ID ` set topics \<and> length out = length topics \<and>
    list_all (\<lambda>d. 0 \<le> rd_Confidence d \<and> rd_Confidence d \<le> 1 \<and> rd_Reason d \<noteq> '''' \<and> rune_count (rd_Reason d) \<le> 240) out"
proof -
  obtain decoded where d: "length decoded = length topics" "validate_decisions (topic_aliases topics) [] decoded = Inr out"
    using assms(1) by (auto simp: RouteWithProfile_def split: sum.splits if_splits)
  note v = validate_decisions_Inr [OF d(2)]
  have sub: "rd_TopicID ` set out \<subseteq> lt_ID ` set topics" using v topic_aliases_ids [of topics] by simp
  have "card (rd_TopicID ` set out) = length out"
    using v distinct_card [of "map rd_TopicID out"] by simp
  moreover have "card (lt_ID ` set topics) = length topics"
    using assms(2) distinct_card [of "map lt_ID topics"] by simp
  ultimately have "rd_TopicID ` set out = lt_ID ` set topics"
    using sub v d(1) by (intro card_subset_eq) simp_all
  with v d(1) show ?thesis by (simp add: list_all_iff)
qed

definition sample_topic :: "string \<Rightarrow> LivingTopic" where
  "sample_topic x = \<lparr>lt_ID = x, lt_Name = x, lt_Description = '''', lt_Aliases = [], lt_IncludeCriteria = '''',
     lt_ExcludeCriteria = '''', lt_RoutingContext = []\<rparr>"

theorem routing_decides_every_topic_witness:
  "\<exists>out. RouteWithProfile (\<lambda>_. Inr [\<lparr>rw_TopicAlias = ''topic_002'', rw_Match = True, rw_Confidence = 1 / 2, rw_Reason = ''same''\<rparr>,
       \<lparr>rw_TopicAlias = ''topic_001'', rw_Match = False, rw_Confidence = 1, rw_Reason = ''other''\<rparr>])
     [sample_topic ''a'', sample_topic ''b''] [] = Inr out \<and> rd_TopicID ` set out = {''a'', ''b''}"
proof -
  let ?run = "RouteWithProfile (\<lambda>_. Inr [\<lparr>rw_TopicAlias = ''topic_002'', rw_Match = True, rw_Confidence = 1 / 2, rw_Reason = ''same''\<rparr>,
       \<lparr>rw_TopicAlias = ''topic_001'', rw_Match = False, rw_Confidence = 1, rw_Reason = ''other''\<rparr>])
     [sample_topic ''a'', sample_topic ''b''] []"
  have "\<not> isl ?run" by code_simp
  then obtain out where out: "?run = Inr out" by (cases ?run) auto
  have "distinct (map lt_ID [sample_topic ''a'', sample_topic ''b''])" by (simp add: sample_topic_def)
  from routing_decides_every_topic [OF out this] out show ?thesis by (auto simp: sample_topic_def)
qed

end
