(* ===== verification/Source_URL.thy ===== *)
theory Source_URL
  imports Sources
begin

text \<open>
  \<open>src/internal/domain/source_url.go\<close>: which URLs are native post permalinks of a source, their
  canonical form, and the platform identity that such a URL proves. The package \<open>net/url\<close> is a
  parameter, the record \<open>url_lib\<close>: \<open>url.Parse\<close>, \<open>URL.String\<close>, the decoded query values by name, and
  the encoding of the one query value \<open>v\<close>. The regular expressions are written out as the
  deterministic scanners they denote; case folding and digits are those of ASCII.
\<close>

record url_lib =
  ul_parse :: "string \<Rightarrow> URL option"
  ul_string :: "URL \<Rightarrow> string"
  ul_query :: "URL \<Rightarrow> string \<Rightarrow> string list"
  ul_encode_v :: "string list \<Rightarrow> string"

subsection \<open>Scanners\<close>

text \<open>\<open>strings.Trim(s, "/")\<close> and \<open>strings.Split(s, "/")\<close>.\<close>

definition trim_slashes :: "string \<Rightarrow> string" where
  "trim_slashes s = rev (dropWhile (\<lambda>c. c = CHR ''/'') (rev (dropWhile (\<lambda>c. c = CHR ''/'') s)))"

fun split_slash :: "string \<Rightarrow> string list" where
  "split_slash [] = [[]]"
| "split_slash (c # s) =
     (if c = CHR ''/'' then [] # split_slash s
      else (case split_slash s of [] \<Rightarrow> [[c]] | w # ws \<Rightarrow> (c # w) # ws))"

definition not_slash :: "char \<Rightarrow> bool" where
  "not_slash c \<longleftrightarrow> c \<noteq> CHR ''/''"

text \<open>\<open>xNativeStatusPathPattern\<close>, \<open>^/([^/]+)/status/(\d+)(?:/.*)?$\<close>: the two groups. A dot does not
  match a line feed.\<close>

definition xNativeStatusPath :: "string \<Rightarrow> (string \<times> string) option" where
  "xNativeStatusPath path =
     (if \<not> has_prefix ''/'' path then None
      else
        let user = takeWhile not_slash (tl path);
            rest = dropWhile not_slash (tl path);
            number = takeWhile is_digit (drop 8 rest);
            tail = dropWhile is_digit (drop 8 rest)
        in if user = [] \<or> \<not> has_prefix ''/status/'' rest \<or> number = [] then None
           else if tail = [] \<or> hd tail = CHR ''/'' \<and> CHR 0x0A \<notin> set tail then Some (user, number)
           else None)"

text \<open>\<open>facebookVideoIDPattern\<close>, \<open>^\d{1,32}$\<close>, and \<open>directStatusIDPattern\<close>, \<open>^\d{5,30}$\<close>.\<close>

definition digits_between :: "nat \<Rightarrow> nat \<Rightarrow> string \<Rightarrow> bool" where
  "digits_between lo hi s \<longleftrightarrow> lo \<le> length s \<and> length s \<le> hi \<and> list_all is_digit s"

definition facebookVideoID :: "string \<Rightarrow> bool" where
  "facebookVideoID = digits_between 1 32"

definition is_shortcode_char :: "char \<Rightarrow> bool" where
  "is_shortcode_char c =
     (let n = of_char c :: nat
      in 97 \<le> n \<and> n \<le> 122 \<or> 65 \<le> n \<and> n \<le> 90 \<or> 48 \<le> n \<and> n \<le> 57 \<or> c = CHR ''_'' \<or> c = CHR ''-'')"

definition instagramNativePostPath :: "string \<Rightarrow> bool" where
  "instagramNativePostPath path =
     (case split_slash (trim_slashes path) of
        [kind, code] \<Rightarrow> kind \<in> {''p'', ''reel'', ''tv''} \<and> code \<noteq> [] \<and> list_all is_shortcode_char code
      | _ \<Rightarrow> False)"

definition facebookNumericReelPath :: "string \<Rightarrow> bool" where
  "facebookNumericReelPath path =
     (let number = trim_slashes (trim_prefix ''/reel/'' path)
      in number \<noteq> [] \<and> CHR ''/'' \<notin> set number \<and> list_all is_digit number)"

text \<open>\<open>url.Values.Get\<close>: the first value of a name, the empty string without one.\<close>

definition query_get :: "(string \<Rightarrow> string list) \<Rightarrow> string \<Rightarrow> string" where
  "query_get query key = (case query key of [] \<Rightarrow> [] | x # _ \<Rightarrow> x)"

definition facebookNativePostPath :: "string \<Rightarrow> (string \<Rightarrow> string list) \<Rightarrow> bool" where
  "facebookNativePostPath path0 query =
     (let path = to_lower path0
      in contains_sub ''/posts/'' path \<or> contains_sub ''/permalink/'' path \<or>
         contains_sub ''/story.php'' path \<and> query_get query ''story_fbid'' \<noteq> [] \<or>
         contains_sub ''/photo'' path \<and> (query_get query ''fbid'' \<noteq> [] \<or> query_get query ''photo_id'' \<noteq> []) \<or>
         contains_sub ''/videos/'' path \<or> facebookNumericReelPath path)"

subsection \<open>Canonical permalinks\<close>

text \<open>The switch of \<open>CanonicalSourceURL\<close> on the source: the parsed URL after its updates, or
  \<^term>\<open>None\<close> when \<open>valid\<close> stays false.\<close>

definition canonical_x :: "string \<Rightarrow> URL \<Rightarrow> URL option" where
  "canonical_x host u =
     (if host = ''x.com'' then
        (case xNativeStatusPath (ur_Path u) of
           None \<Rightarrow> None
         | Some (user, number) \<Rightarrow>
             Some (u\<lparr>ur_Path := ''/'' @ user @ ''/status/'' @ number, ur_RawPath := [], ur_RawQuery := [],
                     ur_Fragment := []\<rparr>))
      else None)"

definition canonical_facebook :: "url_lib \<Rightarrow> string \<Rightarrow> URL \<Rightarrow> URL option" where
  "canonical_facebook L host u =
     (if host \<in> {''www.facebook.com'', ''facebook.com'', ''m.facebook.com''} then
        (if to_lower (ur_Path u) \<in> {''/watch/'', ''/video.php''} then
           (let vs = ul_query L u ''v''
            in case vs of
                 [v] \<Rightarrow>
                   if facebookVideoID v then
                     Some (u\<lparr>ur_Host := ''www.facebook.com'', ur_Hostname := ''www.facebook.com'',
                             ur_Path := ''/watch/'', ur_RawPath := [], ur_RawQuery := ul_encode_v L vs,
                             ur_Fragment := []\<rparr>)
                   else None
               | _ \<Rightarrow> None)
         else if facebookNativePostPath (ur_Path u) (ul_query L u) then Some u else None)
      else None)"

definition canonical_url :: "url_lib \<Rightarrow> Source \<Rightarrow> URL \<Rightarrow> URL option" where
  "canonical_url L source u =
     (let host = to_lower (ur_Hostname u)
      in if source = SourceX then canonical_x host u
         else if source = SourceLinkedIn then
           (if host = ''www.linkedin.com'' \<and>
               (contains_sub ''/posts/'' (ur_Path u) \<or> contains_sub ''/feed/update/'' (ur_Path u))
            then Some u else None)
         else if source = SourceFacebook then canonical_facebook L host u
         else if source = SourceInstagram then
           (if host \<in> {''www.instagram.com'', ''instagram.com''} \<and> instagramNativePostPath (ur_Path u)
            then Some u else None)
         else None)"

definition CanonicalSourceURL :: "url_lib \<Rightarrow> Source \<Rightarrow> string \<Rightarrow> string option" where
  "CanonicalSourceURL L source raw =
     (case ul_parse L (trim_space raw) of
        None \<Rightarrow> None
      | Some u \<Rightarrow>
          if ur_Scheme u \<noteq> ''https'' \<or> ur_HasUser u \<or> ur_Port u \<noteq> [] then None
          else map_option (ul_string L) (canonical_url L source u))"

subsection \<open>Native identities\<close>

text \<open>\<open>linkedInNativeIdentityPattern\<close>, \<open>(?i)(activity|ugcpost|share)(?::|-)(\d+)\<close>: the leftmost match
  and its two groups.\<close>

definition keyword_at :: "string list \<Rightarrow> string \<Rightarrow> string option" where
  "keyword_at keywords s = List.find (\<lambda>k. has_prefix k (to_lower s)) keywords"

definition linkedIn_here :: "string \<Rightarrow> (string \<times> string) option" where
  "linkedIn_here s =
     (case keyword_at [''activity'', ''ugcpost'', ''share''] s of
        None \<Rightarrow> None
      | Some k \<Rightarrow>
          let rest = drop (length k) s; number = takeWhile is_digit (tl rest)
          in if rest \<noteq> [] \<and> hd rest \<in> {CHR '':'', CHR ''-''} \<and> number \<noteq> []
             then Some (take (length k) s, number) else None)"

fun first_match :: "(string \<Rightarrow> 'a option) \<Rightarrow> string \<Rightarrow> 'a option" where
  "first_match here [] = here []"
| "first_match here (c # s) = (case here (c # s) of Some m \<Rightarrow> Some m | None \<Rightarrow> first_match here s)"

text \<open>\<open>instagramNativeIdentityPattern\<close>, \<open>(?i)/(p|reel|tv)/([a-z0-9_-]+)\<close>, unanchored, and
  \<open>instagramNormalizedIdentityPattern\<close>, \<open>(?i)^instagram:(p|reel|tv):([a-z0-9_-]+)$\<close>.\<close>

definition instagram_here :: "string \<Rightarrow> (string \<times> string) option" where
  "instagram_here s =
     (case keyword_at [''/p/'', ''/reel/'', ''/tv/''] s of
        None \<Rightarrow> None
      | Some k \<Rightarrow>
          let code = takeWhile is_shortcode_char (drop (length k) s)
          in if code \<noteq> [] then Some (take (length k - 2) (tl s), code) else None)"

definition instagram_normalized :: "string \<Rightarrow> (string \<times> string) option" where
  "instagram_normalized s =
     (case keyword_at [''instagram:p:'', ''instagram:reel:'', ''instagram:tv:''] s of
        None \<Rightarrow> None
      | Some k \<Rightarrow>
          let code = drop (length k) s
          in if code \<noteq> [] \<and> list_all is_shortcode_char code
             then Some (take (length k - 11) (drop 10 s), code) else None)"

definition NormalizeNativeIdentity :: "Source \<Rightarrow> string \<Rightarrow> string" where
  "NormalizeNativeIdentity source raw =
     (let trimmed = trim_space raw; value = to_lower trimmed
      in if trimmed = [] then []
         else
           case (if source = SourceLinkedIn then first_match linkedIn_here value else None) of
             Some (kind, number) \<Rightarrow> ''linkedin:'' @ to_lower kind @ '':'' @ number
           | None \<Rightarrow>
               if source = SourceInstagram then
                 (case first_match instagram_here trimmed of
                    Some (kind, code) \<Rightarrow> ''instagram:'' @ to_lower kind @ '':'' @ code
                  | None \<Rightarrow>
                      (case instagram_normalized trimmed of
                         Some (kind, code) \<Rightarrow> ''instagram:'' @ to_lower kind @ '':'' @ code
                       | None \<Rightarrow> value))
               else value)"

definition NativeIdentityFromPermalink :: "url_lib \<Rightarrow> Source \<Rightarrow> string \<Rightarrow> string" where
  "NativeIdentityFromPermalink L source raw =
     (case CanonicalSourceURL L source raw of
        None \<Rightarrow> []
      | Some canonical \<Rightarrow>
          if source \<in> {SourceLinkedIn, SourceInstagram} then NormalizeNativeIdentity source canonical else [])"

subsection \<open>Facts on the scanners\<close>

lemma dropWhile_all_false: "list_all (\<lambda>c. \<not> P c) s \<Longrightarrow> dropWhile P s = s"
  by (cases s) auto

lemma trim_space_id: "list_all (\<lambda>c. \<not> is_space c) s \<Longrightarrow> trim_space s = s"
  by (simp add: trim_space_def trim_left_def dropWhile_all_false list.pred_set)

lemma trim_space_to_lower: "trim_space (to_lower s) = to_lower (trim_space s)"
proof -
  have "dropWhile is_space (to_lower t) = to_lower (dropWhile is_space t)" for t
    by (induction t) simp_all
  then show ?thesis by (simp add: trim_space_def trim_left_def)
qed

lemma digit_not_space: "is_digit c \<Longrightarrow> \<not> is_space c"
  by (auto simp: is_digit_def is_space_def Let_def)

lemma shortcode_not_space: "is_shortcode_char c \<Longrightarrow> \<not> is_space c"
  by (auto simp: is_shortcode_char_def is_space_def Let_def)

lemma digit_lower [simp]: "is_digit c \<Longrightarrow> lower_char c = c"
  by (auto simp: is_digit_def lower_char_def Let_def)

lemma digits_lower: "list_all is_digit s \<Longrightarrow> to_lower s = s"
  by (induction s) simp_all

lemma char_eq_code: "c = d \<longleftrightarrow> (of_char c :: nat) = of_char d"
  by simp

lemma lower_char_code:
  "(of_char (lower_char c) :: nat) = (let n = of_char c in if 65 \<le> n \<and> n \<le> 90 then n + 32 else n)"
  by (auto simp: lower_char_def Let_def)

lemma lower_char_slash [simp]: "lower_char c = CHR ''/'' \<longleftrightarrow> c = CHR ''/''"
  by (subst (1 2) char_eq_code) (auto simp: lower_char_code Let_def simp del: of_char_eq_iff)

lemma shortcode_lower_char [simp]: "is_shortcode_char (lower_char c) = is_shortcode_char c"
  unfolding is_shortcode_char_def
  by (subst (1 2 3 4) char_eq_code) (auto simp: lower_char_code Let_def simp del: of_char_eq_iff)

lemma takeWhile_shortcode_lower:
  "takeWhile is_shortcode_char (to_lower s) = to_lower (takeWhile is_shortcode_char s)"
  by (induction s) simp_all

lemma drop_to_lower: "drop n (to_lower s) = to_lower (drop n s)"
  by (simp add: to_lower_def drop_map)

lemma keyword_at_to_lower [simp]: "keyword_at ks (to_lower s) = keyword_at ks s"
  by (simp add: keyword_at_def)

lemma keyword_at_Some: "keyword_at ks s = Some k \<Longrightarrow> k \<in> set ks \<and> has_prefix k (to_lower s)"
  by (auto simp: keyword_at_def find_Some_iff)

lemma instagram_here_to_lower: "instagram_here (to_lower s) = None \<longleftrightarrow> instagram_here s = None"
  by (auto simp: instagram_here_def drop_to_lower takeWhile_shortcode_lower Let_def split: option.splits if_splits)

lemma first_match_instagram_to_lower:
  "first_match instagram_here (to_lower s) = None \<longleftrightarrow> first_match instagram_here s = None"
proof (induction s)
  case Nil
  show ?case by simp
next
  case (Cons c s)
  with instagram_here_to_lower [of "c # s"] show ?case by (auto split: option.splits)
qed

lemma list_all_shortcode_lower [simp]: "list_all is_shortcode_char (to_lower s) = list_all is_shortcode_char s"
  by (induction s) simp_all

lemma instagram_normalized_to_lower: "instagram_normalized (to_lower s) = None \<longleftrightarrow> instagram_normalized s = None"
  by (auto simp: instagram_normalized_def drop_to_lower Let_def split: option.splits if_splits)

lemma first_match_Some: "first_match here s = Some m \<Longrightarrow> \<exists>t. here t = Some m"
  by (induction s) (auto split: option.splits)

text \<open>The two groups of a match: the kind, up to case, and a nonempty identifier.\<close>

lemma take_prefix: "has_prefix k (to_lower s) \<Longrightarrow> to_lower (take (length k) s) = k"
  by (simp add: has_prefix_def to_lower_def take_map)

lemma take_inner_prefix:
  assumes "has_prefix k (to_lower s)"
  shows "to_lower (take (length k - m - n) (drop m s)) = take (length k - m - n) (drop m k)"
proof -
  have k: "take (length k) (to_lower s) = k" using assms by (simp add: has_prefix_def)
  have "to_lower (take (length k - m - n) (drop m s)) = take (length k - m - n) (drop m (to_lower s))"
    by (simp add: to_lower_def take_map drop_map)
  also have "\<dots> = take (length k - m - n) (drop m (take (length k) (to_lower s)))"
    by (simp add: drop_take min_def)
  finally show ?thesis using k by simp
qed

lemma linkedIn_here_Some:
  assumes "linkedIn_here s = Some (kind, number)"
  shows "to_lower kind \<in> {''activity'', ''ugcpost'', ''share''} \<and> number \<noteq> [] \<and> list_all is_digit number"
proof -
  from assms obtain k where k: "keyword_at [''activity'', ''ugcpost'', ''share''] s = Some k"
    and m: "kind = take (length k) s" "number = takeWhile is_digit (tl (drop (length k) s))" "number \<noteq> []"
    by (auto simp: linkedIn_here_def Let_def split: option.splits if_splits)
  from keyword_at_Some [OF k] have "k \<in> {''activity'', ''ugcpost'', ''share''}" "to_lower kind = k"
    by (simp_all add: m(1) take_prefix)
  moreover have "list_all is_digit number" using m(2) by (auto simp: list_all_iff dest: set_takeWhileD)
  ultimately show ?thesis using m(3) by simp
qed

lemma instagram_here_Some:
  assumes "instagram_here s = Some (kind, code)"
  shows "to_lower kind \<in> {''p'', ''reel'', ''tv''} \<and> code \<noteq> [] \<and> list_all is_shortcode_char code"
proof -
  from assms obtain k where k: "keyword_at [''/p/'', ''/reel/'', ''/tv/''] s = Some k"
    and m: "kind = take (length k - 2) (tl s)" "code = takeWhile is_shortcode_char (drop (length k) s)" "code \<noteq> []"
    by (auto simp: instagram_here_def Let_def split: option.splits if_splits)
  from keyword_at_Some [OF k] have k': "k \<in> {''/p/'', ''/reel/'', ''/tv/''}" "has_prefix k (to_lower s)" by simp_all
  have "to_lower kind = take (length k - 1 - 1) (drop 1 k)"
    using take_inner_prefix [OF k'(2), of 1 1] by (simp add: m(1) drop_Suc numeral_2_eq_2)
  with k'(1) have "to_lower kind \<in> {''p'', ''reel'', ''tv''}" by auto
  moreover have "list_all is_shortcode_char code" using m(2) by (auto simp: list_all_iff dest: set_takeWhileD)
  ultimately show ?thesis using m(3) by simp
qed

lemma instagram_normalized_Some:
  assumes "instagram_normalized s = Some (kind, code)"
  shows "to_lower kind \<in> {''p'', ''reel'', ''tv''} \<and> code \<noteq> [] \<and> list_all is_shortcode_char code"
proof -
  from assms obtain k where k: "keyword_at [''instagram:p:'', ''instagram:reel:'', ''instagram:tv:''] s = Some k"
    and m: "kind = take (length k - 11) (drop 10 s)" "code \<noteq> []" "list_all is_shortcode_char code"
    by (auto simp: instagram_normalized_def Let_def split: option.splits if_splits)
  from keyword_at_Some [OF k] have k': "k \<in> {''instagram:p:'', ''instagram:reel:'', ''instagram:tv:''}"
    "has_prefix k (to_lower s)" by simp_all
  have "to_lower kind = take (length k - 10 - 1) (drop 10 k)"
    using take_inner_prefix [OF k'(2), of 10 1] by (simp add: m(1))
  with k'(1) have "to_lower kind \<in> {''p'', ''reel'', ''tv''}" by auto
  with m show ?thesis by simp
qed

lemma first_match_instagram_free: "CHR ''/'' \<notin> set s \<Longrightarrow> first_match instagram_here s = None"
proof (induction s)
  case Nil
  show ?case by (simp add: instagram_here_def keyword_at_def has_prefix_def)
next
  case (Cons c s)
  have "lower_char c \<noteq> CHR ''/''" using Cons.prems by auto
  then have "instagram_here (c # s) = None"
    by (simp add: instagram_here_def keyword_at_def has_prefix_def)
  with Cons show ?case by simp
qed

text \<open>A normal form is read back as the same match.\<close>

lemma linkedIn_normal_form:
  assumes "k \<in> {''activity'', ''ugcpost'', ''share''}" "number \<noteq> []" "list_all is_digit number"
  shows "first_match linkedIn_here (''linkedin:'' @ k @ '':'' @ number) = Some (k, number)"
proof -
  have n: "takeWhile is_digit number = number" using assms(3) by (simp add: list_all_iff)
  consider "k = ''activity''" | "k = ''ugcpost''" | "k = ''share''" using assms(1) by blast
  then show ?thesis
    by cases (simp_all add: linkedIn_here_def keyword_at_def has_prefix_def lower_char_def Let_def n assms(2))
qed

lemma instagram_normal_form:
  assumes "k \<in> {''p'', ''reel'', ''tv''}" "code \<noteq> []" "list_all is_shortcode_char code"
  shows "instagram_normalized (''instagram:'' @ k @ '':'' @ code) = Some (k, code)"
proof -
  consider "k = ''p''" | "k = ''reel''" | "k = ''tv''" using assms(1) by blast
  then show ?thesis
    by cases (simp_all add: instagram_normalized_def keyword_at_def has_prefix_def lower_char_def Let_def assms(2,3))
qed

lemma kind_nonspace:
  "k \<in> {''activity'', ''ugcpost'', ''share''} \<union> {''p'', ''reel'', ''tv''} \<Longrightarrow>
   list_all (\<lambda>c. \<not> is_space c) k \<and> CHR ''/'' \<notin> set k"
  by (auto simp: is_space_def)

lemma instagram_form_fixed:
  assumes "k \<in> {''p'', ''reel'', ''tv''}" "code \<noteq> []" "list_all is_shortcode_char code"
  shows "NormalizeNativeIdentity SourceInstagram (''instagram:'' @ k @ '':'' @ code) = ''instagram:'' @ k @ '':'' @ code"
proof -
  let ?r = "''instagram:'' @ k @ '':'' @ code"
  have code: "list_all (\<lambda>c. \<not> is_space c) code" "CHR ''/'' \<notin> set code"
    using assms(3) by (auto simp: list_all_iff shortcode_not_space) (auto simp: is_shortcode_char_def)
  have "trim_space ?r = ?r"
    using kind_nonspace [of k] assms(1) code by (intro trim_space_id) (auto simp: is_space_def)
  moreover have "first_match instagram_here ?r = None"
    using kind_nonspace [of k] assms(1) code by (intro first_match_instagram_free) auto
  moreover have "to_lower k = k" using assms(1) by (auto simp: lower_char_def)
  ultimately show ?thesis
    using instagram_normal_form [OF assms] by (simp add: NormalizeNativeIdentity_def Let_def)
qed

lemma linkedIn_form_fixed:
  assumes "k \<in> {''activity'', ''ugcpost'', ''share''}" "number \<noteq> []" "list_all is_digit number"
  shows "NormalizeNativeIdentity SourceLinkedIn (''linkedin:'' @ k @ '':'' @ number) = ''linkedin:'' @ k @ '':'' @ number"
proof -
  let ?r = "''linkedin:'' @ k @ '':'' @ number"
  have n: "list_all (\<lambda>c. \<not> is_space c) number"
    using assms(3) by (auto simp: list_all_iff digit_not_space)
  have "trim_space ?r = ?r"
    using kind_nonspace [of k] assms(1) n by (intro trim_space_id) (auto simp: is_space_def)
  moreover have k: "to_lower k = k" using assms(1) by (auto simp: lower_char_def)
  then have "to_lower ?r = ?r"
    using digits_lower [OF assms(3)] by (simp add: to_lower_append lower_char_def)
  ultimately show ?thesis
    using linkedIn_normal_form [OF assms] k by (simp add: NormalizeNativeIdentity_def Let_def)
qed

lemma normalize_cases:
  assumes "NormalizeNativeIdentity source raw = r"
  obtains "trim_space raw = []" "r = []"
  | k number where "source = SourceLinkedIn" "k \<in> {''activity'', ''ugcpost'', ''share''}" "number \<noteq> []"
      "list_all is_digit number" "r = ''linkedin:'' @ k @ '':'' @ number"
  | k code where "source = SourceInstagram" "k \<in> {''p'', ''reel'', ''tv''}" "code \<noteq> []"
      "list_all is_shortcode_char code" "r = ''instagram:'' @ k @ '':'' @ code"
  | "trim_space raw \<noteq> []" "r = to_lower (trim_space raw)"
      "source = SourceLinkedIn \<longrightarrow> first_match linkedIn_here r = None"
      "source = SourceInstagram \<longrightarrow>
       first_match instagram_here (trim_space raw) = None \<and> instagram_normalized (trim_space raw) = None"
proof (cases "trim_space raw = []")
  case True
  with assms that(1) show ?thesis by (simp add: NormalizeNativeIdentity_def)
next
  case False
  let ?t = "trim_space raw"
  consider (l) kind number where "source = SourceLinkedIn" "first_match linkedIn_here (to_lower ?t) = Some (kind, number)"
    | (i) kind code where "source = SourceInstagram"
        "first_match instagram_here ?t = Some (kind, code) \<or>
         first_match instagram_here ?t = None \<and> instagram_normalized ?t = Some (kind, code)"
    | (o) "source = SourceLinkedIn \<longrightarrow> first_match linkedIn_here (to_lower ?t) = None"
        "source = SourceInstagram \<longrightarrow> first_match instagram_here ?t = None \<and> instagram_normalized ?t = None"
    by (cases "first_match linkedIn_here (to_lower ?t)"; cases "first_match instagram_here ?t";
        cases "instagram_normalized ?t") auto
  then show ?thesis
  proof cases
    case l
    from first_match_Some [OF l(2)] obtain t where "linkedIn_here t = Some (kind, number)" by blast
    note linkedIn_here_Some [OF this]
    moreover have "r = ''linkedin:'' @ to_lower kind @ '':'' @ number"
      using assms [symmetric] False l by (simp add: NormalizeNativeIdentity_def Let_def)
    ultimately show ?thesis using l(1) that(2) by blast
  next
    case i
    then have "(\<exists>t. instagram_here t = Some (kind, code)) \<or> instagram_normalized ?t = Some (kind, code)"
      using first_match_Some [of instagram_here ?t "(kind, code)"] by auto
    then have "to_lower kind \<in> {''p'', ''reel'', ''tv''} \<and> code \<noteq> [] \<and> list_all is_shortcode_char code"
      by (elim disjE exE) (erule instagram_here_Some, erule instagram_normalized_Some)
    moreover have "r = ''instagram:'' @ to_lower kind @ '':'' @ code"
      using assms [symmetric] False i by (auto simp: NormalizeNativeIdentity_def Let_def)
    ultimately show ?thesis using i(1) that(3) by blast
  next
    case o
    have "r = to_lower (trim_space raw)"
      using assms [symmetric] False o by (auto simp: NormalizeNativeIdentity_def Let_def)
    with False o that(4) show ?thesis by simp
  qed
qed

lemma opaque_form_fixed:
  assumes "source = SourceLinkedIn \<longrightarrow> first_match linkedIn_here (to_lower (trim_space raw)) = None"
    and "source = SourceInstagram \<longrightarrow>
       first_match instagram_here (trim_space raw) = None \<and> instagram_normalized (trim_space raw) = None"
  shows "NormalizeNativeIdentity source (to_lower (trim_space raw)) = to_lower (trim_space raw)"
proof -
  have "source = SourceInstagram \<longrightarrow>
      first_match instagram_here (to_lower (trim_space raw)) = None \<and>
      instagram_normalized (to_lower (trim_space raw)) = None"
    using assms(2) first_match_instagram_to_lower instagram_normalized_to_lower by blast
  with assms(1) show ?thesis
    by (auto simp: NormalizeNativeIdentity_def Let_def trim_space_to_lower)
qed

subsection \<open>Identities are normal forms\<close>

text \<open>\<open>NormalizeNativeIdentity\<close> is idempotent for every source: an identity that was normalised
  (a stored one, say) is its own normal form, so comparing normal forms compares identities.\<close>

theorem native_identity_normal_form:
  "NormalizeNativeIdentity source (NormalizeNativeIdentity source raw) = NormalizeNativeIdentity source raw"
proof -
  obtain r where r: "NormalizeNativeIdentity source raw = r" by blast
  from r have "NormalizeNativeIdentity source r = r"
  proof (cases rule: normalize_cases)
    case 1
    then show ?thesis by (simp add: NormalizeNativeIdentity_def)
  next
    case 2
    with linkedIn_form_fixed [OF 2(2-4)] show ?thesis by (simp only:)
  next
    case 3
    with instagram_form_fixed [OF 3(2-4)] show ?thesis by (simp only:)
  next
    case 4
    then show ?thesis using opaque_form_fixed [of source raw] by (simp only:)
  qed
  with r show ?thesis by simp
qed

subsection \<open>What is accepted, and its canonical form\<close>

lemma CanonicalSourceURL_Some:
  assumes "CanonicalSourceURL L source raw = Some c"
  obtains u v where "ul_parse L (trim_space raw) = Some u" "ur_Scheme u = ''https''" "\<not> ur_HasUser u" "ur_Port u = []"
    "canonical_url L source u = Some v" "c = ul_string L v"
  using assms by (auto simp: CanonicalSourceURL_def split: option.splits if_splits)

text \<open>The shapes of an accepted URL, with the URL that is returned for it.\<close>

lemma canonical_url_cases:
  assumes "canonical_url L source u = Some v"
  obtains (status) user number where "source = SourceX" "to_lower (ur_Hostname u) = ''x.com''"
      "xNativeStatusPath (ur_Path u) = Some (user, number)"
      "v = u\<lparr>ur_Path := ''/'' @ user @ ''/status/'' @ number, ur_RawPath := [], ur_RawQuery := [], ur_Fragment := []\<rparr>"
  | (article) "source = SourceLinkedIn" "to_lower (ur_Hostname u) = ''www.linkedin.com''"
      "contains_sub ''/posts/'' (ur_Path u) \<or> contains_sub ''/feed/update/'' (ur_Path u)" "v = u"
  | (video) d where "source = SourceFacebook"
      "to_lower (ur_Hostname u) \<in> {''www.facebook.com'', ''facebook.com'', ''m.facebook.com''}"
      "to_lower (ur_Path u) \<in> {''/watch/'', ''/video.php''}" "ul_query L u ''v'' = [d]" "facebookVideoID d"
      "v = u\<lparr>ur_Host := ''www.facebook.com'', ur_Hostname := ''www.facebook.com'', ur_Path := ''/watch/'',
            ur_RawPath := [], ur_RawQuery := ul_encode_v L [d], ur_Fragment := []\<rparr>"
  | (story) "source = SourceFacebook"
      "to_lower (ur_Hostname u) \<in> {''www.facebook.com'', ''facebook.com'', ''m.facebook.com''}"
      "to_lower (ur_Path u) \<notin> {''/watch/'', ''/video.php''}"
      "facebookNativePostPath (ur_Path u) (ul_query L u)" "v = u"
  | (media) "source = SourceInstagram" "to_lower (ur_Hostname u) \<in> {''www.instagram.com'', ''instagram.com''}"
      "instagramNativePostPath (ur_Path u)" "v = u"
proof -
  consider "source = SourceX" | "source = SourceLinkedIn" | "source = SourceFacebook" | "source = SourceInstagram"
    using assms by (auto simp: canonical_url_def Let_def split: if_splits)
  then show ?thesis
  proof cases
    case 1
    with assms obtain user number where "to_lower (ur_Hostname u) = ''x.com''"
      "xNativeStatusPath (ur_Path u) = Some (user, number)"
      "v = u\<lparr>ur_Path := ''/'' @ user @ ''/status/'' @ number, ur_RawPath := [], ur_RawQuery := [],
              ur_Fragment := []\<rparr>"
      by (auto simp: canonical_url_def canonical_x_def Let_def split: if_splits option.splits)
    with 1 show ?thesis by (rule status)
  next
    case 2
    with assms have "(to_lower (ur_Hostname u) = ''www.linkedin.com'' \<and>
        (contains_sub ''/posts/'' (ur_Path u) \<or> contains_sub ''/feed/update/'' (ur_Path u))) \<and> v = u"
      by (simp add: canonical_url_def Let_def split: if_splits)
    with 2 article show ?thesis by blast
  next
    case 3
    with assms have f: "canonical_facebook L (to_lower (ur_Hostname u)) u = Some v"
      by (simp add: canonical_url_def Let_def)
    show ?thesis
    proof (cases "to_lower (ur_Path u) \<in> {''/watch/'', ''/video.php''}")
      case True
      with f obtain d where "to_lower (ur_Hostname u) \<in> {''www.facebook.com'', ''facebook.com'', ''m.facebook.com''}"
        "ul_query L u ''v'' = [d]" "facebookVideoID d"
        "v = u\<lparr>ur_Host := ''www.facebook.com'', ur_Hostname := ''www.facebook.com'', ur_Path := ''/watch/'',
              ur_RawPath := [], ur_RawQuery := ul_encode_v L [d], ur_Fragment := []\<rparr>"
        unfolding canonical_facebook_def Let_def by (cases "ul_query L u ''v''"; cases "tl (ul_query L u ''v'')") (auto split: if_splits)
      with 3 True video show ?thesis by blast
    next
      case False
      with f have "to_lower (ur_Hostname u) \<in> {''www.facebook.com'', ''facebook.com'', ''m.facebook.com''} \<and>
          facebookNativePostPath (ur_Path u) (ul_query L u) \<and> v = u"
        unfolding canonical_facebook_def by (simp split: if_splits)
      with 3 False story show ?thesis by blast
    qed
  next
    case 4
    with assms have "(to_lower (ur_Hostname u) \<in> {''www.instagram.com'', ''instagram.com''} \<and>
        instagramNativePostPath (ur_Path u)) \<and> v = u"
      by (simp add: canonical_url_def Let_def split: if_splits)
    with 4 media show ?thesis by blast
  qed
qed

text \<open>The path of a status, read back: the scanner inverts the path it is canonicalised to.\<close>

lemma xNativeStatusPath_Some:
  assumes "xNativeStatusPath path = Some (user, number)"
  shows "user \<noteq> [] \<and> list_all not_slash user \<and> number \<noteq> [] \<and> list_all is_digit number \<and>
    (\<exists>tail. path = ''/'' @ user @ ''/status/'' @ number @ tail)"
proof -
  let ?rest = "dropWhile not_slash (tl path)"
  from assms have p: "has_prefix ''/'' path" "has_prefix ''/status/'' ?rest" "user \<noteq> []" "number \<noteq> []"
    and u: "user = takeWhile not_slash (tl path)" "number = takeWhile is_digit (drop 8 ?rest)"
    by (auto simp: xNativeStatusPath_def Let_def split: if_splits)
  from p(1) have "path = ''/'' @ tl path" by (cases path) (auto simp: has_prefix_def)
  moreover have "tl path = user @ ?rest" using u(1) by simp
  moreover obtain w where "?rest = ''/status/'' @ w" using p(2) has_prefix_iff by blast
  then have "?rest = ''/status/'' @ drop 8 ?rest" by simp
  moreover have "drop 8 ?rest = number @ dropWhile is_digit (drop 8 ?rest)" using u(2) by simp
  ultimately have "path = ''/'' @ user @ ''/status/'' @ number @ dropWhile is_digit (drop 8 ?rest)"
    by (metis append.assoc)
  moreover have "list_all not_slash user" "list_all is_digit number"
    using u by (auto simp: list_all_iff dest: set_takeWhileD)
  ultimately show ?thesis using p(3,4) by blast
qed

lemma takeWhile_append_stop: "list_all P xs \<Longrightarrow> (ys = [] \<or> \<not> P (hd ys)) \<Longrightarrow> takeWhile P (xs @ ys) = xs"
  by (induction xs) (auto simp: neq_Nil_conv, cases ys, auto)

lemma dropWhile_append_stop: "list_all P xs \<Longrightarrow> (ys = [] \<or> \<not> P (hd ys)) \<Longrightarrow> dropWhile P (xs @ ys) = ys"
  by (induction xs) (auto simp: neq_Nil_conv, cases ys, auto)

lemma xNativeStatusPath_canonical:
  assumes "user \<noteq> []" "list_all not_slash user" "number \<noteq> []" "list_all is_digit number"
  shows "xNativeStatusPath (''/'' @ user @ ''/status/'' @ number) = Some (user, number)"
proof -
  have "takeWhile not_slash (user @ ''/status/'' @ number) = user"
    "dropWhile not_slash (user @ ''/status/'' @ number) = ''/status/'' @ number"
    using assms(2) by (auto intro!: takeWhile_append_stop dropWhile_append_stop simp: not_slash_def)
  moreover have "takeWhile is_digit number = number" "dropWhile is_digit number = []"
    using assms(4) by (auto simp: list_all_iff)
  moreover have "drop 8 (''/status/'' @ number) = number" by simp
  moreover have "has_prefix ''/status/'' (''/status/'' @ number)" by (rule has_prefix_append)
  moreover have "has_prefix ''/'' (''/'' @ user @ ''/status/'' @ number)" by (rule has_prefix_append)
  moreover have "tl (''/'' @ user @ ''/status/'' @ number) = user @ ''/status/'' @ number" by simp
  ultimately show ?thesis using assms(1,3) by (simp only: xNativeStatusPath_def Let_def) simp
qed

lemma contains_sub_to_lower: "contains_sub p s \<Longrightarrow> contains_sub (to_lower p) (to_lower s)"
  by (force simp: contains_sub_iff to_lower_append)

lemma contains_middle: "contains_sub p (a @ p @ b)"
  by (auto simp: contains_sub_iff)

text \<open>The path of an Instagram permalink has its kind between two slashes.\<close>

lemma split_slash_nonempty [simp]: "split_slash s \<noteq> []"
  by (cases s) (auto split: list.splits)

lemma split_slash_two:
  "split_slash s = [a, b] \<Longrightarrow> s = a @ ''/'' @ b"
proof (induction s arbitrary: a)
  case Nil
  then show ?case by simp
next
  case (Cons c s)
  have one: "split_slash t = [w] \<Longrightarrow> t = w" for t w
    by (induction t arbitrary: w) (auto split: if_splits list.splits)
  show ?case
  proof (cases "c = CHR ''/''")
    case True
    with Cons.prems have "a = []" "split_slash s = [b]" by simp_all
    with True one show ?thesis by simp
  next
    case False
    with Cons.prems obtain w where "split_slash s = [w, b]" "a = c # w" by (auto split: list.splits)
    with Cons.IH show ?thesis by simp
  qed
qed

lemma trim_slashes_inside:
  assumes "has_prefix ''/'' path" "trim_slashes path = t"
  shows "\<exists>a b. path = a @ ''/'' @ t @ b"
proof -
  define P where "P = (\<lambda>c. c = CHR ''/'')"
  have t: "t = rev (dropWhile P (rev (dropWhile P path)))"
    using assms(2) by (simp add: trim_slashes_def P_def)
  define u where "u = takeWhile P path"
  define d where "d = dropWhile P path"
  define z where "z = rev (takeWhile P (rev d))"
  have "d = t @ z"
    unfolding t z_def d_def by (metis rev_append rev_rev_ident takeWhile_dropWhile_id)
  moreover have "path = u @ d" by (simp add: u_def d_def)
  moreover obtain w where "path = CHR ''/'' # w" using assms(1) by (auto simp: has_prefix_iff)
  then have "u \<noteq> []" by (simp add: u_def P_def)
  then have "last u = CHR ''/''" using last_in_set set_takeWhileD unfolding u_def P_def by fast
  with \<open>u \<noteq> []\<close> have "u = butlast u @ ''/''" by (metis append_butlast_last_id)
  ultimately have "path = butlast u @ ''/'' @ t @ z" by (metis append.assoc)
  then show ?thesis by blast
qed

lemma instagram_path_token:
  assumes "instagramNativePostPath path" "has_prefix ''/'' path"
  shows "\<exists>token \<in> {''/p/'', ''/reel/'', ''/tv/''}. contains_sub token (to_lower path)"
proof -
  from assms(1) obtain kind code where k: "split_slash (trim_slashes path) = [kind, code]" "kind \<in> {''p'', ''reel'', ''tv''}"
    by (auto simp: instagramNativePostPath_def split: list.splits)
  from trim_slashes_inside [OF assms(2) split_slash_two [OF k(1)]] obtain a b
    where "path = a @ (''/'' @ kind @ ''/'') @ code @ b" by auto
  then have "contains_sub (''/'' @ kind @ ''/'') path" by (simp only: contains_middle)
  then have "contains_sub (to_lower (''/'' @ kind @ ''/'')) (to_lower path)" by (rule contains_sub_to_lower)
  moreover have "to_lower (''/'' @ kind @ ''/'') \<in> {''/p/'', ''/reel/'', ''/tv/''}"
    using k(2) by (auto simp: lower_char_def)
  ultimately show ?thesis by blast
qed

definition native_token :: "Source \<Rightarrow> string \<Rightarrow> bool" where
  "native_token source path =
     (case SourceByID source of None \<Rightarrow> False
      | Some d \<Rightarrow> list_ex (\<lambda>t. contains_sub t (to_lower path)) (sd_NativePathTokens d))"

definition native_host :: "Source \<Rightarrow> string \<Rightarrow> bool" where
  "native_host source host =
     (case SourceByID source of None \<Rightarrow> False | Some d \<Rightarrow> to_lower host \<in> set (sd_NativeHosts d))"

lemma registry_natives:
  "native_host SourceX h \<longleftrightarrow> to_lower h = ''x.com''"
  "native_host SourceLinkedIn h \<longleftrightarrow> to_lower h = ''www.linkedin.com''"
  "native_host SourceFacebook h \<longleftrightarrow> to_lower h \<in> {''facebook.com'', ''www.facebook.com'', ''m.facebook.com''}"
  "native_host SourceInstagram h \<longleftrightarrow> to_lower h \<in> {''instagram.com'', ''www.instagram.com''}"
  "native_token SourceX p \<longleftrightarrow> contains_sub ''/status/'' (to_lower p)"
  "native_token SourceLinkedIn p \<longleftrightarrow> contains_sub ''/posts/'' (to_lower p) \<or> contains_sub ''/feed/update/'' (to_lower p)"
  "native_token SourceFacebook p \<longleftrightarrow> (\<exists>t \<in> {''/posts/'', ''/permalink/'', ''/story.php'', ''/photo'', ''/watch/'',
     ''/video.php'', ''/videos/'', ''/reel/''}. contains_sub t (to_lower p))"
  "native_token SourceInstagram p \<longleftrightarrow> (\<exists>t \<in> {''/p/'', ''/reel/'', ''/tv/''}. contains_sub t (to_lower p))"
  by (simp_all add: native_host_def native_token_def SourceByID_def sourceRegistry_def)

lemma facebook_path_token:
  assumes "facebookNativePostPath p q" "\<not> facebookNumericReelPath (to_lower p)"
  shows "native_token SourceFacebook p"
  using assms by (auto simp: facebookNativePostPath_def Let_def registry_natives)

lemma contains_self: "contains_sub p p"
  using contains_middle [of p "[]" "[]"] by simp

text \<open>Only permalinks that the source owns are accepted: an accepted URL has scheme \<open>https\<close>, no
  user and no port, its host is one of the native hosts that the source registry lists for this
  source, and its path has one of the native path tokens that the registry lists, or it is a
  Facebook path that \<open>facebookNumericReelPath\<close> accepts. The path of a parsed URL with a host is empty
  or starts with a slash.\<close>

theorem accepted_permalink_is_native:
  assumes "CanonicalSourceURL L source raw = Some c" "ul_parse L (trim_space raw) = Some u"
    and "has_prefix ''/'' (ur_Path u)"
  shows "ur_Scheme u = ''https'' \<and> \<not> ur_HasUser u \<and> ur_Port u = [] \<and> native_host source (ur_Hostname u) \<and>
    (native_token source (ur_Path u) \<or> source = SourceFacebook \<and> facebookNumericReelPath (to_lower (ur_Path u)))"
proof -
  from assms(1,2) obtain v where base: "ur_Scheme u = ''https''" "\<not> ur_HasUser u" "ur_Port u = []"
    and v: "canonical_url L source u = Some v"
    by (auto elim: CanonicalSourceURL_Some)
  from v have "native_host source (ur_Hostname u) \<and>
    (native_token source (ur_Path u) \<or> source = SourceFacebook \<and> facebookNumericReelPath (to_lower (ur_Path u)))"
  proof (cases rule: canonical_url_cases)
    case (status user number)
    from xNativeStatusPath_Some [OF status(3)] obtain tail
      where "ur_Path u = (''/'' @ user) @ ''/status/'' @ number @ tail" by auto
    then have "contains_sub ''/status/'' (ur_Path u)" by (simp only: contains_middle)
    from contains_sub_to_lower [OF this] status show ?thesis
      by (simp add: registry_natives lower_char_def)
  next
    case article
    then have "contains_sub (to_lower ''/posts/'') (to_lower (ur_Path u)) \<or>
        contains_sub (to_lower ''/feed/update/'') (to_lower (ur_Path u))"
      using contains_sub_to_lower by blast
    with article show ?thesis by (simp add: registry_natives lower_char_def)
  next
    case video
    then have "contains_sub ''/watch/'' (to_lower (ur_Path u)) \<or> contains_sub ''/video.php'' (to_lower (ur_Path u))"
      using contains_self by auto
    with video show ?thesis by (auto simp: registry_natives)
  next
    case story
    with facebook_path_token [of "ur_Path u" "ul_query L u"] show ?thesis
      by (auto simp: registry_natives(3))
  next
    case media
    with instagram_path_token [OF media(3) assms(3)] show ?thesis by (auto simp: registry_natives)
  qed
  with base show ?thesis by simp
qed

text \<open>A canonical permalink is canonical: given that \<open>url.Parse\<close> reads back what \<open>URL.String\<close>
  writes for a canonical URL, and that a query holding just \<open>v\<close> decodes to that value, asking again
  for the canonical form of a canonical permalink returns the same string.\<close>

theorem canonical_permalink_is_fixed:
  assumes "CanonicalSourceURL L source raw = Some c"
    and reparse: "\<And>u v. ul_parse L (trim_space raw) = Some u \<Longrightarrow> canonical_url L source u = Some v \<Longrightarrow>
      ul_parse L (trim_space (ul_string L v)) = Some v"
    and query_v: "\<And>u d. facebookVideoID d \<Longrightarrow> ul_query L (u\<lparr>ur_RawQuery := ul_encode_v L [d]\<rparr>) ''v'' = [d]"
  shows "CanonicalSourceURL L source c = Some c"
proof -
  from assms(1) obtain u v where u: "ul_parse L (trim_space raw) = Some u"
    and base: "ur_Scheme u = ''https''" "\<not> ur_HasUser u" "ur_Port u = []"
    and v: "canonical_url L source u = Some v" "c = ul_string L v"
    by (rule CanonicalSourceURL_Some)
  from v(1) have same: "ur_Scheme v = ''https'' \<and> \<not> ur_HasUser v \<and> ur_Port v = []"
    by (cases rule: canonical_url_cases) (simp_all add: base)
  from v(1) have "canonical_url L source v = Some v"
  proof (cases rule: canonical_url_cases)
    case (status user number)
    from xNativeStatusPath_Some [OF status(3)]
    have "xNativeStatusPath (''/'' @ user @ ''/status/'' @ number) = Some (user, number)"
      by (intro xNativeStatusPath_canonical) simp_all
    with status show ?thesis by (simp add: canonical_url_def canonical_x_def)
  next
    case (video d)
    have "v = (u\<lparr>ur_Host := ''www.facebook.com'', ur_Hostname := ''www.facebook.com'', ur_Path := ''/watch/'',
        ur_RawPath := [], ur_Fragment := []\<rparr>)\<lparr>ur_RawQuery := ul_encode_v L [d]\<rparr>"
      using video(6) by simp
    then have "ul_query L v ''v'' = [d]" using query_v [OF video(5)] by simp
    moreover have "to_lower (ur_Hostname v) = ''www.facebook.com''" "to_lower (ur_Path v) = ''/watch/''"
      using video(6) by (simp_all add: lower_char_def)
    moreover have "v\<lparr>ur_Host := ''www.facebook.com'', ur_Hostname := ''www.facebook.com'', ur_Path := ''/watch/'',
        ur_RawPath := [], ur_RawQuery := ul_encode_v L [d], ur_Fragment := []\<rparr> = v"
      using video(6) by simp
    ultimately show ?thesis
      using video(1,5) by (simp add: canonical_url_def canonical_facebook_def)
  qed (use v(1) in simp_all)
  with same reparse [OF u v(1)] v(2) show ?thesis by (simp add: CanonicalSourceURL_def)
qed

subsection \<open>Concrete permalinks\<close>

definition url_at_path :: "string \<Rightarrow> string \<Rightarrow> string \<Rightarrow> URL" where
  "url_at_path host path query =
     \<lparr>ur_Scheme = ''https'', ur_HasUser = False, ur_Host = host, ur_Hostname = host, ur_Port = [], ur_Path = path,
      ur_RawPath = [], ur_ForceQuery = False, ur_RawQuery = query, ur_Fragment = []\<rparr>"

text \<open>A library that knows three URLs, and reads a query as the value of \<open>v\<close>.\<close>

definition sample_lib :: url_lib where
  "sample_lib =
     \<lparr>ul_parse = (\<lambda>s.
        if s = ''https://m.facebook.com/video.php?v=77&ref=x'' then Some (url_at_path ''m.facebook.com'' ''/video.php'' ''77'')
        else if s = ''https://www.facebook.com/watch/?v=77'' then Some (url_at_path ''www.facebook.com'' ''/watch/'' ''77'')
        else if s = ''https://www.facebook.com/100064'' then Some (url_at_path ''www.facebook.com'' ''/100064'' [])
        else None),
      ul_string = (\<lambda>u. if ur_Path u = ''/watch/'' then ''https://www.facebook.com/watch/?v=77''
        else ''https://www.facebook.com/100064''),
      ul_query = (\<lambda>u k. if k = ''v'' \<and> ur_RawQuery u \<noteq> [] then [ur_RawQuery u] else []),
      ul_encode_v = (\<lambda>vs. hd vs)\<rparr>"

lemma sample_video:
  "CanonicalSourceURL sample_lib SourceFacebook ''https://m.facebook.com/video.php?v=77&ref=x'' =
     Some ''https://www.facebook.com/watch/?v=77''"
  by code_simp

lemma sample_video_parsed:
  "ul_parse sample_lib (trim_space ''https://m.facebook.com/video.php?v=77&ref=x'') =
     Some (url_at_path ''m.facebook.com'' ''/video.php'' ''77'')"
  by code_simp

theorem accepted_permalink_is_native_witness:
  "native_host SourceFacebook ''m.facebook.com'' \<and>
   (native_token SourceFacebook ''/video.php'' \<or> facebookNumericReelPath (to_lower ''/video.php''))"
  using accepted_permalink_is_native [OF sample_video sample_video_parsed]
  by (simp add: url_at_path_def has_prefix_def)

theorem canonical_permalink_is_fixed_witness:
  "CanonicalSourceURL sample_lib SourceFacebook ''https://www.facebook.com/watch/?v=77'' =
     Some ''https://www.facebook.com/watch/?v=77''"
proof (rule canonical_permalink_is_fixed [OF sample_video])
  fix u v
  assume u: "ul_parse sample_lib (trim_space ''https://m.facebook.com/video.php?v=77&ref=x'') = Some u"
    and v: "canonical_url sample_lib SourceFacebook u = Some v"
  have "canonical_url sample_lib SourceFacebook (url_at_path ''m.facebook.com'' ''/video.php'' ''77'') =
      Some (url_at_path ''www.facebook.com'' ''/watch/'' ''77'')" by code_simp
  with u v sample_video_parsed have "v = url_at_path ''www.facebook.com'' ''/watch/'' ''77''" by simp
  moreover have "ul_parse sample_lib (trim_space (ul_string sample_lib (url_at_path ''www.facebook.com'' ''/watch/'' ''77''))) =
      Some (url_at_path ''www.facebook.com'' ''/watch/'' ''77'')" by code_simp
  ultimately show "ul_parse sample_lib (trim_space (ul_string sample_lib v)) = Some v" by simp
next
  fix u :: URL and d
  assume "facebookVideoID d"
  then have "d \<noteq> []" by (auto simp: facebookVideoID_def digits_between_def)
  then show "ul_query sample_lib (u\<lparr>ur_RawQuery := ul_encode_v sample_lib [d]\<rparr>) ''v'' = [d]"
    by (simp add: sample_lib_def)
qed

text \<open>A numeric Facebook profile is accepted as a native post permalink: \<open>facebookNumericReelPath\<close>
  trims the prefix \<open>/reel/\<close> when it is there and does not ask for it, so the path of the profile
  \<open>/100064\<close>, which has none of the native path tokens, passes.\<close>

theorem numeric_profile_passes_as_permalink:
  "CanonicalSourceURL sample_lib SourceFacebook ''https://www.facebook.com/100064'' =
     Some ''https://www.facebook.com/100064'' \<and> \<not> native_token SourceFacebook ''/100064''"
  by (rule conjI) code_simp+

end
