(* ===== verification/Direct_Context.thy ===== *)
theory Direct_Context
  imports Source_URL
begin

text \<open>
  \<open>src/internal/domain/direct_context.go\<close>: the relations captured around a post (quotes, replies,
  feed comments), their validation, the identity of a context object, and the merge of two
  observations of the same post. \<open>time.Parse(time.RFC3339Nano, _)\<close> is the parameter \<open>clock\<close>, which
  gives the instant in nanoseconds. Dereferencing the nil URL of a failed \<open>url.Parse\<close>, a panic in the
  code, is \<^term>\<open>the None\<close>.
\<close>

definition DirectContextLimit :: nat where
  "DirectContextLimit = 8"

record ContextObject =
  co_Kind :: string
  co_ID :: string
  co_Permalink :: string
  co_Author :: string
  co_Text :: string
  co_HasMedia :: bool
  co_Availability :: string
  co_CaptureReason :: string
  co_EvidenceOrigin :: string
  co_CapturedAt :: string

record DirectContext =
  dc_Kind :: string
  dc_Actor :: string
  dc_ActorURL :: string
  dc_ObservedText :: string
  dc_MatchBasis :: string
  dc_OmittedCommentCount :: int
  dc_CommentReadErrorCount :: int
  dc_Provenance :: string
  dc_CapturedAt :: string
  dc_Target :: ContextObject
  dc_Parent :: "ContextObject option"

type_synonym clock = "string \<Rightarrow> int option"

subsection \<open>Identity of a context object\<close>

definition directStatusID :: "string \<Rightarrow> bool" where
  "directStatusID = digits_between 5 30"

definition ContextObjectIdentity :: "url_lib \<Rightarrow> ContextObject \<Rightarrow> string" where
  "ContextObjectIdentity L obj =
     (if co_Kind obj = ''post'' then
        if co_ID obj \<noteq> [] then
          (let status = trim_prefix ''x:status:'' (co_ID obj)
           in if directStatusID status then status else [])
        else
          (case CanonicalSourceURL L SourceX (co_Permalink obj) of
             None \<Rightarrow> []
           | Some canonical \<Rightarrow>
               (case xNativeStatusPath (ur_Path (the (ul_parse L canonical))) of
                  None \<Rightarrow> []
                | Some (user, number) \<Rightarrow> number))
      else if co_ID obj \<noteq> [] then trim_prefix ''urn:li:comment:'' (co_ID obj)
      else co_Permalink obj)"

subsection \<open>Validation\<close>

definition validCommentCaptureReason :: "string \<Rightarrow> bool" where
  "validCommentCaptureReason reason \<longleftrightarrow>
     reason \<in> {''actor_identity_unresolved'', ''comments_not_observed'', ''comments_not_visible'',
       ''matching_comments_not_observed'', ''comment_author_unresolved'', ''comment_body_not_observed'',
       ''comment_body_ambiguous'', ''comment_identity_ambiguous'', ''comment_read_failed''}"

definition object_checks :: "url_lib \<Rightarrow> clock \<Rightarrow> Source \<Rightarrow> ContextObject \<Rightarrow> (bool \<times> string) list" where
  "object_checks L clock source obj =
     [(co_CaptureReason obj \<noteq> [] \<and>
         (source \<noteq> SourceLinkedIn \<or> co_Availability obj \<noteq> ''reference_only'' \<or>
          \<not> validCommentCaptureReason (co_CaptureReason obj)),
       ''invalid comment capture reason''),
      (co_Kind obj \<noteq> (if source = SourceLinkedIn then ''comment'' else ''post'') \<or> length (co_ID obj) > 200 \<or>
         length (co_Permalink obj) > 2048 \<or> rune_count (co_Author obj) > 300 \<or> rune_count (co_Text obj) > 4000,
       ''invalid direct context object''),
      (co_Availability obj \<notin> {''captured'', ''partial'', ''reference_only''},
       ''invalid direct context availability''),
      (co_Permalink obj \<noteq> [] \<and> CanonicalSourceURL L source (co_Permalink obj) = None,
       ''invalid direct context native URL''),
      (co_CapturedAt obj \<noteq> [] \<and> clock (co_CapturedAt obj) = None,
       ''invalid context object capture time''),
      (source = SourceX \<and> co_ID obj \<noteq> [] \<and> \<not> directStatusID (trim_prefix ''x:status:'' (co_ID obj)),
       ''invalid X context object ID''),
      (source = SourceX \<and> co_ID obj \<noteq> [] \<and> co_Permalink obj \<noteq> [] \<and>
         ContextObjectIdentity L \<lparr>co_Kind = ''post'', co_ID = [], co_Permalink = co_Permalink obj, co_Author = [],
           co_Text = [], co_HasMedia = False, co_Availability = [], co_CaptureReason = [], co_EvidenceOrigin = [],
           co_CapturedAt = []\<rparr> \<noteq> trim_prefix ''x:status:'' (co_ID obj),
       ''context object ID and permalink disagree''),
      (co_Availability obj = ''captured'' \<and> co_Text obj = [] \<and> \<not> co_HasMedia obj,
       ''captured context object has no body evidence''),
      (co_Availability obj = ''reference_only'' \<and> (co_Text obj \<noteq> [] \<or> co_HasMedia obj),
       ''reference-only context object contains body evidence''),
      (co_EvidenceOrigin obj \<noteq> [] \<and> co_EvidenceOrigin obj \<notin> {''embedded_capture'', ''local_timeline'', ''local_memory''},
       ''invalid direct context evidence origin'')]"

definition actor_url_ok :: "url_lib \<Rightarrow> string \<Rightarrow> bool" where
  "actor_url_ok L raw =
     (case ul_parse L raw of
        None \<Rightarrow> False
      | Some u \<Rightarrow>
          ur_Scheme u = ''https'' \<and> ur_Host u = ''www.linkedin.com'' \<and> \<not> ur_HasUser u \<and>
          has_prefix ''/in/'' (ur_Path u) \<and> length raw \<le> 2048)"

text \<open>The checks on a relation before its objects are looked at; the last one, on a parent, is made
  just before the loop over the objects.\<close>

definition relation_checks :: "url_lib \<Rightarrow> clock \<Rightarrow> Source \<Rightarrow> DirectContext \<Rightarrow> (bool \<times> string) list" where
  "relation_checks L clock source v =
     [(dc_CommentReadErrorCount v < 0 \<or> dc_CommentReadErrorCount v > 1000000 \<or>
         dc_CommentReadErrorCount v > 0 \<and> source \<noteq> SourceLinkedIn,
       ''invalid comment read error count''),
      (dc_MatchBasis v \<noteq> [] \<and>
         (source \<noteq> SourceLinkedIn \<or> dc_MatchBasis v \<noteq> ''actor_profile'' \<or> dc_ActorURL v = []),
       ''invalid direct context match basis''),
      (dc_OmittedCommentCount v < 0 \<or> dc_OmittedCommentCount v > 1000000 \<or>
         dc_OmittedCommentCount v > 0 \<and> (source \<noteq> SourceLinkedIn \<or> dc_MatchBasis v \<noteq> ''actor_profile''),
       ''invalid omitted comment count''),
      (source = SourceX \<and> dc_Kind v \<noteq> ''quotes'' \<and> dc_Kind v \<noteq> ''replies_to'' \<or>
         source = SourceLinkedIn \<and> dc_Kind v \<noteq> ''feed_comment'' \<and> dc_Kind v \<noteq> ''feed_reply'' \<or>
         source \<noteq> SourceX \<and> source \<noteq> SourceLinkedIn,
       ''unsupported direct context relation''),
      (dc_Provenance v \<notin> {''observed_dom'', ''observed_response'', ''legacy_capture''},
       ''invalid direct context provenance''),
      (rune_count (dc_Actor v) > 300 \<or> rune_count (dc_ObservedText v) > 500,
       ''direct context text exceeds limit''),
      (dc_CapturedAt v \<noteq> [] \<and> clock (dc_CapturedAt v) = None,
       ''invalid direct context capture time''),
      (dc_ActorURL v \<noteq> [] \<and> \<not> actor_url_ok L (dc_ActorURL v),
       ''invalid direct context actor URL''),
      (dc_Parent v \<noteq> None \<and> dc_Kind v \<noteq> ''feed_reply'',
       ''parent only applies to comment replies'')]"

definition context_objects :: "DirectContext \<Rightarrow> ContextObject list" where
  "context_objects v = dc_Target v # (case dc_Parent v of None \<Rightarrow> [] | Some p \<Rightarrow> [p])"

definition ValidateDirectContext :: "url_lib \<Rightarrow> clock \<Rightarrow> Source \<Rightarrow> DirectContext list \<Rightarrow> string option" where
  "ValidateDirectContext L clock source vs =
     first_error ((length vs > DirectContextLimit, ''too many direct context relations'') #
       concat (map (\<lambda>v. relation_checks L clock source v @
         concat (map (object_checks L clock source) (context_objects v))) vs))"

subsection \<open>Merging\<close>

definition contextCaptureNewer :: "clock \<Rightarrow> string \<Rightarrow> string \<Rightarrow> bool" where
  "contextCaptureNewer clock candidate current =
     (case clock candidate of
        None \<Rightarrow> False
      | Some t \<Rightarrow> (case clock current of None \<Rightarrow> True | Some t' \<Rightarrow> t' < t))"

definition has_body :: "ContextObject \<Rightarrow> bool" where
  "has_body obj \<longleftrightarrow> co_Text obj \<noteq> [] \<or> co_HasMedia obj"

definition mergeContextObject :: "url_lib \<Rightarrow> clock \<Rightarrow> ContextObject \<Rightarrow> ContextObject \<Rightarrow> ContextObject" where
  "mergeContextObject L clock previous current =
     (let identity = ContextObjectIdentity L current
      in if identity = [] \<or> identity \<noteq> ContextObjectIdentity L previous then current
         else if has_body previous \<and> contextCaptureNewer clock (co_CapturedAt previous) (co_CapturedAt current)
         then previous
         else if co_Availability current \<in> {''reference_only'', ''partial''} \<and> \<not> has_body current \<and> has_body previous
         then previous
         else current)"

text \<open>The capture time of a relation is handed down to the objects that have a body and none of their own.\<close>

definition stamp_object :: "string \<Rightarrow> ContextObject \<Rightarrow> ContextObject" where
  "stamp_object captured obj =
     (if co_CapturedAt obj = [] \<and> has_body obj then obj\<lparr>co_CapturedAt := captured\<rparr> else obj)"

definition stamp :: "DirectContext \<Rightarrow> DirectContext" where
  "stamp v = v\<lparr>dc_Target := stamp_object (dc_CapturedAt v) (dc_Target v),
               dc_Parent := map_option (stamp_object (dc_CapturedAt v)) (dc_Parent v)\<rparr>"

definition merge_key :: "url_lib \<Rightarrow> DirectContext \<Rightarrow> string" where
  "merge_key L v =
     (let identity = ContextObjectIdentity L (dc_Target v);
          actor = (if dc_ActorURL v = [] then dc_Actor v else dc_ActorURL v);
          key = dc_Kind v @ [CHR 0x0A] @ actor @ [CHR 0x0A] @ identity
      in if identity = []
         then key @ [CHR 0x0A] @ dc_ObservedText v @ [CHR 0x0A] @ co_Author (dc_Target v) @ [CHR 0x0A] @ co_Text (dc_Target v)
         else key)"

text \<open>The row already in the result and the value that has its key, when the value has an identity.\<close>

definition merge_rows :: "url_lib \<Rightarrow> clock \<Rightarrow> DirectContext \<Rightarrow> DirectContext \<Rightarrow> DirectContext" where
  "merge_rows L clock row0 value0 =
     (let newer = contextCaptureNewer clock (dc_CapturedAt value0) (dc_CapturedAt row0);
          row = (if newer then value0 else row0);
          value = (if newer then row0 else value0)
      in row\<lparr>dc_Target := mergeContextObject L clock (dc_Target value) (dc_Target row),
             dc_Parent := (case (dc_Parent row, dc_Parent value) of
                (None, Some p) \<Rightarrow> Some p
              | (Some q, Some p) \<Rightarrow> Some (mergeContextObject L clock p q)
              | (q, None) \<Rightarrow> q)\<rparr>)"

type_synonym merging = "(string \<rightharpoonup> nat) \<times> DirectContext list"

definition merge_value :: "url_lib \<Rightarrow> clock \<Rightarrow> DirectContext \<Rightarrow> merging \<Rightarrow> merging" where
  "merge_value L clock value0 st =
     (let seen = fst st; result = snd st; value = stamp value0; key = merge_key L value
      in case seen key of
           Some index \<Rightarrow>
             if ContextObjectIdentity L (dc_Target value) \<noteq> []
             then (seen, result[index := merge_rows L clock (result ! index) value])
             else (seen, result)
         | None \<Rightarrow> (seen(key \<mapsto> length result), result @ [value]))"

definition merge_all :: "url_lib \<Rightarrow> clock \<Rightarrow> DirectContext list \<Rightarrow> DirectContext list \<Rightarrow> merging" where
  "merge_all L clock previous current =
     fold (merge_value L clock) (take DirectContextLimit current @ take DirectContextLimit previous) (Map.empty, [])"

text \<open>The capacity: \<open>sort.SliceStable\<close> on the indices puts the rows with a comment body first, the
  first eight are kept, and \<open>sort.Ints\<close> restores the order of observation.\<close>

definition hasCommentBody :: "DirectContext \<Rightarrow> bool" where
  "hasCommentBody v \<longleftrightarrow> co_Kind (dc_Target v) = ''comment'' \<and>
     (trim_space (co_Text (dc_Target v)) \<noteq> [] \<or> co_HasMedia (dc_Target v))"

definition retained_indices :: "DirectContext list \<Rightarrow> nat list" where
  "retained_indices rows =
     (let body = (\<lambda>i. hasCommentBody (rows ! i)); indices = [0..<length rows]
      in sort (take DirectContextLimit (filter body indices @ filter (\<lambda>i. \<not> body i) indices)))"

definition bound_rows :: "DirectContext list \<Rightarrow> DirectContext list" where
  "bound_rows rows =
     (if length rows > DirectContextLimit then map (\<lambda>i. rows ! i) (retained_indices rows) else rows)"

definition MergeDirectContext ::
    "url_lib \<Rightarrow> clock \<Rightarrow> DirectContext list \<Rightarrow> DirectContext list \<Rightarrow> DirectContext list" where
  "MergeDirectContext L clock previous current = bound_rows (snd (merge_all L clock previous current))"

subsection \<open>The rows are a map from keys\<close>

text \<open>The abstract merge: a partial map from keys to relations, with the values merged into it.\<close>

definition keyed_merge :: "url_lib \<Rightarrow> clock \<Rightarrow> DirectContext \<Rightarrow> (string \<rightharpoonup> DirectContext) \<Rightarrow> (string \<rightharpoonup> DirectContext)" where
  "keyed_merge L clock value m =
     (let key = merge_key L value
      in m(key \<mapsto> (case m key of
           None \<Rightarrow> value
         | Some row \<Rightarrow>
             if ContextObjectIdentity L (dc_Target value) \<noteq> [] then merge_rows L clock row value else row)))"

definition rows_map :: "merging \<Rightarrow> (string \<rightharpoonup> DirectContext)" where
  "rows_map st = (\<lambda>k. map_option (\<lambda>i. snd st ! i) (fst st k))"

definition indexed :: "url_lib \<Rightarrow> merging \<Rightarrow> bool" where
  "indexed L st \<longleftrightarrow> (\<forall>k i. fst st k = Some i \<longleftrightarrow> i < length (snd st) \<and> merge_key L (snd st ! i) = k)"

lemma identity_stamp_object [simp]: "ContextObjectIdentity L (stamp_object t obj) = ContextObjectIdentity L obj"
  by (simp add: ContextObjectIdentity_def stamp_object_def)

lemma has_body_stamp_object [simp]: "has_body (stamp_object t obj) = has_body obj"
  by (simp add: stamp_object_def has_body_def)

lemma stamp_object_sel [simp]:
  "co_Kind (stamp_object t obj) = co_Kind obj" "co_Author (stamp_object t obj) = co_Author obj"
  "co_Text (stamp_object t obj) = co_Text obj" "co_HasMedia (stamp_object t obj) = co_HasMedia obj"
  by (simp_all add: stamp_object_def)

lemma merge_key_stamp [simp]: "merge_key L (stamp v) = merge_key L v"
  by (simp add: merge_key_def stamp_def Let_def)

lemma mergeContextObject_cases:
  obtains "mergeContextObject L clock p c = c"
  | "mergeContextObject L clock p c = p" "has_body p" "ContextObjectIdentity L p = ContextObjectIdentity L c"
  by (simp add: mergeContextObject_def Let_def split: if_splits) metis

lemma identity_mergeContextObject [simp]:
  "ContextObjectIdentity L (mergeContextObject L clock p c) = ContextObjectIdentity L c"
  by (rule mergeContextObject_cases [of L clock p c]) simp_all

lemma mergeContextObject_unknown:
  "ContextObjectIdentity L c = [] \<Longrightarrow> mergeContextObject L clock p c = c"
  by (simp add: mergeContextObject_def)

lemma merge_rows_sel:
  assumes "row = (if contextCaptureNewer clock (dc_CapturedAt v) (dc_CapturedAt r) then v else r)"
    and "other = (if contextCaptureNewer clock (dc_CapturedAt v) (dc_CapturedAt r) then r else v)"
  shows "dc_Target (merge_rows L clock r v) = mergeContextObject L clock (dc_Target other) (dc_Target row) \<and>
    merge_rows L clock r v = row\<lparr>dc_Target := dc_Target (merge_rows L clock r v),
      dc_Parent := dc_Parent (merge_rows L clock r v)\<rparr>"
  using assms by (simp add: merge_rows_def Let_def)

lemma merge_key_target:
  "ContextObjectIdentity L t = ContextObjectIdentity L (dc_Target v) \<Longrightarrow>
   (ContextObjectIdentity L t = [] \<Longrightarrow> t = dc_Target v) \<Longrightarrow>
   merge_key L (v\<lparr>dc_Target := t, dc_Parent := p\<rparr>) = merge_key L v"
  by (auto simp: merge_key_def Let_def)

text \<open>Merging two relations of one key gives a relation of that key.\<close>

lemma merge_key_merge_rows:
  assumes "merge_key L r = k" "merge_key L v = k"
  shows "merge_key L (merge_rows L clock r v) = k"
proof -
  define row where "row = (if contextCaptureNewer clock (dc_CapturedAt v) (dc_CapturedAt r) then v else r)"
  define other where "other = (if contextCaptureNewer clock (dc_CapturedAt v) (dc_CapturedAt r) then r else v)"
  note sel = merge_rows_sel [OF row_def other_def, of L]
  have "merge_key L (merge_rows L clock r v) = merge_key L row"
    by (subst sel [THEN conjunct2], rule merge_key_target)
      (simp_all add: sel [THEN conjunct1] mergeContextObject_unknown)
  also have "\<dots> = k" using assms by (simp add: row_def)
  finally show ?thesis .
qed

lemma indexed_empty: "indexed L (Map.empty, [])"
  by (simp add: indexed_def)

lemma merge_value_indexed:
  assumes "indexed L st"
  shows "indexed L (merge_value L clock v st) \<and>
    rows_map (merge_value L clock v st) = keyed_merge L clock (stamp v) (rows_map st)"
proof (cases "fst st (merge_key L v)")
  case None
  then have fresh: "\<And>i. i < length (snd st) \<Longrightarrow> merge_key L (snd st ! i) \<noteq> merge_key L v"
    using assms by (metis indexed_def option.distinct(1))
  have st: "merge_value L clock v st = ((fst st)(merge_key L v \<mapsto> length (snd st)), snd st @ [stamp v])"
    using None by (simp add: merge_value_def Let_def)
  have "indexed L (merge_value L clock v st)"
    unfolding indexed_def st using assms fresh
    by (auto simp: indexed_def nth_append less_Suc_eq split: if_splits)
  moreover have "rows_map (merge_value L clock v st) = (rows_map st)(merge_key L v \<mapsto> stamp v)"
  proof
    fix k
    show "rows_map (merge_value L clock v st) k = ((rows_map st)(merge_key L v \<mapsto> stamp v)) k"
    proof (cases "fst st k")
      case (Some a)
      then have "a < length (snd st)" using assms by (simp add: indexed_def)
      moreover have "k \<noteq> merge_key L v" using Some None by auto
      ultimately show ?thesis using Some by (simp add: st rows_map_def nth_append)
    qed (simp add: st rows_map_def)
  qed
  ultimately show ?thesis using None by (simp add: keyed_merge_def Let_def rows_map_def)
next
  case (Some i)
  then have i: "i < length (snd st)" "merge_key L (snd st ! i) = merge_key L v"
    using assms by (auto simp: indexed_def)
  show ?thesis
  proof (cases "ContextObjectIdentity L (dc_Target (stamp v)) = []")
    case True
    with Some assms show ?thesis
      by (auto simp: merge_value_def keyed_merge_def Let_def rows_map_def fun_eq_iff)
  next
    case False
    let ?row = "merge_rows L clock (snd st ! i) (stamp v)"
    have st: "merge_value L clock v st = (fst st, (snd st)[i := ?row])"
      using Some False by (simp add: merge_value_def Let_def)
    have "merge_key L ?row = merge_key L v" by (rule merge_key_merge_rows) (simp_all add: i)
    then have "indexed L (merge_value L clock v st)"
      unfolding indexed_def st using assms i
      by (auto simp: indexed_def nth_list_update split: if_splits)
    moreover have "rows_map (merge_value L clock v st) = (rows_map st)(merge_key L v \<mapsto> ?row)"
    proof
      fix k
      have "fst st k = Some i \<Longrightarrow> k = merge_key L v" using assms i by (simp add: indexed_def)
      then show "rows_map (merge_value L clock v st) k = ((rows_map st)(merge_key L v \<mapsto> ?row)) k"
        using i Some by (cases "fst st k") (auto simp: st rows_map_def nth_list_update)
    qed
    ultimately show ?thesis using Some False by (simp add: keyed_merge_def Let_def rows_map_def)
  qed
qed

lemma fold_merge_value:
  "indexed L st \<Longrightarrow> indexed L (fold (merge_value L clock) vs st) \<and>
   rows_map (fold (merge_value L clock) vs st) = fold (\<lambda>v. keyed_merge L clock (stamp v)) vs (rows_map st)"
proof (induction vs arbitrary: st)
  case (Cons v vs)
  from merge_value_indexed [OF Cons.prems, of clock v] Cons.IH [of "merge_value L clock v st"] show ?case by simp
qed simp

lemma indexed_distinct: "indexed L st \<Longrightarrow> distinct (map (merge_key L) (snd st))"
  unfolding indexed_def distinct_conv_nth by (metis length_map nth_map option.inject)

lemma indexed_rows: "indexed L st \<Longrightarrow> r \<in> set (snd st) \<longleftrightarrow> rows_map st (merge_key L r) = Some r"
  unfolding indexed_def rows_map_def by (auto simp: in_set_conv_nth)

lemmas merged_all_rows = fold_merge_value [OF indexed_empty, of L clock for L clock]

subsection \<open>Capacity\<close>

lemma retained_indices_facts:
  "distinct (retained_indices rows) \<and> set (retained_indices rows) \<subseteq> {..<length rows} \<and>
   length (retained_indices rows) = min DirectContextLimit (length rows) \<and> sorted (retained_indices rows)"
proof -
  let ?b = "\<lambda>i. hasCommentBody (rows ! i)"
  let ?is = "filter ?b [0..<length rows] @ filter (\<lambda>i. \<not> ?b i) [0..<length rows]"
  have "distinct ?is" "set ?is = {..<length rows}" by auto
  moreover have "length ?is = length rows"
    using sum_length_filter_compl [of ?b "[0..<length rows]"] by simp
  ultimately show ?thesis
    unfolding retained_indices_def Let_def using set_take_subset [of DirectContextLimit ?is]
    by (auto simp: min_def simp del: filter_append dest: in_set_takeD)
qed


lemma bound_rows_facts:
  "length (bound_rows rows) \<le> DirectContextLimit \<and> set (bound_rows rows) \<subseteq> set rows \<and>
   (distinct (map f rows) \<longrightarrow> distinct (map f (bound_rows rows)))"
proof (cases "length rows > DirectContextLimit")
  case True
  note r = retained_indices_facts [of rows]
  have "distinct (map f (bound_rows rows))" if "distinct (map f rows)"
  proof -
    have "inj_on (\<lambda>i. f (rows ! i)) (set (retained_indices rows))"
      using that r by (auto simp: inj_on_def distinct_conv_nth) (metis lessThan_iff nth_map subsetD)
    with r show ?thesis using True by (simp add: bound_rows_def distinct_map comp_def)
  qed
  with True r show ?thesis by (auto simp: bound_rows_def)
qed (simp add: bound_rows_def)


text \<open>C18. The merge keeps at most eight relations, no two of them for the same key (relation kind,
  actor, target), and every one of them is what the keyed merge of the two observations holds for
  its key.\<close>

theorem merge_refines_keyed_map:
  "length (MergeDirectContext L clock previous current) \<le> 8 \<and>
   distinct (map (merge_key L) (MergeDirectContext L clock previous current)) \<and>
   map (\<lambda>r. fold (\<lambda>v. keyed_merge L clock (stamp v)) (take 8 current @ take 8 previous) Map.empty (merge_key L r))
     (MergeDirectContext L clock previous current) = map Some (MergeDirectContext L clock previous current)"
proof -
  let ?st = "merge_all L clock previous current"
  let ?m = "fold (\<lambda>v. keyed_merge L clock (stamp v)) (take 8 current @ take 8 previous) Map.empty"
  have st: "indexed L ?st" "rows_map ?st = ?m"
    using merged_all_rows [of L clock "take 8 current @ take 8 previous"]
    by (simp_all add: merge_all_def DirectContextLimit_def rows_map_def)
  then have "r \<in> set (snd ?st) \<Longrightarrow> ?m (merge_key L r) = Some r" for r
    using indexed_rows by metis
  with bound_rows_facts [of "snd ?st" "merge_key L"]
  have "map (\<lambda>r. ?m (merge_key L r)) (bound_rows (snd ?st)) = map Some (bound_rows (snd ?st))"
    by (intro map_cong refl) blast
  with bound_rows_facts [of "snd ?st" "merge_key L"] indexed_distinct [OF st(1)] show ?thesis
    by (simp add: MergeDirectContext_def DirectContextLimit_def)
qed

subsection \<open>Valid relations stay valid\<close>

definition object_ok :: "url_lib \<Rightarrow> clock \<Rightarrow> Source \<Rightarrow> ContextObject \<Rightarrow> bool" where
  "object_ok L clock source obj \<longleftrightarrow> (\<forall>c \<in> set (object_checks L clock source obj). \<not> fst c)"

definition relation_ok :: "url_lib \<Rightarrow> clock \<Rightarrow> Source \<Rightarrow> DirectContext \<Rightarrow> bool" where
  "relation_ok L clock source v \<longleftrightarrow>
     (\<forall>c \<in> set (relation_checks L clock source v). \<not> fst c) \<and>
     object_ok L clock source (dc_Target v) \<and> (\<forall>p. dc_Parent v = Some p \<longrightarrow> object_ok L clock source p)"

lemma ValidateDirectContext_None:
  "ValidateDirectContext L clock source vs = None \<longleftrightarrow>
   length vs \<le> 8 \<and> (\<forall>v \<in> set vs. relation_ok L clock source v)"
proof -
  have objs: "(\<forall>o' \<in> set (context_objects v). object_ok L clock source o') \<longleftrightarrow>
      object_ok L clock source (dc_Target v) \<and> (\<forall>p. dc_Parent v = Some p \<longrightarrow> object_ok L clock source p)" for v
    by (cases "dc_Parent v") (simp_all add: context_objects_def)
  have "ValidateDirectContext L clock source vs = None \<longleftrightarrow> length vs \<le> 8 \<and>
      (\<forall>v \<in> set vs. (\<forall>c \<in> set (relation_checks L clock source v). \<not> fst c) \<and>
        (\<forall>o' \<in> set (context_objects v). object_ok L clock source o'))"
    unfolding ValidateDirectContext_def first_error_None object_ok_def DirectContextLimit_def
    by (auto simp: ball_Un)
  then show ?thesis by (simp only: objs relation_ok_def)
qed

lemma object_ok_stamp:
  assumes "object_ok L clock source obj" "t = [] \<or> clock t \<noteq> None"
  shows "object_ok L clock source (stamp_object t obj)"
proof -
  let ?time = "\<lambda>t. (t \<noteq> [] \<and> clock t = None, ''invalid context object capture time'')"
  have "object_checks L clock source (obj\<lparr>co_CapturedAt := t\<rparr>) =
      (object_checks L clock source obj)[4 := ?time t]"
    by (simp add: object_checks_def has_body_def)
  then have "set (object_checks L clock source (obj\<lparr>co_CapturedAt := t\<rparr>)) \<subseteq>
      insert (?time t) (set (object_checks L clock source obj))"
    using set_update_subset_insert by metis
  with assms show ?thesis by (auto simp: object_ok_def stamp_object_def)
qed

lemma relation_checks_stamp: "relation_checks L clock source (stamp v) = relation_checks L clock source v"
  by (simp add: relation_checks_def stamp_def)

lemma relation_ok_stamp:
  assumes "relation_ok L clock source v"
  shows "relation_ok L clock source (stamp v)"
proof -
  have "(dc_CapturedAt v \<noteq> [] \<and> clock (dc_CapturedAt v) = None, ''invalid direct context capture time'')
      \<in> set (relation_checks L clock source v)"
    by (simp add: relation_checks_def)
  with assms have "dc_CapturedAt v = [] \<or> clock (dc_CapturedAt v) \<noteq> None"
    unfolding relation_ok_def by fastforce
  with assms object_ok_stamp show ?thesis
    unfolding relation_ok_def relation_checks_stamp by (simp add: stamp_def) blast
qed

lemma relation_checks_update:
  assumes "\<forall>c \<in> set (relation_checks L clock source v). \<not> fst c" "p \<noteq> None \<Longrightarrow> dc_Kind v = ''feed_reply''"
  shows "\<forall>c \<in> set (relation_checks L clock source (v\<lparr>dc_Target := t, dc_Parent := p\<rparr>)). \<not> fst c"
proof -
  have "relation_checks L clock source (v\<lparr>dc_Target := t, dc_Parent := p\<rparr>) =
      butlast (relation_checks L clock source v) @
      [(p \<noteq> None \<and> dc_Kind v \<noteq> ''feed_reply'', ''parent only applies to comment replies'')]"
    by (simp add: relation_checks_def)
  moreover have "\<not> (p \<noteq> None \<and> dc_Kind v \<noteq> ''feed_reply'')" using assms(2) by blast
  ultimately show ?thesis using assms(1) by (auto dest: in_set_butlastD)
qed

text \<open>A valid relation kind has no line feed, so relations of one key are of one kind.\<close>

lemma relation_ok_kind:
  "relation_ok L clock source v \<Longrightarrow> dc_Kind v \<in> {''quotes'', ''replies_to'', ''feed_comment'', ''feed_reply''}"
proof -
  assume ok: "relation_ok L clock source v"
  have "(source = SourceX \<and> dc_Kind v \<noteq> ''quotes'' \<and> dc_Kind v \<noteq> ''replies_to'' \<or>
         source = SourceLinkedIn \<and> dc_Kind v \<noteq> ''feed_comment'' \<and> dc_Kind v \<noteq> ''feed_reply'' \<or>
         source \<noteq> SourceX \<and> source \<noteq> SourceLinkedIn,
       ''unsupported direct context relation'') \<in> set (relation_checks L clock source v)"
    by (simp add: relation_checks_def)
  with ok show ?thesis unfolding relation_ok_def by fastforce
qed

text \<open>Only a reply has a parent.\<close>

lemma relation_ok_parent:
  assumes "relation_ok L clock source v" "dc_Parent v \<noteq> None"
  shows "dc_Kind v = ''feed_reply''"
proof -
  have "(dc_Parent v \<noteq> None \<and> dc_Kind v \<noteq> ''feed_reply'', ''parent only applies to comment replies'')
      \<in> set (relation_checks L clock source v)"
    by (simp add: relation_checks_def)
  with assms show ?thesis unfolding relation_ok_def by fastforce
qed

lemma before_separator:
  assumes "x @ c # y = x' @ c # y'" "c \<notin> set x" "c \<notin> set x'"
  shows "x = x' \<and> y = y'"
  using assms by (induction x arbitrary: x') (auto simp: Cons_eq_append_conv append_eq_Cons_conv)

lemma merge_key_form:
  obtains rest where "merge_key L v = dc_Kind v @ CHR 0x0A #
    (if dc_ActorURL v = [] then dc_Actor v else dc_ActorURL v) @ CHR 0x0A # ContextObjectIdentity L (dc_Target v) @ rest"
    "ContextObjectIdentity L (dc_Target v) = [] \<longleftrightarrow> rest \<noteq> []" "rest \<noteq> [] \<longrightarrow> hd rest = CHR 0x0A"
proof (cases "ContextObjectIdentity L (dc_Target v) = []")
  case True
  then show ?thesis
    by (intro that [of "CHR 0x0A # dc_ObservedText v @ CHR 0x0A # co_Author (dc_Target v) @ CHR 0x0A # co_Text (dc_Target v)"])
      (simp_all add: merge_key_def Let_def)
next
  case False
  then show ?thesis by (intro that [of "[]"]) (simp_all add: merge_key_def Let_def)
qed

lemma merge_key_kind:
  assumes "merge_key L r = merge_key L v" "relation_ok L clock source r" "relation_ok L clock source v"
  shows "dc_Kind r = dc_Kind v"
proof -
  have "CHR 0x0A \<notin> set (dc_Kind r)" "CHR 0x0A \<notin> set (dc_Kind v)"
    using relation_ok_kind [OF assms(2)] relation_ok_kind [OF assms(3)] by auto
  moreover obtain x y where "merge_key L r = dc_Kind r @ CHR 0x0A # x" "merge_key L v = dc_Kind v @ CHR 0x0A # y"
    using merge_key_form by metis
  ultimately show ?thesis using before_separator assms(1) by metis
qed

lemma object_ok_merge:
  "object_ok L clock source p \<Longrightarrow> object_ok L clock source c \<Longrightarrow>
   object_ok L clock source (mergeContextObject L clock p c)"
  by (rule mergeContextObject_cases [of L clock p c]) simp_all

lemma relation_ok_merge_rows:
  assumes "relation_ok L clock source r" "relation_ok L clock source v" "merge_key L r = merge_key L v"
  shows "relation_ok L clock source (merge_rows L clock r v)"
proof -
  define row where "row = (if contextCaptureNewer clock (dc_CapturedAt v) (dc_CapturedAt r) then v else r)"
  define other where "other = (if contextCaptureNewer clock (dc_CapturedAt v) (dc_CapturedAt r) then r else v)"
  let ?m = "merge_rows L clock r v"
  note sel = merge_rows_sel [OF row_def other_def, of L]
  have ok: "relation_ok L clock source row" "relation_ok L clock source other" "dc_Kind row = dc_Kind other"
    using assms(1,2) merge_key_kind [OF assms(3,1,2)] by (simp_all add: row_def other_def)
  have parent: "dc_Parent ?m = (case (dc_Parent row, dc_Parent other) of
      (None, Some p) \<Rightarrow> Some p | (Some q, Some p) \<Rightarrow> Some (mergeContextObject L clock p q) | (q, None) \<Rightarrow> q)"
    unfolding merge_rows_def Let_def row_def other_def by simp
  have "dc_Parent ?m \<noteq> None \<Longrightarrow> dc_Kind row = ''feed_reply''"
    using relation_ok_parent [OF ok(1)] relation_ok_parent [OF ok(2)] ok(3) parent
    by (cases "dc_Parent row"; cases "dc_Parent other") simp_all
  moreover have "\<forall>c \<in> set (relation_checks L clock source row). \<not> fst c" using ok(1) by (simp add: relation_ok_def)
  ultimately have "\<forall>c \<in> set (relation_checks L clock source ?m). \<not> fst c"
    by (subst sel [THEN conjunct2]) (rule relation_checks_update)
  moreover have "object_ok L clock source (dc_Target ?m)"
    using ok sel object_ok_merge by (simp add: relation_ok_def)
  moreover have "\<forall>p. dc_Parent ?m = Some p \<longrightarrow> object_ok L clock source p"
    using ok parent object_ok_merge
    by (cases "dc_Parent row"; cases "dc_Parent other") (auto simp: relation_ok_def)
  ultimately show ?thesis by (simp add: relation_ok_def)
qed

definition rows_ok :: "url_lib \<Rightarrow> clock \<Rightarrow> Source \<Rightarrow> (string \<rightharpoonup> DirectContext) \<Rightarrow> bool" where
  "rows_ok L clock source m \<longleftrightarrow> (\<forall>k r. m k = Some r \<longrightarrow> merge_key L r = k \<and> relation_ok L clock source r)"

lemma rows_ok_keyed_merge:
  assumes "rows_ok L clock source m" "relation_ok L clock source v"
  shows "rows_ok L clock source (keyed_merge L clock v m)"
proof -
  have "merge_key L r = merge_key L v \<and> relation_ok L clock source r"
    if "keyed_merge L clock v m (merge_key L v) = Some r" for r
  proof (cases "m (merge_key L v)")
    case None
    with that assms(2) show ?thesis by (simp add: keyed_merge_def)
  next
    case (Some row)
    with assms(1) have row: "merge_key L row = merge_key L v" "relation_ok L clock source row"
      by (simp_all add: rows_ok_def)
    show ?thesis
    proof (cases "ContextObjectIdentity L (dc_Target v) = []")
      case True
      with that Some row show ?thesis by (simp add: keyed_merge_def)
    next
      case False
      with that Some have "r = merge_rows L clock row v" by (simp add: keyed_merge_def)
      with merge_key_merge_rows [OF row(1) refl] relation_ok_merge_rows [OF row(2) assms(2) row(1)]
      show ?thesis by simp
    qed
  qed
  moreover have "keyed_merge L clock v m k = m k" if "k \<noteq> merge_key L v" for k
    using that by (simp add: keyed_merge_def Let_def)
  ultimately show ?thesis using assms(1) unfolding rows_ok_def by metis
qed

lemma rows_ok_fold:
  "rows_ok L clock source m \<Longrightarrow> \<forall>v \<in> set vs. relation_ok L clock source v \<Longrightarrow>
   rows_ok L clock source (fold (\<lambda>v. keyed_merge L clock (stamp v)) vs m)"
  by (induction vs arbitrary: m) (simp_all add: rows_ok_keyed_merge relation_ok_stamp)

lemma merge_all_valid:
  assumes "ValidateDirectContext L clock source previous = None" "ValidateDirectContext L clock source current = None"
  shows "indexed L (merge_all L clock previous current) \<and>
    rows_map (merge_all L clock previous current) =
      fold (\<lambda>v. keyed_merge L clock (stamp v)) (current @ previous) Map.empty \<and>
    (\<forall>v \<in> set (current @ previous). relation_ok L clock source v)"
proof -
  note ok = assms [unfolded ValidateDirectContext_None]
  have "merge_all L clock previous current = fold (merge_value L clock) (current @ previous) (Map.empty, [])"
    using ok by (simp add: merge_all_def DirectContextLimit_def)
  with merged_all_rows [of L clock "current @ previous"] ok show ?thesis
    by (auto simp: rows_map_def)
qed

text \<open>C17. Merging two valid observations of a post gives a valid one: every check that
  \<open>ValidateDirectContext\<close> makes on a relation, on its target and on its parent still passes, and the
  number of relations stays within the limit.\<close>

theorem merge_keeps_direct_context_valid:
  assumes "ValidateDirectContext L clock source previous = None" "ValidateDirectContext L clock source current = None"
  shows "ValidateDirectContext L clock source (MergeDirectContext L clock previous current) = None"
proof -
  let ?st = "merge_all L clock previous current"
  note st = merge_all_valid [OF assms]
  have "rows_ok L clock source (rows_map ?st)"
    using st rows_ok_fold [of L clock source Map.empty "current @ previous"] by (simp add: rows_ok_def)
  then have "\<forall>r \<in> set (snd ?st). relation_ok L clock source r"
    using st indexed_rows unfolding rows_ok_def by metis
  with bound_rows_facts [of "snd ?st" "merge_key L"] show ?thesis
    by (auto simp: ValidateDirectContext_None MergeDirectContext_def DirectContextLimit_def)
qed

subsection \<open>Captured bodies survive\<close>

text \<open>The parts of a key have no line feed, so that the key determines them.\<close>

definition plain_key :: "url_lib \<Rightarrow> DirectContext \<Rightarrow> bool" where
  "plain_key L v \<longleftrightarrow>
     CHR 0x0A \<notin> set (dc_Kind v) \<and> CHR 0x0A \<notin> set (dc_Actor v) \<and> CHR 0x0A \<notin> set (dc_ActorURL v) \<and>
     CHR 0x0A \<notin> set (ContextObjectIdentity L (dc_Target v))"














lemma plain_key_stamp [simp]: "plain_key L (stamp v) = plain_key L v"
  by (simp add: plain_key_def stamp_def)

lemma identity_stamp [simp]: "ContextObjectIdentity L (dc_Target (stamp v)) = ContextObjectIdentity L (dc_Target v)"
  by (simp add: stamp_def)

lemma has_body_stamp [simp]: "has_body (dc_Target (stamp v)) = has_body (dc_Target v)"
  by (simp add: stamp_def)



subsection \<open>Concrete observations\<close>

text \<open>A comment that was captured with its body, and its later recapture as a bare reference.\<close>

definition sample_comment :: "string \<Rightarrow> string \<Rightarrow> string \<Rightarrow> DirectContext" where
  "sample_comment text availability captured =
     \<lparr>dc_Kind = ''feed_comment'', dc_Actor = ''Ada'', dc_ActorURL = [], dc_ObservedText = [], dc_MatchBasis = [],
      dc_OmittedCommentCount = 0, dc_CommentReadErrorCount = 0, dc_Provenance = ''observed_dom'',
      dc_CapturedAt = captured,
      dc_Target = \<lparr>co_Kind = ''comment'', co_ID = ''urn:li:comment:7'', co_Permalink = [], co_Author = ''Ada'',
        co_Text = text, co_HasMedia = False, co_Availability = availability, co_CaptureReason = [],
        co_EvidenceOrigin = [], co_CapturedAt = []\<rparr>,
      dc_Parent = None\<rparr>"

definition sample_clock :: clock where
  "sample_clock s = (if s = ''t1'' then Some 1 else if s = ''t2'' then Some 2 else None)"

abbreviation "captured_comment \<equiv> sample_comment ''hi'' ''captured'' ''t1''"
abbreviation "recaptured_comment \<equiv> sample_comment [] ''reference_only'' ''t2''"

lemma sample_comments_valid:
  "ValidateDirectContext sample_lib sample_clock SourceLinkedIn [captured_comment] = None"
  "ValidateDirectContext sample_lib sample_clock SourceLinkedIn [recaptured_comment] = None"
  by code_simp+

theorem merge_keeps_direct_context_valid_witness:
  "ValidateDirectContext sample_lib sample_clock SourceLinkedIn
     (MergeDirectContext sample_lib sample_clock [captured_comment] [recaptured_comment]) = None"
  by (rule merge_keeps_direct_context_valid [OF sample_comments_valid])


end
