(* ===== verification/Reconcile.thy ===== *)
theory Reconcile
  imports Direct_Context Go_Regexp
begin

text \<open>
  \<open>src/internal/capture/reconcile.go\<close>: repeated captures of one post get one evidence identity. The
  blocks of all snapshots are grouped by a content signature; a group is ambiguous when its native
  identities or its metadata disagree, and is then left alone. The maps of the Go code that collect
  the evidence of a group are the fields of the record \<open>evidence\<close>, functions of the signature. A
  \<open>map[string]any\<close> is a partial map, nil being the empty one; of \<open>MediaRecovery\<close> the code needs its
  length, so it is a list of entries. \<open>time.Parse\<close> and \<open>Time.Format\<close> in UTC are the record \<open>time_lib\<close>.
\<close>

record time_lib =
  tl_parse :: clock
  tl_format :: "int \<Rightarrow> string"

record Attachment =
  at_Kind :: string
  at_Title :: string
  at_Subtitle :: string
  at_Detail :: string
  at_ActionLabel :: string
  at_Footnote :: string
  at_URL :: string
  at_Domain :: string
  at_ImageURL :: string
  at_Verified :: bool

record Block =
  bl_EvidenceKey :: string
  bl_Author :: string
  bl_AvatarURL :: string
  bl_Text :: string
  bl_Permalink :: string
  bl_PublishedAt :: "string option"
  bl_PlatformID :: string
  bl_ContentKind :: string
  bl_RelationshipType :: string
  bl_ParentPermalink :: string
  bl_QuotedPost :: jmap
  bl_DirectContext :: "DirectContext list"
  bl_Engagement :: jmap
  bl_Presentation :: jmap
  bl_Attachments :: "Attachment list"
  bl_Media :: "jmap list"
  bl_Links :: "jmap list"
  bl_MediaRecovery :: "(string \<times> json) list"
  bl_CaptureQuality :: jmap
  bl_FeedPosition :: int

record CandidateDiagnostics =
  cd_StructuralCandidates :: int
  cd_EligibleCandidates :: int
  cd_VisibleEligibleCandidates :: int
  cd_ActionAnchoredCandidates :: int
  cd_AdmittedReasons :: "string \<rightharpoonup> int"
  cd_RejectedReasons :: "string \<rightharpoonup> int"

record Snapshot =
  sn_Index :: int
  sn_AdapterVersion :: string
  sn_SelectorStrategy :: string
  sn_SelectorCounts :: "string \<rightharpoonup> int"
  sn_SelectorCandidateCount :: int
  sn_StructuralCandidateCount :: int
  sn_VisibleContainerCount :: int
  sn_CandidateDiagnostics :: "CandidateDiagnostics option"
  sn_CapturedAt :: string
  sn_ScrollY :: int
  sn_ViewportHeight :: int
  sn_NewCandidateCount :: int
  sn_Blocks :: "Block list"
  sn_QualityReports :: "jmap list"

subsection \<open>Attachments\<close>

definition https_url :: "url_lib \<Rightarrow> string \<Rightarrow> bool" where
  "https_url L raw =
     (case ul_parse L raw of None \<Rightarrow> False | Some u \<Rightarrow> ur_Scheme u = ''https'' \<and> ur_Host u \<noteq> [])"

datatype attachment_error =
    UnsupportedKind string
  | BadTitle
  | LongField string
  | LongActionLabel
  | BadURL
  | BadImageURL

text \<open>Go ranges over the four labelled fields in an order of its own; \<open>order\<close> is that order.\<close>

definition attachment_field :: "Attachment \<Rightarrow> string \<Rightarrow> string" where
  "attachment_field a label =
     (if label = ''subtitle'' then at_Subtitle a
      else if label = ''detail'' then at_Detail a
      else if label = ''footnote'' then at_Footnote a
      else at_Domain a)"

definition Attachment_Validate :: "url_lib \<Rightarrow> string list \<Rightarrow> Attachment \<Rightarrow> attachment_error option" where
  "Attachment_Validate L order a =
     first_error
       ([(at_Kind a \<noteq> ''job'' \<and> at_Kind a \<noteq> ''link_preview'' \<and> at_Kind a \<noteq> ''document'', UnsupportedKind (at_Kind a)),
         (trim_space (at_Title a) = [] \<or> rune_count (at_Title a) > 300, BadTitle)] @
        map (\<lambda>label. (rune_count (attachment_field a label) > 300, LongField label)) order @
        [(rune_count (at_ActionLabel a) > 80, LongActionLabel),
         (\<not> https_url L (at_URL a), BadURL),
         (at_ImageURL a \<noteq> [] \<and> \<not> https_url L (at_ImageURL a), BadImageURL)])"

subsection \<open>Signatures and identities\<close>

definition punctuation :: "char \<Rightarrow> bool" where
  "punctuation c \<longleftrightarrow> c \<in> set ''.,!?;:''"

lemma dropWhile_twice_shorter: "dropWhile P xs = p # rest \<Longrightarrow> length (dropWhile Q rest) < length xs"
  by (metis Suc_le_lessD le_trans length_Cons length_dropWhile_le not_less_eq_eq)

text \<open>\<open>punctuationSpacing.ReplaceAllString(text, "$1")\<close>: white space around punctuation goes.\<close>

function close_punctuation :: "string \<Rightarrow> string" where
  "close_punctuation [] = []"
| "close_punctuation (c # s) =
     (case dropWhile rx_space (c # s) of
        p # rest \<Rightarrow>
          if punctuation p then p # close_punctuation (dropWhile rx_space rest) else c # close_punctuation s
      | [] \<Rightarrow> c # close_punctuation s)"
  by pat_completeness auto
termination
  by (relation "measure length")
    (auto simp del: dropWhile.simps dest: dropWhile_twice_shorter [where Q = rx_space])

definition ContentSignature :: "Source \<Rightarrow> Block \<Rightarrow> string" where
  "ContentSignature source b =
     (let author = to_lower (join '' '' (str_fields (bl_Author b)));
          text = trim_space (close_punctuation (to_lower (join '' '' (str_fields (bl_Text b)))))
      in if author = [] \<or> length text < 80 then []
         else source @ [CHR 0x00] @ author @ [CHR 0x00] @ text)"

definition hasStableIdentity :: "Block \<Rightarrow> bool" where
  "hasStableIdentity b \<longleftrightarrow> bl_EvidenceKey b \<noteq> [] \<and> (bl_PlatformID b \<noteq> [] \<or> bl_Permalink b \<noteq> [])"

definition stableIdentity :: "Block \<Rightarrow> string" where
  "stableIdentity b =
     (if trim_space (bl_PlatformID b) \<noteq> [] then ''platform:'' @ to_lower (trim_space (bl_PlatformID b))
      else if trim_space (bl_Permalink b) \<noteq> [] then ''permalink:'' @ trim_space (bl_Permalink b)
      else [])"

definition normalizeIdentityTimestamp :: "time_lib \<Rightarrow> string \<Rightarrow> string" where
  "normalizeIdentityTimestamp T raw =
     (case tl_parse T (trim_space raw) of None \<Rightarrow> trim_space raw | Some t \<Rightarrow> tl_format T t)"

definition reconciliationPublishedAt :: "time_lib \<Rightarrow> Block \<Rightarrow> string" where
  "reconciliationPublishedAt T b =
     (if bool_at (bl_Presentation b) ''timestampEstimated'' then []
      else (case bl_PublishedAt b of None \<Rightarrow> [] | Some t \<Rightarrow> normalizeIdentityTimestamp T t))"

definition reconciliationMetadataCompatible :: "time_lib \<Rightarrow> Block \<Rightarrow> Block \<Rightarrow> bool" where
  "reconciliationMetadataCompatible T previous current =
     (let previousKind = to_lower (trim_space (bl_ContentKind previous));
          currentKind = to_lower (trim_space (bl_ContentKind current));
          previousPublishedAt = reconciliationPublishedAt T previous;
          currentPublishedAt = reconciliationPublishedAt T current
      in if previousKind \<noteq> [] \<and> currentKind \<noteq> [] \<and> previousKind \<noteq> currentKind then False
         else previousPublishedAt = [] \<or> currentPublishedAt = [] \<or> previousPublishedAt = currentPublishedAt)"

subsection \<open>Merging two captures\<close>

definition earlierFeedPosition :: "int \<Rightarrow> int \<Rightarrow> int" where
  "earlierFeedPosition previous current =
     (if previous \<le> 0 then current
      else if current \<le> 0 \<or> previous < current then previous
      else current)"

definition mergeMaps :: "jmap \<Rightarrow> jmap \<Rightarrow> jmap" where
  "mergeMaps previous current = previous ++ current"

definition link_key :: "jmap \<Rightarrow> string" where
  "link_key link =
     (let key = trim_space (string_at link ''href'')
      in if key = [] then trim_space (string_at link ''url'') else key)"

text \<open>\<open>room\<close> is what is left of the ten places; the code tests for ten after each append.\<close>

fun merge_links_loop :: "string list \<Rightarrow> nat \<Rightarrow> jmap list \<Rightarrow> jmap list" where
  "merge_links_loop seen room [] = []"
| "merge_links_loop seen room (link # links) =
     (let key = link_key link
      in if key \<noteq> [] \<and> key \<in> set seen then merge_links_loop seen room links
         else if room \<le> 1 then [link]
         else link # merge_links_loop (if key \<noteq> [] then key # seen else seen) (room - 1) links)"

definition mergeLinks :: "jmap list \<Rightarrow> jmap list \<Rightarrow> jmap list" where
  "mergeLinks previous current = merge_links_loop [] 10 (previous @ current)"

definition attachment_key :: "Attachment \<Rightarrow> string option" where
  "attachment_key a = (if trim_space (at_URL a) = [] then None else Some (trim_space (at_URL a)))"

definition mergeAttachments :: "Attachment list \<Rightarrow> Attachment list \<Rightarrow> Attachment list" where
  "mergeAttachments previous current = collect_unique attachment_key 3 [] (previous @ current)"

definition or_previous :: "string \<Rightarrow> string \<Rightarrow> string" where
  "or_previous current previous = (if current = [] then previous else current)"

definition mergeBlock :: "url_lib \<Rightarrow> time_lib \<Rightarrow> Block \<Rightarrow> Block \<Rightarrow> Block" where
  "mergeBlock L T previous current =
     current\<lparr>
       bl_Author := or_previous (bl_Author current) (bl_Author previous),
       bl_AvatarURL := or_previous (bl_AvatarURL current) (bl_AvatarURL previous),
       bl_Text := (if length (bl_Text previous) > length (bl_Text current) then bl_Text previous else bl_Text current),
       bl_Permalink := or_previous (bl_Permalink current) (bl_Permalink previous),
       bl_PlatformID := or_previous (bl_PlatformID current) (bl_PlatformID previous),
       bl_PublishedAt := (case bl_PublishedAt current of None \<Rightarrow> bl_PublishedAt previous | Some t \<Rightarrow> Some t),
       bl_ContentKind := or_previous (bl_ContentKind current) (bl_ContentKind previous),
       bl_RelationshipType := or_previous (bl_RelationshipType current) (bl_RelationshipType previous),
       bl_ParentPermalink := or_previous (bl_ParentPermalink current) (bl_ParentPermalink previous),
       bl_FeedPosition := earlierFeedPosition (bl_FeedPosition previous) (bl_FeedPosition current),
       bl_Engagement := mergeMaps (bl_Engagement previous) (bl_Engagement current),
       bl_Presentation := mergeMaps (bl_Presentation previous) (bl_Presentation current),
       bl_QuotedPost := mergeMaps (bl_QuotedPost previous) (bl_QuotedPost current),
       bl_DirectContext := MergeDirectContext L (tl_parse T) (bl_DirectContext previous) (bl_DirectContext current),
       bl_CaptureQuality := mergeMaps (bl_CaptureQuality previous) (bl_CaptureQuality current),
       bl_Attachments := mergeAttachments (bl_Attachments previous) (bl_Attachments current),
       bl_Media := (if length (bl_Media previous) > length (bl_Media current) then bl_Media previous else bl_Media current),
       bl_MediaRecovery :=
         (if length (bl_Media previous) > length (bl_Media current) \<or> bl_MediaRecovery current = []
          then bl_MediaRecovery previous else bl_MediaRecovery current),
       bl_Links := mergeLinks (bl_Links previous) (bl_Links current)\<rparr>"

subsection \<open>Evidence per signature\<close>

record evidence =
  ev_NativeIDs :: "string \<Rightarrow> string list"
  ev_Metadata :: "string \<rightharpoonup> Block"
  ev_MetadataConflict :: "string \<Rightarrow> bool"
  ev_Fallback :: "string \<Rightarrow> bool"

definition no_evidence :: evidence where
  "no_evidence = \<lparr>ev_NativeIDs = (\<lambda>_. []), ev_Metadata = Map.empty, ev_MetadataConflict = (\<lambda>_. False), ev_Fallback = (\<lambda>_. False)\<rparr>"

definition observe_metadata :: "time_lib \<Rightarrow> string \<Rightarrow> Block \<Rightarrow> evidence \<Rightarrow> evidence" where
  "observe_metadata T sig b ev =
     (case ev_Metadata ev sig of
        Some previous \<Rightarrow>
          if reconciliationMetadataCompatible T previous b then ev
          else ev\<lparr>ev_MetadataConflict := (ev_MetadataConflict ev)(sig := True)\<rparr>
      | None \<Rightarrow> ev\<lparr>ev_Metadata := (ev_Metadata ev)(sig \<mapsto> b)\<rparr>)"

definition observe :: "time_lib \<Rightarrow> Source \<Rightarrow> Block \<Rightarrow> evidence \<Rightarrow> evidence" where
  "observe T source b ev =
     (let sig = ContentSignature source b; nativeID = stableIdentity b
      in if sig = [] then ev
         else
           let ev' = observe_metadata T sig b ev
           in if nativeID = [] then ev'\<lparr>ev_Fallback := (ev_Fallback ev')(sig := True)\<rparr>
              else ev'\<lparr>ev_NativeIDs := (ev_NativeIDs ev')(sig := List.insert nativeID (ev_NativeIDs ev' sig))\<rparr>)"

definition gather :: "time_lib \<Rightarrow> Source \<Rightarrow> Block list \<Rightarrow> evidence" where
  "gather T source bs = fold (observe T source) bs no_evidence"

definition ambiguous :: "evidence \<Rightarrow> string \<Rightarrow> bool" where
  "ambiguous ev sig =
     (let nativeCount = length (ev_NativeIDs ev sig);
          metadataConflict = (ev_MetadataConflict ev sig \<and> (ev_Fallback ev sig \<or> nativeCount \<noteq> 1))
      in metadataConflict \<or> nativeCount > 1)"

text \<open>One step of the second loop, and the block that represents each signature after it.\<close>

definition promote :: "url_lib \<Rightarrow> time_lib \<Rightarrow> Block \<Rightarrow> Block \<Rightarrow> Block" where
  "promote L T previous b =
     (let merged = mergeBlock L T previous b
      in if hasStableIdentity previous \<and> \<not> hasStableIdentity b then
           merged\<lparr>bl_Permalink := bl_Permalink previous, bl_PlatformID := bl_PlatformID previous,
                  bl_EvidenceKey := bl_EvidenceKey previous,
                  bl_Presentation := mergeMaps (bl_Presentation merged) (bl_Presentation previous)\<rparr>
         else merged)"

definition best_step ::
    "url_lib \<Rightarrow> time_lib \<Rightarrow> Source \<Rightarrow> evidence \<Rightarrow> Block \<Rightarrow> (string \<rightharpoonup> Block) \<Rightarrow> (string \<rightharpoonup> Block)" where
  "best_step L T source ev b best =
     (let sig = ContentSignature source b
      in if sig = [] \<or> ambiguous ev sig then best
         else (case best sig of
                 None \<Rightarrow> best(sig \<mapsto> b)
               | Some previous \<Rightarrow> best(sig \<mapsto> promote L T previous b)))"

definition best_blocks ::
    "url_lib \<Rightarrow> time_lib \<Rightarrow> Source \<Rightarrow> evidence \<Rightarrow> Block list \<Rightarrow> (string \<rightharpoonup> Block)" where
  "best_blocks L T source ev bs = fold (best_step L T source ev) bs Map.empty"

text \<open>The third loop, on one block. The code asks for ambiguity of the empty signature too; it was
  never recorded, so it has no evidence and no best block.\<close>

definition reconcile_block ::
    "url_lib \<Rightarrow> time_lib \<Rightarrow> Source \<Rightarrow> evidence \<Rightarrow> (string \<rightharpoonup> Block) \<Rightarrow> Block \<Rightarrow> Block" where
  "reconcile_block L T source ev bests b =
     (let sig = ContentSignature source b
      in if ambiguous ev sig then b
         else (case bests sig of
                 None \<Rightarrow> b
               | Some best \<Rightarrow>
                   if \<not> hasStableIdentity best then b
                   else
                     let merged = mergeBlock L T b best
                     in merged\<lparr>bl_FeedPosition := bl_FeedPosition b,
                               bl_Permalink := bl_Permalink best,
                               bl_PlatformID := (if bl_PlatformID best \<noteq> [] then bl_PlatformID best else bl_PlatformID merged),
                               bl_EvidenceKey := bl_EvidenceKey best,
                               bl_Presentation := mergeMaps (bl_Presentation b) (bl_Presentation best)\<rparr>))"

definition all_blocks :: "Snapshot list \<Rightarrow> Block list" where
  "all_blocks snapshots = concat (map sn_Blocks snapshots)"

definition ReconcileSnapshots :: "url_lib \<Rightarrow> time_lib \<Rightarrow> Source \<Rightarrow> Snapshot list \<Rightarrow> Snapshot list" where
  "ReconcileSnapshots L T source snapshots =
     (let ev = gather T source (all_blocks snapshots);
          bests = best_blocks L T source ev (all_blocks snapshots)
      in map (\<lambda>s. s\<lparr>sn_Blocks := map (reconcile_block L T source ev bests) (sn_Blocks s)\<rparr>) snapshots)"

subsection \<open>What is gathered and what represents a signature\<close>

definition captures_of :: "Source \<Rightarrow> string \<Rightarrow> Block list \<Rightarrow> Block list" where
  "captures_of source sig bs = filter (\<lambda>b. ContentSignature source b = sig) bs"

lemma observe_metadata_sel [simp]:
  "ev_NativeIDs (observe_metadata T sig b ev) = ev_NativeIDs ev"
  "ev_Fallback (observe_metadata T sig b ev) = ev_Fallback ev"
  by (simp_all add: observe_metadata_def split: option.splits)

lemma observe_native:
  "ev_NativeIDs (observe T source b ev) sig =
     (if ContentSignature source b = sig \<and> sig \<noteq> [] \<and> stableIdentity b \<noteq> []
      then List.insert (stableIdentity b) (ev_NativeIDs ev sig) else ev_NativeIDs ev sig)"
  by (auto simp: observe_def Let_def)

text \<open>The native identities of a signature are those of its captures, each once.\<close>

lemma gather_native:
  assumes "sig \<noteq> []"
  shows "distinct (ev_NativeIDs (gather T source bs) sig) \<and>
    set (ev_NativeIDs (gather T source bs) sig) = stableIdentity ` set (captures_of source sig bs) - {[]}"
proof (induction bs rule: rev_induct)
  case Nil
  show ?case by (simp add: gather_def no_evidence_def captures_of_def)
next
  case (snoc b bs)
  have "gather T source (bs @ [b]) = observe T source b (gather T source bs)" by (simp add: gather_def)
  with snoc assms show ?case by (auto simp: observe_native captures_of_def)
qed

lemma different_identities_ambiguous:
  assumes "b \<in> set bs" "c \<in> set bs" "ContentSignature source b = sig" "ContentSignature source c = sig" "sig \<noteq> []"
    and "stableIdentity b \<noteq> []" "stableIdentity c \<noteq> []" "stableIdentity b \<noteq> stableIdentity c"
  shows "ambiguous (gather T source bs) sig"
proof -
  let ?ids = "ev_NativeIDs (gather T source bs) sig"
  note g = gather_native [OF assms(5), of T source bs]
  have "{stableIdentity b, stableIdentity c} \<subseteq> set ?ids" using assms g by (auto simp: captures_of_def)
  then have "card {stableIdentity b, stableIdentity c} \<le> card (set ?ids)" by (intro card_mono) simp_all
  moreover have "card (set ?ids) = length ?ids" using g by (intro distinct_card) simp
  ultimately have "1 < length ?ids" using assms(8) by simp
  then show ?thesis by (simp add: ambiguous_def Let_def)
qed

text \<open>The second loop, per signature: the captures of an unambiguous signature are promoted into one
  block, in the order of capture.\<close>

lemma best_blocks_eq:
  "best_blocks L T source ev bs sig =
     (if sig = [] \<or> ambiguous ev sig then None
      else (case captures_of source sig bs of
              [] \<Rightarrow> None
            | b # cs \<Rightarrow> Some (fold (\<lambda>c best. promote L T best c) cs b)))"
proof (induction bs rule: rev_induct)
  case Nil
  show ?case by (simp add: best_blocks_def captures_of_def)
next
  case (snoc b bs)
  have step: "best_blocks L T source ev (bs @ [b]) = best_step L T source ev b (best_blocks L T source ev bs)"
    by (simp add: best_blocks_def)
  show ?case
  proof (cases "ContentSignature source b = sig")
    case True
    with snoc show ?thesis
      unfolding step by (auto simp: best_step_def Let_def captures_of_def split: list.splits)
  next
    case False
    have "best_step L T source ev b m sig = m sig" for m
      using False by (simp add: best_step_def Let_def split: option.splits)
    with False snoc show ?thesis unfolding step by (simp add: captures_of_def)
  qed
qed

lemma promote_sel:
  "bl_EvidenceKey (promote L T p b) =
     (if hasStableIdentity p \<and> \<not> hasStableIdentity b then bl_EvidenceKey p else bl_EvidenceKey b)"
  "bl_Permalink (promote L T p b) =
     (if hasStableIdentity p \<and> \<not> hasStableIdentity b then bl_Permalink p else or_previous (bl_Permalink b) (bl_Permalink p))"
  "bl_PlatformID (promote L T p b) =
     (if hasStableIdentity p \<and> \<not> hasStableIdentity b then bl_PlatformID p else or_previous (bl_PlatformID b) (bl_PlatformID p))"
  by (simp_all add: promote_def Let_def mergeBlock_def)

text \<open>A stable identity is never lost by promotion.\<close>

lemma promote_stable: "hasStableIdentity p \<or> hasStableIdentity b \<Longrightarrow> hasStableIdentity (promote L T p b)"
  by (auto simp: hasStableIdentity_def promote_sel or_previous_def)

lemma fold_promote_stable:
  "hasStableIdentity b \<or> (\<exists>c \<in> set cs. hasStableIdentity c) \<Longrightarrow>
   hasStableIdentity (fold (\<lambda>c best. promote L T best c) cs b)"
  by (induction cs arbitrary: b) (auto simp: promote_stable)




lemma best_block_stable:
  assumes "c \<in> set bs" "ContentSignature source c = sig" "sig \<noteq> []" "\<not> ambiguous ev sig" "hasStableIdentity c"
  obtains best where "best_blocks L T source ev bs sig = Some best" "hasStableIdentity best"
proof -
  have "c \<in> set (captures_of source sig bs)" using assms(1,2) by (simp add: captures_of_def)
  then obtain b cs where cs: "captures_of source sig bs = b # cs" "c = b \<or> c \<in> set cs"
    by (cases "captures_of source sig bs") auto
  with assms(5) have "hasStableIdentity (fold (\<lambda>c best. promote L T best c) cs b)"
    by (intro fold_promote_stable) auto
  with cs(1) assms(3,4) show ?thesis by (intro that) (simp_all add: best_blocks_eq)
qed

text \<open>The reconciled block: untouched, or the block with the identity of the best one.\<close>

lemma reconcile_block_cases:
  obtains (kept) "reconcile_block L T source ev bests b = b"
      "ambiguous ev (ContentSignature source b) \<or> bests (ContentSignature source b) = None \<or>
       (\<exists>best. bests (ContentSignature source b) = Some best \<and> \<not> hasStableIdentity best)"
  | (promoted) best where "bests (ContentSignature source b) = Some best" "hasStableIdentity best"
      "\<not> ambiguous ev (ContentSignature source b)"
      "bl_EvidenceKey (reconcile_block L T source ev bests b) = bl_EvidenceKey best"
      "bl_Permalink (reconcile_block L T source ev bests b) = bl_Permalink best"
      "bl_PlatformID best \<noteq> [] \<Longrightarrow> bl_PlatformID (reconcile_block L T source ev bests b) = bl_PlatformID best"
      "bl_FeedPosition (reconcile_block L T source ev bests b) = bl_FeedPosition b"
      "length (bl_Text b) \<le> length (bl_Text (reconcile_block L T source ev bests b))"
proof (cases "\<not> ambiguous ev (ContentSignature source b) \<and>
    (\<exists>best. bests (ContentSignature source b) = Some best \<and> hasStableIdentity best)")
  case True
  then obtain best where "bests (ContentSignature source b) = Some best" "hasStableIdentity best" by blast
  with True show ?thesis
    by (intro promoted [of best]) (simp_all add: reconcile_block_def Let_def mergeBlock_def)
next
  case False
  then show ?thesis
    by (intro kept) (auto simp: reconcile_block_def Let_def split: option.splits)
qed

definition block_at :: "Snapshot list \<Rightarrow> nat \<Rightarrow> nat \<Rightarrow> Block" where
  "block_at snapshots i j = sn_Blocks (snapshots ! i) ! j"

definition captured_at :: "Snapshot list \<Rightarrow> nat \<Rightarrow> nat \<Rightarrow> bool" where
  "captured_at snapshots i j \<longleftrightarrow> i < length snapshots \<and> j < length (sn_Blocks (snapshots ! i))"

definition group_evidence :: "time_lib \<Rightarrow> Source \<Rightarrow> Snapshot list \<Rightarrow> evidence" where
  "group_evidence T source snapshots = gather T source (all_blocks snapshots)"

lemma block_at_mem: "captured_at snapshots i j \<Longrightarrow> block_at snapshots i j \<in> set (all_blocks snapshots)"
  unfolding captured_at_def block_at_def all_blocks_def by (simp, metis nth_mem)

lemma block_at_reconciled:
  "captured_at snapshots i j \<Longrightarrow>
   block_at (ReconcileSnapshots L T source snapshots) i j =
     reconcile_block L T source (group_evidence T source snapshots)
       (best_blocks L T source (group_evidence T source snapshots) (all_blocks snapshots)) (block_at snapshots i j)"
  by (simp add: captured_at_def block_at_def ReconcileSnapshots_def Let_def group_evidence_def)

subsection \<open>One identity per post\<close>

text \<open>C14. Repeated captures of a post come out under one evidence identity: when one capture of an
  unambiguous signature has a stable native identity, every capture of that signature, in whichever
  snapshot, leaves reconciliation with a stable identity, and all of them with the same evidence
  key and the same permalink.\<close>

theorem repeated_captures_share_identity:
  assumes "captured_at snapshots i j" "captured_at snapshots i' j'" "captured_at snapshots n m"
    and "ContentSignature source (block_at snapshots i j) = sig"
    and "ContentSignature source (block_at snapshots i' j') = sig"
    and "ContentSignature source (block_at snapshots n m) = sig" "hasStableIdentity (block_at snapshots n m)"
    and "sig \<noteq> []" "\<not> ambiguous (group_evidence T source snapshots) sig"
  shows "hasStableIdentity (block_at (ReconcileSnapshots L T source snapshots) i j) \<and>
    bl_EvidenceKey (block_at (ReconcileSnapshots L T source snapshots) i j) =
      bl_EvidenceKey (block_at (ReconcileSnapshots L T source snapshots) i' j') \<and>
    bl_Permalink (block_at (ReconcileSnapshots L T source snapshots) i j) =
      bl_Permalink (block_at (ReconcileSnapshots L T source snapshots) i' j')"
proof -
  let ?ev = "group_evidence T source snapshots"
  let ?bests = "best_blocks L T source ?ev (all_blocks snapshots)"
  obtain best where best: "?bests sig = Some best" "hasStableIdentity best"
    using best_block_stable [OF block_at_mem [OF assms(3)] assms(6,8,9,7)] by blast
  have out: "hasStableIdentity (reconcile_block L T source ?ev ?bests b) \<and>
      bl_EvidenceKey (reconcile_block L T source ?ev ?bests b) = bl_EvidenceKey best \<and>
      bl_Permalink (reconcile_block L T source ?ev ?bests b) = bl_Permalink best"
    if "ContentSignature source b = sig" for b
  proof (cases rule: reconcile_block_cases [of L T source ?ev ?bests b])
    case kept
    with that assms(9) best show ?thesis by simp
  next
    case (promoted best')
    with that best show ?thesis by (auto simp: hasStableIdentity_def)
  qed
  from out [OF assms(4)] out [OF assms(5)] assms(1,2) show ?thesis
    by (simp add: block_at_reconciled)
qed


text \<open>Conflicting native identities are never merged: two captures that share a content signature
  but have different native identities (a platform identifier or a permalink) make the signature
  ambiguous, and every capture of it stays exactly as it was.\<close>

theorem conflicting_identities_left_alone:
  assumes "captured_at snapshots i j" "captured_at snapshots n m" "captured_at snapshots n' m'"
    and "ContentSignature source (block_at snapshots i j) = sig" "sig \<noteq> []"
    and "ContentSignature source (block_at snapshots n m) = sig" "ContentSignature source (block_at snapshots n' m') = sig"
    and "stableIdentity (block_at snapshots n m) \<noteq> []" "stableIdentity (block_at snapshots n' m') \<noteq> []"
    and "stableIdentity (block_at snapshots n m) \<noteq> stableIdentity (block_at snapshots n' m')"
  shows "block_at (ReconcileSnapshots L T source snapshots) i j = block_at snapshots i j"
proof -
  have "ambiguous (group_evidence T source snapshots) sig"
    unfolding group_evidence_def
    by (rule different_identities_ambiguous [OF block_at_mem [OF assms(2)] block_at_mem [OF assms(3)] assms(6,7,5,8,9,10)])
  with assms(1,4) show ?thesis by (simp add: block_at_reconciled reconcile_block_def)
qed

subsection \<open>Bounded lists and signatures\<close>

text \<open>The reference meaning of the link loop: the links whose key is empty or new, and of those the first ten.\<close>

fun new_links :: "string list \<Rightarrow> jmap list \<Rightarrow> jmap list" where
  "new_links seen [] = []"
| "new_links seen (link # links) =
     (if link_key link \<noteq> [] \<and> link_key link \<in> set seen then new_links seen links
      else link # new_links (link_key link # seen) links)"

lemma new_links_cong:
  "(\<And>k. k \<noteq> [] \<Longrightarrow> k \<in> set seen \<longleftrightarrow> k \<in> set seen') \<Longrightarrow> new_links seen links = new_links seen' links"
proof (induction links arbitrary: seen seen')
  case (Cons link links)
  have "link_key link \<noteq> [] \<and> link_key link \<in> set seen \<longleftrightarrow> link_key link \<noteq> [] \<and> link_key link \<in> set seen'"
    using Cons.prems by blast
  moreover have "new_links seen links = new_links seen' links" by (rule Cons.IH) (rule Cons.prems)
  moreover have "new_links (link_key link # seen) links = new_links (link_key link # seen') links"
    by (rule Cons.IH) (simp add: Cons.prems)
  ultimately show ?case unfolding new_links.simps by presburger
qed simp

lemma merge_links_loop_eq: "0 < room \<Longrightarrow> merge_links_loop seen room links = take room (new_links seen links)"
proof (induction links arbitrary: seen room)
  case (Cons link links)
  obtain n where n: "room = Suc n" using Cons.prems by (cases room) auto
  show ?case
  proof (cases "link_key link \<noteq> [] \<and> link_key link \<in> set seen")
    case True
    then show ?thesis using Cons by simp
  next
    case False
    let ?seen = "if link_key link \<noteq> [] then link_key link # seen else seen"
    have same: "new_links ?seen links = new_links (link_key link # seen) links"
      by (rule new_links_cong) simp
    show ?thesis
    proof (cases n)
      case 0
      with False n show ?thesis by auto
    next
      case (Suc k)
      have "merge_links_loop ?seen n links = take n (new_links (link_key link # seen) links)"
        using Cons.IH [of n ?seen] Suc same by (simp only:)
      with False n Suc show ?thesis by (simp only: merge_links_loop.simps new_links.simps Let_def if_False take_Suc_Cons) simp
    qed
  qed
qed simp

text \<open>The links of a merged block are the first ten of those, in the order previous then current,
  that have no address or an address not listed before.\<close>

theorem merged_links_are_first_ten_new:
  "bl_Links (mergeBlock L T previous current) = take 10 (new_links [] (bl_Links previous @ bl_Links current))"
  by (simp add: mergeBlock_def mergeLinks_def merge_links_loop_eq)

text \<open>At most three attachments, one per address.\<close>

lemma mergeAttachments_bound:
  "length (mergeAttachments previous current) \<le> 3 \<and> distinct (map attachment_key (mergeAttachments previous current))"
  using collect_unique_length [of 3 attachment_key "[]" "previous @ current"]
    collect_unique_distinct [of attachment_key 3 "[]" "previous @ current"]
  by (simp add: mergeAttachments_def)

text \<open>A signature does not see letter case or the amount of white space.\<close>

lemma signature_ignores_spacing:
  assumes "map to_lower (str_fields (bl_Text b)) = map to_lower (str_fields (bl_Text c))"
    and "map to_lower (str_fields (bl_Author b)) = map to_lower (str_fields (bl_Author c))"
  shows "ContentSignature source b = ContentSignature source c"
proof -
  have "to_lower (join '' '' fs) = join (to_lower '' '') (map to_lower fs)" for fs by (rule to_lower_join)
  then show ?thesis using assms by (simp add: ContentSignature_def Let_def)
qed

subsection \<open>Two concrete captures\<close>

definition sample_block :: "string \<Rightarrow> string \<Rightarrow> int \<Rightarrow> Block" where
  "sample_block key status position =
     \<lparr>bl_EvidenceKey = key, bl_Author = ''Ada'', bl_AvatarURL = [], bl_Text = replicate 80 CHR ''a'', bl_Permalink = [],
      bl_PublishedAt = None, bl_PlatformID = status, bl_ContentKind = [], bl_RelationshipType = [],
      bl_ParentPermalink = [], bl_QuotedPost = Map.empty, bl_DirectContext = [], bl_Engagement = Map.empty,
      bl_Presentation = Map.empty, bl_Attachments = [], bl_Media = [], bl_Links = [], bl_MediaRecovery = [],
      bl_CaptureQuality = Map.empty, bl_FeedPosition = position\<rparr>"

definition sample_snapshot :: "Block list \<Rightarrow> Snapshot" where
  "sample_snapshot bs =
     \<lparr>sn_Index = 0, sn_AdapterVersion = [], sn_SelectorStrategy = [], sn_SelectorCounts = Map.empty,
      sn_SelectorCandidateCount = 0, sn_StructuralCandidateCount = 0, sn_VisibleContainerCount = 0,
      sn_CandidateDiagnostics = None, sn_CapturedAt = [], sn_ScrollY = 0, sn_ViewportHeight = 0,
      sn_NewCandidateCount = 0, sn_Blocks = bs, sn_QualityReports = []\<rparr>"

definition sample_time :: time_lib where
  "sample_time = \<lparr>tl_parse = sample_clock, tl_format = (\<lambda>t. if t = 1 then ''t1'' else ''t2'')\<rparr>"

text \<open>A capture without a native identity, then one with it; and two with different ones.\<close>

definition repeated_capture :: "Snapshot list" where
  "repeated_capture = [sample_snapshot [sample_block [] [] 1], sample_snapshot [sample_block ''k7'' ''7'' 4]]"

definition conflicting_capture :: "Snapshot list" where
  "conflicting_capture = [sample_snapshot [sample_block ''k8'' ''8'' 1], sample_snapshot [sample_block ''k7'' ''7'' 4]]"

definition sample_sig :: string where
  "sample_sig = ContentSignature SourceX (sample_block [] [] 0)"

lemma sample_signature: "ContentSignature SourceX (sample_block key status position) = sample_sig"
  unfolding sample_sig_def by (rule signature_ignores_spacing) (simp_all add: sample_block_def)

lemma sample_sig_nonempty: "sample_sig \<noteq> []"
  by code_simp

lemma sample_captured:
  "captured_at repeated_capture 0 0" "captured_at repeated_capture 1 0"
  "captured_at conflicting_capture 0 0" "captured_at conflicting_capture 1 0"
  by (simp_all add: captured_at_def repeated_capture_def conflicting_capture_def sample_snapshot_def)

lemma sample_blocks:
  "block_at repeated_capture 0 0 = sample_block [] [] 1" "block_at repeated_capture (Suc 0) 0 = sample_block ''k7'' ''7'' 4"
  "block_at conflicting_capture 0 0 = sample_block ''k8'' ''8'' 1" "block_at conflicting_capture (Suc 0) 0 = sample_block ''k7'' ''7'' 4"
  by (simp_all add: block_at_def repeated_capture_def conflicting_capture_def sample_snapshot_def)

lemma sample_unambiguous:
  "\<not> ambiguous (group_evidence sample_time SourceX repeated_capture) sample_sig"
proof -
  have all: "all_blocks repeated_capture = [sample_block [] [] 1, sample_block ''k7'' ''7'' 4]"
    by (simp add: all_blocks_def repeated_capture_def sample_snapshot_def)
  have "reconciliationMetadataCompatible sample_time (sample_block [] [] 1) (sample_block ''k7'' ''7'' 4)"
    by (simp add: reconciliationMetadataCompatible_def sample_block_def reconciliationPublishedAt_def Let_def)
  moreover have "stableIdentity (sample_block [] [] 1) = []" by code_simp
  moreover have "stableIdentity (sample_block ''k7'' ''7'' 4) = ''platform:7''" by code_simp
  ultimately show ?thesis
    by (simp add: group_evidence_def gather_def all observe_def observe_metadata_def sample_signature sample_sig_nonempty no_evidence_def
        ambiguous_def Let_def)
qed

theorem repeated_captures_share_identity_witness:
  "hasStableIdentity (block_at (ReconcileSnapshots sample_lib sample_time SourceX repeated_capture) 0 0) \<and>
   bl_EvidenceKey (block_at (ReconcileSnapshots sample_lib sample_time SourceX repeated_capture) 0 0) =
     bl_EvidenceKey (block_at (ReconcileSnapshots sample_lib sample_time SourceX repeated_capture) 1 0) \<and>
   bl_Permalink (block_at (ReconcileSnapshots sample_lib sample_time SourceX repeated_capture) 0 0) =
     bl_Permalink (block_at (ReconcileSnapshots sample_lib sample_time SourceX repeated_capture) 1 0)"
proof (rule repeated_captures_share_identity [OF sample_captured(1,2,2) refl _ _ _ _])
  show "hasStableIdentity (block_at repeated_capture 1 0)"
    by (simp add: sample_blocks hasStableIdentity_def sample_block_def)
qed (simp_all add: sample_blocks sample_signature sample_unambiguous sample_sig_nonempty)


theorem conflicting_identities_left_alone_witness:
  "block_at (ReconcileSnapshots sample_lib sample_time SourceX conflicting_capture) 0 0 = sample_block ''k8'' ''8'' 1"
proof -
  have "stableIdentity (sample_block ''k8'' ''8'' 1) = ''platform:8''" "stableIdentity (sample_block ''k7'' ''7'' 4) = ''platform:7''"
    by code_simp+
  then have "block_at (ReconcileSnapshots sample_lib sample_time SourceX conflicting_capture) 0 0 =
      block_at conflicting_capture 0 0"
    by (intro conflicting_identities_left_alone [OF sample_captured(3,3,4) refl])
      (simp_all add: sample_blocks sample_signature sample_sig_nonempty)
  then show ?thesis by (simp add: sample_blocks)
qed

end
