(* ===== verification/OwnedRPC.thy ===== *)
theory OwnedRPC
  imports Domain_Types
begin

text \<open>
  \<open>src/internal/ownedrpc/client.go\<close>: correlated calls over one private pipe. The client is the record
  \<open>Client\<close>; the goroutines that run \<open>call\<close> are the calls of \<open>oc_calls\<close>, each at the point where it
  waits, and one event is one critical section of the code (under \<open>mu\<close> or \<open>writeMu\<close>), so that calls,
  deliveries, progress, timers and \<open>Close\<close> interleave in every order. The buffered channel of a call is
  its entry in \<open>oc_replies\<close>; its progress callback is known by the correlation id. The logs
  \<open>oc_wrote\<close>, \<open>oc_observed\<close> and \<open>oc_returned\<close> record what was written, observed and returned.
  \<open>json.Marshal\<close> is the parameter \<open>encode\<close>; a context is the error it reports, if any (a nil context
  is \<^term>\<open>None\<close> of one option more); time is in
  nanoseconds.
\<close>

datatype rpc_error = ErrClosed | ErrRequest | ErrWrite | External string

record Reply =
  rp_Result :: string
  rp_Code :: string
  rp_Diagnostic :: string

datatype rpc_phase = Queued | Writing | Awaiting | Leaving "rpc_error + Reply"

record Call =
  ca_ID :: int
  ca_Op :: string
  ca_Progress :: bool
  ca_Retain :: bool
  ca_Prepare :: bool
  ca_Dispatched :: bool
  ca_Encoded :: string
  ca_Phase :: rpc_phase

record Client =
  oc_writer :: bool
  oc_next :: int
  oc_pending :: "(int \<times> bool) list"
  oc_ended :: bool
  oc_late :: "(int \<times> int) list"
  oc_lane :: "int option"
  oc_calls :: "Call list"
  oc_replies :: "(int \<times> Reply) list"
  oc_wrote :: "(int \<times> string \<times> bool) list"
  oc_observed :: "(int \<times> string) list"
  oc_returned :: "(int \<times> (rpc_error + Reply)) list"

type_synonym fields = "(string \<times> json) list"

definition New_client :: "bool \<Rightarrow> Client" where
  "New_client writer = \<lparr>oc_writer = writer, oc_next = 0, oc_pending = [], oc_ended = False, oc_late = [], oc_lane = None, oc_calls = [],
          oc_replies = [], oc_wrote = [], oc_observed = [], oc_returned = []\<rparr>"

definition del :: "int \<Rightarrow> (int \<times> 'a) list \<Rightarrow> (int \<times> 'a) list" where
  "del cid xs = filter (\<lambda>x. fst x \<noteq> cid) xs"

definition reserved :: "fields \<Rightarrow> bool" where
  "reserved fs \<longleftrightarrow> ''id'' \<in> fst ` set fs \<or> ''op'' \<in> fst ` set fs"

definition message :: "int \<Rightarrow> string \<Rightarrow> fields \<Rightarrow> fields" where
  "message cid op fs = [(''id'', JNum (of_int cid)), (''op'', JStr op)] @ fs"

text \<open>The first part of \<open>call\<close>, up to the encoded message. An error here is returned at once, before
  the call has an id.\<close>

definition max_id :: int where
  "max_id = 2 ^ 63 - 1"

definition register ::
    "(fields \<Rightarrow> string option) \<Rightarrow> string option option \<Rightarrow> string \<Rightarrow> fields \<Rightarrow> bool \<Rightarrow> bool \<Rightarrow> bool \<Rightarrow> Client \<Rightarrow> Client \<times> (rpc_error + int)"
where
  "register encode ctx op fs progress retain prepare c =
     (if ctx = None \<or> op = [] \<or> \<not> oc_writer c then (c, Inl ErrRequest)
      else case the ctx of
        Some e \<Rightarrow> (c, Inl (External e))
      | None \<Rightarrow>
          if reserved fs then (c, Inl ErrRequest)
          else if oc_ended c then (c, Inl ErrClosed)
          else if oc_next c = max_id then (c, Inl ErrRequest)
          else
            let cid = oc_next c + 1;
                call = \<lparr>ca_ID = cid, ca_Op = op, ca_Progress = progress, ca_Retain = retain, ca_Prepare = prepare,
                        ca_Dispatched = False,
                        ca_Encoded = (case encode (message cid op fs) of None \<Rightarrow> [] | Some b \<Rightarrow> b),
                        ca_Phase = (case encode (message cid op fs) of None \<Rightarrow> Leaving (Inl ErrRequest) | Some _ \<Rightarrow> Queued)\<rparr>
            in (c\<lparr>oc_next := cid, oc_pending := oc_pending c @ [(cid, progress)], oc_calls := oc_calls c @ [call]\<rparr>, Inr cid))"

definition find_call :: "int \<Rightarrow> Client \<Rightarrow> Call option" where
  "find_call cid c = List.find (\<lambda>x. ca_ID x = cid) (oc_calls c)"

definition set_call :: "Call \<Rightarrow> Call list \<Rightarrow> Call list" where
  "set_call x = map (\<lambda>y. if ca_ID y = ca_ID x then x else y)"

text \<open>The write lane: the checks after \<open>writeMu.Lock()\<close>, with what \<open>prepare\<close> returned.\<close>

definition lane_message ::
    "(fields \<Rightarrow> string option) \<Rightarrow> string option \<Rightarrow> (string + fields) \<Rightarrow> bool \<Rightarrow> Call \<Rightarrow> rpc_error + string" where
  "lane_message encode ctx prepared ended x =
     (case ctx of
        Some e \<Rightarrow> Inl (External e)
      | None \<Rightarrow>
          if ended then Inl ErrClosed
          else if \<not> ca_Prepare x then Inr (ca_Encoded x)
          else (case prepared of
                  Inl e \<Rightarrow> Inl (External e)
                | Inr fs \<Rightarrow>
                    if reserved fs then Inl ErrRequest
                    else (case encode (message (ca_ID x) (ca_Op x) fs) of
                            None \<Rightarrow> Inl ErrRequest
                          | Some b \<Rightarrow> Inr b)))"

definition admit ::
    "(fields \<Rightarrow> string option) \<Rightarrow> string option \<Rightarrow> (string + fields) \<Rightarrow> int \<Rightarrow> Client \<Rightarrow> Client option" where
  "admit encode ctx prepared cid c =
     (case find_call cid c of
        None \<Rightarrow> None
      | Some x \<Rightarrow>
          if ca_Phase x \<noteq> Queued \<or> oc_lane c \<noteq> None then None
          else (case lane_message encode ctx prepared (oc_ended c) x of
                  Inl e \<Rightarrow> Some (c\<lparr>oc_calls := set_call (x\<lparr>ca_Phase := Leaving (Inl e)\<rparr>) (oc_calls c)\<rparr>)
                | Inr b \<Rightarrow> Some (c\<lparr>oc_lane := Some cid,
                    oc_calls := set_call (x\<lparr>ca_Phase := Writing, ca_Encoded := b\<rparr>) (oc_calls c)\<rparr>)))"

definition Close_client :: "Client \<Rightarrow> Client" where
  "Close_client c = (if oc_ended c then c else c\<lparr>oc_ended := True, oc_pending := [], oc_late := []\<rparr>)"

text \<open>The write itself: the number of bytes the pipe took and its error; a line feed ends the message.\<close>

definition write_done :: "nat \<times> bool \<Rightarrow> int \<Rightarrow> Client \<Rightarrow> Client option" where
  "write_done outcome cid c =
     (case find_call cid c of
        None \<Rightarrow> None
      | Some x \<Rightarrow>
          if ca_Phase x \<noteq> Writing \<or> oc_lane c \<noteq> Some cid then None
          else
            let line = ca_Encoded x @ [CHR 0x0A]; whole = (snd outcome \<and> fst outcome = length line);
                c1 = c\<lparr>oc_lane := None, oc_wrote := oc_wrote c @ [(cid, take (fst outcome) line, whole)]\<rparr>
            in if whole then Some (c1\<lparr>oc_calls := set_call (x\<lparr>ca_Phase := Awaiting, ca_Dispatched := True\<rparr>) (oc_calls c)\<rparr>)
               else Some (Close_client (c1\<lparr>oc_calls := set_call (x\<lparr>ca_Phase := Leaving (Inl ErrWrite)\<rparr>) (oc_calls c)\<rparr>)))"

definition trim_reply :: "Reply \<Rightarrow> Reply" where
  "trim_reply r = (if length (rp_Diagnostic r) > 2048 then r\<lparr>rp_Diagnostic := []\<rparr> else r)"

definition Deliver :: "int \<Rightarrow> Reply \<Rightarrow> Client \<Rightarrow> Client \<times> bool" where
  "Deliver cid reply c =
     (case map_of (oc_pending c) cid of
        None \<Rightarrow> (c\<lparr>oc_late := del cid (oc_late c)\<rparr>, False)
      | Some _ \<Rightarrow> (c\<lparr>oc_replies := oc_replies c @ [(cid, trim_reply reply)], oc_pending := del cid (oc_pending c)\<rparr>, True))"

definition Progress :: "int \<Rightarrow> int \<Rightarrow> string \<Rightarrow> Client \<Rightarrow> Client" where
  "Progress now cid raw c =
     (if length raw > 512 then c
      else case map_of (oc_pending c) cid of
        Some observer \<Rightarrow> if observer then c\<lparr>oc_observed := oc_observed c @ [(cid, raw)]\<rparr> else c
      | None \<Rightarrow>
          (case map_of (oc_late c) cid of
             None \<Rightarrow> c
           | Some deadline \<Rightarrow>
               if now < deadline then c\<lparr>oc_observed := oc_observed c @ [(cid, raw)]\<rparr>
               else c\<lparr>oc_late := del cid (oc_late c)\<rparr>))"

text \<open>The final \<open>select\<close>: any branch that is ready.\<close>

datatype ready_branch = TakeReply | TakeCancel | TakeClosed

definition chosen :: "ready_branch \<Rightarrow> string option \<Rightarrow> int \<Rightarrow> Client \<Rightarrow> (rpc_error + Reply) option" where
  "chosen b ctx cid c =
     (let reply = (case map_of (oc_replies c) cid of
            None \<Rightarrow> None
          | Some r \<Rightarrow> Some (case ctx of Some e \<Rightarrow> Inl (External e) | None \<Rightarrow> Inr r))
      in case b of
           TakeReply \<Rightarrow> reply
         | TakeCancel \<Rightarrow> (case ctx of Some e \<Rightarrow> Some (Inl (External e)) | None \<Rightarrow> None)
         | TakeClosed \<Rightarrow> if \<not> oc_ended c then None else (case reply of Some r \<Rightarrow> Some r | None \<Rightarrow> Some (Inl ErrClosed)))"

definition select :: "ready_branch \<Rightarrow> string option \<Rightarrow> int \<Rightarrow> Client \<Rightarrow> Client option" where
  "select b ctx cid c =
     (case find_call cid c of
        None \<Rightarrow> None
      | Some x \<Rightarrow>
          if ca_Phase x \<noteq> Awaiting then None
          else (case chosen b ctx cid c of
                  None \<Rightarrow> None
                | Some r \<Rightarrow> Some (c\<lparr>oc_calls := set_call (x\<lparr>ca_Phase := Leaving r\<rparr>) (oc_calls c)\<rparr>)))"

text \<open>The deferred function: it retires the correlation, drops expired late observers, and keeps a late
  observer for thirty seconds when a dispatched call was cancelled before its reply.\<close>

definition late_limit :: nat where "late_limit = 32"
definition late_nanos :: int where "late_nanos = 30 * 10 ^ 9"

definition leave :: "int \<Rightarrow> bool \<Rightarrow> int \<Rightarrow> Client \<Rightarrow> Client option" where
  "leave now cancelled cid c =
     (case find_call cid c of
        None \<Rightarrow> None
      | Some x \<Rightarrow>
          (case ca_Phase x of
             Leaving r \<Rightarrow>
               let unresolved = (map_of (oc_pending c) cid \<noteq> None);
                   live = filter (\<lambda>l. \<not> snd l < now) (oc_late c);
                   keep = (ca_Retain x \<and> ca_Dispatched x \<and> ca_Progress x \<and> unresolved \<and> \<not> oc_ended c \<and>
                           cancelled \<and> length live < late_limit)
               in Some (c\<lparr>oc_pending := del cid (oc_pending c),
                          oc_late := (if keep then del cid live @ [(cid, now + late_nanos)] else live),
                          oc_calls := filter (\<lambda>y. ca_ID y \<noteq> cid) (oc_calls c),
                          oc_returned := oc_returned c @ [(cid, r)]\<rparr>)
           | _ \<Rightarrow> None))"

definition Pending :: "Client \<Rightarrow> nat" where
  "Pending c = length (oc_pending c)"

subsection \<open>The machine\<close>

datatype rpc_event =
    EvCall "string option option" string fields bool bool bool
  | EvAdmit "string option" "string + fields" int
  | EvWritten "nat \<times> bool" int
  | EvDeliver int Reply
  | EvProgress int int string
  | EvSelect ready_branch "string option" int
  | EvLeave int bool int
  | EvLateTimer int
  | EvClose

fun rpc_exec :: "(fields \<Rightarrow> string option) \<Rightarrow> rpc_event \<Rightarrow> Client \<Rightarrow> Client option" where
  "rpc_exec encode (EvCall ctx op fs progress retain prepare) c =
     Some (fst (register encode ctx op fs progress retain prepare c))"
| "rpc_exec encode (EvAdmit ctx prepared cid) c = admit encode ctx prepared cid c"
| "rpc_exec encode (EvWritten outcome cid) c = write_done outcome cid c"
| "rpc_exec encode (EvDeliver cid reply) c = Some (fst (Deliver cid reply c))"
| "rpc_exec encode (EvProgress now cid raw) c = Some (Progress now cid raw c)"
| "rpc_exec encode (EvSelect b ctx cid) c = select b ctx cid c"
| "rpc_exec encode (EvLeave now cancelled cid) c = leave now cancelled cid c"
| "rpc_exec encode (EvLateTimer cid) c = Some (c\<lparr>oc_late := del cid (oc_late c)\<rparr>)"
| "rpc_exec encode EvClose c = Some (Close_client c)"

definition rpc_step :: "(fields \<Rightarrow> string option) \<Rightarrow> Client \<Rightarrow> Client \<Rightarrow> bool" where
  "rpc_step encode c d \<longleftrightarrow> (\<exists>e. rpc_exec encode e c = Some d)"

abbreviation rpc_reachable :: "(fields \<Rightarrow> string option) \<Rightarrow> Client \<Rightarrow> bool" where
  "rpc_reachable encode \<equiv> reachable_from (\<lambda>c. \<exists>writer. c = New_client writer) (rpc_step encode)"

subsection \<open>Invariants\<close>

definition ids_ok :: "Client \<Rightarrow> bool" where
  "ids_ok c \<longleftrightarrow> 0 \<le> oc_next c \<and> oc_next c \<le> max_id \<and>
     distinct (map ca_ID (oc_calls c) @ map fst (oc_returned c)) \<and>
     ca_ID ` set (oc_calls c) \<union> fst ` set (oc_returned c) = {1..oc_next c}"

definition pending_ok :: "Client \<Rightarrow> bool" where
  "pending_ok c \<longleftrightarrow> distinct (map fst (oc_pending c)) \<and> fst ` set (oc_pending c) \<subseteq> ca_ID ` set (oc_calls c) \<and>
     (oc_ended c \<longrightarrow> oc_pending c = [] \<and> oc_late c = [])"

definition late_ok :: "Client \<Rightarrow> bool" where
  "late_ok c \<longleftrightarrow> length (oc_late c) \<le> late_limit \<and> distinct (map fst (oc_late c)) \<and>
     fst ` set (oc_late c) \<subseteq> fst ` set (oc_returned c)"

definition replies_ok :: "Client \<Rightarrow> bool" where
  "replies_ok c \<longleftrightarrow> distinct (map fst (oc_replies c)) \<and> fst ` set (oc_replies c) \<subseteq> {1..oc_next c} \<and>
     fst ` set (oc_pending c) \<inter> fst ` set (oc_replies c) = {} \<and>
     (\<forall>x \<in> set (oc_calls c). \<forall>r. ca_Phase x = Leaving (Inr r) \<longrightarrow> (ca_ID x, r) \<in> set (oc_replies c)) \<and>
     (\<forall>cid r. (cid, Inr r) \<in> set (oc_returned c) \<longrightarrow> (cid, r) \<in> set (oc_replies c))"

definition writes_ok :: "Client \<Rightarrow> bool" where
  "writes_ok c \<longleftrightarrow> distinct (map fst (oc_wrote c)) \<and> fst ` set (oc_wrote c) \<subseteq> {1..oc_next c} \<and>
     (\<forall>x \<in> set (oc_calls c). ca_Phase x = Queued \<or> ca_Phase x = Writing \<longrightarrow> ca_ID x \<notin> fst ` set (oc_wrote c)) \<and>
     list_all (\<lambda>w. snd (snd w)) (butlast (oc_wrote c)) \<and>
     (oc_wrote c \<noteq> [] \<and> \<not> snd (snd (last (oc_wrote c))) \<longrightarrow> oc_ended c \<and> oc_lane c = None)"

definition rpc_inv :: "Client \<Rightarrow> bool" where
  "rpc_inv c \<longleftrightarrow> ids_ok c \<and> pending_ok c \<and> late_ok c \<and> replies_ok c \<and> writes_ok c"

lemma find_call_Some: "find_call cid c = Some x \<Longrightarrow> x \<in> set (oc_calls c) \<and> ca_ID x = cid"
  by (auto simp: find_call_def find_Some_iff)

lemma map_ID_set_call [simp]: "map ca_ID (set_call x xs) = map ca_ID xs"
  by (simp add: set_call_def)

lemma ID_set_call [simp]: "ca_ID ` set (set_call x xs) = ca_ID ` set xs"
  using map_ID_set_call [of x xs] by (metis set_map)

lemma ball_set_call: "P x \<Longrightarrow> \<forall>y \<in> set xs. P y \<Longrightarrow> \<forall>y \<in> set (set_call x xs). P y"
  by (auto simp: set_call_def)

lemma del_facts [simp]:
  "set (del cid xs) = {x \<in> set xs. fst x \<noteq> cid}" "distinct (map fst xs) \<Longrightarrow> distinct (map fst (del cid xs))"
  "length (del cid xs) \<le> length xs" "del cid [] = []"
  by (auto simp: del_def distinct_map inj_on_def)

subsection \<open>Every event keeps the invariant\<close>

lemma rpc_inv_start: "rpc_inv (New_client w)"
  by (simp add: rpc_inv_def ids_ok_def pending_ok_def late_ok_def replies_ok_def writes_ok_def New_client_def
      late_limit_def max_id_def)

lemma register_cases:
  obtains "fst (register encode ctx op fs progress retain prepare c) = c"
  | x where "\<not> oc_ended c" "oc_next c \<noteq> max_id" "ca_ID x = oc_next c + 1"
      "ca_Phase x = Queued \<or> ca_Phase x = Leaving (Inl ErrRequest)"
      "fst (register encode ctx op fs progress retain prepare c) =
        c\<lparr>oc_next := oc_next c + 1, oc_pending := oc_pending c @ [(oc_next c + 1, progress)], oc_calls := oc_calls c @ [x]\<rparr>"
proof (cases "ctx = None \<or> op = [] \<or> \<not> oc_writer c \<or> the ctx \<noteq> None \<or> reserved fs \<or> oc_ended c \<or> oc_next c = max_id")
  case True
  then have "fst (register encode ctx op fs progress retain prepare c) = c"
    by (auto simp: register_def split: option.splits)
  then show ?thesis by (rule that(1))
next
  case False
  define x where "x = \<lparr>ca_ID = oc_next c + 1, ca_Op = op, ca_Progress = progress, ca_Retain = retain,
    ca_Prepare = prepare, ca_Dispatched = False,
    ca_Encoded = (case encode (message (oc_next c + 1) op fs) of None \<Rightarrow> [] | Some b \<Rightarrow> b),
    ca_Phase = (case encode (message (oc_next c + 1) op fs) of None \<Rightarrow> Leaving (Inl ErrRequest) | Some _ \<Rightarrow> Queued)\<rparr>"
  have "fst (register encode ctx op fs progress retain prepare c) =
      c\<lparr>oc_next := oc_next c + 1, oc_pending := oc_pending c @ [(oc_next c + 1, progress)], oc_calls := oc_calls c @ [x]\<rparr>"
    using False by (simp add: register_def Let_def x_def)
  moreover have "ca_Phase x = Queued \<or> ca_Phase x = Leaving (Inl ErrRequest)"
    by (simp add: x_def split: option.splits)
  ultimately show ?thesis using False by (intro that(2) [of x]) (simp_all add: x_def)
qed

lemma inv_register:
  assumes "rpc_inv c"
  shows "rpc_inv (fst (register encode ctx op fs progress retain prepare c))"
proof (rule register_cases [of encode ctx op fs progress retain prepare c])
  fix x
  assume x: "\<not> oc_ended c" "oc_next c \<noteq> max_id" "ca_ID x = oc_next c + 1"
    "ca_Phase x = Queued \<or> ca_Phase x = Leaving (Inl ErrRequest)"
    and eq: "fst (register encode ctx op fs progress retain prepare c) =
        c\<lparr>oc_next := oc_next c + 1, oc_pending := oc_pending c @ [(oc_next c + 1, progress)], oc_calls := oc_calls c @ [x]\<rparr>"
  let ?d = "c\<lparr>oc_next := oc_next c + 1, oc_pending := oc_pending c @ [(oc_next c + 1, progress)], oc_calls := oc_calls c @ [x]\<rparr>"
  from assms have ids: "ids_ok c" and pend: "pending_ok c" and late: "late_ok c" and rep: "replies_ok c" and wr: "writes_ok c"
    by (simp_all add: rpc_inv_def)
  have n: "{1..oc_next c + 1} = insert (oc_next c + 1) {1..oc_next c}" using ids by (auto simp: ids_ok_def)
  have fresh: "oc_next c + 1 \<notin> ca_ID ` set (oc_calls c) \<union> fst ` set (oc_returned c)"
    using ids by (simp add: ids_ok_def)
  from fresh have fresh2: "oc_next c + 1 \<notin> ca_ID ` set (oc_calls c)" "oc_next c + 1 \<notin> fst ` set (oc_returned c)"
    by blast+
  have "ids_ok ?d" using ids x(2,3) n fresh2 by (simp add: ids_ok_def)
  moreover have "oc_next c + 1 \<notin> fst ` set (oc_pending c)" using pend fresh unfolding pending_ok_def by blast
  then have "pending_ok ?d" using pend x(1,3) by (auto simp: pending_ok_def)
  moreover have "late_ok ?d" using late by (simp add: late_ok_def)
  moreover have "replies_ok ?d" using rep x by (auto simp: replies_ok_def)
  moreover have "writes_ok ?d" using wr x by (auto simp: writes_ok_def)
  ultimately show "rpc_inv (fst (register encode ctx op fs progress retain prepare c))"
    unfolding eq by (simp add: rpc_inv_def)
qed (simp add: assms)

text \<open>A call that changes its phase only: the rest of the client is as before.\<close>

lemma inv_set_call:
  assumes "rpc_inv c" "find_call (ca_ID x) c \<noteq> None"
    and "ca_Phase x = Queued \<or> ca_Phase x = Writing \<Longrightarrow> ca_ID x \<notin> fst ` set (oc_wrote c)"
    and "\<And>r. ca_Phase x = Leaving (Inr r) \<Longrightarrow> (ca_ID x, r) \<in> set (oc_replies c)"
  shows "rpc_inv (c\<lparr>oc_calls := set_call x (oc_calls c)\<rparr>)"
proof -
  let ?d = "c\<lparr>oc_calls := set_call x (oc_calls c)\<rparr>"
  have "ids_ok ?d \<and> pending_ok ?d \<and> late_ok ?d"
    using assms(1) by (simp add: rpc_inv_def ids_ok_def pending_ok_def late_ok_def)
  moreover have "\<forall>y \<in> set (set_call x (oc_calls c)). \<forall>r. ca_Phase y = Leaving (Inr r) \<longrightarrow> (ca_ID y, r) \<in> set (oc_replies c)"
    using assms(1,4) by (intro ball_set_call) (auto simp: rpc_inv_def replies_ok_def)
  then have "replies_ok ?d" using assms(1) by (simp add: rpc_inv_def replies_ok_def)
  moreover have "\<forall>y \<in> set (set_call x (oc_calls c)). ca_Phase y = Queued \<or> ca_Phase y = Writing \<longrightarrow> ca_ID y \<notin> fst ` set (oc_wrote c)"
    using assms(1,3) by (intro ball_set_call) (simp_all add: rpc_inv_def writes_ok_def)
  then have "writes_ok ?d" using assms(1) by (simp add: rpc_inv_def writes_ok_def)
  ultimately show ?thesis by (simp add: rpc_inv_def)
qed

lemma inv_lane:
  assumes "rpc_inv c" "lane = None \<or> \<not> oc_ended c"
  shows "rpc_inv (c\<lparr>oc_lane := lane\<rparr>)"
  using assms by (auto simp: rpc_inv_def ids_ok_def pending_ok_def late_ok_def replies_ok_def writes_ok_def)

lemma lane_message_open: "lane_message encode ctx prepared ended x = Inr b \<Longrightarrow> \<not> ended"
  by (auto simp: lane_message_def split: option.splits)

lemma inv_admit:
  assumes "rpc_inv c" "admit encode ctx prepared cid c = Some d"
  shows "rpc_inv d"
proof -
  from assms(2) obtain x where x: "find_call cid c = Some x" "ca_Phase x = Queued" "oc_lane c = None"
    by (auto simp: admit_def split: option.splits if_splits)
  note mem = find_call_Some [OF x(1)]
  have unwritten: "ca_ID x \<notin> fst ` set (oc_wrote c)"
    using assms(1) mem x(2) by (auto simp: rpc_inv_def writes_ok_def)
  show ?thesis
  proof (cases "lane_message encode ctx prepared (oc_ended c) x")
    case (Inl e)
    with assms(2) x have "d = c\<lparr>oc_calls := set_call (x\<lparr>ca_Phase := Leaving (Inl e)\<rparr>) (oc_calls c)\<rparr>"
      by (simp add: admit_def)
    with inv_set_call [OF assms(1), of "x\<lparr>ca_Phase := Leaving (Inl e)\<rparr>"] mem x(1) show ?thesis by simp
  next
    case (Inr b)
    with assms(2) x have "d = c\<lparr>oc_lane := Some cid, oc_calls := set_call (x\<lparr>ca_Phase := Writing, ca_Encoded := b\<rparr>) (oc_calls c)\<rparr>"
      by (simp add: admit_def)
    also have "\<dots> = c\<lparr>oc_calls := set_call (x\<lparr>ca_Phase := Writing, ca_Encoded := b\<rparr>) (oc_calls c)\<rparr>\<lparr>oc_lane := Some cid\<rparr>"
      by simp
    finally have "d = c\<lparr>oc_calls := set_call (x\<lparr>ca_Phase := Writing, ca_Encoded := b\<rparr>) (oc_calls c)\<rparr>\<lparr>oc_lane := Some cid\<rparr>" .
    moreover have "rpc_inv (c\<lparr>oc_calls := set_call (x\<lparr>ca_Phase := Writing, ca_Encoded := b\<rparr>) (oc_calls c)\<rparr>)"
      using inv_set_call [OF assms(1), of "x\<lparr>ca_Phase := Writing, ca_Encoded := b\<rparr>"] mem x(1) unwritten by simp
    ultimately show ?thesis using inv_lane lane_message_open [OF Inr] by simp
  qed
qed

lemma inv_close:
  assumes "rpc_inv c"
  shows "rpc_inv (Close_client c)"
  using assms
  by (auto simp: Close_client_def rpc_inv_def ids_ok_def pending_ok_def late_ok_def replies_ok_def writes_ok_def)

lemma in_set_call: "z \<in> set (set_call y xs) \<Longrightarrow> z = y \<or> z \<in> set xs \<and> ca_ID z \<noteq> ca_ID y"
  by (auto simp: set_call_def split: if_splits)

text \<open>A write of the lane's call, logged; after a failed one the client is closed.\<close>

lemma inv_logged:
  assumes "rpc_inv c" "oc_lane c = Some cid" "x \<in> set (oc_calls c)" "ca_ID x = cid" "ca_Phase x = Writing"
    and y: "ca_ID y = cid" "ca_Phase y \<noteq> Queued" "ca_Phase y \<noteq> Writing" "\<And>r. ca_Phase y \<noteq> Leaving (Inr r)"
    and "whole \<or> oc_ended c"
  shows "rpc_inv (c\<lparr>oc_lane := None, oc_wrote := oc_wrote c @ [(cid, bytes, whole)], oc_calls := set_call y (oc_calls c)\<rparr>)"
proof -
  let ?d = "c\<lparr>oc_lane := None, oc_wrote := oc_wrote c @ [(cid, bytes, whole)], oc_calls := set_call y (oc_calls c)\<rparr>"
  from assms(1) have ids: "ids_ok c" and rest: "pending_ok c" "late_ok c" and rep: "replies_ok c" and wr: "writes_ok c"
    by (simp_all add: rpc_inv_def)
  have "ca_ID x \<in> ca_ID ` set (oc_calls c)" using assms(3) by (rule imageI)
  then have range: "cid \<in> {1..oc_next c}" using ids assms(4) unfolding ids_ok_def by blast
  have fresh: "cid \<notin> fst ` set (oc_wrote c)" using wr assms(3-5) by (auto simp: writes_ok_def)
  have good: "list_all (\<lambda>w. snd (snd w)) (oc_wrote c)"
  proof (cases "oc_wrote c" rule: rev_cases)
    case (snoc ws w)
    with wr assms(2) show ?thesis by (auto simp: writes_ok_def)
  qed simp
  have same: "ids_ok ?d \<and> pending_ok ?d \<and> late_ok ?d"
    using ids rest by (simp add: ids_ok_def pending_ok_def late_ok_def)
  have "\<forall>z \<in> set (set_call y (oc_calls c)). \<forall>r. ca_Phase z = Leaving (Inr r) \<longrightarrow> (ca_ID z, r) \<in> set (oc_replies c)"
    using rep y(4) by (intro ball_set_call) (simp_all add: replies_ok_def)
  then have replies: "replies_ok ?d" using rep by (simp add: replies_ok_def)
  have "\<forall>z \<in> set (set_call y (oc_calls c)).
      ca_Phase z = Queued \<or> ca_Phase z = Writing \<longrightarrow> ca_ID z \<notin> fst ` set (oc_wrote c @ [(cid, bytes, whole)])"
  proof (intro ballI impI)
    fix z
    assume z: "z \<in> set (set_call y (oc_calls c))" "ca_Phase z = Queued \<or> ca_Phase z = Writing"
    with y(2,3) have "z \<noteq> y" by blast
    with in_set_call [OF z(1)] y(1) have "z \<in> set (oc_calls c)" "ca_ID z \<noteq> cid" by auto
    moreover from this have "ca_ID z \<notin> fst ` set (oc_wrote c)" using wr z(2) unfolding writes_ok_def by blast
    ultimately show "ca_ID z \<notin> fst ` set (oc_wrote c @ [(cid, bytes, whole)])" by simp
  qed
  moreover have "\<not> whole \<Longrightarrow> oc_ended c" using assms(10) by blast
  ultimately have "writes_ok ?d" using wr range fresh good by (simp add: writes_ok_def)
  with same replies show ?thesis by (simp add: rpc_inv_def)
qed

lemma inv_write_done:
  assumes "rpc_inv c" "write_done outcome cid c = Some d"
  shows "rpc_inv d"
proof -
  from assms(2) obtain x where x: "find_call cid c = Some x" "ca_Phase x = Writing" "oc_lane c = Some cid"
    by (auto simp: write_done_def split: option.splits if_splits)
  note mem = find_call_Some [OF x(1)]
  define line where "line = ca_Encoded x @ [CHR 0x0A]"
  define whole where "whole \<longleftrightarrow> snd outcome \<and> fst outcome = length line"
  show ?thesis
  proof (cases whole)
    case True
    then have "d = c\<lparr>oc_lane := None, oc_wrote := oc_wrote c @ [(cid, take (fst outcome) line, True)],
        oc_calls := set_call (x\<lparr>ca_Phase := Awaiting, ca_Dispatched := True\<rparr>) (oc_calls c)\<rparr>"
      using assms(2) x by (simp add: write_done_def Let_def whole_def line_def)
    with inv_logged [OF assms(1) x(3) mem [THEN conjunct1] mem [THEN conjunct2] x(2),
        of "x\<lparr>ca_Phase := Awaiting, ca_Dispatched := True\<rparr>" True "take (fst outcome) line"] mem
    show ?thesis by simp
  next
    case False
    let ?y = "x\<lparr>ca_Phase := Leaving (Inl ErrWrite)\<rparr>"
    have "d = Close_client (c\<lparr>oc_lane := None, oc_wrote := oc_wrote c @ [(cid, take (fst outcome) line, False)],
        oc_calls := set_call ?y (oc_calls c)\<rparr>)"
      using False assms(2) x by (auto simp: write_done_def Let_def whole_def line_def)
    also have "\<dots> = (Close_client c)\<lparr>oc_lane := None, oc_wrote := oc_wrote (Close_client c) @ [(cid, take (fst outcome) line, False)],
        oc_calls := set_call ?y (oc_calls (Close_client c))\<rparr>"
      by (simp add: Close_client_def)
    finally have d: "d = \<dots>" .
    have "oc_lane (Close_client c) = Some cid" "x \<in> set (oc_calls (Close_client c))" "oc_ended (Close_client c)"
      using x(3) mem by (simp_all add: Close_client_def)
    from inv_logged [OF inv_close [OF assms(1)] this(1,2) mem [THEN conjunct2] x(2), of ?y False "take (fst outcome) line"]
      this(3) mem show ?thesis unfolding d by simp
  qed
qed

lemma inv_drop_late:
  assumes "rpc_inv c" "set late \<subseteq> set (oc_late c)" "distinct (map fst late)" "length late \<le> length (oc_late c)"
  shows "rpc_inv (c\<lparr>oc_late := late\<rparr>)"
proof -
  let ?d = "c\<lparr>oc_late := late\<rparr>"
  have "fst ` set late \<subseteq> fst ` set (oc_returned c)"
    using assms(1,2) unfolding rpc_inv_def late_ok_def by blast
  then have "late_ok ?d" using assms(1,3,4) by (simp add: rpc_inv_def late_ok_def)
  moreover have "pending_ok ?d" using assms(1,2) by (simp add: rpc_inv_def pending_ok_def) force
  ultimately show ?thesis using assms(1) by (simp add: rpc_inv_def ids_ok_def replies_ok_def writes_ok_def)
qed

lemma inv_del_late: "rpc_inv c \<Longrightarrow> rpc_inv (c\<lparr>oc_late := del cid (oc_late c)\<rparr>)"
  by (rule inv_drop_late) (auto simp: rpc_inv_def late_ok_def)

lemma inv_observed: "rpc_inv c \<Longrightarrow> rpc_inv (c\<lparr>oc_observed := obs\<rparr>)"
  by (simp add: rpc_inv_def ids_ok_def pending_ok_def late_ok_def replies_ok_def writes_ok_def)

lemma inv_progress: "rpc_inv c \<Longrightarrow> rpc_inv (Progress now cid raw c)"
  by (auto simp: Progress_def inv_del_late inv_observed split: option.splits)

lemma inv_deliver:
  assumes "rpc_inv c"
  shows "rpc_inv (fst (Deliver cid reply c))"
proof (cases "map_of (oc_pending c) cid")
  case None
  with assms show ?thesis by (simp add: Deliver_def inv_del_late)
next
  case (Some p)
  then have p: "cid \<in> fst ` set (oc_pending c)" by (metis map_of_eq_None_iff option.distinct(1))
  let ?d = "c\<lparr>oc_replies := oc_replies c @ [(cid, trim_reply reply)], oc_pending := del cid (oc_pending c)\<rparr>"
  from assms have ids: "ids_ok c" and pend: "pending_ok c" and rep: "replies_ok c" and rest: "late_ok c" "writes_ok c"
    by (simp_all add: rpc_inv_def)
  have range: "cid \<in> {1..oc_next c}" using p pend ids unfolding pending_ok_def ids_ok_def by blast
  have "cid \<notin> fst ` set (oc_replies c)" using p rep unfolding replies_ok_def by blast
  moreover have "fst ` set (oc_pending c) \<inter> fst ` set (oc_replies c) = {}" using rep by (simp add: replies_ok_def)
  then have "fst ` {x \<in> set (oc_pending c). fst x \<noteq> cid} \<inter> insert cid (fst ` set (oc_replies c)) = {}" by auto
  ultimately have "replies_ok ?d" using rep range by (simp add: replies_ok_def)
  moreover have "fst ` {x \<in> set (oc_pending c). fst x \<noteq> cid} \<subseteq> ca_ID ` set (oc_calls c)"
    using pend unfolding pending_ok_def by blast
  then have "pending_ok ?d" using pend by (simp add: pending_ok_def)
  moreover have "ids_ok ?d \<and> late_ok ?d \<and> writes_ok ?d"
    using ids rest by (simp add: ids_ok_def late_ok_def writes_ok_def)
  ultimately show ?thesis using Some by (simp add: Deliver_def rpc_inv_def)
qed

lemma chosen_reply: "chosen b ctx cid c = Some (Inr r) \<Longrightarrow> map_of (oc_replies c) cid = Some r"
  by (auto simp: chosen_def Let_def split: ready_branch.splits option.splits if_splits)

lemma inv_select:
  assumes "rpc_inv c" "select b ctx cid c = Some d"
  shows "rpc_inv d"
proof -
  from assms(2) obtain x r where x: "find_call cid c = Some x" "chosen b ctx cid c = Some r"
    and d: "d = c\<lparr>oc_calls := set_call (x\<lparr>ca_Phase := Leaving r\<rparr>) (oc_calls c)\<rparr>"
    by (auto simp: select_def split: option.splits if_splits)
  note mem = find_call_Some [OF x(1)]
  have "(cid, r') \<in> set (oc_replies c)" if "r = Inr r'" for r'
    using chosen_reply x(2) that map_of_SomeD by fastforce
  with mem show ?thesis unfolding d
    by (intro inv_set_call [OF assms(1)]) (simp_all add: x(1))
qed

lemma inv_leave:
  assumes "rpc_inv c" "leave now cancelled cid c = Some d"
  shows "rpc_inv d"
proof -
  from assms(2) obtain x r where x: "find_call cid c = Some x" "ca_Phase x = Leaving r"
    by (auto simp: leave_def split: option.splits rpc_phase.splits)
  define live where "live = filter (\<lambda>l. \<not> snd l < now) (oc_late c)"
  define keep where "keep \<longleftrightarrow> ca_Retain x \<and> ca_Dispatched x \<and> ca_Progress x \<and> map_of (oc_pending c) cid \<noteq> None \<and>
    \<not> oc_ended c \<and> cancelled \<and> length live < late_limit"
  have d: "d = c\<lparr>oc_pending := del cid (oc_pending c),
      oc_late := (if keep then del cid live @ [(cid, now + late_nanos)] else live),
      oc_calls := filter (\<lambda>y. ca_ID y \<noteq> cid) (oc_calls c), oc_returned := oc_returned c @ [(cid, r)]\<rparr>"
    using assms(2) unfolding leave_def x(1) option.case x(2) rpc_phase.case Let_def live_def keep_def by (rule option.inject [THEN iffD1, symmetric])
  from assms(1) have ids: "ids_ok c" and pend: "pending_ok c" and late: "late_ok c" and rep: "replies_ok c" and wr: "writes_ok c"
    by (simp_all add: rpc_inv_def)
  note mem = find_call_Some [OF x(1)]
  have cid: "cid \<in> ca_ID ` set (oc_calls c)" using mem by blast
  have calls: "ca_ID ` {y \<in> set (oc_calls c). ca_ID y \<noteq> cid} = ca_ID ` set (oc_calls c) - {cid}" by auto
  have out: "cid \<notin> fst ` set (oc_returned c)" using ids cid by (auto simp: ids_ok_def)
  have "distinct (map ca_ID (filter (\<lambda>y. ca_ID y \<noteq> cid) (oc_calls c)))"
    using ids by (simp add: ids_ok_def distinct_map_filter)
  moreover have "ca_ID ` set (oc_calls c) \<inter> fst ` set (oc_returned c) = {}" using ids by (simp add: ids_ok_def)
  ultimately have "ids_ok d" using ids out cid unfolding d by (simp add: ids_ok_def calls) blast
  moreover have "pending_ok d"
  proof -
    have "fst ` {y \<in> set (oc_pending c). fst y \<noteq> cid} \<subseteq> ca_ID ` set (oc_calls c) - {cid}"
      using pend unfolding pending_ok_def by blast
    moreover have "oc_ended c \<longrightarrow> \<not> keep \<and> live = []" using pend by (auto simp: pending_ok_def keep_def live_def)
    ultimately show ?thesis using pend unfolding d by (simp add: pending_ok_def calls)
  qed
  moreover have "late_ok d"
  proof -
    have live: "fst ` set live \<subseteq> fst ` set (oc_returned c)" "distinct (map fst live)" "length live \<le> late_limit"
      using late by (auto simp: late_ok_def live_def distinct_map_filter intro: le_trans [OF length_filter_le])
    show ?thesis
    proof (cases keep)
      case True
      then have "length live < late_limit" by (simp add: keep_def)
      with del_facts(3) [of cid live] have "length (del cid live) < late_limit" by linarith
      with live True show ?thesis unfolding d by (auto simp: late_ok_def)
    next
      case False
      with live show ?thesis unfolding d by (auto simp: late_ok_def)
    qed
  qed
  moreover have "replies_ok d"
  proof -
    have "(cid, r') \<in> set (oc_replies c)" if "r = Inr r'" for r'
      using rep mem x(2) that unfolding replies_ok_def by blast
    moreover have "fst ` {y \<in> set (oc_pending c). fst y \<noteq> cid} \<inter> fst ` set (oc_replies c) = {}"
      using rep unfolding replies_ok_def by blast
    ultimately show ?thesis using rep unfolding d by (auto simp: replies_ok_def)
  qed
  moreover have "writes_ok d" using wr unfolding d by (simp add: writes_ok_def)
  ultimately show ?thesis by (simp add: rpc_inv_def)
qed

lemma inv_rpc_exec: "rpc_inv c \<Longrightarrow> rpc_exec encode e c = Some d \<Longrightarrow> rpc_inv d"
  by (cases e)
    (auto simp: inv_register inv_progress inv_deliver inv_del_late inv_close
      intro: inv_admit inv_write_done inv_select inv_leave)

interpretation rpc: safe_machine "\<lambda>c. \<exists>writer. c = New_client writer" "rpc_step encode" rpc_inv for encode
  by unfold_locales (auto simp: rpc_step_def rpc_inv_start inv_rpc_exec)

subsection \<open>Correlation\<close>

text \<open>C35. In every interleaving a call that returns a reply returns the reply that \<open>Deliver\<close> accepted
  for its own correlation: every correlation is used by one call, is answered at most once and returns
  at most once, and the ids given out so far are exactly those of the calls under way and of the calls
  that returned.\<close>

theorem replies_reach_their_call:
  assumes "rpc_reachable encode c" "(cid, Inr r) \<in> set (oc_returned c)"
  shows "map_of (oc_replies c) cid = Some r \<and> distinct (map fst (oc_replies c)) \<and>
    distinct (map ca_ID (oc_calls c) @ map fst (oc_returned c)) \<and>
    ca_ID ` set (oc_calls c) \<union> fst ` set (oc_returned c) = {1..oc_next c} \<and> oc_next c < 2 ^ 63"
proof -
  have inv: "rpc_inv c" using assms(1) by (rule rpc.reachable_safe)
  then have "(cid, r) \<in> set (oc_replies c)" "distinct (map fst (oc_replies c))"
    using assms(2) by (auto simp: rpc_inv_def replies_ok_def)
  with inv show ?thesis by (simp add: rpc_inv_def ids_ok_def max_id_def)
qed

text \<open>Nothing is written by an ended client whose write lane is free.\<close>

lemma wrote_kept:
  assumes "rpc_inv c" "rpc_exec encode e c = Some d" "oc_ended c" "oc_lane c = None"
  shows "oc_wrote d = oc_wrote c \<and> oc_ended d \<and> oc_lane d = None"
proof (cases e)
  case (EvCall ctx op fs progress retain prepare)
  with assms show ?thesis
    by (cases rule: register_cases [of encode ctx op fs progress retain prepare c]) auto
next
  case (EvAdmit ctx prepared cid)
  with assms show ?thesis
    by (auto simp: admit_def split: option.splits if_splits sum.splits dest: lane_message_open)
qed (use assms in \<open>auto simp: write_done_def Deliver_def Progress_def select_def leave_def Close_client_def Let_def
  split: option.splits if_splits rpc_phase.splits\<close>)

fun rpc_run :: "(fields \<Rightarrow> string option) \<Rightarrow> rpc_event list \<Rightarrow> Client \<Rightarrow> Client option" where
  "rpc_run encode [] c = Some c"
| "rpc_run encode (e # es) c = (case rpc_exec encode e c of None \<Rightarrow> None | Some d \<Rightarrow> rpc_run encode es d)"

lemma rpc_run_reachable: "rpc_reachable encode c \<Longrightarrow> rpc_run encode es c = Some d \<Longrightarrow> rpc_reachable encode d"
proof (induction es arbitrary: c)
  case (Cons e es)
  then obtain c' where c': "rpc_exec encode e c = Some c'" "rpc_run encode es c' = Some d"
    by (auto split: option.splits)
  have "rpc_reachable encode c'"
    by (rule after_move [OF Cons.prems(1)]) (use c'(1) in \<open>auto simp: rpc_step_def\<close>)
  with Cons.IH c'(2) show ?case by blast
qed simp

lemma rpc_run_wrote:
  "rpc_inv c \<Longrightarrow> rpc_run encode es c = Some d \<Longrightarrow> oc_ended c \<Longrightarrow> oc_lane c = None \<Longrightarrow> oc_wrote d = oc_wrote c"
proof (induction es arbitrary: c)
  case (Cons e es)
  then obtain c' where c': "rpc_exec encode e c = Some c'" "rpc_run encode es c' = Some d"
    by (auto split: option.splits)
  from wrote_kept [OF Cons.prems(1) c'(1) Cons.prems(3,4)] Cons.IH [OF inv_rpc_exec [OF Cons.prems(1) c'(1)] c'(2)]
  show ?case by simp
qed simp

text \<open>A corrupt stream is never written to again: in every interleaving at most the last write can
  have failed or been short, no call is written twice, and once a write failed the client is ended
  and no sequence of later events (queued writers, new calls) writes anything.\<close>

theorem failed_write_is_last:
  assumes "rpc_reachable encode c" "w \<in> set (oc_wrote c)" "\<not> snd (snd w)" "rpc_run encode es c = Some d"
  shows "oc_ended c \<and> w = last (oc_wrote c) \<and> distinct (map fst (oc_wrote c)) \<and> oc_wrote d = oc_wrote c"
proof -
  have inv: "rpc_inv c" using assms(1) by (rule rpc.reachable_safe)
  then have wr: "writes_ok c" by (simp add: rpc_inv_def)
  have ne: "oc_wrote c \<noteq> []" using assms(2) by auto
  have "w \<notin> set (butlast (oc_wrote c))" using wr assms(3) by (auto simp: writes_ok_def list_all_iff)
  with assms(2) ne have w: "w = last (oc_wrote c)"
    by (metis append_butlast_last_id in_set_conv_decomp rotate1.simps(2) set_ConsD set_rotate1)
  with wr ne assms(3) have "oc_ended c" "oc_lane c = None" by (auto simp: writes_ok_def)
  with w wr rpc_run_wrote [OF inv assms(4)] show ?thesis by (simp add: writes_ok_def)
qed

text \<open>The client keeps no more than it should: at most 32 late observers, only for calls that
  returned; and a closed client has no pending correlation and no late observer, refuses new
  calls, delivers and reports nothing, and lets every waiting call return.\<close>

theorem closed_client_is_silent:
  assumes "rpc_reachable encode c" "oc_ended c"
  shows "Pending c = 0 \<and> oc_late c = [] \<and>
    fst (register encode ctx op fs progress retain prepare c) = c \<and>
    \<not> snd (Deliver cid reply c) \<and> oc_observed (Progress now cid raw c) = oc_observed c \<and>
    chosen TakeClosed ctx' cid c \<noteq> None"
proof -
  have "rpc_inv c" using assms(1) by (rule rpc.reachable_safe)
  with assms(2) have none: "oc_pending c = []" "oc_late c = []" by (simp_all add: rpc_inv_def pending_ok_def)
  moreover have "fst (register encode ctx op fs progress retain prepare c) = c"
    using assms(2) by (cases rule: register_cases [of encode ctx op fs progress retain prepare c]) simp_all
  moreover have "chosen TakeClosed ctx' cid c \<noteq> None"
    using assms(2) by (simp add: chosen_def Let_def split: option.splits)
  ultimately show ?thesis by (simp add: Pending_def Deliver_def Progress_def)
qed

theorem late_observers_bounded:
  assumes "rpc_reachable encode c"
  shows "length (oc_late c) \<le> 32 \<and> fst ` set (oc_late c) \<inter> ca_ID ` set (oc_calls c) = {}"
proof -
  have "rpc_inv c" using assms by (rule rpc.reachable_safe)
  then have "length (oc_late c) \<le> 32" "fst ` set (oc_late c) \<subseteq> fst ` set (oc_returned c)"
    "ca_ID ` set (oc_calls c) \<inter> fst ` set (oc_returned c) = {}"
    by (simp_all add: rpc_inv_def late_ok_def ids_ok_def late_limit_def)
  then show ?thesis by blast
qed

subsection \<open>Two calls and a short write\<close>

definition sample_encode :: "fields \<Rightarrow> string option" where
  "sample_encode fs = Some ''m''"

definition sample_reply :: Reply where
  "sample_reply = \<lparr>rp_Result = ''r'', rp_Code = [], rp_Diagnostic = []\<rparr>"

text \<open>Two calls register; the second writes first and is answered; the first is written short.\<close>

definition sample_events :: "rpc_event list" where
  "sample_events =
     [EvCall (Some None) ''capture'' [] True True False, EvCall (Some None) ''status'' [] False False False,
      EvAdmit None (Inl []) 2, EvWritten (2, True) 2, EvDeliver 2 sample_reply, EvSelect TakeReply None 2,
      EvLeave 0 False 2, EvAdmit None (Inl []) 1, EvWritten (1, True) 1]"

definition sample_client :: Client where
  "sample_client = the (rpc_run sample_encode sample_events (New_client True))"

lemma sample_run: "rpc_run sample_encode sample_events (New_client True) = Some sample_client"
proof -
  have "rpc_run sample_encode sample_events (New_client True) \<noteq> None" by code_simp
  then show ?thesis by (simp add: sample_client_def)
qed

lemma sample_client_reachable: "rpc_reachable sample_encode sample_client"
  by (rule rpc_run_reachable [OF _ sample_run]) (auto intro: at_start)

theorem replies_reach_their_call_witness: "map_of (oc_replies sample_client) 2 = Some sample_reply"
proof -
  have "(2, Inr sample_reply) \<in> set (oc_returned sample_client)" by code_simp
  from replies_reach_their_call [OF sample_client_reachable this] show ?thesis by simp
qed

theorem failed_write_is_last_witness: "oc_ended sample_client \<and> (1, ''m'', False) = last (oc_wrote sample_client)"
proof -
  have "(1, ''m'', False) \<in> set (oc_wrote sample_client)" by code_simp
  from failed_write_is_last [OF sample_client_reachable this, of "[]" sample_client] show ?thesis by simp
qed

theorem closed_client_is_silent_witness: "Pending sample_client = 0 \<and> \<not> snd (Deliver 1 sample_reply sample_client)"
proof -
  have "oc_ended sample_client" by code_simp
  from closed_client_is_silent [OF sample_client_reachable this] show ?thesis by blast
qed

end
