(* ===== verification/ClientPool.thy ===== *)
theory ClientPool
  imports Prelude "HOL-Library.Multiset"
begin

text \<open>
  The pool of bound inference clients of \<open>src/internal/reasoning/execution_profiles.go\<close>
  (\<open>boundClientPool\<close>): concurrent callers of \<open>get\<close> share one binding per key, and \<open>Close\<close> waits for
  the bindings under way before it releases what is cached. A call that leads a binding is an entry of
  \<open>bp_calls\<close> at the point where it stands; one event is one critical section, with the \<open>Done\<close> of the
  wait group or the early \<open>Close\<close> of the adapter that follows it, or one call of the library, so that
  callers and \<open>Close\<close> interleave in every order. The clients that the inference
  library binds are numbered in order; \<open>bp_released\<close> lists the clients on which \<open>Close\<close> was called.
  \<open>codex\<close> says that the adapter is the Codex App Server, \<open>closable\<close> that it has a \<open>Close\<close> method.
\<close>

datatype pool_error = PoolClosed | BindFailed string | PreflightFailed string

datatype flight_phase = Binding | Preflight nat | Publishing nat | Finishing "pool_error + nat"

record flight =
  fl_ID :: nat
  fl_Key :: string
  fl_Phase :: flight_phase

datatype close_phase = Open | Waiting | Releasing "nat list" | Shut

record Pool =
  bp_closed :: bool
  bp_clients :: "(string \<times> nat) list"
  bp_flights :: "(string \<times> nat) list"
  bp_flightWG :: nat
  bp_done :: "(nat \<times> (pool_error + nat)) list"
  bp_calls :: "flight list"
  bp_nextFlight :: nat
  bp_nextClient :: nat
  bp_released :: "nat list"
  bp_close :: close_phase
  bp_adapterCloses :: nat

definition newBoundClientPool :: Pool where
  "newBoundClientPool =
     \<lparr>bp_closed = False, bp_clients = [], bp_flights = [], bp_flightWG = 0, bp_done = [], bp_calls = [],
      bp_nextFlight = 0, bp_nextClient = 0, bp_released = [], bp_close = Open, bp_adapterCloses = 0\<rparr>"

text \<open>The key of a binding.\<close>

definition pool_key :: "string \<Rightarrow> string \<Rightarrow> string \<Rightarrow> string \<Rightarrow> string \<Rightarrow> nat \<Rightarrow> string" where
  "pool_key profileID modelID optionID tier assurance maxTokens =
     join ''|'' [profileID, modelID, optionID, tier, assurance, decimal maxTokens]"

text \<open>The first critical section of \<open>get\<close>: refused, a cached client, a flight to wait for, or a
  flight to lead.\<close>

datatype pool_answer = Refused | Cached nat | Join nat | Lead nat

definition pool_get :: "string \<Rightarrow> Pool \<Rightarrow> Pool \<times> pool_answer" where
  "pool_get key p =
     (if bp_closed p then (p, Refused)
      else case map_of (bp_clients p) key of
        Some client \<Rightarrow> (p, Cached client)
      | None \<Rightarrow>
          (case map_of (bp_flights p) key of
             Some f \<Rightarrow> (p, Join f)
           | None \<Rightarrow>
               (p\<lparr>bp_flights := bp_flights p @ [(key, bp_nextFlight p)], bp_flightWG := bp_flightWG p + 1,
                  bp_nextFlight := bp_nextFlight p + 1,
                  bp_calls := bp_calls p @ [\<lparr>fl_ID = bp_nextFlight p, fl_Key = key, fl_Phase = Binding\<rparr>]\<rparr>,
                Lead (bp_nextFlight p))))"

definition find_flight :: "nat \<Rightarrow> Pool \<Rightarrow> flight option" where
  "find_flight f p = List.find (\<lambda>x. fl_ID x = f) (bp_calls p)"

definition set_flight :: "nat \<Rightarrow> flight_phase \<Rightarrow> flight list \<Rightarrow> flight list" where
  "set_flight f ph = map (\<lambda>x. if fl_ID x = f then x\<lparr>fl_Phase := ph\<rparr> else x)"

text \<open>\<open>BindBinding\<close>, which makes a client or fails.\<close>

definition flight_bound :: "pool_error option \<Rightarrow> nat \<Rightarrow> Pool \<Rightarrow> Pool" where
  "flight_bound err f p =
     (case err of
        Some e \<Rightarrow> p\<lparr>bp_calls := set_flight f (Finishing (Inl e)) (bp_calls p)\<rparr>
      | None \<Rightarrow> p\<lparr>bp_calls := set_flight f (Preflight (bp_nextClient p)) (bp_calls p),
                  bp_nextClient := bp_nextClient p + 1\<rparr>)"

definition flight_preflighted :: "pool_error option \<Rightarrow> nat \<Rightarrow> nat \<Rightarrow> Pool \<Rightarrow> Pool" where
  "flight_preflighted err client f p =
     (case err of
        Some e \<Rightarrow> p\<lparr>bp_released := bp_released p @ [client], bp_calls := set_flight f (Finishing (Inl e)) (bp_calls p)\<rparr>
      | None \<Rightarrow> p\<lparr>bp_calls := set_flight f (Publishing client) (bp_calls p)\<rparr>)"

text \<open>The second critical section of \<open>get\<close>: a pool that was closed meanwhile keeps no client.\<close>

definition put_client :: "string \<Rightarrow> nat \<Rightarrow> (string \<times> nat) list \<Rightarrow> (string \<times> nat) list" where
  "put_client key client clients = filter (\<lambda>c. fst c \<noteq> key) clients @ [(key, client)]"

definition flight_publish :: "nat \<Rightarrow> string \<Rightarrow> nat \<Rightarrow> Pool \<Rightarrow> Pool" where
  "flight_publish client key f p =
     (if bp_closed p then
        p\<lparr>bp_released := bp_released p @ [client], bp_calls := set_flight f (Finishing (Inl PoolClosed)) (bp_calls p)\<rparr>
      else p\<lparr>bp_clients := put_client key client (bp_clients p),
             bp_calls := set_flight f (Finishing (Inr client)) (bp_calls p)\<rparr>)"

definition finishFlight :: "pool_error + nat \<Rightarrow> string \<Rightarrow> nat \<Rightarrow> Pool \<Rightarrow> Pool" where
  "finishFlight r key f p =
     p\<lparr>bp_done := bp_done p @ [(f, r)], bp_flights := filter (\<lambda>x. fst x \<noteq> key) (bp_flights p),
       bp_flightWG := bp_flightWG p - 1, bp_calls := filter (\<lambda>x. fl_ID x \<noteq> f) (bp_calls p)\<rparr>"

text \<open>What a caller that joined a flight returns: the result of the flight once it is done.\<close>

definition joined :: "nat \<Rightarrow> Pool \<Rightarrow> (pool_error + nat) option" where
  "joined f p = map_of (bp_done p) f"

text \<open>\<open>Close\<close>, under \<open>closeOnce\<close>: its parts between which others may run.\<close>

definition close_start :: "bool \<Rightarrow> bool \<Rightarrow> Pool \<Rightarrow> Pool" where
  "close_start codex closable p =
     p\<lparr>bp_closed := True, bp_close := Waiting,
       bp_adapterCloses := bp_adapterCloses p + (if codex \<and> closable then 1 else 0)\<rparr>"

definition close_drain :: "nat list \<Rightarrow> Pool \<Rightarrow> Pool" where
  "close_drain order p = p\<lparr>bp_clients := [], bp_close := Releasing order\<rparr>"

definition close_release :: "nat \<Rightarrow> nat list \<Rightarrow> Pool \<Rightarrow> Pool" where
  "close_release client rest p = p\<lparr>bp_released := bp_released p @ [client], bp_close := Releasing rest\<rparr>"

definition close_end :: "bool \<Rightarrow> bool \<Rightarrow> Pool \<Rightarrow> Pool" where
  "close_end codex closable p =
     p\<lparr>bp_close := Shut, bp_adapterCloses := bp_adapterCloses p + (if \<not> codex \<and> closable then 1 else 0)\<rparr>"

subsection \<open>The machine\<close>

text \<open>\<open>order\<close> in \<open>PoolDrain\<close> is the order in which Go ranges over the map of clients.\<close>

datatype pool_event =
    PoolGet string
  | PoolFlight nat "pool_error option"
  | PoolClose
  | PoolDrain "nat list"
  | PoolRelease
  | PoolEnd

fun pool_exec :: "bool \<Rightarrow> bool \<Rightarrow> pool_event \<Rightarrow> Pool \<Rightarrow> Pool option" where
  "pool_exec codex closable (PoolGet key) p = Some (fst (pool_get key p))"
| "pool_exec codex closable (PoolFlight f err) p =
     (case find_flight f p of
        None \<Rightarrow> None
      | Some x \<Rightarrow>
          Some (case fl_Phase x of
            Binding \<Rightarrow> flight_bound err f p
          | Preflight client \<Rightarrow> flight_preflighted err client f p
          | Publishing client \<Rightarrow> flight_publish client (fl_Key x) f p
          | Finishing r \<Rightarrow> finishFlight r (fl_Key x) f p))"
| "pool_exec codex closable PoolClose p =
     (if bp_close p = Open then Some (close_start codex closable p) else None)"
| "pool_exec codex closable (PoolDrain order) p =
     (if bp_close p = Waiting \<and> bp_flightWG p = 0 \<and> mset order = mset (map snd (bp_clients p))
      then Some (close_drain order p) else None)"
| "pool_exec codex closable PoolRelease p =
     (case bp_close p of Releasing (c # cs) \<Rightarrow> Some (close_release c cs p) | _ \<Rightarrow> None)"
| "pool_exec codex closable PoolEnd p =
     (if bp_close p = Releasing [] then Some (close_end codex closable p) else None)"

definition pool_step :: "bool \<Rightarrow> bool \<Rightarrow> Pool \<Rightarrow> Pool \<Rightarrow> bool" where
  "pool_step codex closable p q \<longleftrightarrow> (\<exists>e. pool_exec codex closable e p = Some q)"

abbreviation pool_reachable :: "bool \<Rightarrow> bool \<Rightarrow> Pool \<Rightarrow> bool" where
  "pool_reachable codex closable \<equiv> reachable_from (\<lambda>p. p = newBoundClientPool) (pool_step codex closable)"

subsection \<open>Invariant\<close>

fun held :: "flight \<Rightarrow> nat list" where
  "held x = (case fl_Phase x of Preflight c \<Rightarrow> [c] | Publishing c \<Rightarrow> [c] | _ \<Rightarrow> [])"

fun closing :: "close_phase \<Rightarrow> nat list" where
  "closing (Releasing cs) = cs"
| "closing _ = []"

definition unfinished :: "flight \<Rightarrow> bool" where
  "unfinished x \<longleftrightarrow> (\<forall>r. fl_Phase x \<noteq> Finishing r)"

text \<open>Every client that was bound is in exactly one place.\<close>

definition clients_accounted :: "Pool \<Rightarrow> bool" where
  "clients_accounted p \<longleftrightarrow>
     mset (map snd (bp_clients p)) + mset (concat (map held (bp_calls p))) + mset (bp_released p) +
     mset (closing (bp_close p)) = mset [0..<bp_nextClient p]"

definition flights_single :: "Pool \<Rightarrow> bool" where
  "flights_single p \<longleftrightarrow> bp_flights p = map (\<lambda>x. (fl_Key x, fl_ID x)) (bp_calls p) \<and>
     bp_flightWG p = length (bp_calls p) \<and> distinct (map fl_Key (bp_calls p)) \<and> distinct (map fl_ID (bp_calls p)) \<and>
     (\<forall>x \<in> set (bp_calls p). fl_ID x < bp_nextFlight p) \<and> distinct (map fst (bp_clients p)) \<and>
     (\<forall>x \<in> set (bp_calls p). unfinished x \<longrightarrow> fl_Key x \<notin> fst ` set (bp_clients p))"

definition close_consistent :: "bool \<Rightarrow> bool \<Rightarrow> Pool \<Rightarrow> bool" where
  "close_consistent codex closable p \<longleftrightarrow>
     (bp_closed p \<longleftrightarrow> bp_close p \<noteq> Open) \<and>
     (bp_close p \<noteq> Open \<and> bp_close p \<noteq> Waiting \<longrightarrow> bp_calls p = [] \<and> bp_clients p = []) \<and>
     bp_adapterCloses p = (case bp_close p of
        Open \<Rightarrow> 0 | Shut \<Rightarrow> if closable then 1 else 0 | _ \<Rightarrow> if codex \<and> closable then 1 else 0)"

definition pool_inv :: "bool \<Rightarrow> bool \<Rightarrow> Pool \<Rightarrow> bool" where
  "pool_inv codex closable p \<longleftrightarrow> clients_accounted p \<and> flights_single p \<and> close_consistent codex closable p"

lemma pool_inv_start: "pool_inv codex closable newBoundClientPool"
  by (simp add: pool_inv_def clients_accounted_def flights_single_def close_consistent_def newBoundClientPool_def)

text \<open>A flight splits the list of calls at its place.\<close>

lemma flight_split:
  assumes "find_flight f p = Some x" "flights_single p"
  obtains a b where "bp_calls p = a @ x # b" "fl_ID x = f" "f \<notin> fl_ID ` set (a @ b)" "fl_Key x \<notin> fl_Key ` set (a @ b)"
    "\<forall>ph. set_flight f ph (bp_calls p) = a @ x\<lparr>fl_Phase := ph\<rparr> # b"
    "filter (\<lambda>y. fl_ID y \<noteq> f) (bp_calls p) = a @ b"
proof -
  have x: "x \<in> set (bp_calls p)" "fl_ID x = f"
    using assms(1) by (auto simp: find_flight_def find_Some_iff)
  then obtain a b where ab: "bp_calls p = a @ x # b" by (meson split_list)
  have "distinct (map fl_ID (a @ x # b))" "distinct (map fl_Key (a @ x # b))"
    using assms(2) ab by (simp_all add: flights_single_def)
  then have out: "f \<notin> fl_ID ` set (a @ b)" "fl_Key x \<notin> fl_Key ` set (a @ b)" using x(2) by auto
  moreover have "set_flight f ph (bp_calls p) = a @ x\<lparr>fl_Phase := ph\<rparr> # b" for ph
  proof -
    have "map (\<lambda>y. if fl_ID y = f then y\<lparr>fl_Phase := ph\<rparr> else y) l = l" if "f \<notin> fl_ID ` set l" for l
      using that by (induction l) auto
    from this [of a] this [of b] out(1) x(2) show ?thesis by (simp add: set_flight_def ab image_Un)
  qed
  moreover have "filter (\<lambda>y. fl_ID y \<noteq> f) (bp_calls p) = a @ b"
  proof -
    have "filter (\<lambda>y. fl_ID y \<noteq> f) l = l" if "f \<notin> fl_ID ` set l" for l
      using that by (intro filter_True) auto
    from this [of a] this [of b] out(1) x(2) show ?thesis by (simp add: ab image_Un)
  qed
  ultimately show ?thesis using ab x(2) that by blast
qed

lemma unfinished_simps [simp]:
  "unfinished (x\<lparr>fl_Phase := Finishing r\<rparr>) = False" "unfinished (x\<lparr>fl_Phase := Preflight c\<rparr>)"
  "unfinished (x\<lparr>fl_Phase := Publishing c\<rparr>)"
  by (simp_all add: unfinished_def)

lemma inv_get:
  assumes "pool_inv codex closable p"
  shows "pool_inv codex closable (fst (pool_get key p))"
proof (cases "bp_closed p \<or> map_of (bp_clients p) key \<noteq> None \<or> map_of (bp_flights p) key \<noteq> None")
  case True
  with assms show ?thesis by (auto simp: pool_get_def split: option.splits)
next
  case False
  let ?x = "\<lparr>fl_ID = bp_nextFlight p, fl_Key = key, fl_Phase = Binding\<rparr>"
  let ?q = "p\<lparr>bp_flights := bp_flights p @ [(key, bp_nextFlight p)], bp_flightWG := bp_flightWG p + 1,
      bp_nextFlight := bp_nextFlight p + 1, bp_calls := bp_calls p @ [?x]\<rparr>"
  from assms have acc: "clients_accounted p" and fl: "flights_single p" and cl: "close_consistent codex closable p"
    by (simp_all add: pool_inv_def)
  have eq: "fst (pool_get key p) = ?q" using False by (simp add: pool_get_def)
  have flights: "bp_flights p = map (\<lambda>x. (fl_Key x, fl_ID x)) (bp_calls p)" using fl by (simp add: flights_single_def)
  have "key \<notin> fst ` set (bp_flights p)" using False by (simp add: map_of_eq_None_iff)
  then have "key \<notin> fl_Key ` set (bp_calls p)" unfolding flights by (simp add: image_image)
  moreover have "bp_nextFlight p \<notin> fl_ID ` set (bp_calls p)" using fl by (auto simp: flights_single_def)
  moreover have "key \<notin> fst ` set (bp_clients p)" using False by (simp add: map_of_eq_None_iff)
  ultimately have "flights_single ?q" using fl by (simp add: flights_single_def less_Suc_eq)
  moreover have "clients_accounted ?q" using acc by (simp add: clients_accounted_def)
  moreover have "bp_close p = Open" using False cl by (simp add: close_consistent_def)
  then have "close_consistent codex closable ?q" using cl by (simp add: close_consistent_def)
  ultimately show ?thesis unfolding eq by (simp add: pool_inv_def)
qed

text \<open>A pool with a call under way is not past draining.\<close>

lemma calls_not_drained:
  assumes "close_consistent codex closable p" "bp_calls p \<noteq> []"
  shows "bp_close p = Open \<or> bp_close p = Waiting"
  using assms by (auto simp: close_consistent_def)

lemma calls_only_consistent:
  assumes "close_consistent codex closable p" "bp_calls p \<noteq> []"
    "bp_close q = bp_close p" "bp_closed q = bp_closed p" "bp_adapterCloses q = bp_adapterCloses p"
  shows "close_consistent codex closable q"
  using assms calls_not_drained [OF assms(1,2)] by (auto simp: close_consistent_def)

lemma in_set_put: "fst ` set (put_client key client clients) = insert key (fst ` set clients)"
  by (auto simp: put_client_def)

lemma put_fresh: "key \<notin> fst ` set clients \<Longrightarrow> put_client key client clients = clients @ [(key, client)]"
  unfolding put_client_def by (simp, rule filter_True, auto)

lemma flight_keeps:
  assumes "pool_exec codex closable (PoolFlight f err) p = Some q"
  shows "bp_close q = bp_close p \<and> bp_closed q = bp_closed p \<and> bp_adapterCloses q = bp_adapterCloses p"
proof -
  from assms obtain x where x: "find_flight f p = Some x" by (cases "find_flight f p") simp_all
  show ?thesis
  proof (cases "fl_Phase x")
    case Binding
    then have q: "q = flight_bound err f p" using assms x by simp
    show ?thesis unfolding q flight_bound_def by (cases err) simp_all
  next
    case (Preflight c)
    then have q: "q = flight_preflighted err c f p" using assms x by simp
    show ?thesis unfolding q flight_preflighted_def by (cases err) simp_all
  next
    case (Publishing c)
    then have q: "q = flight_publish c (fl_Key x) f p" using assms x by simp
    show ?thesis unfolding q flight_publish_def by (cases "bp_closed p") simp_all
  next
    case (Finishing r)
    then have q: "q = finishFlight r (fl_Key x) f p" using assms x by simp
    show ?thesis unfolding q finishFlight_def by simp
  qed
qed

text \<open>A call that moves to its next phase.\<close>

lemma relabel_single:
  assumes fl: "flights_single p" and p: "bp_calls p = a @ x # b" and q: "bp_calls q = a @ x\<lparr>fl_Phase := ph\<rparr> # b"
    and same: "bp_flights q = bp_flights p" "bp_flightWG q = bp_flightWG p" "bp_nextFlight q = bp_nextFlight p"
    and dist: "distinct (map fst (bp_clients q))"
    and keys: "fst ` set (bp_clients q) \<subseteq> insert (fl_Key x) (fst ` set (bp_clients p))"
    and moved: "unfinished (x\<lparr>fl_Phase := ph\<rparr>) \<Longrightarrow> unfinished x \<and> bp_clients q = bp_clients p"
  shows "flights_single q"
proof -
  have keys_x: "fl_Key x \<notin> fl_Key ` set (a @ b)" using fl unfolding flights_single_def p by auto
  have old: "fl_Key y \<notin> fst ` set (bp_clients p)" if "y \<in> set (bp_calls p)" "unfinished y" for y
    using fl that by (simp add: flights_single_def)
  have "fl_Key y \<notin> fst ` set (bp_clients q)" if y: "y \<in> set (bp_calls q)" "unfinished y" for y
  proof (cases "y \<in> set (a @ b)")
    case True
    then have "fl_Key y \<noteq> fl_Key x" using keys_x by (metis imageI)
    moreover have "fl_Key y \<notin> fst ` set (bp_clients p)" using old y(2) True by (simp add: p)
    ultimately show ?thesis using keys by blast
  next
    case False
    then have "y = x\<lparr>fl_Phase := ph\<rparr>" using y(1) by (simp add: q)
    with moved y(2) old [of x] p show ?thesis by simp
  qed
  then show ?thesis using fl same dist by (simp add: flights_single_def p q)
qed

lemma inv_flight:
  assumes inv: "pool_inv codex closable p" and step: "pool_exec codex closable (PoolFlight f err) p = Some q"
  shows "pool_inv codex closable q"
proof -
  from inv have acc: "clients_accounted p" and fl: "flights_single p" and cl: "close_consistent codex closable p"
    by (simp_all add: pool_inv_def)
  from step obtain x where x: "find_flight f p = Some x" by (cases "find_flight f p") simp_all
  obtain a b where ab: "bp_calls p = a @ x # b" "fl_ID x = f"
    and out: "f \<notin> fl_ID ` set (a @ b)" "fl_Key x \<notin> fl_Key ` set (a @ b)"
    and upd: "\<forall>ph. set_flight f ph (bp_calls p) = a @ x\<lparr>fl_Phase := ph\<rparr> # b"
    and del: "filter (\<lambda>y. fl_ID y \<noteq> f) (bp_calls p) = a @ b"
    by (rule flight_split [OF x fl])
  have ne: "bp_calls p \<noteq> []" using ab by simp
  have same: "bp_close q = bp_close p \<and> bp_closed q = bp_closed p \<and> bp_adapterCloses q = bp_adapterCloses p"
    by (rule flight_keeps [OF step])
  then have cons: "close_consistent codex closable q" using calls_only_consistent [OF cl ne] by blast
  have clients: "distinct (map fst (bp_clients p))" using fl by (simp add: flights_single_def)
  have u [simp]: "set_flight f ph (a @ x # b) = a @ x\<lparr>fl_Phase := ph\<rparr> # b" for ph using upd ab(1) by simp
  have "clients_accounted q \<and> flights_single q"
  proof (cases "fl_Phase x")
    case Binding
    then have ux: "unfinished x" "held x = []" by (simp_all add: unfinished_def)
    have q: "q = flight_bound err f p" using step x Binding by simp
    have "clients_accounted q" using acc ux(2) unfolding q
      by (cases err) (simp_all add: flight_bound_def clients_accounted_def ab(1))
    moreover have "flights_single q"
      by (cases err; rule relabel_single [OF fl ab(1)]) (simp_all add: q flight_bound_def ab(1) clients ux(1) subset_insertI)
    ultimately show ?thesis by simp
  next
    case (Preflight c)
    then have ux: "unfinished x" "held x = [c]" by (simp_all add: unfinished_def)
    have q: "q = flight_preflighted err c f p" using step x Preflight by simp
    have "clients_accounted q" using acc ux(2) unfolding q
      by (cases err) (simp_all add: flight_preflighted_def clients_accounted_def ab(1))
    moreover have "flights_single q"
      by (cases err; rule relabel_single [OF fl ab(1)]) (simp_all add: q flight_preflighted_def ab(1) clients ux(1) subset_insertI)
    ultimately show ?thesis by simp
  next
    case (Publishing c)
    then have ux: "unfinished x" "held x = [c]" by (simp_all add: unfinished_def)
    then have fresh: "fl_Key x \<notin> fst ` set (bp_clients p)" using fl ab by (simp add: flights_single_def)
    have q: "q = flight_publish c (fl_Key x) f p" using step x Publishing by simp
    have "clients_accounted q" using acc ux(2) put_fresh [OF fresh] unfolding q
      by (cases "bp_closed p") (simp_all add: flight_publish_def clients_accounted_def ab(1))
    moreover have "flights_single q"
      by (rule relabel_single [OF fl ab(1), where ph = "Finishing (if bp_closed p then Inl PoolClosed else Inr c)"])
        (simp_all add: q flight_publish_def ab(1) clients fresh put_fresh [OF fresh] subset_insertI)
    ultimately show ?thesis by simp
  next
    case (Finishing r)
    then have hx: "held x = []" by simp
    have q: "q = finishFlight r (fl_Key x) f p" using step x Finishing by simp
    have flights: "bp_flights p = map (\<lambda>x. (fl_Key x, fl_ID x)) (bp_calls p)" using fl by (simp add: flights_single_def)
    have keep: "filter (\<lambda>y. fst y \<noteq> fl_Key x) (map (\<lambda>x. (fl_Key x, fl_ID x)) l) = map (\<lambda>x. (fl_Key x, fl_ID x)) l"
      if "fl_Key x \<notin> fl_Key ` set l" for l
      using that by (induction l) auto
    have left: "filter (\<lambda>y. fst y \<noteq> fl_Key x) (bp_flights p) = map (\<lambda>x. (fl_Key x, fl_ID x)) (a @ b)"
      unfolding flights ab(1) using keep [of a] keep [of b] out(2) by (simp add: image_Un)
    have calls: "bp_calls q = a @ b" using del by (simp add: q finishFlight_def)
    have "clients_accounted q" using acc hx calls
      by (simp add: q finishFlight_def clients_accounted_def ab(1))
    moreover have "flights_single q" using fl calls left
      by (simp add: q finishFlight_def flights_single_def ab(1))
    ultimately show ?thesis by simp
  qed
  with cons show ?thesis by (simp add: pool_inv_def)
qed

lemma inv_pool_exec:
  assumes "pool_inv codex closable p" "pool_exec codex closable e p = Some q"
  shows "pool_inv codex closable q"
proof -
  from assms(1) have parts: "clients_accounted p" "flights_single p" "close_consistent codex closable p"
    by (simp_all add: pool_inv_def)
  show ?thesis
  proof (cases e)
    case (PoolGet key)
    with assms(2) have "q = fst (pool_get key p)" by simp
    with inv_get [OF assms(1)] show ?thesis by simp
  next
    case (PoolFlight f err)
    with assms inv_flight show ?thesis by blast
  next
    case PoolClose
    with assms(2) have o: "bp_close p = Open" and q: "q = close_start codex closable p" by (auto split: if_splits)
    from o parts show ?thesis unfolding q pool_inv_def
      by (simp add: close_start_def clients_accounted_def flights_single_def close_consistent_def)
  next
    case (PoolDrain order)
    with assms(2) have o: "bp_close p = Waiting" "bp_flightWG p = 0" "mset order = mset (map snd (bp_clients p))"
      and q: "q = close_drain order p" by (auto split: if_splits)
    from o(2) parts(2) have "bp_calls p = []" by (simp add: flights_single_def)
    with o parts show ?thesis unfolding q pool_inv_def
      by (simp add: close_drain_def clients_accounted_def flights_single_def close_consistent_def add.commute)
  next
    case PoolRelease
    with assms(2) obtain c cs where o: "bp_close p = Releasing (c # cs)" and q: "q = close_release c cs p"
      by (auto split: close_phase.splits list.splits)
    from o parts show ?thesis unfolding q pool_inv_def
      by (simp add: close_release_def clients_accounted_def flights_single_def close_consistent_def)
  next
    case PoolEnd
    with assms(2) have o: "bp_close p = Releasing []" and q: "q = close_end codex closable p" by (auto split: if_splits)
    from o parts show ?thesis unfolding q pool_inv_def
      by (simp add: close_end_def clients_accounted_def flights_single_def close_consistent_def)
  qed
qed

interpretation pool: safe_machine "\<lambda>p. p = newBoundClientPool" "pool_step codex closable" "pool_inv codex closable"
  for codex closable
  by unfold_locales (auto simp: pool_step_def pool_inv_start inv_pool_exec)

subsection \<open>One binding per key, one close per client\<close>

text \<open>C31. In every interleaving at most one binding per key is under way, exactly for the keys that are
  in flight, and the wait group counts them; a binding that has not finished has no cached client of
  its key; and every client that was ever bound is in exactly one place: cached, held by one call,
  released, or about to be released by \<open>Close\<close>. So no client is bound twice for a key, closed twice,
  or closed while it is cached.\<close>

theorem one_place_per_client:
  assumes "pool_reachable codex closable p"
  shows "distinct (map fl_Key (bp_calls p)) \<and> bp_flights p = map (\<lambda>x. (fl_Key x, fl_ID x)) (bp_calls p) \<and>
    bp_flightWG p = length (bp_calls p) \<and>
    fl_Key ` set (filter unfinished (bp_calls p)) \<inter> fst ` set (bp_clients p) = {} \<and>
    distinct (map snd (bp_clients p) @ concat (map held (bp_calls p)) @ bp_released p @ closing (bp_close p)) \<and>
    set (map snd (bp_clients p) @ concat (map held (bp_calls p)) @ bp_released p @ closing (bp_close p)) =
      {..<bp_nextClient p}"
proof -
  let ?all = "map snd (bp_clients p) @ concat (map held (bp_calls p)) @ bp_released p @ closing (bp_close p)"
  have inv: "pool_inv codex closable p" using assms by (rule pool.reachable_safe)
  then have "mset ?all = mset [0..<bp_nextClient p]"
    by (simp add: pool_inv_def clients_accounted_def add.assoc)
  then have "distinct ?all" "set ?all = {..<bp_nextClient p}"
    using mset_eq_imp_distinct_iff [of ?all "[0..<bp_nextClient p]"] mset_eq_setD [of ?all "[0..<bp_nextClient p]"]
    by auto
  moreover have "fl_Key ` set (filter unfinished (bp_calls p)) \<inter> fst ` set (bp_clients p) = {}"
    using inv by (auto simp: pool_inv_def flights_single_def)
  ultimately show ?thesis using inv by (simp add: pool_inv_def flights_single_def)
qed

text \<open>C32. When \<open>Close\<close> has returned nothing leaked: no binding is under way, nothing is cached, every
  client that was bound was closed exactly once, the adapter was closed once if it can be, and a
  later \<open>get\<close> is refused.\<close>

theorem closed_pool_leaks_nothing:
  assumes "pool_reachable codex closable p" "bp_close p = Shut"
  shows "bp_calls p = [] \<and> bp_clients p = [] \<and> bp_flights p = [] \<and>
    mset (bp_released p) = mset [0..<bp_nextClient p] \<and>
    bp_adapterCloses p = (if closable then 1 else 0) \<and> pool_get key p = (p, Refused)"
proof -
  have "pool_inv codex closable p" using assms(1) by (rule pool.reachable_safe)
  then have acc: "clients_accounted p" and fl: "flights_single p" and cl: "close_consistent codex closable p"
    by (simp_all add: pool_inv_def)
  have empty: "bp_calls p = []" "bp_clients p = []" using cl assms(2) by (simp_all add: close_consistent_def)
  with acc assms(2) have "mset (bp_released p) = mset [0..<bp_nextClient p]" by (simp add: clients_accounted_def)
  moreover have "bp_flights p = []" using fl empty by (simp add: flights_single_def)
  moreover have "bp_adapterCloses p = (if closable then 1 else 0)" "bp_closed p"
    using cl assms(2) by (simp_all add: close_consistent_def)
  ultimately show ?thesis using empty by (simp add: pool_get_def)
qed

subsection \<open>Closing never gets stuck\<close>

fun pool_run :: "bool \<Rightarrow> bool \<Rightarrow> pool_event list \<Rightarrow> Pool \<Rightarrow> Pool option" where
  "pool_run codex closable [] p = Some p"
| "pool_run codex closable (e # es) p =
     (case pool_exec codex closable e p of None \<Rightarrow> None | Some q \<Rightarrow> pool_run codex closable es q)"

fun phase_rank :: "flight_phase \<Rightarrow> nat" where
  "phase_rank Binding = 4"
| "phase_rank (Preflight c) = 3"
| "phase_rank (Publishing c) = 2"
| "phase_rank (Finishing r) = 1"

definition work_left :: "Pool \<Rightarrow> nat" where
  "work_left p =
     sum_list (map (\<lambda>x. phase_rank (fl_Phase x)) (bp_calls p)) +
     (case bp_close p of
        Open \<Rightarrow> 3 + length (bp_clients p) | Waiting \<Rightarrow> 2 + length (bp_clients p)
      | Releasing cs \<Rightarrow> 1 + length cs | Shut \<Rightarrow> 0)"

text \<open>While a closed pool waits, its first call can take its next step, which is one of four.\<close>

lemma waiting_call_advances:
  assumes inv: "pool_inv codex closable p" and w: "bp_close p = Waiting" and c: "bp_calls p = x # xs"
  shows "\<exists>q. pool_exec codex closable (PoolFlight (fl_ID x) None) p = Some q \<and> work_left q < work_left p"
proof -
  have fl: "flights_single p" and closed: "bp_closed p"
    using inv w by (simp_all add: pool_inv_def close_consistent_def)
  have x: "find_flight (fl_ID x) p = Some x" by (simp add: find_flight_def c)
  obtain a b where ab: "bp_calls p = a @ x # b" "fl_ID x \<notin> fl_ID ` set (a @ b)"
    and upd: "\<forall>ph. set_flight (fl_ID x) ph (bp_calls p) = a @ x\<lparr>fl_Phase := ph\<rparr> # b"
    and del: "filter (\<lambda>y. fl_ID y \<noteq> fl_ID x) (bp_calls p) = a @ b"
    by (rule flight_split [OF x fl])
  show ?thesis
    using x ab(1) upd del closed w
    by (cases "fl_Phase x")
      (auto simp: work_left_def flight_bound_def flight_preflighted_def flight_publish_def finishFlight_def)
qed

lemma shut_possible_from_closing:
  "pool_inv codex closable p \<Longrightarrow> bp_close p \<noteq> Open \<Longrightarrow>
   \<exists>es q. pool_run codex closable es p = Some q \<and> bp_close q = Shut"
proof (induction "work_left p" arbitrary: p rule: less_induct)
  case less
  have go: ?case if "pool_exec codex closable e p = Some q" "work_left q < work_left p" "bp_close q \<noteq> Open" for e q
  proof -
    from less.hyps [OF that(2) inv_pool_exec [OF less.prems(1) that(1)] that(3)]
    obtain es r where "pool_run codex closable es q = Some r" "bp_close r = Shut" by blast
    with that(1) have "pool_run codex closable (e # es) p = Some r" by simp
    with \<open>bp_close r = Shut\<close> show ?thesis by blast
  qed
  show ?case
  proof (cases "bp_close p")
    case Open
    with less.prems(2) show ?thesis by simp
  next
    case Waiting
    show ?thesis
    proof (cases "bp_calls p")
      case Nil
      have "flights_single p" using less.prems(1) by (simp add: pool_inv_def)
      with Nil have "bp_flightWG p = 0" by (simp add: flights_single_def)
      with Nil Waiting show ?thesis
        by (intro go [of "PoolDrain (map snd (bp_clients p))" "close_drain (map snd (bp_clients p)) p"]) (simp_all add: close_drain_def work_left_def)
    next
      case (Cons x xs)
      from waiting_call_advances [OF less.prems(1) Waiting Cons] obtain q
        where q: "pool_exec codex closable (PoolFlight (fl_ID x) None) p = Some q" "work_left q < work_left p" by blast
      from flight_keeps [OF q(1)] Waiting have "bp_close q = Waiting" by simp
      then have "bp_close q \<noteq> Open" by simp
      then show ?thesis by (rule go [OF q])
    qed
  next
    case (Releasing cs)
    show ?thesis
    proof (cases cs)
      case Nil
      with Releasing show ?thesis by (intro go [of PoolEnd "close_end codex closable p"]) (simp_all add: close_end_def work_left_def)
    next
      case (Cons c ds)
      with Releasing show ?thesis by (intro go [of PoolRelease "close_release c ds p"]) (simp_all add: close_release_def work_left_def)
    qed
  next
    case Shut
    have "pool_run codex closable [] p = Some p" by simp
    with Shut show ?thesis by blast
  qed
qed

text \<open>Closing is always possible: from every reachable state, whatever bindings are under way, the
  bindings can finish and \<open>Close\<close> can run to its end.\<close>

theorem pool_can_always_be_closed:
  assumes "pool_reachable codex closable p"
  shows "\<exists>es q. pool_run codex closable es p = Some q \<and> bp_close q = Shut"
proof (cases "bp_close p = Open")
  case True
  have inv: "pool_inv codex closable p" using assms by (rule pool.reachable_safe)
  let ?q = "close_start codex closable p"
  have step: "pool_exec codex closable PoolClose p = Some ?q" using True by simp
  have "bp_close ?q \<noteq> Open" by (simp add: close_start_def)
  from shut_possible_from_closing [OF inv_pool_exec [OF inv step] this]
  obtain es r where "pool_run codex closable es ?q = Some r" "bp_close r = Shut" by blast
  with step have "pool_run codex closable (PoolClose # es) p = Some r" by simp
  with \<open>bp_close r = Shut\<close> show ?thesis by blast
next
  case False
  with shut_possible_from_closing assms pool.reachable_safe show ?thesis by blast
qed

subsection \<open>A pool that is closed during a binding\<close>

lemma pool_run_reachable:
  "pool_reachable codex closable p \<Longrightarrow> pool_run codex closable es p = Some q \<Longrightarrow> pool_reachable codex closable q"
proof (induction es arbitrary: p)
  case (Cons e es)
  then obtain p' where p': "pool_exec codex closable e p = Some p'" "pool_run codex closable es p' = Some q"
    by (auto split: option.splits)
  have "pool_reachable codex closable p'"
    by (rule after_move [OF Cons.prems(1)]) (use p'(1) in \<open>auto simp: pool_step_def\<close>)
  with Cons.IH p'(2) show ?case by blast
qed simp

text \<open>One client is cached; a second binding is at its preflight when the pool is closed.\<close>

definition early_events :: "pool_event list" where
  "early_events = [PoolGet ''a'', PoolFlight 0 None, PoolFlight 0 None, PoolFlight 0 None, PoolFlight 0 None,
     PoolGet ''b'', PoolFlight 1 None, PoolClose]"

definition late_events :: "pool_event list" where
  "late_events = [PoolFlight 1 None, PoolFlight 1 None, PoolFlight 1 None, PoolDrain [0], PoolRelease, PoolEnd]"

definition closing_pool :: Pool where
  "closing_pool = the (pool_run False True early_events newBoundClientPool)"

definition shut_pool :: Pool where
  "shut_pool = the (pool_run False True late_events closing_pool)"

lemma sample_pools:
  "pool_run False True early_events newBoundClientPool = Some closing_pool"
  "pool_run False True late_events closing_pool = Some shut_pool"
proof -
  have "pool_run False True early_events newBoundClientPool \<noteq> None" by code_simp
  then show "pool_run False True early_events newBoundClientPool = Some closing_pool" by (simp add: closing_pool_def)
  have "pool_run False True late_events closing_pool \<noteq> None" by code_simp
  then show "pool_run False True late_events closing_pool = Some shut_pool" by (simp add: shut_pool_def)
qed

lemma sample_pools_reachable: "pool_reachable False True closing_pool" "pool_reachable False True shut_pool"
proof -
  show "pool_reachable False True closing_pool" by (rule pool_run_reachable [OF at_start sample_pools(1)]) simp
  then show "pool_reachable False True shut_pool" by (rule pool_run_reachable) (rule sample_pools(2))
qed

theorem one_place_per_client_witness:
  "distinct (map snd (bp_clients closing_pool) @ concat (map held (bp_calls closing_pool)) @
     bp_released closing_pool @ closing (bp_close closing_pool)) \<and> bp_flightWG closing_pool = 1"
proof -
  have "length (bp_calls closing_pool) = 1" by code_simp
  with one_place_per_client [OF sample_pools_reachable(1)] show ?thesis by simp
qed

theorem closed_pool_leaks_nothing_witness: "mset (bp_released shut_pool) = {#0, 1#} \<and> bp_clients shut_pool = []"
proof -
  have "bp_close shut_pool = Shut" "bp_nextClient shut_pool = 2" by code_simp+
  with closed_pool_leaks_nothing [OF sample_pools_reachable(2)] show ?thesis by (simp add: upt_rec)
qed

theorem pool_can_always_be_closed_witness:
  "\<exists>es q. pool_run False True es closing_pool = Some q \<and> bp_close q = Shut"
  by (rule pool_can_always_be_closed [OF sample_pools_reachable(1)])

end
