(* ===== verification/ReaderBroker.thy ===== *)
theory ReaderBroker
  imports Sources
begin

text \<open>
  \<open>src/internal/readerbroker/protocol.go\<close>: the native messaging contract that activates a reader window.
  A frame is a 32-bit little-endian length and that many bytes of JSON. \<open>Exchange\<close> hands out a fresh
  ticket first and discloses the native target only to a peer that returns it. \<open>json.Marshal\<close> and
  \<open>json.Unmarshal\<close> are the arguments \<open>encode\<close> and \<open>decode\<close>; the connection is the bytes that the
  peer sends and, for each write, how many bytes it took and whether it succeeded; times are
  nanoseconds; \<open>Secret\<close> is the ticket of the environment.
\<close>

record ReaderRequest =
  rq_RequestID :: string
  rq_Source :: string
  rq_URL :: string

record ReaderTarget =
  tg_HWND :: "64 word"
  tg_PID :: "32 word"
  tg_Property :: string
  tg_Value :: "64 word"
  tg_Expires :: int
  tg_Action :: string

record ReaderReply =
  rr_OK :: bool
  rr_Message :: string
  rr_Ticket :: string
  rr_Target :: "ReaderTarget option"
  rr_Applied :: bool
  rr_Readback :: bool
  rr_FocusCategory :: string
  rr_ReaderVisible :: "bool option"
  rr_ReaderMinimized :: "bool option"

definition empty_reply :: ReaderReply where
  "empty_reply = \<lparr>rr_OK = False, rr_Message = [], rr_Ticket = [], rr_Target = None, rr_Applied = False,
     rr_Readback = False, rr_FocusCategory = [], rr_ReaderVisible = None, rr_ReaderMinimized = None\<rparr>"

definition Lifetime :: int where
  "Lifetime = 5 * 10 ^ 9"

subsection \<open>Classification\<close>

definition CanNavigatePostWithoutForeground :: "ReaderReply \<Rightarrow> bool" where
  "CanNavigatePostWithoutForeground r \<longleftrightarrow>
     \<not> rr_OK r \<and> \<not> rr_Readback r \<and> rr_Message r = ''Windows rejected reader activation'' \<and>
     rr_FocusCategory r = ''ui'' \<and> rr_ReaderVisible r = Some True \<and> rr_ReaderMinimized r = Some False"

definition ClassifyForeground :: "64 word \<Rightarrow> 32 word \<Rightarrow> 32 word \<Rightarrow> 64 word \<Rightarrow> string" where
  "ClassifyForeground hwnd foregroundPID uiPID readerHWND =
     (if hwnd = 0 then ''none''
      else if readerHWND \<noteq> 0 \<and> hwnd = readerHWND then ''exact_reader''
      else if foregroundPID \<noteq> 0 \<and> uiPID \<noteq> 0 \<and> foregroundPID = uiPID then ''ui''
      else ''other'')"

definition DiagnosticFocusCategory :: "ReaderReply \<Rightarrow> string" where
  "DiagnosticFocusCategory r =
     (if rr_FocusCategory r \<in> {''none'', ''exact_reader'', ''ui'', ''other''} then rr_FocusCategory r else ''unknown'')"

definition ActivationReason :: "ReaderReply \<Rightarrow> bool \<Rightarrow> string" where
  "ActivationReason r failed =
     (if failed then ''exchange_failed''
      else if rr_OK r \<and> rr_Readback r then ''accepted''
      else if rr_Message r = ''Reader binding rejected'' then ''binding_rejected''
      else if rr_Message r = ''Reader binding expired or changed'' then ''binding_expired_or_changed''
      else if rr_Message r = ''Reader intent expired or UI foreground changed'' then ''ui_foreground_changed''
      else if rr_Message r = ''Windows rejected reader activation'' then ''windows_activation_rejected''
      else ''activation_rejected'')"

subsection \<open>Requests\<close>

definition is_hex :: "char \<Rightarrow> bool" where
  "is_hex c = (let n = of_char c :: nat in 97 \<le> n \<and> n \<le> 102 \<or> 48 \<le> n \<and> n \<le> 57)"

text \<open>\<open>requestPattern\<close>, \<open>^broker_[a-f0-9]{32}$\<close>.\<close>

definition request_id_ok :: "string \<Rightarrow> bool" where
  "request_id_ok s \<longleftrightarrow> has_prefix ''broker_'' s \<and> length (drop 7 s) = 32 \<and> list_all is_hex (drop 7 s)"

definition reader_hosts :: "string \<Rightarrow> string list" where
  "reader_hosts source =
     (if source = ''x'' then [''x.com'', ''www.x.com'']
      else if source = ''linkedin'' then [''www.linkedin.com'', ''linkedin.com'']
      else if source = ''facebook'' then [''www.facebook.com'', ''facebook.com'']
      else if source = ''instagram'' then [''www.instagram.com'', ''instagram.com'']
      else [])"

definition Request_Validate :: "(string \<Rightarrow> URL option) \<Rightarrow> ReaderRequest \<Rightarrow> string option" where
  "Request_Validate parse r =
     (if \<not> request_id_ok (rq_RequestID r) \<or> length (rq_URL r) > 4096 then Some ''invalid reader request''
      else case parse (rq_URL r) of
        None \<Rightarrow> Some ''invalid reader URL''
      | Some u \<Rightarrow>
          if ur_Scheme u \<noteq> ''https'' \<or> ur_HasUser u then Some ''invalid reader URL''
          else if ur_Hostname u \<notin> set (reader_hosts (rq_Source r)) \<or> ur_Port u \<noteq> [] then Some ''reader source mismatch''
          else None)"

subsection \<open>Frames\<close>

datatype frame_error =
    EndOfStream | UnexpectedEnd | FrameSizeRejected | DecodeFailed | EncodeFailed | FrameTooLarge | ShortWrite | WriterFailed

definition max_frame :: nat where
  "max_frame = 8192"

text \<open>\<open>binary.LittleEndian\<close> on a \<open>uint32\<close>.\<close>

definition put_le32 :: "32 word \<Rightarrow> string" where
  "put_le32 n = map (\<lambda>i. char_of (unat (drop_bit (8 * i) n))) [0, 1, 2, 3]"

definition get_le32 :: "string \<Rightarrow> 32 word" where
  "get_le32 bs = word_of_nat (foldr (\<lambda>c n. of_char c + 256 * n) (take 4 bs) (0 :: nat))"

text \<open>\<open>io.ReadFull\<close> of \<open>n > 0\<close> bytes.\<close>

definition read_full :: "nat \<Rightarrow> string \<Rightarrow> (frame_error + string) \<times> string" where
  "read_full n s =
     (if s = [] then (Inl EndOfStream, [])
      else if length s < n then (Inl UnexpectedEnd, [])
      else (Inr (take n s), drop n s))"

definition read_frame :: "(string \<Rightarrow> 'v option) \<Rightarrow> string \<Rightarrow> (frame_error + 'v) \<times> string" where
  "read_frame decode s =
     (case read_full 4 s of
        (Inl e, s1) \<Rightarrow> (Inl e, s1)
      | (Inr header, s1) \<Rightarrow>
          let n = get_le32 header
          in if n = 0 \<or> n > word_of_nat max_frame then (Inl FrameSizeRejected, s1)
             else (case read_full (unat n) s1 of
                     (Inl e, s2) \<Rightarrow> (Inl e, s2)
                   | (Inr b, s2) \<Rightarrow>
                       (case decode b of None \<Rightarrow> (Inl DecodeFailed, s2) | Some v \<Rightarrow> (Inr v, s2))))"

text \<open>What the peer gets, and the error. \<open>binary.Write\<close> returns the error of its one write only.\<close>

type_synonym write_outcome = "nat \<times> bool"

definition write_frame ::
    "('v \<Rightarrow> string option) \<Rightarrow> write_outcome \<Rightarrow> write_outcome \<Rightarrow> 'v \<Rightarrow> string \<times> frame_error option" where
  "write_frame encode out1 out2 v =
     (case encode v of
        None \<Rightarrow> ([], Some EncodeFailed)
      | Some b \<Rightarrow>
          if length b > max_frame then ([], Some FrameTooLarge)
          else
            let header = take (fst out1) (put_le32 (word_of_nat (length b)))
            in if \<not> snd out1 then (header, Some WriterFailed)
               else (header @ take (fst out2) b,
                     if \<not> snd out2 then Some WriterFailed
                     else if fst out2 \<noteq> length b then Some ShortWrite else None))"

subsection \<open>The exchange\<close>

record exchange_env =
  xe_now1 :: int
  xe_ticket :: string
  xe_cancelled1 :: bool
  xe_now2 :: int
  xe_unauthorized :: bool
  xe_cancelled2 :: bool
  xe_now3 :: int
  xe_out :: "nat \<Rightarrow> write_outcome"

datatype exchange_error =
    BindingInvalid | TicketInvalid | NotAuthorized | ResultExpired | Frame frame_error

text \<open>The answer, with the replies that were given to \<open>Write\<close>, in order.\<close>

type_synonym exchange_result = "(exchange_error + ReaderReply) \<times> ReaderReply list"

definition target_usable :: "int \<Rightarrow> ReaderTarget \<Rightarrow> bool" where
  "target_usable now t \<longleftrightarrow> tg_HWND t \<noteq> 0 \<and> tg_PID t \<noteq> 0 \<and> tg_Value t \<noteq> 0 \<and> tg_Action t \<noteq> [] \<and>
     now < tg_Expires t \<and> tg_Expires t - now \<le> Lifetime"

definition exchange_reply ::
    "(string \<Rightarrow> ReaderReply option) \<Rightarrow> exchange_env \<Rightarrow> ReaderTarget \<Rightarrow> string \<Rightarrow> exchange_error + ReaderReply" where
  "exchange_reply decode env target input =
     (case fst (read_frame decode input) of
        Inl e \<Rightarrow> Inl (Frame e)
      | Inr result \<Rightarrow>
          if xe_cancelled2 env \<or> \<not> xe_now3 env < tg_Expires target then Inl ResultExpired else Inr result)"

definition Exchange ::
    "(ReaderReply \<Rightarrow> string option) \<Rightarrow> (string \<Rightarrow> ReaderReply option) \<Rightarrow> exchange_env \<Rightarrow> ReaderTarget \<Rightarrow> string \<Rightarrow> exchange_result"
where
  "Exchange encode decode env target input =
     (if \<not> target_usable (xe_now1 env) target then (Inl BindingInvalid, [])
      else
        let offer = empty_reply\<lparr>rr_OK := True, rr_Ticket := xe_ticket env\<rparr>
        in case snd (write_frame encode (xe_out env 0) (xe_out env 1) offer) of
             Some e \<Rightarrow> (Inl (Frame e), [offer])
           | None \<Rightarrow>
               (case read_frame decode input of
                  (Inl e, _) \<Rightarrow> (Inl (Frame e), [offer])
                | (Inr claim, rest) \<Rightarrow>
                    if rr_Ticket claim \<noteq> xe_ticket env \<or> xe_cancelled1 env \<or> \<not> xe_now2 env < tg_Expires target
                    then (Inl TicketInvalid, [offer])
                    else if xe_unauthorized env then (Inl NotAuthorized, [offer])
                    else
                      let disclosure = empty_reply\<lparr>rr_OK := True, rr_Target := Some target\<rparr>
                      in case snd (write_frame encode (xe_out env 2) (xe_out env 3) disclosure) of
                           Some e \<Rightarrow> (Inl (Frame e), [offer, disclosure])
                         | None \<Rightarrow> (exchange_reply decode env target rest, [offer, disclosure])))"

subsection \<open>Frames that arrive\<close>

lemma le32_digits: "n mod 256 + 256 * (n div 256 mod 256 + 256 * (n div 65536 mod 256 + 256 * (n div 16777216))) = n"
  for n :: nat
proof -
  have "n div 65536 = n div 256 div 256" "n div 16777216 = n div 256 div 256 div 256" by (simp_all add: div_mult2_eq)
  then show ?thesis by (simp add: mult.commute [of 256])
qed

lemma get_put_le32: "get_le32 (put_le32 n) = n"
proof -
  have small: "unat n div 16777216 < 256"
    using unsigned_less [of n, where 'a = nat] by (simp add: less_mult_imp_div_less)
  have "get_le32 (put_le32 n) = word_of_nat (unat n mod 256 + 256 * (unat n div 256 mod 256 +
      256 * (unat n div 65536 mod 256 + 256 * (unat n div 16777216 mod 256))))"
    by (simp add: get_le32_def put_le32_def unat_drop_bit_eq drop_bit_eq_div unat_div of_char_of)
  also have "unat n div 16777216 mod 256 = unat n div 16777216" using small by simp
  finally show ?thesis by (simp only: le32_digits of_nat_unat ucast_id)
qed

lemma length_put_le32 [simp]: "length (put_le32 n) = 4"
  by (simp add: put_le32_def)

lemma read_full_exact: "n \<noteq> 0 \<Longrightarrow> length b = n \<Longrightarrow> read_full n (b @ rest) = (Inr b, rest)"
  by (auto simp: read_full_def)

lemma read_written_frame:
  assumes "b \<noteq> []" "length b \<le> max_frame"
  shows "read_frame decode (put_le32 (word_of_nat (length b)) @ b @ rest) =
    (case decode b of None \<Rightarrow> (Inl DecodeFailed, rest) | Some v \<Rightarrow> (Inr v, rest))"
proof -
  let ?n = "word_of_nat (length b) :: 32 word"
  have n: "unat ?n = length b" using assms(2) by (simp add: max_frame_def unat_of_nat)
  then have "?n \<noteq> 0" using assms(1) by (metis length_0_conv unsigned_0)
  moreover have "\<not> ?n > word_of_nat max_frame"
    using n assms(2) by (simp add: max_frame_def word_less_nat_alt)
  moreover note n
  ultimately show ?thesis using assms(1)
    by (simp add: read_frame_def read_full_exact get_put_le32)
qed

text \<open>C34. A frame that was written whole is read back as the value it carries, and the reader stops
  exactly at its end, whatever follows on the connection.\<close>

theorem frame_roundtrip:
  assumes "encode v = Some b" "b \<noteq> []" "length b \<le> max_frame" "decode b = Some v"
    "write_frame encode (4, True) (length b, True) v = (bytes, err)"
  shows "err = None \<and> read_frame decode (bytes @ rest) = (Inr v, rest)"
proof -
  have "bytes = put_le32 (word_of_nat (length b)) @ b \<and> err = None"
    using assms(1,3,5) by (simp add: write_frame_def Let_def)
  with read_written_frame [OF assms(2,3), of decode rest] assms(4) show ?thesis by simp
qed

lemma read_full_takes: "read_full n s = (r, rest) \<Longrightarrow> \<exists>c. s = c @ rest \<and> length c \<le> n"
  by (auto simp: read_full_def split: if_splits intro: exI [of _ "take n s"])

text \<open>A frame that is read takes at most its header and 8192 bytes from the connection, whatever
  length the peer announces and whatever the outcome.\<close>

theorem frame_read_is_bounded:
  assumes "read_frame decode s = (r, rest)"
  shows "\<exists>c. s = c @ rest \<and> length c \<le> 4 + max_frame"
proof -
  obtain h s1 where h: "read_full 4 s = (h, s1)" by fastforce
  then obtain c where c: "s = c @ s1" "length c \<le> 4" using read_full_takes by blast
  show ?thesis
  proof (cases h)
    case (Inl e)
    with h assms c show ?thesis by (auto simp: read_frame_def)
  next
    case (Inr header)
    let ?n = "get_le32 header"
    show ?thesis
    proof (cases "?n = 0 \<or> ?n > word_of_nat max_frame")
      case True
      with Inr h assms c show ?thesis by (auto simp: read_frame_def)
    next
      case False
      then have small: "unat ?n \<le> max_frame" by (simp add: max_frame_def word_less_nat_alt unat_of_nat not_less)
      obtain b s2 where b: "read_full (unat ?n) s1 = (b, s2)" by fastforce
      then obtain d where d: "s1 = d @ s2" "length d \<le> unat ?n" using read_full_takes by blast
      have "rest = s2" using False Inr h b assms
        by (auto simp: read_frame_def Let_def split: sum.splits option.splits)
      with c d small show ?thesis by (intro exI [of _ "c @ d"]) simp
    qed
  qed
qed

subsection \<open>Disclosure\<close>

text \<open>C33. The native target leaves the process only after the peer returned the fresh ticket of this
  exchange on the same connection: a reply that carries a target carries the target that was
  offered, which was usable, and by then the ticket had come back, the context was alive, the
  target had not expired and the caller had been authorised again.\<close>

theorem target_only_after_claim:
  assumes "r \<in> set (snd (Exchange encode decode env target input))" "rr_Target r = Some t"
  shows "t = target \<and> target_usable (xe_now1 env) target \<and>
    (\<exists>claim rest. read_frame decode input = (Inr claim, rest) \<and> rr_Ticket claim = xe_ticket env) \<and>
    \<not> xe_cancelled1 env \<and> xe_now2 env < tg_Expires target \<and> \<not> xe_unauthorized env"
  using assms
  by (auto simp: Exchange_def Let_def empty_reply_def split: if_splits option.splits sum.splits prod.splits)

text \<open>An exchange succeeds only with the two frames of the peer: its claim of the ticket and, right
  behind it, the result that is returned; both replies were written without an error, and the
  result is in before the target expires, hence within five seconds of the start.\<close>

theorem exchange_result_is_timely:
  assumes "fst (Exchange encode decode env target input) = Inr result" "xe_now1 env \<le> xe_now3 env"
  shows "\<exists>claim mid. read_frame decode input = (Inr claim, mid) \<and> rr_Ticket claim = xe_ticket env \<and>
    fst (read_frame decode mid) = Inr result \<and> length (snd (Exchange encode decode env target input)) = 2 \<and>
    \<not> xe_cancelled2 env \<and> xe_now3 env - xe_now1 env < Lifetime"
  using assms
  by (auto simp: Exchange_def exchange_reply_def Let_def target_usable_def
      split: if_splits option.splits sum.splits prod.splits)

subsection \<open>Samples\<close>

text \<open>A codec on the ticket alone, for the samples.\<close>

definition ticket_bytes :: "ReaderReply \<Rightarrow> string option" where
  "ticket_bytes r = (if rr_Ticket r = [] then Some ''-'' else Some (rr_Ticket r))"

definition ticket_reply :: "string \<Rightarrow> ReaderReply option" where
  "ticket_reply s = Some (empty_reply\<lparr>rr_Ticket := s\<rparr>)"

definition sample_target :: ReaderTarget where
  "sample_target = \<lparr>tg_HWND = 7, tg_PID = 9, tg_Property = ''p'', tg_Value = 3, tg_Expires = 4000000000, tg_Action = ''act''\<rparr>"

definition sample_exchange :: exchange_env where
  "sample_exchange = \<lparr>xe_now1 = 0, xe_ticket = ''abc'', xe_cancelled1 = False, xe_now2 = 1, xe_unauthorized = False,
     xe_cancelled2 = False, xe_now3 = 2, xe_out = (\<lambda>n. (if even n then 4 else if n = 1 then 3 else 1, True))\<rparr>"

definition sample_input :: string where
  "sample_input = put_le32 3 @ ''abc'' @ put_le32 2 @ ''ok''"

theorem frame_roundtrip_witness:
  "read_frame ticket_reply (fst (write_frame ticket_bytes (4, True) (length ''abc'', True) (empty_reply\<lparr>rr_Ticket := ''abc''\<rparr>)) @ ''xy'') =
    (Inr (empty_reply\<lparr>rr_Ticket := ''abc''\<rparr>), ''xy'')"
  using frame_roundtrip [of ticket_bytes "empty_reply\<lparr>rr_Ticket := ''abc''\<rparr>" "''abc''" ticket_reply
      "fst (write_frame ticket_bytes (4, True) (length ''abc'', True) (empty_reply\<lparr>rr_Ticket := ''abc''\<rparr>))"
      "snd (write_frame ticket_bytes (4, True) (length ''abc'', True) (empty_reply\<lparr>rr_Ticket := ''abc''\<rparr>))" "''xy''"]
  by (simp add: ticket_bytes_def ticket_reply_def max_frame_def)

theorem frame_read_is_bounded_witness:
  "\<exists>c. sample_input = c @ snd (read_frame ticket_reply sample_input) \<and> length c \<le> 4 + max_frame"
  by (rule frame_read_is_bounded [of ticket_reply sample_input "fst (read_frame ticket_reply sample_input)"]) simp

lemma sample_frames:
  "read_frame ticket_reply sample_input = (Inr (empty_reply\<lparr>rr_Ticket := ''abc''\<rparr>), put_le32 2 @ ''ok'')"
  "read_frame ticket_reply (put_le32 2 @ ''ok'') = (Inr (empty_reply\<lparr>rr_Ticket := ''ok''\<rparr>), [])"
  using read_written_frame [of "''abc''" ticket_reply "put_le32 2 @ ''ok''"] read_written_frame [of "''ok''" ticket_reply "[]"]
  by (simp_all add: max_frame_def ticket_reply_def sample_input_def)

lemma sample_writes:
  "snd (write_frame ticket_bytes (4, True) (3, True) (empty_reply\<lparr>rr_OK := True, rr_Ticket := ''abc''\<rparr>)) = None"
  "snd (write_frame ticket_bytes (4, True) (Suc 0, True) (empty_reply\<lparr>rr_OK := True, rr_Target := Some t\<rparr>)) = None"
  by (simp_all add: write_frame_def ticket_bytes_def max_frame_def empty_reply_def Let_def)

lemma sample_exchange_runs:
  "Exchange ticket_bytes ticket_reply sample_exchange sample_target sample_input =
     (Inr (empty_reply\<lparr>rr_Ticket := ''ok''\<rparr>),
      [empty_reply\<lparr>rr_OK := True, rr_Ticket := ''abc''\<rparr>, empty_reply\<lparr>rr_OK := True, rr_Target := Some sample_target\<rparr>])"
proof -
  have "target_usable 0 sample_target" by (simp add: target_usable_def sample_target_def Lifetime_def)
  moreover have "tg_Expires sample_target = 4000000000" by (simp add: sample_target_def)
  ultimately show ?thesis
    by (simp add: Exchange_def exchange_reply_def sample_frames sample_writes sample_exchange_def)
qed

theorem target_only_after_claim_witness:
  "target_usable 0 sample_target \<and> \<not> xe_unauthorized sample_exchange"
  using target_only_after_claim [of "empty_reply\<lparr>rr_OK := True, rr_Target := Some sample_target\<rparr>" ticket_bytes
      ticket_reply sample_exchange sample_target sample_input sample_target]
  by (simp add: sample_exchange_runs) (simp add: sample_exchange_def)

theorem exchange_result_is_timely_witness: "xe_now3 sample_exchange - xe_now1 sample_exchange < Lifetime"
proof -
  have "xe_now1 sample_exchange \<le> xe_now3 sample_exchange" by (simp add: sample_exchange_def)
  moreover have "fst (Exchange ticket_bytes ticket_reply sample_exchange sample_target sample_input) =
      Inr (empty_reply\<lparr>rr_Ticket := ''ok''\<rparr>)" by (simp add: sample_exchange_runs)
  ultimately show ?thesis using exchange_result_is_timely by blast
qed

end
