(* ===== verification/Authorization_Data.thy ===== *)
theory Authorization_Data
  imports Prelude "HOL-Library.Word"
begin

text \<open>
  The data of \<open>src/internal/engine/development_concurrent_authorization.go\<close>: reasons, errors, owners,
  receipts, challenges, evidence, permits, tickets, and the state \<open>Authority\<close> of
  \<open>concurrentAuthorization\<close>. Times are nanoseconds after the zero time, which is 0. A map with the
  two roles as keys is a pair.
\<close>

subsection \<open>Reasons and errors\<close>

datatype authorizationReason =
    noReason | reasonInvalidConfiguration | reasonUnsupportedProvider | reasonFixtureGrant | reasonDisabled
  | reasonAlreadyEstablished | reasonMissingDerivation | reasonDerivationReplay | reasonInvalidEvidence
  | reasonEvidenceExpired | reasonBindingDeadline | reasonCoverageGap | reasonUnknownAuth
  | reasonUnknownIdentity | reasonUnknownLineage | reasonSessionChanged | reasonClockRegression
  | reasonRenewalFailed | reasonRevoked | reasonOwnerDrift | reasonPolicyChanged | reasonOptedOut
  | reasonReaderLost | reasonIndependentCollector | reasonUnsupportedOperation | reasonStaleTicket
  | reasonTicketNotClaimed | reasonTicketCancelled | reasonDuplicateResult | reasonContextCancelled
  | reasonConcurrentInvalid | otherReason string

text \<open>\<open>Wrapping\<close> is an error of other code that wraps one.\<close>

datatype go_error =
    AuthorizationError authorizationReason "go_error option"
  | Canceled | DeadlineExceeded | BindingDeadlineElapsed | OtherError string | Wrapping string go_error

abbreviation authError :: "authorizationReason \<Rightarrow> go_error" where
  "authError r \<equiv> AuthorizationError r None"

fun errors_Is :: "go_error \<Rightarrow> go_error \<Rightarrow> bool" where
  "errors_Is (AuthorizationError r (Some c)) t = (AuthorizationError r (Some c) = t \<or> errors_Is c t)"
| "errors_Is (Wrapping s e) t = (Wrapping s e = t \<or> errors_Is e t)"
| "errors_Is e t = (e = t)"

fun errors_As_reason :: "go_error \<Rightarrow> authorizationReason option" where
  "errors_As_reason (AuthorizationError r c) = Some r"
| "errors_As_reason (Wrapping s e) = errors_As_reason e"
| "errors_As_reason e = None"

definition errorReason :: "go_error option \<Rightarrow> authorizationReason \<Rightarrow> authorizationReason" where
  "errorReason err fallback =
     (case err of
        None \<Rightarrow> fallback
      | Some e \<Rightarrow>
          (case errors_As_reason e of
             Some r \<Rightarrow>
               if r \<noteq> noReason then r
               else if errors_Is e Canceled \<or> errors_Is e DeadlineExceeded then reasonContextCancelled else fallback
           | None \<Rightarrow>
               if errors_Is e Canceled \<or> errors_Is e DeadlineExceeded then reasonContextCancelled else fallback))"

definition collectionErrorReason :: "go_error \<Rightarrow> authorizationReason" where
  "collectionErrorReason e =
     (if errors_Is e BindingDeadlineElapsed then reasonBindingDeadline
      else errorReason (Some e) reasonRenewalFailed)"

subsection \<open>Data\<close>

definition concurrentAuthorizationContract :: string where
  "concurrentAuthorizationContract = ''aku.x.concurrent-authorization.v1''"
definition fixtureProviderID :: string where "fixtureProviderID = ''synthetic-x-concurrent''"
definition fixtureProviderVersion :: string where "fixtureProviderVersion = ''synthetic-provider-v1''"
definition fixtureEvidenceSchema :: string where "fixtureEvidenceSchema = ''synthetic-evidence-v1''"
definition fixtureSourceID :: string where "fixtureSourceID = ''synthetic-x''"
definition fixtureTransferManifest :: string where "fixtureTransferManifest = ''synthetic-reviewed-transfer-v1''"
definition fixtureProvenance :: string where "fixtureProvenance = ''synthetic-qualified-fixture/v1''"
definition fixtureAuthentication :: string where "fixtureAuthentication = ''synthetic-qualified-authenticated/v1''"
definition fixtureIdentity :: string where "fixtureIdentity = ''synthetic-confirmed-identity/v1''"
definition fixtureCacheFresh :: string where "fixtureCacheFresh = ''synthetic-cache-fresh''"
definition fixtureOrigin :: string where "fixtureOrigin = ''synthetic-x://account/session''"

lemmas fixture_names = concurrentAuthorizationContract_def fixtureProviderID_def fixtureProviderVersion_def
  fixtureEvidenceSchema_def fixtureSourceID_def fixtureTransferManifest_def fixtureProvenance_def
  fixtureAuthentication_def fixtureIdentity_def fixtureCacheFresh_def fixtureOrigin_def

definition maximumEvidenceAge :: int where "maximumEvidenceAge = 5000000000"
definition maximumBindingAge :: int where "maximumBindingAge = 2000000000"

datatype role = readerRole | collectorRole | otherRole string

record fixtureGrant =
  fg_id :: string
  fg_allowAuthorization :: bool
  fg_allowSeed :: bool
  fg_allowCollection :: bool
  fg_allowRenewal :: bool
  fg_allowResultSink :: bool

record enrollment =
  en_contractID :: string
  en_providerID :: string
  en_providerVersion :: string
  en_evidenceSchema :: string
  en_sourceID :: string
  en_databaseScope :: string
  en_accountID :: string
  en_readerProfileID :: string
  en_policyGeneration :: nat
  en_holdGeneration :: nat

record pairIdentity =
  pi_id :: string
  pi_attemptID :: string
  pi_controllerEpochID :: string
  pi_sidecarLifetimeID :: string
  pi_generation :: nat

record processOwner =
  po_role :: role
  po_ownerID :: string
  po_profileID :: string
  po_directoryID :: string
  po_processID :: string
  po_processCreationID :: string
  po_processCreatedAt :: int
  po_processImageID :: string
  po_sidecarLifetimeID :: string
  po_contextID :: string
  po_epochID :: string
  po_generation :: nat
  po_driverID :: string
  po_directoryPinned :: bool
  po_profileFresh :: bool
  po_disposableContext :: bool
  po_windowInventory :: "string list"

text \<open>\<open>cf_lifecycleBarrier\<close> says whether a barrier is installed; what it answers is an argument of the
  operations that ask it.\<close>

record authorizationConfig =
  cf_enrollment :: enrollment
  cf_pair :: pairIdentity
  cf_reader :: processOwner
  cf_collector :: processOwner
  cf_policyEnabled :: bool
  cf_lifecycleBarrier :: bool

record syntheticLifecycleRequest =
  lr_enrollment :: enrollment
  lr_pair :: pairIdentity
  lr_reader :: processOwner
  lr_collector :: processOwner
  lr_readerRevision :: string
  lr_collectorRevision :: string
  lr_readerFrom :: int
  lr_collectorFrom :: int
  lr_barrier :: int

record derivationReceipt =
  dr_instanceID :: string
  dr_id :: string
  dr_contractID :: string
  dr_providerID :: string
  dr_providerVersion :: string
  dr_evidenceSchema :: string
  dr_databaseScope :: string
  dr_sourceID :: string
  dr_accountID :: string
  dr_pairID :: string
  dr_attemptID :: string
  dr_pairGeneration :: nat
  dr_readerOwnerID :: string
  dr_collectorOwnerID :: string
  dr_readerRevision :: string
  dr_collectorRevision :: string
  dr_transferManifest :: string
  dr_fromRole :: role
  dr_toRole :: role
  dr_seedApplied :: bool
  dr_containsCookieMaterial :: bool
  dr_fixtureGrantID :: string

record evidenceChallenge =
  ch_instanceID :: string
  ch_id :: string
  ch_vectorID :: string
  ch_frameID :: string
  ch_requestID :: string
  ch_contractID :: string
  ch_providerID :: string
  ch_providerVersion :: string
  ch_evidenceSchema :: string
  ch_sourceID :: string
  ch_origin :: string
  ch_operation :: string
  ch_databaseScope :: string
  ch_accountID :: string
  ch_pairID :: string
  ch_attemptID :: string
  ch_pairGeneration :: nat
  ch_role :: role
  ch_owner :: processOwner
  ch_acquisitionStarted :: int
  ch_previousCoverage :: int
  ch_previousVersion :: "64 word"
  ch_fence :: "64 word"
  ch_fixtureGrantID :: string

record roleEvidence =
  ev_instanceID :: string
  ev_challengeID :: string
  ev_vectorID :: string
  ev_contractID :: string
  ev_providerID :: string
  ev_providerVersion :: string
  ev_evidenceSchema :: string
  ev_sourceID :: string
  ev_origin :: string
  ev_operation :: string
  ev_databaseScope :: string
  ev_accountID :: string
  ev_pairID :: string
  ev_attemptID :: string
  ev_pairGeneration :: nat
  ev_role :: role
  ev_owner :: processOwner
  ev_frameID :: string
  ev_requestID :: string
  ev_fixtureGrantID :: string
  ev_provenance :: string
  ev_authentication :: string
  ev_identity :: string
  ev_cacheState :: string
  ev_authenticated :: bool
  ev_continuityKnown :: bool
  ev_coverageKnown :: bool
  ev_coverageContinuous :: bool
  ev_coverageGap :: bool
  ev_sessionRevision :: string
  ev_acquisitionStarted :: int
  ev_observedAt :: int
  ev_coverageFrom :: int
  ev_coverageThrough :: int
  ev_authValidUntil :: int
  ev_identityValidUntil :: int
  ev_coverageValidUntil :: int
  ev_providerValidUntil :: int
  ev_claimedNativeSource :: bool

record permit =
  pm_evidenceVersion :: "64 word"
  pm_expiresAt :: int
  pm_readerRevision :: string
  pm_collectorRevision :: string
  pm_readerCoverageThrough :: int
  pm_collectorCoverageThrough :: int
  pm_readerOwner :: processOwner
  pm_collectorOwner :: processOwner
  pm_pairGeneration :: nat
  pm_fence :: "64 word"

record renewalLink =
  rl_fromVersion :: "64 word"
  rl_toVersion :: "64 word"
  rl_pairGeneration :: nat
  rl_readerRevision :: string
  rl_collectorRevision :: string
  rl_collectorOwnerID :: string
  rl_readerCoverageFrom :: int
  rl_readerCoverageTo :: int
  rl_collectorCoverageFrom :: int
  rl_collectorCoverageTo :: int

record workCommand =
  wc_id :: string
  wc_scope :: string
  wc_source :: string
  wc_operation :: string

record workTicket =
  wt_instanceID :: string
  wt_ticketID :: string
  wt_commandID :: string
  wt_scope :: string
  wt_source :: string
  wt_operation :: string
  wt_evidenceVersion :: "64 word"
  wt_pairID :: string
  wt_pairGeneration :: nat
  wt_fence :: "64 word"
  wt_collectorOwnerID :: string
  wt_dispatchAt :: int

datatype workStatus = workPending | workClaimed | workCompleted | workCancelled | workInvalidated

record ticketRecord =
  tr_ticket :: workTicket
  tr_status :: workStatus

record fixtureResult =
  fr_id :: string
  fr_ticketID :: string
  fr_commandID :: string
  fr_scope :: string
  fr_source :: string
  fr_operation :: string
  fr_evidenceVersion :: "64 word"
  fr_pairID :: string
  fr_pairGeneration :: nat
  fr_fence :: "64 word"
  fr_collectorOwnerID :: string

record authorizationView =
  av_nativeQualified :: bool
  av_canAuthorize :: bool
  av_fixturePermitValid :: bool
  av_policyEnabled :: bool
  av_evidenceVersion :: "64 word"
  av_pairGeneration :: nat
  av_fence :: "64 word"
  av_expiresAt :: int
  av_reason :: authorizationReason

text \<open>The tickets and the sink are maps in the order of insertion.\<close>

record Authority =
  au_lastClock :: int
  au_instanceID :: string
  au_config :: authorizationConfig
  au_grant :: fixtureGrant
  au_derivation :: "derivationReceipt option"
  au_derivationConsumed :: bool
  au_permit :: "permit option"
  au_versionCounter :: "64 word"
  au_challengeCounter :: "64 word"
  au_fence :: "64 word"
  au_pendingRevocation :: bool
  au_revoked :: bool
  au_reason :: authorizationReason
  au_coverageThrough :: "int \<times> int"
  au_versionCoverage :: "64 word \<Rightarrow> (int \<times> int) option"
  au_renewalLinks :: "64 word \<Rightarrow> renewalLink option"
  au_tickets :: "(string \<times> ticketRecord) list"
  au_memorySink :: "(string \<times> fixtureResult) list"
  au_sideEffects :: "64 word"

end
