(* ===== verification/Authorization.thy ===== *)
theory Authorization
  imports Authorization_Data
begin

text \<open>
  \<open>src/internal/engine/development_concurrent_authorization.go\<close>: the authority that grants, renews and
  revokes the permit of a concurrent collector, and the tickets whose results it accepts. Every
  operation is a function on \<open>Authority\<close>, with what the clock shows as an argument. \<open>authorize\<close> and
  \<open>renewValidated\<close> release the lock while they collect evidence: they are two functions each, and
  what their local variables keep in between is a \<open>renewal\<close>.
\<close>

subsection \<open>Construction\<close>

definition syntheticID :: "string \<Rightarrow> bool" where
  "syntheticID v \<longleftrightarrow> length v > length ''synthetic-'' \<and> take (length ''synthetic-'') v = ''synthetic-''"

definition validFixtureGrant :: "fixtureGrant \<Rightarrow> bool" where
  "validFixtureGrant g \<longleftrightarrow> syntheticID (fg_id g) \<and> fg_allowAuthorization g \<and> fg_allowSeed g \<and>
     fg_allowCollection g \<and> fg_allowRenewal g \<and> fg_allowResultSink g"

definition validateOwner :: "processOwner \<Rightarrow> role \<Rightarrow> pairIdentity \<Rightarrow> authorizationReason option" where
  "validateOwner x r p = first_error
     [(po_role x \<noteq> r \<or> \<not> syntheticID (po_ownerID x) \<or> \<not> syntheticID (po_profileID x) \<or>
       \<not> syntheticID (po_directoryID x) \<or> \<not> syntheticID (po_processID x) \<or> \<not> syntheticID (po_processCreationID x) \<or>
       po_processCreatedAt x = 0 \<or> \<not> syntheticID (po_processImageID x) \<or> \<not> syntheticID (po_sidecarLifetimeID x) \<or>
       \<not> syntheticID (po_contextID x) \<or> \<not> syntheticID (po_epochID x) \<or> \<not> syntheticID (po_driverID x) \<or>
       po_generation x = 0 \<or> \<not> po_directoryPinned x, reasonInvalidConfiguration),
      (po_sidecarLifetimeID x \<noteq> pi_sidecarLifetimeID p \<or> po_epochID x \<noteq> pi_controllerEpochID p, reasonInvalidConfiguration),
      (po_windowInventory x = [], reasonInvalidConfiguration),
      (\<not> list_all syntheticID (po_windowInventory x), reasonInvalidConfiguration)]"

definition validateAuthorizationConfig :: "authorizationConfig \<Rightarrow> authorizationReason option" where
  "validateAuthorizationConfig config =
     (let e = cf_enrollment config; p = cf_pair config; r = cf_reader config; c = cf_collector config in
      case first_error
        [(en_contractID e \<noteq> concurrentAuthorizationContract \<or> en_providerID e \<noteq> fixtureProviderID \<or>
          en_providerVersion e \<noteq> fixtureProviderVersion \<or> en_evidenceSchema e \<noteq> fixtureEvidenceSchema \<or>
          en_sourceID e \<noteq> fixtureSourceID, reasonUnsupportedProvider),
         (\<not> syntheticID (en_databaseScope e) \<or> \<not> syntheticID (en_accountID e) \<or> \<not> syntheticID (en_readerProfileID e) \<or>
          en_policyGeneration e = 0 \<or> en_holdGeneration e = 0, reasonInvalidConfiguration),
         (\<not> syntheticID (pi_id p) \<or> \<not> syntheticID (pi_attemptID p) \<or> \<not> syntheticID (pi_controllerEpochID p) \<or>
          \<not> syntheticID (pi_sidecarLifetimeID p) \<or> pi_generation p = 0, reasonInvalidConfiguration)] of
        Some err \<Rightarrow> Some err
      | None \<Rightarrow>
      case validateOwner r readerRole p of
        Some err \<Rightarrow> Some err
      | None \<Rightarrow>
      case validateOwner c collectorRole p of
        Some err \<Rightarrow> Some err
      | None \<Rightarrow> first_error
        [(po_profileID r \<noteq> en_readerProfileID e \<or> po_profileID r = po_profileID c \<or> po_directoryID r = po_directoryID c \<or>
          po_contextID r = po_contextID c \<or> po_processID r = po_processID c \<or> po_ownerID r = po_ownerID c \<or>
          po_driverID r = po_driverID c, reasonInvalidConfiguration),
         (\<not> po_profileFresh c \<or> \<not> po_disposableContext c \<or> po_windowInventory c = [] \<or> po_windowInventory r = [],
          reasonInvalidConfiguration)])"

text \<open>\<open>clock\<close> is what the clock shows, nothing when there is none; \<open>n\<close> is the number of the instance.\<close>

definition newConcurrentAuthorization ::
    "authorizationConfig \<Rightarrow> fixtureGrant \<Rightarrow> int option \<Rightarrow> nat \<Rightarrow> authorizationReason + Authority" where
  "newConcurrentAuthorization config grant clock n =
     (if \<not> validFixtureGrant grant then Inl reasonFixtureGrant
      else case clock of
        None \<Rightarrow> Inl reasonInvalidConfiguration
      | Some initial \<Rightarrow>
          if en_providerID (cf_enrollment config) = ''x-concurrent'' then Inl reasonUnsupportedProvider
          else case validateAuthorizationConfig config of
            Some err \<Rightarrow> Inl err
          | None \<Rightarrow>
              if initial = 0 then Inl reasonInvalidConfiguration
              else Inr \<lparr>au_lastClock = initial, au_instanceID = ''synthetic-instance-'' @ decimal n, au_config = config,
                        au_grant = grant, au_derivation = None, au_derivationConsumed = False, au_permit = None,
                        au_versionCounter = 0, au_challengeCounter = 0, au_fence = 1, au_pendingRevocation = False,
                        au_revoked = False, au_reason = reasonDisabled, au_coverageThrough = (0, 0),
                        au_versionCoverage = (\<lambda>_. None), au_renewalLinks = (\<lambda>_. None), au_tickets = [],
                        au_memorySink = [], au_sideEffects = 0\<rparr>)"

subsection \<open>Comparison\<close>

text \<open>\<open>ownerEqual\<close> compares every field but the window inventory.\<close>

definition ownerEqual :: "processOwner \<Rightarrow> processOwner \<Rightarrow> bool" where
  "ownerEqual x y \<longleftrightarrow> x\<lparr>po_windowInventory := []\<rparr> = y\<lparr>po_windowInventory := []\<rparr>"

definition ownerBindingEqual :: "processOwner \<Rightarrow> processOwner \<Rightarrow> bool" where
  "ownerBindingEqual x y \<longleftrightarrow> ownerEqual x y \<and> po_windowInventory x = po_windowInventory y"

definition samePermitPredecessor :: "permit \<Rightarrow> permit \<Rightarrow> bool" where
  "samePermitPredecessor c p \<longleftrightarrow>
     pm_evidenceVersion c = pm_evidenceVersion p \<and> pm_expiresAt c = pm_expiresAt p \<and>
     pm_readerRevision c = pm_readerRevision p \<and> pm_collectorRevision c = pm_collectorRevision p \<and>
     pm_pairGeneration c = pm_pairGeneration p \<and> pm_fence c = pm_fence p \<and>
     ownerEqual (pm_readerOwner c) (pm_readerOwner p) \<and> ownerEqual (pm_collectorOwner c) (pm_collectorOwner p)"

subsection \<open>Revocation and the clock\<close>

definition invalidate_claimed :: "ticketRecord \<Rightarrow> ticketRecord" where
  "invalidate_claimed x = (if tr_status x = workClaimed then x\<lparr>tr_status := workInvalidated\<rparr> else x)"

definition revokeLocked :: "authorizationReason \<Rightarrow> Authority \<Rightarrow> Authority" where
  "revokeLocked reason a =
     (if au_revoked a \<and> au_permit a = None then a
      else a\<lparr>au_pendingRevocation := False, au_fence := au_fence a + 1, au_permit := None, au_revoked := True,
             au_reason := reason, au_tickets := map (apsnd invalidate_claimed) (au_tickets a)\<rparr>)"

definition readClockLocked :: "int \<Rightarrow> Authority \<Rightarrow> Authority \<times> go_error option" where
  "readClockLocked now a =
     (if now = 0 \<or> now < au_lastClock a
      then (revokeLocked reasonClockRegression a, Some (authError reasonClockRegression))
      else
        let b = a\<lparr>au_lastClock := now\<rparr>
        in case au_permit b of
             Some p \<Rightarrow>
               if \<not> now < pm_expiresAt p then (revokeLocked reasonEvidenceExpired b, Some (authError reasonEvidenceExpired))
               else (b, None)
           | None \<Rightarrow> (b, None))"

definition currentClosedReason :: "Authority \<Rightarrow> authorizationReason" where
  "currentClosedReason a =
     (if au_reason a \<noteq> noReason then au_reason a
      else if \<not> cf_policyEnabled (au_config a) then reasonDisabled else reasonRevoked)"

definition requireCurrentPermitLocked :: "Authority \<Rightarrow> Authority \<times> go_error option" where
  "requireCurrentPermitLocked a =
     (case au_permit a of
        None \<Rightarrow> (a, Some (authError (currentClosedReason a)))
      | Some p \<Rightarrow>
          if au_revoked a \<or> au_pendingRevocation a \<or> \<not> cf_policyEnabled (au_config a)
          then (a, Some (authError (currentClosedReason a)))
          else if \<not> au_lastClock a < pm_expiresAt p
          then (revokeLocked reasonEvidenceExpired a, Some (authError reasonEvidenceExpired))
          else if pm_fence p \<noteq> au_fence a \<or> pm_pairGeneration p \<noteq> pi_generation (cf_pair (au_config a)) \<or>
                  \<not> ownerEqual (pm_readerOwner p) (cf_reader (au_config a)) \<or>
                  \<not> ownerEqual (pm_collectorOwner p) (cf_collector (au_config a))
          then (revokeLocked reasonOwnerDrift a, Some (authError reasonOwnerDrift))
          else (a, None))"

subsection \<open>Derivation\<close>

definition validDerivation :: "Authority \<Rightarrow> derivationReceipt \<Rightarrow> bool" where
  "validDerivation a r \<longleftrightarrow>
     (let c = au_config a; e = cf_enrollment c; p = cf_pair c in
      dr_instanceID r = au_instanceID a \<and> syntheticID (dr_id r) \<and> dr_contractID r = en_contractID e \<and>
      dr_providerID r = en_providerID e \<and> dr_providerVersion r = en_providerVersion e \<and>
      dr_evidenceSchema r = en_evidenceSchema e \<and> dr_databaseScope r = en_databaseScope e \<and>
      dr_sourceID r = en_sourceID e \<and> dr_accountID r = en_accountID e \<and> dr_pairID r = pi_id p \<and>
      dr_attemptID r = pi_attemptID p \<and> dr_pairGeneration r = pi_generation p \<and>
      dr_readerOwnerID r = po_ownerID (cf_reader c) \<and> dr_collectorOwnerID r = po_ownerID (cf_collector c) \<and>
      syntheticID (dr_readerRevision r) \<and> syntheticID (dr_collectorRevision r) \<and>
      dr_transferManifest r = fixtureTransferManifest \<and> dr_fromRole r = readerRole \<and> dr_toRole r = collectorRole \<and>
      dr_seedApplied r \<and> \<not> dr_containsCookieMaterial r \<and> dr_fixtureGrantID r = fg_id (au_grant a))"

definition recordFixtureDerivation :: "derivationReceipt \<Rightarrow> int \<Rightarrow> Authority \<Rightarrow> Authority \<times> go_error option" where
  "recordFixtureDerivation r now a0 =
     (case readClockLocked now a0 of
        (a, Some e) \<Rightarrow> (a, Some e)
      | (a, None) \<Rightarrow>
          if \<not> cf_policyEnabled (au_config a) then (a, Some (authError reasonDisabled))
          else if au_revoked a \<or> au_pendingRevocation a then (a, Some (authError reasonRevoked))
          else if au_derivation a \<noteq> None \<or> au_derivationConsumed a then (a, Some (authError reasonDerivationReplay))
          else if \<not> fg_allowSeed (au_grant a) \<or> \<not> validDerivation a r then (a, Some (authError reasonInvalidEvidence))
          else (a\<lparr>au_derivation := Some r\<rparr>, None))"

subsection \<open>Challenges and evidence\<close>

definition role_name :: "role \<Rightarrow> string" where
  "role_name r = (case r of readerRole \<Rightarrow> ''reader'' | collectorRole \<Rightarrow> ''collector'' | otherRole s \<Rightarrow> s)"

definition correlated :: "string \<Rightarrow> Authority \<Rightarrow> string" where
  "correlated kind a = ''synthetic-'' @ kind @ ''-'' @ au_instanceID a @ ''-'' @ decimal (unat (au_challengeCounter a))"

definition makeChallenge :: "Authority \<Rightarrow> int \<Rightarrow> 64 word \<Rightarrow> int \<Rightarrow> role \<Rightarrow> processOwner \<Rightarrow> evidenceChallenge" where
  "makeChallenge a start previousVersion checkpoint r x =
     (let e = cf_enrollment (au_config a); p = cf_pair (au_config a) in
      \<lparr>ch_instanceID = au_instanceID a, ch_id = correlated ''challenge'' a @ ''-'' @ role_name r,
       ch_vectorID = correlated ''vector'' a, ch_frameID = correlated ''frame'' a @ ''-'' @ role_name r,
       ch_requestID = correlated ''request'' a @ ''-'' @ role_name r, ch_contractID = en_contractID e,
       ch_providerID = en_providerID e, ch_providerVersion = en_providerVersion e,
       ch_evidenceSchema = en_evidenceSchema e, ch_sourceID = en_sourceID e, ch_origin = fixtureOrigin,
       ch_operation = (if r = collectorRole then ''synthetic-x.observe-collector-session''
                       else ''synthetic-x.observe-reader-session''),
       ch_databaseScope = en_databaseScope e, ch_accountID = en_accountID e, ch_pairID = pi_id p,
       ch_attemptID = pi_attemptID p, ch_pairGeneration = pi_generation p, ch_role = r, ch_owner = x,
       ch_acquisitionStarted = start, ch_previousCoverage = checkpoint, ch_previousVersion = previousVersion,
       ch_fence = au_fence a, ch_fixtureGrantID = fg_id (au_grant a)\<rparr>)"

definition makeChallengesLocked ::
    "int \<Rightarrow> 64 word \<Rightarrow> int \<times> int \<Rightarrow> Authority \<Rightarrow> Authority \<times> (evidenceChallenge \<times> evidenceChallenge)" where
  "makeChallengesLocked start previousVersion checkpoints a =
     (let b = a\<lparr>au_challengeCounter := au_challengeCounter a + 1\<rparr> in
      (b, makeChallenge b start previousVersion (fst checkpoints) readerRole (cf_reader (au_config b)),
          makeChallenge b start previousVersion (snd checkpoints) collectorRole (cf_collector (au_config b))))"

text \<open>What the outside does while evidence is collected: what the bounded context reports at each of
  its three checks, the adapter, the cause of the bounded context and the error of the caller's
  context at the end.\<close>

record acquisition =
  aq_first :: "go_error option"
  aq_second :: "go_error option"
  aq_third :: "go_error option"
  aq_collect :: "evidenceChallenge \<Rightarrow> go_error + roleEvidence"
  aq_cause :: "go_error option"
  aq_context :: "go_error option"

definition collectVector ::
    "acquisition \<Rightarrow> evidenceChallenge \<times> evidenceChallenge \<Rightarrow> go_error + (roleEvidence \<times> roleEvidence)" where
  "collectVector q ch =
     (case aq_first q of
        Some e \<Rightarrow> Inl e
      | None \<Rightarrow>
      case aq_collect q (fst ch) of
        Inl e \<Rightarrow> Inl e
      | Inr x \<Rightarrow>
      case aq_second q of
        Some e \<Rightarrow> Inl e
      | None \<Rightarrow>
      case aq_collect q (snd ch) of
        Inl e \<Rightarrow> Inl e
      | Inr y \<Rightarrow>
      case aq_third q of
        Some e \<Rightarrow> Inl e
      | None \<Rightarrow> Inr (x, y))"

definition collectVectorBounded ::
    "acquisition \<Rightarrow> evidenceChallenge \<times> evidenceChallenge \<Rightarrow> go_error + (roleEvidence \<times> roleEvidence)" where
  "collectVectorBounded q ch =
     (let elapsed = (case aq_cause q of None \<Rightarrow> False | Some c \<Rightarrow> errors_Is c BindingDeadlineElapsed) in
      case collectVector q ch of
        Inl e \<Rightarrow> if elapsed then Inl BindingDeadlineElapsed else Inl e
      | Inr v \<Rightarrow>
          if elapsed then Inl BindingDeadlineElapsed
          else (case aq_cause q of Some c \<Rightarrow> Inl c | None \<Rightarrow> Inr v))"

definition deadlineAfter :: "int \<Rightarrow> int \<Rightarrow> bool" where
  "deadlineAfter deadline now \<longleftrightarrow> deadline \<noteq> 0 \<and> now < deadline"

text \<open>The body of the loop of \<open>validateVectorLocked\<close>; \<open>lastObserved\<close> is 0 before the first role.\<close>

definition evidence_checks ::
    "string \<Rightarrow> role \<Rightarrow> int \<Rightarrow> int \<Rightarrow> int option \<Rightarrow> roleEvidence \<Rightarrow> evidenceChallenge \<Rightarrow> (bool \<times> authorizationReason) list" where
  "evidence_checks account r lastObserved now checkpoint ev ch =
     [(ev_role ev \<noteq> r \<or> ch_role ch \<noteq> r, reasonInvalidEvidence),
      (ev_instanceID ev \<noteq> ch_instanceID ch \<or> ev_challengeID ev \<noteq> ch_id ch \<or> ev_vectorID ev \<noteq> ch_vectorID ch \<or>
       ev_acquisitionStarted ev = 0 \<or> ev_acquisitionStarted ev \<noteq> ch_acquisitionStarted ch, reasonInvalidEvidence),
      (ev_contractID ev \<noteq> ch_contractID ch \<or> ev_providerID ev \<noteq> ch_providerID ch \<or>
       ev_providerVersion ev \<noteq> ch_providerVersion ch \<or> ev_evidenceSchema ev \<noteq> ch_evidenceSchema ch \<or>
       ev_sourceID ev \<noteq> ch_sourceID ch \<or> ev_origin ev \<noteq> ch_origin ch \<or> ev_operation ev \<noteq> ch_operation ch \<or>
       ev_databaseScope ev \<noteq> ch_databaseScope ch \<or> ev_accountID ev \<noteq> ch_accountID ch \<or>
       ev_pairID ev \<noteq> ch_pairID ch \<or> ev_attemptID ev \<noteq> ch_attemptID ch \<or>
       ev_pairGeneration ev \<noteq> ch_pairGeneration ch \<or> ev_fixtureGrantID ev \<noteq> ch_fixtureGrantID ch \<or>
       ev_claimedNativeSource ev, reasonInvalidEvidence),
      (\<not> ownerBindingEqual (ev_owner ev) (ch_owner ch), reasonOwnerDrift),
      (ev_frameID ev \<noteq> ch_frameID ch \<or> ev_requestID ev \<noteq> ch_requestID ch \<or> \<not> syntheticID (ev_frameID ev) \<or>
       \<not> syntheticID (ev_requestID ev) \<or> ev_provenance ev \<noteq> fixtureProvenance \<or>
       ev_cacheState ev \<noteq> fixtureCacheFresh, reasonInvalidEvidence),
      (\<not> ev_authenticated ev \<or> ev_authentication ev \<noteq> fixtureAuthentication, reasonUnknownAuth),
      (ev_identity ev \<noteq> fixtureIdentity \<or> ev_accountID ev \<noteq> account, reasonUnknownIdentity),
      (\<not> ev_continuityKnown ev \<or> \<not> syntheticID (ev_sessionRevision ev), reasonUnknownLineage),
      (\<not> ev_coverageKnown ev, reasonUnknownLineage),
      (ev_coverageGap ev \<or> \<not> ev_coverageContinuous ev, reasonCoverageGap),
      (ev_observedAt ev = 0 \<or> ev_observedAt ev < ch_acquisitionStarted ch \<or> ev_observedAt ev > now \<or>
       lastObserved \<noteq> 0 \<and> ev_observedAt ev < lastObserved, reasonInvalidEvidence),
      (ev_coverageFrom ev = 0 \<or> ev_coverageThrough ev \<noteq> ev_observedAt ev \<or> ev_coverageFrom ev > ev_coverageThrough ev,
       reasonCoverageGap),
      (case checkpoint of
         None \<Rightarrow> ev_coverageFrom ev \<noteq> ch_acquisitionStarted ch
       | Some c \<Rightarrow> ev_coverageFrom ev \<noteq> c \<or> ev_coverageFrom ev \<noteq> ch_previousCoverage ch, reasonCoverageGap),
      (\<not> deadlineAfter (ev_authValidUntil ev) now \<or> \<not> deadlineAfter (ev_identityValidUntil ev) now \<or>
       \<not> deadlineAfter (ev_coverageValidUntil ev) now \<or> \<not> deadlineAfter (ev_providerValidUntil ev) now,
       reasonEvidenceExpired),
      (ev_authValidUntil ev < ev_observedAt ev \<or> ev_identityValidUntil ev < ev_observedAt ev \<or>
       ev_coverageValidUntil ev < ev_observedAt ev \<or> ev_providerValidUntil ev < ev_observedAt ev, reasonInvalidEvidence)]"

definition validateVectorLocked ::
    "Authority \<Rightarrow> roleEvidence \<times> roleEvidence \<Rightarrow> evidenceChallenge \<times> evidenceChallenge \<Rightarrow> int \<Rightarrow>
     (int \<times> int) option \<Rightarrow> authorizationReason option" where
  "validateVectorLocked a v ch now checkpoints =
     (let account = en_accountID (cf_enrollment (au_config a)) in
      case first_error (evidence_checks account readerRole 0 now (map_option fst checkpoints) (fst v) (fst ch)) of
        Some e \<Rightarrow> Some e
      | None \<Rightarrow>
      case first_error (evidence_checks account collectorRole (ev_observedAt (fst v)) now (map_option snd checkpoints)
                          (snd v) (snd ch)) of
        Some e \<Rightarrow> Some e
      | None \<Rightarrow> if now - ev_acquisitionStarted (fst v) \<ge> maximumEvidenceAge then Some reasonEvidenceExpired else None)"

definition deadlines :: "roleEvidence \<Rightarrow> int list" where
  "deadlines ev = [ev_authValidUntil ev, ev_identityValidUntil ev, ev_coverageValidUntil ev, ev_providerValidUntil ev]"

definition earliestDeadline :: "int \<Rightarrow> roleEvidence list \<Rightarrow> int" where
  "earliestDeadline evidenceAge evs = fold (\<lambda>c d. if c < d then c else d) (concat (map deadlines evs)) evidenceAge"

record authorizationSnapshot =
  as_config :: authorizationConfig
  as_fence :: "64 word"
  as_policyEnabled :: bool
  as_derivationID :: string
  as_pendingRevocation :: bool

definition derivationID :: "derivationReceipt option \<Rightarrow> string" where
  "derivationID r = (case r of None \<Rightarrow> [] | Some d \<Rightarrow> dr_id d)"

definition snapshotLocked :: "Authority \<Rightarrow> authorizationSnapshot" where
  "snapshotLocked a =
     \<lparr>as_config = au_config a, as_fence = au_fence a, as_policyEnabled = cf_policyEnabled (au_config a),
      as_derivationID = derivationID (au_derivation a), as_pendingRevocation = au_pendingRevocation a\<rparr>"

text \<open>\<open>enrollmentEqual\<close> and \<open>pairEqual\<close> compare every field.\<close>

definition snapshotCurrentLocked :: "authorizationSnapshot \<Rightarrow> Authority \<Rightarrow> bool" where
  "snapshotCurrentLocked s a \<longleftrightarrow>
     \<not> au_pendingRevocation a \<and> \<not> as_pendingRevocation s \<and> \<not> au_revoked a \<and> au_fence a = as_fence s \<and>
     cf_policyEnabled (au_config a) = as_policyEnabled s \<and>
     cf_enrollment (au_config a) = cf_enrollment (as_config s) \<and> cf_pair (au_config a) = cf_pair (as_config s) \<and>
     ownerEqual (cf_reader (au_config a)) (cf_reader (as_config s)) \<and>
     ownerEqual (cf_collector (au_config a)) (cf_collector (as_config s)) \<and>
     derivationID (au_derivation a) = as_derivationID s"

subsection \<open>The first permit\<close>

text \<open>What \<open>authorize\<close> and \<open>renewValidated\<close> know while they collect evidence; \<open>rn_previous\<close> is nothing
  for \<open>authorize\<close>.\<close>

record renewal =
  rn_start :: int
  rn_previous :: "permit option"
  rn_snapshot :: authorizationSnapshot
  rn_challenges :: "evidenceChallenge \<times> evidenceChallenge"

definition failInitialLocked :: "authorizationReason \<Rightarrow> go_error option \<Rightarrow> Authority \<Rightarrow> Authority \<times> go_error option" where
  "failInitialLocked reason cause a = (revokeLocked reason a, Some (AuthorizationError reason cause))"

text \<open>\<open>authorize\<close> up to the unlock before the evidence is collected.\<close>

definition authorize_start ::
    "bool \<Rightarrow> int \<Rightarrow> Authority \<Rightarrow> Authority \<times> (go_error option + renewal)" where
  "authorize_start collectNil now a0 =
     (if collectNil then apsnd Inl (failInitialLocked reasonInvalidEvidence None a0)
      else case readClockLocked now a0 of
        (a, Some e) \<Rightarrow> (a, Inl (Some e))
      | (a, None) \<Rightarrow>
          if \<not> cf_policyEnabled (au_config a) then (a, Inl (Some (authError reasonDisabled)))
          else if au_revoked a \<or> au_pendingRevocation a then (a, Inl (Some (authError reasonRevoked)))
          else if au_permit a \<noteq> None \<or> au_versionCounter a \<noteq> 0 then (a, Inl (Some (authError reasonAlreadyEstablished)))
          else if au_derivation a = None \<or> au_derivationConsumed a then (a, Inl (Some (authError reasonMissingDerivation)))
          else
            let start = au_lastClock a;
                (b, challenges) = makeChallengesLocked start 0 (start, start) a
            in (b, Inr \<lparr>rn_start = start, rn_previous = None, rn_snapshot = snapshotLocked b, rn_challenges = challenges\<rparr>))"

definition publish_first :: "int \<Rightarrow> roleEvidence \<times> roleEvidence \<Rightarrow> Authority \<Rightarrow> Authority" where
  "publish_first expiresAt v a =
     a\<lparr>au_versionCounter := 1,
       au_permit := Some \<lparr>pm_evidenceVersion = 1, pm_expiresAt = expiresAt, pm_readerRevision = ev_sessionRevision (fst v),
         pm_collectorRevision = ev_sessionRevision (snd v), pm_readerCoverageThrough = ev_coverageThrough (fst v),
         pm_collectorCoverageThrough = ev_coverageThrough (snd v), pm_readerOwner = cf_reader (au_config a),
         pm_collectorOwner = cf_collector (au_config a), pm_pairGeneration = pi_generation (cf_pair (au_config a)),
         pm_fence = au_fence a\<rparr>,
       au_coverageThrough := (ev_coverageThrough (fst v), ev_coverageThrough (snd v)),
       au_versionCoverage := (au_versionCoverage a)(1 \<mapsto> (ev_coverageThrough (fst v), ev_coverageThrough (snd v))),
       au_derivationConsumed := True, au_reason := noReason\<rparr>"

text \<open>The rest of \<open>authorize\<close>, with the derivation that \<open>a.derivation\<close> points to (Go panics when there
  is none; the snapshot rules that out).\<close>

definition authorize_finish :: "acquisition \<Rightarrow> int \<Rightarrow> renewal \<Rightarrow> Authority \<Rightarrow> Authority \<times> go_error option" where
  "authorize_finish q now r a0 =
     (case collectVectorBounded q (rn_challenges r) of
        Inl e \<Rightarrow> failInitialLocked (collectionErrorReason e) (Some e) a0
      | Inr v \<Rightarrow>
      case aq_context q of
        Some e \<Rightarrow> failInitialLocked reasonContextCancelled (Some e) a0
      | None \<Rightarrow>
      case readClockLocked now a0 of
        (a, Some e) \<Rightarrow> (a, Some e)
      | (a, None) \<Rightarrow>
          if \<not> snapshotCurrentLocked (rn_snapshot r) a then failInitialLocked reasonConcurrentInvalid None a
          else case validateVectorLocked a v (rn_challenges r) now None of
            Some e \<Rightarrow> failInitialLocked (errorReason (Some (authError e)) reasonInvalidEvidence) (Some (authError e)) a
          | None \<Rightarrow>
              if now - rn_start r \<ge> maximumBindingAge then failInitialLocked reasonBindingDeadline None a
              else if now - rn_start r \<ge> maximumEvidenceAge then failInitialLocked reasonEvidenceExpired None a
              else if ev_sessionRevision (fst v) \<noteq> dr_readerRevision (the (au_derivation a)) \<or>
                      ev_sessionRevision (snd v) \<noteq> dr_collectorRevision (the (au_derivation a))
              then failInitialLocked reasonSessionChanged None a
              else
                let expiresAt = earliestDeadline (rn_start r + maximumEvidenceAge) [fst v, snd v]
                in if \<not> now < expiresAt then failInitialLocked reasonEvidenceExpired None a
                   else (publish_first expiresAt v a, None))"

subsection \<open>Renewal\<close>

definition failRenewalLocked :: "authorizationReason \<Rightarrow> go_error option \<Rightarrow> Authority \<Rightarrow> Authority \<times> go_error option" where
  "failRenewalLocked reason cause a =
     (if au_permit a \<noteq> None \<and> \<not> au_revoked a then revokeLocked reason a else a, Some (AuthorizationError reason cause))"

definition renew_start :: "bool \<Rightarrow> int \<Rightarrow> Authority \<Rightarrow> Authority \<times> (go_error option + renewal)" where
  "renew_start collectNil now a0 =
     (if collectNil then apsnd Inl (failRenewalLocked reasonInvalidEvidence None a0)
      else case readClockLocked now a0 of
        (a, Some e) \<Rightarrow> (a, Inl (Some e))
      | (a, None) \<Rightarrow>
      case requireCurrentPermitLocked a of
        (b, Some e) \<Rightarrow> (b, Inl (Some e))
      | (b, None) \<Rightarrow>
          (case au_permit b of
             None \<Rightarrow> (b, Inl None)
           | Some previous \<Rightarrow>
               if \<not> fg_allowRenewal (au_grant b) then apsnd Inl (failRenewalLocked reasonFixtureGrant None b)
               else
                 let snapshot = snapshotLocked b;
                     (c, challenges) = makeChallengesLocked (au_lastClock b) (pm_evidenceVersion previous)
                       (pm_readerCoverageThrough previous, pm_collectorCoverageThrough previous) b
                 in (c, Inr \<lparr>rn_start = au_lastClock b, rn_previous = Some previous, rn_snapshot = snapshot,
                            rn_challenges = challenges\<rparr>)))"

definition publish_next :: "permit \<Rightarrow> int \<Rightarrow> roleEvidence \<times> roleEvidence \<Rightarrow> Authority \<Rightarrow> Authority" where
  "publish_next previous newExpiry v a =
     (let from = pm_evidenceVersion previous; to = from + 1; reader = fst v; collector = snd v in
      a\<lparr>au_renewalLinks := (au_renewalLinks a)(from \<mapsto>
          \<lparr>rl_fromVersion = from, rl_toVersion = to, rl_pairGeneration = pi_generation (cf_pair (au_config a)),
           rl_readerRevision = pm_readerRevision previous, rl_collectorRevision = pm_collectorRevision previous,
           rl_collectorOwnerID = po_ownerID (pm_collectorOwner previous),
           rl_readerCoverageFrom = ev_coverageFrom reader, rl_readerCoverageTo = ev_coverageThrough reader,
           rl_collectorCoverageFrom = ev_coverageFrom collector, rl_collectorCoverageTo = ev_coverageThrough collector\<rparr>),
        au_versionCounter := to,
        au_permit := Some \<lparr>pm_evidenceVersion = to, pm_expiresAt = newExpiry, pm_readerRevision = pm_readerRevision previous,
          pm_collectorRevision = pm_collectorRevision previous, pm_readerCoverageThrough = ev_coverageThrough reader,
          pm_collectorCoverageThrough = ev_coverageThrough collector, pm_readerOwner = cf_reader (au_config a),
          pm_collectorOwner = pm_collectorOwner previous, pm_pairGeneration = pm_pairGeneration previous,
          pm_fence = pm_fence previous\<rparr>,
        au_coverageThrough := (ev_coverageThrough reader, ev_coverageThrough collector),
        au_versionCoverage := (au_versionCoverage a)(to \<mapsto> (ev_coverageThrough reader, ev_coverageThrough collector)),
        au_reason := noReason\<rparr>)"

text \<open>\<open>valid\<close> is what the callback \<open>validate\<close> answers, nothing when there is no callback or no error.\<close>

definition renew_finish ::
    "acquisition \<Rightarrow> go_error option \<Rightarrow> int \<Rightarrow> renewal \<Rightarrow> permit \<Rightarrow> Authority \<Rightarrow> Authority \<times> go_error option" where
  "renew_finish q valid now r previous a0 =
     (case collectVectorBounded q (rn_challenges r) of
        Inl e \<Rightarrow> failRenewalLocked (collectionErrorReason e) (Some e) a0
      | Inr v \<Rightarrow>
      case aq_context q of
        Some e \<Rightarrow> failRenewalLocked reasonContextCancelled (Some e) a0
      | None \<Rightarrow>
      case valid of
        Some e \<Rightarrow> failRenewalLocked reasonOwnerDrift (Some e) a0
      | None \<Rightarrow>
      case readClockLocked now a0 of
        (a, Some e) \<Rightarrow> (a, Some e)
      | (a, None) \<Rightarrow>
      if \<not> snapshotCurrentLocked (rn_snapshot r) a then (a, Some (authError reasonConcurrentInvalid))
      else case au_permit a of
        None \<Rightarrow> (a, Some (authError reasonConcurrentInvalid))
      | Some p \<Rightarrow>
          if pm_evidenceVersion p \<noteq> pm_evidenceVersion previous \<or> \<not> samePermitPredecessor p previous
          then (a, Some (authError reasonConcurrentInvalid))
          else if \<not> now < pm_expiresAt previous
          then (revokeLocked reasonEvidenceExpired a, Some (authError reasonEvidenceExpired))
          else case validateVectorLocked a v (rn_challenges r) now
                      (Some (pm_readerCoverageThrough previous, pm_collectorCoverageThrough previous)) of
            Some e \<Rightarrow> failRenewalLocked (errorReason (Some (authError e)) reasonRenewalFailed) (Some (authError e)) a
          | None \<Rightarrow>
              if now - rn_start r \<ge> maximumBindingAge then failRenewalLocked reasonBindingDeadline None a
              else if now - rn_start r \<ge> maximumEvidenceAge then failRenewalLocked reasonEvidenceExpired None a
              else if ev_sessionRevision (fst v) \<noteq> pm_readerRevision previous \<or>
                      ev_sessionRevision (snd v) \<noteq> pm_collectorRevision previous
              then failRenewalLocked reasonSessionChanged None a
              else if \<not> ownerEqual (cf_reader (au_config a)) (pm_readerOwner previous) \<or>
                      \<not> ownerEqual (cf_collector (au_config a)) (pm_collectorOwner previous)
              then (revokeLocked reasonOwnerDrift a, Some (authError reasonOwnerDrift))
              else
                let newExpiry = earliestDeadline (rn_start r + maximumEvidenceAge) [fst v, snd v]
                in if \<not> now < newExpiry then failRenewalLocked reasonEvidenceExpired None a
                   else if pm_evidenceVersion previous + 1 \<le> pm_evidenceVersion previous
                   then failRenewalLocked reasonInvalidEvidence None a
                   else (publish_next previous newExpiry v a, None))"

subsection \<open>The renewal chain and the coverage barrier\<close>

lemma unat_next: "v < t \<Longrightarrow> unat (v + 1) = Suc (unat v)" for v t :: "64 word"
proof -
  assume "v < t"
  then have "Suc (unat v) < 2 ^ 64" using unsigned_less [of t, where 'a = nat] by (simp add: word_less_nat_alt)
  then show ?thesis by (simp add: unat_word_ariths)
qed

text \<open>The body of the loop of \<open>validateChainLocked\<close> at one version, and the loop.\<close>

definition link_ok :: "Authority \<Rightarrow> permit \<Rightarrow> 64 word \<Rightarrow> int \<times> int \<Rightarrow> renewalLink \<Rightarrow> int \<times> int \<Rightarrow> bool" where
  "link_ok a p version checkpoint link nxt \<longleftrightarrow>
     rl_fromVersion link = version \<and> rl_toVersion link = version + 1 \<and>
     rl_pairGeneration link = pi_generation (cf_pair (au_config a)) \<and> rl_readerRevision link = pm_readerRevision p \<and>
     rl_collectorRevision link = pm_collectorRevision p \<and>
     rl_collectorOwnerID link = po_ownerID (cf_collector (au_config a)) \<and>
     rl_readerCoverageFrom link = fst checkpoint \<and> rl_collectorCoverageFrom link = snd checkpoint \<and>
     rl_readerCoverageTo link = fst nxt \<and> rl_collectorCoverageTo link = snd nxt \<and>
     rl_readerCoverageTo link > rl_readerCoverageFrom link \<and> rl_collectorCoverageTo link > rl_collectorCoverageFrom link"

function (sequential) chain_from ::
    "Authority \<Rightarrow> permit \<Rightarrow> 64 word \<Rightarrow> 64 word \<Rightarrow> int \<times> int \<Rightarrow> authorizationReason option" where
  "chain_from a p version toVersion checkpoint =
     (if \<not> version < toVersion then None
      else case (au_renewalLinks a version, au_versionCoverage a (version + 1)) of
        (Some link, Some nxt) \<Rightarrow>
          if link_ok a p version checkpoint link nxt then chain_from a p (version + 1) toVersion nxt
          else Some reasonCoverageGap
      | _ \<Rightarrow> Some reasonCoverageGap)"
  by pat_completeness auto
termination
proof (relation "measure (\<lambda>(a, p, v, t, c). unat t - unat v)", simp, goal_cases)
  case (1 a p v t c)
  then have "unat v < unat t" "unat (v + 1) = Suc (unat v)" by (simp_all add: word_less_nat_alt unat_next)
  then show ?case by simp
qed

declare chain_from.simps [simp del]

definition validateChainLocked :: "64 word \<Rightarrow> 64 word \<Rightarrow> Authority \<Rightarrow> authorizationReason option" where
  "validateChainLocked fromVersion toVersion a =
     (case au_permit a of
        None \<Rightarrow> Some reasonStaleTicket
      | Some p \<Rightarrow>
          if fromVersion = 0 \<or> toVersion < fromVersion \<or> toVersion \<noteq> pm_evidenceVersion p then Some reasonStaleTicket
          else (case au_versionCoverage a fromVersion of
                  None \<Rightarrow> Some reasonStaleTicket
                | Some checkpoint \<Rightarrow> chain_from a p fromVersion toVersion checkpoint))"

definition coverageAtBarrierLocked :: "int \<Rightarrow> Authority \<Rightarrow> bool" where
  "coverageAtBarrierLocked barrier a =
     (case au_permit a of
        None \<Rightarrow> False
      | Some p \<Rightarrow>
          barrier \<le> fst (au_coverageThrough a) \<and> barrier \<le> snd (au_coverageThrough a) \<and>
          barrier \<le> pm_readerCoverageThrough p \<and> barrier \<le> pm_collectorCoverageThrough p)"

text \<open>What an installed barrier answers: whether it returned a release, and whether it is covered.\<close>

type_synonym lifecycle = "syntheticLifecycleRequest \<Rightarrow> bool \<times> bool"

definition acquireCoverageBarrierLocked :: "lifecycle \<Rightarrow> int \<Rightarrow> Authority \<Rightarrow> bool" where
  "acquireCoverageBarrierLocked lifecycle barrier a =
     (if \<not> cf_lifecycleBarrier (au_config a) then coverageAtBarrierLocked barrier a
      else case au_permit a of
        None \<Rightarrow> False
      | Some p \<Rightarrow>
          if \<not> validFixtureGrant (au_grant a) \<or> en_sourceID (cf_enrollment (au_config a)) \<noteq> fixtureSourceID then False
          else
            let (release, covered) = lifecycle
              \<lparr>lr_enrollment = cf_enrollment (au_config a), lr_pair = cf_pair (au_config a), lr_reader = pm_readerOwner p,
               lr_collector = pm_collectorOwner p, lr_readerRevision = pm_readerRevision p,
               lr_collectorRevision = pm_collectorRevision p, lr_readerFrom = pm_readerCoverageThrough p,
               lr_collectorFrom = pm_collectorCoverageThrough p, lr_barrier = barrier\<rparr>
            in covered \<and> release)"

subsection \<open>Work\<close>

definition ticketExistsForCommand :: "(string \<times> ticketRecord) list \<Rightarrow> string \<Rightarrow> bool" where
  "ticketExistsForCommand tickets commandID \<longleftrightarrow> list_ex (\<lambda>x. wt_commandID (tr_ticket (snd x)) = commandID) tickets"

text \<open>The clock, then the permit: how \<open>dispatch\<close>, \<open>claimWithCommit\<close> and \<open>completeWithCommit\<close> begin.\<close>

definition enter :: "int \<Rightarrow> Authority \<Rightarrow> Authority \<times> (go_error + permit)" where
  "enter now a0 =
     (case readClockLocked now a0 of
        (a, Some e) \<Rightarrow> (a, Inl e)
      | (a, None) \<Rightarrow>
      case requireCurrentPermitLocked a of
        (b, Some e) \<Rightarrow> (b, Inl e)
      | (b, None) \<Rightarrow> (b, Inr (the (au_permit b))))"

definition dispatch :: "lifecycle \<Rightarrow> workCommand \<Rightarrow> int \<Rightarrow> Authority \<Rightarrow> Authority \<times> (go_error + workTicket)" where
  "dispatch lifecycle command now a0 =
     (case enter now a0 of
        (a, Inl e) \<Rightarrow> (a, Inl e)
      | (a, Inr p) \<Rightarrow>
          if \<not> fg_allowCollection (au_grant a) \<or> \<not> syntheticID (wc_id command) \<or>
             wc_scope command \<noteq> en_databaseScope (cf_enrollment (au_config a)) \<or>
             wc_source command \<noteq> en_sourceID (cf_enrollment (au_config a)) \<or> wc_operation command \<noteq> ''synthetic-x.collect''
          then (a, Inl (authError reasonUnsupportedOperation))
          else case validateChainLocked (pm_evidenceVersion p) (pm_evidenceVersion p) a of
            Some e \<Rightarrow> (a, Inl (authError e))
          | None \<Rightarrow>
              if \<not> acquireCoverageBarrierLocked lifecycle (au_lastClock a) a then (a, Inl (authError reasonCoverageGap))
              else if ticketExistsForCommand (au_tickets a) (wc_id command) then (a, Inl (authError reasonDuplicateResult))
              else
                let ticketID = ''synthetic-ticket-'' @ decimal (length (au_tickets a) + 1);
                    ticket = \<lparr>wt_instanceID = au_instanceID a, wt_ticketID = ticketID, wt_commandID = wc_id command,
                      wt_scope = wc_scope command, wt_source = wc_source command, wt_operation = wc_operation command,
                      wt_evidenceVersion = pm_evidenceVersion p, wt_pairID = pi_id (cf_pair (au_config a)),
                      wt_pairGeneration = pi_generation (cf_pair (au_config a)), wt_fence = au_fence a,
                      wt_collectorOwnerID = po_ownerID (cf_collector (au_config a)), wt_dispatchAt = au_lastClock a\<rparr>
                in (a\<lparr>au_tickets := au_tickets a @ [(ticketID, \<lparr>tr_ticket = ticket, tr_status = workPending\<rparr>)]\<rparr>, Inr ticket))"

definition ticketRecordLocked :: "workTicket \<Rightarrow> Authority \<Rightarrow> ticketRecord option" where
  "ticketRecordLocked ticket a =
     (if wt_instanceID ticket \<noteq> au_instanceID a \<or> \<not> syntheticID (wt_ticketID ticket) then None
      else case map_of (au_tickets a) (wt_ticketID ticket) of
        None \<Rightarrow> None
      | Some record \<Rightarrow> if tr_ticket record = ticket then Some record else None)"

definition set_status :: "string \<Rightarrow> workStatus \<Rightarrow> (string \<times> ticketRecord) list \<Rightarrow> (string \<times> ticketRecord) list" where
  "set_status tid st = map (\<lambda>x. if fst x = tid then (fst x, (snd x)\<lparr>tr_status := st\<rparr>) else x)"

text \<open>\<open>commit\<close> is what the callback answers, nothing when there is no callback or no error.\<close>

definition claimWithCommit ::
    "lifecycle \<Rightarrow> go_error option \<Rightarrow> workTicket \<Rightarrow> int \<Rightarrow> Authority \<Rightarrow> Authority \<times> go_error option" where
  "claimWithCommit lifecycle commit ticket now a0 =
     (case enter now a0 of
        (a, Inl e) \<Rightarrow> (a, Some e)
      | (a, Inr p) \<Rightarrow>
          if \<not> acquireCoverageBarrierLocked lifecycle (au_lastClock a) a then (a, Some (authError reasonCoverageGap))
          else case ticketRecordLocked ticket a of
            None \<Rightarrow> (a, Some (authError reasonStaleTicket))
          | Some record \<Rightarrow>
              if tr_status record = workCancelled then (a, Some (authError reasonTicketCancelled))
              else if tr_status record \<noteq> workPending then (a, Some (authError reasonStaleTicket))
              else case validateChainLocked (wt_evidenceVersion (tr_ticket record)) (pm_evidenceVersion p) a of
                Some e \<Rightarrow> (a, Some (authError e))
              | None \<Rightarrow>
              case commit of
                Some e \<Rightarrow> (a, Some (AuthorizationError reasonConcurrentInvalid (Some e)))
              | None \<Rightarrow>
                  (a\<lparr>au_tickets := set_status (wt_ticketID ticket) workClaimed (au_tickets a),
                     au_sideEffects := au_sideEffects a + 1\<rparr>, None))"

definition validResult :: "fixtureResult \<Rightarrow> workTicket \<Rightarrow> bool" where
  "validResult r t \<longleftrightarrow>
     syntheticID (fr_id r) \<and> fr_ticketID r = wt_ticketID t \<and> fr_commandID r = wt_commandID t \<and>
     fr_scope r = wt_scope t \<and> fr_source r = wt_source t \<and> fr_operation r = wt_operation t \<and>
     fr_evidenceVersion r = wt_evidenceVersion t \<and> fr_pairID r = wt_pairID t \<and>
     fr_pairGeneration r = wt_pairGeneration t \<and> fr_fence r = wt_fence t \<and>
     fr_collectorOwnerID r = wt_collectorOwnerID t"

definition sink_has :: "Authority \<Rightarrow> string \<Rightarrow> bool" where
  "sink_has a tid \<longleftrightarrow> (case map_of (au_memorySink a) tid of None \<Rightarrow> False | Some r \<Rightarrow> fr_ticketID r \<noteq> [])"

definition completeWithCommit ::
    "lifecycle \<Rightarrow> go_error option \<Rightarrow> workTicket \<Rightarrow> fixtureResult \<Rightarrow> int \<Rightarrow> Authority \<Rightarrow> Authority \<times> go_error option" where
  "completeWithCommit lifecycle commit ticket result now a0 =
     (case enter now a0 of
        (a, Inl e) \<Rightarrow> (a, Some e)
      | (a, Inr p) \<Rightarrow>
          if \<not> acquireCoverageBarrierLocked lifecycle (au_lastClock a) a then (a, Some (authError reasonCoverageGap))
          else case ticketRecordLocked ticket a of
            None \<Rightarrow> (a, Some (authError reasonStaleTicket))
          | Some record \<Rightarrow>
              if tr_status record = workCancelled then (a, Some (authError reasonTicketCancelled))
              else if tr_status record \<noteq> workClaimed
              then (if tr_status record = workCompleted \<or> sink_has a (wt_ticketID (tr_ticket record))
                    then (a, Some (authError reasonDuplicateResult)) else (a, Some (authError reasonTicketNotClaimed)))
              else
                let canonical = tr_ticket record in
                if \<not> fg_allowResultSink (au_grant a) \<or> \<not> validResult result canonical
                then (a, Some (authError reasonInvalidEvidence))
                else if wt_fence canonical \<noteq> au_fence a \<or> wt_pairGeneration canonical \<noteq> pi_generation (cf_pair (au_config a)) \<or>
                        wt_pairID canonical \<noteq> pi_id (cf_pair (au_config a)) \<or>
                        wt_collectorOwnerID canonical \<noteq> po_ownerID (cf_collector (au_config a))
                then (a, Some (authError reasonStaleTicket))
                else case validateChainLocked (wt_evidenceVersion canonical) (pm_evidenceVersion p) a of
                  Some e \<Rightarrow> (a, Some (authError e))
                | None \<Rightarrow>
                    if map_of (au_memorySink a) (wt_ticketID canonical) \<noteq> None then (a, Some (authError reasonDuplicateResult))
                    else case commit of
                      Some e \<Rightarrow> (a, Some (AuthorizationError reasonConcurrentInvalid (Some e)))
                    | None \<Rightarrow>
                        (a\<lparr>au_memorySink := au_memorySink a @ [(wt_ticketID canonical, result)],
                           au_tickets := set_status (wt_ticketID ticket) workCompleted (au_tickets a),
                           au_sideEffects := au_sideEffects a + 1\<rparr>, None))"

definition cancelWithCommit :: "go_error option \<Rightarrow> workTicket \<Rightarrow> int \<Rightarrow> Authority \<Rightarrow> Authority \<times> go_error option" where
  "cancelWithCommit commit ticket now a0 =
     (case readClockLocked now a0 of
        (a, Some e) \<Rightarrow> (a, Some e)
      | (a, None) \<Rightarrow>
      case ticketRecordLocked ticket a of
        None \<Rightarrow> (a, Some (authError reasonStaleTicket))
      | Some record \<Rightarrow>
          if tr_status record = workCompleted then (a, Some (authError reasonDuplicateResult))
          else if tr_status record = workCancelled then (a, Some (authError reasonTicketCancelled))
          else case commit of
            Some e \<Rightarrow> (a, Some (AuthorizationError reasonConcurrentInvalid (Some e)))
          | None \<Rightarrow> (a\<lparr>au_tickets := set_status (wt_ticketID ticket) workCancelled (au_tickets a)\<rparr>, None))"

subsection \<open>Checks and changes from outside\<close>

definition check :: "lifecycle \<Rightarrow> int \<Rightarrow> Authority \<Rightarrow> Authority \<times> go_error option" where
  "check lifecycle now a0 =
     (case readClockLocked now a0 of
        (a, Some e) \<Rightarrow> (a, Some e)
      | (a, None) \<Rightarrow>
          if au_permit a = None then (a, if au_revoked a then Some (authError (currentClosedReason a)) else None)
          else case requireCurrentPermitLocked a of
            (b, Some e) \<Rightarrow> (b, Some e)
          | (b, None) \<Rightarrow>
              if cf_lifecycleBarrier (au_config b) \<and> \<not> acquireCoverageBarrierLocked lifecycle (au_lastClock b) b
              then (revokeLocked reasonCoverageGap b, Some (authError reasonCoverageGap))
              else (b, None))"

definition revoke :: "Authority \<Rightarrow> Authority" where
  "revoke = revokeLocked reasonRevoked"

definition optOut :: "Authority \<Rightarrow> Authority" where
  "optOut a = revokeLocked reasonOptedOut (a\<lparr>au_config := (au_config a)\<lparr>cf_policyEnabled := False\<rparr>\<rparr>)"

definition policyChanged :: "nat \<Rightarrow> nat \<Rightarrow> bool \<Rightarrow> Authority \<Rightarrow> Authority" where
  "policyChanged policyGeneration holdGeneration enabled a =
     (let e = (cf_enrollment (au_config a))\<lparr>en_policyGeneration := policyGeneration, en_holdGeneration := holdGeneration\<rparr>
      in revokeLocked reasonPolicyChanged (a\<lparr>au_config := (au_config a)\<lparr>cf_enrollment := e, cf_policyEnabled := enabled\<rparr>\<rparr>))"

definition ownerDrift :: "role \<Rightarrow> Authority \<Rightarrow> Authority \<times> go_error option" where
  "ownerDrift changedRole a =
     (if changedRole \<noteq> readerRole \<and> changedRole \<noteq> collectorRole then a else revokeLocked reasonOwnerDrift a,
      Some (authError reasonOwnerDrift))"

definition readerLost :: "Authority \<Rightarrow> Authority" where
  "readerLost = revokeLocked reasonReaderLost"

definition updateReaderWindows :: "string list \<Rightarrow> int \<Rightarrow> Authority \<Rightarrow> Authority \<times> go_error option" where
  "updateReaderWindows windows now a0 =
     (case readClockLocked now a0 of
        (a, Some e) \<Rightarrow> (a, Some e)
      | (a, None) \<Rightarrow>
          if windows = [] then (revokeLocked reasonReaderLost a, Some (authError reasonReaderLost))
          else if \<not> list_all syntheticID windows then (a, Some (authError reasonInvalidConfiguration))
          else
            let reader = (cf_reader (au_config a))\<lparr>po_windowInventory := windows\<rparr>
            in (a\<lparr>au_config := (au_config a)\<lparr>cf_reader := reader\<rparr>,
                  au_permit := map_option (\<lambda>p. p\<lparr>pm_readerOwner := reader\<rparr>) (au_permit a)\<rparr>, None))"

definition requestIndependentCollector :: go_error where
  "requestIndependentCollector = authError reasonIndependentCollector"

definition view_authority :: "int \<Rightarrow> Authority \<Rightarrow> Authority \<times> authorizationView" where
  "view_authority now a0 =
     (let a = fst (readClockLocked now a0) in
      (a, \<lparr>av_nativeQualified = False, av_canAuthorize = False, av_fixturePermitValid = (au_permit a \<noteq> None),
           av_policyEnabled = cf_policyEnabled (au_config a), av_evidenceVersion = au_versionCounter a,
           av_pairGeneration = pi_generation (cf_pair (au_config a)), av_fence = au_fence a,
           av_expiresAt = (case au_permit a of None \<Rightarrow> 0 | Some p \<Rightarrow> pm_expiresAt p), av_reason = au_reason a\<rparr>))"

definition ticketStatus :: "workTicket \<Rightarrow> int \<Rightarrow> Authority \<Rightarrow> Authority \<times> workStatus option \<times> go_error option" where
  "ticketStatus ticket now a0 =
     (case readClockLocked now a0 of
        (a, clockErr) \<Rightarrow>
          (case ticketRecordLocked ticket a of
             None \<Rightarrow> (a, None, Some (authError reasonStaleTicket))
           | Some record \<Rightarrow> (a, Some (tr_status record), clockErr)))"

definition fixtureCounts :: "Authority \<Rightarrow> 64 word \<times> nat" where
  "fixtureCounts a = (au_sideEffects a, length (au_memorySink a))"

end
