(* ===== verification/Authorization_Machine.thy ===== *)
theory Authorization_Machine
  imports Authorization
begin

text \<open>
  The operations of \<open>development_concurrent_authorization.go\<close> interleaved: its machine, the invariant
  of every reachable state, and what follows for permits, renewals, tickets and results.
\<close>

subsection \<open>The machine\<close>

text \<open>The authority with the holder of the renewal slot (\<open>renewalGate\<close>, of capacity one) and, for the
  statements only, the claims and commits in their order. A call that finds the slot taken waits, so
  it has no step until the slot is free.\<close>

datatype authorization_entry = Claimed workTicket | Committed workTicket fixtureResult

record World =
  wo_auth :: Authority
  wo_gate :: "renewal option"
  wo_log :: "authorization_entry list"

datatype authorization_event =
    DoDerive derivationReceipt int
  | DoAuthorize bool int
  | DoRenew bool int
  | DoFinish acquisition "go_error option" int
  | DoDispatch lifecycle workCommand int
  | DoClaim lifecycle "go_error option" workTicket int
  | DoComplete lifecycle "go_error option" workTicket fixtureResult int
  | DoCancel "go_error option" workTicket int
  | DoCheck lifecycle int
  | DoRevoke
  | DoOptOut
  | DoPolicyChanged nat nat bool
  | DoOwnerDrift role
  | DoReaderLost
  | DoUpdateWindows "string list" int
  | DoView int

definition finish :: "acquisition \<Rightarrow> go_error option \<Rightarrow> int \<Rightarrow> renewal \<Rightarrow> Authority \<Rightarrow> Authority \<times> go_error option" where
  "finish q valid now r a =
     (case rn_previous r of
        None \<Rightarrow> authorize_finish q now r a
      | Some previous \<Rightarrow> renew_finish q valid now r previous a)"

definition begun :: "World \<Rightarrow> Authority \<times> (go_error option + renewal) \<Rightarrow> World" where
  "begun w x = w\<lparr>wo_auth := fst x, wo_gate := (case snd x of Inl _ \<Rightarrow> None | Inr r \<Rightarrow> Some r)\<rparr>"

definition logged :: "World \<Rightarrow> authorization_entry \<Rightarrow> Authority \<times> go_error option \<Rightarrow> World" where
  "logged w entry x = w\<lparr>wo_auth := fst x, wo_log := (if snd x = None then wo_log w @ [entry] else wo_log w)\<rparr>"

fun auth_exec :: "authorization_event \<Rightarrow> World \<Rightarrow> World option" where
  "auth_exec (DoDerive r now) w = Some (w\<lparr>wo_auth := fst (recordFixtureDerivation r now (wo_auth w))\<rparr>)"
| "auth_exec (DoAuthorize collectNil now) w =
     (if wo_gate w = None then Some (begun w (authorize_start collectNil now (wo_auth w))) else None)"
| "auth_exec (DoRenew collectNil now) w =
     (if wo_gate w = None then Some (begun w (renew_start collectNil now (wo_auth w))) else None)"
| "auth_exec (DoFinish q valid now) w =
     (case wo_gate w of
        None \<Rightarrow> None
      | Some r \<Rightarrow> Some (w\<lparr>wo_auth := fst (finish q valid now r (wo_auth w)), wo_gate := None\<rparr>))"
| "auth_exec (DoDispatch lifecycle command now) w = Some (w\<lparr>wo_auth := fst (dispatch lifecycle command now (wo_auth w))\<rparr>)"
| "auth_exec (DoClaim lifecycle commit ticket now) w =
     Some (logged w (Claimed ticket) (claimWithCommit lifecycle commit ticket now (wo_auth w)))"
| "auth_exec (DoComplete lifecycle commit ticket result now) w =
     Some (logged w (Committed ticket result) (completeWithCommit lifecycle commit ticket result now (wo_auth w)))"
| "auth_exec (DoCancel commit ticket now) w = Some (w\<lparr>wo_auth := fst (cancelWithCommit commit ticket now (wo_auth w))\<rparr>)"
| "auth_exec (DoCheck lifecycle now) w = Some (w\<lparr>wo_auth := fst (check lifecycle now (wo_auth w))\<rparr>)"
| "auth_exec DoRevoke w = Some (w\<lparr>wo_auth := revoke (wo_auth w)\<rparr>)"
| "auth_exec DoOptOut w = Some (w\<lparr>wo_auth := optOut (wo_auth w)\<rparr>)"
| "auth_exec (DoPolicyChanged p h b) w = Some (w\<lparr>wo_auth := policyChanged p h b (wo_auth w)\<rparr>)"
| "auth_exec (DoOwnerDrift r) w = Some (w\<lparr>wo_auth := fst (ownerDrift r (wo_auth w))\<rparr>)"
| "auth_exec DoReaderLost w = Some (w\<lparr>wo_auth := readerLost (wo_auth w)\<rparr>)"
| "auth_exec (DoUpdateWindows ws now) w = Some (w\<lparr>wo_auth := fst (updateReaderWindows ws now (wo_auth w))\<rparr>)"
| "auth_exec (DoView now) w = Some (w\<lparr>wo_auth := fst (view_authority now (wo_auth w))\<rparr>)"

definition auth_step :: "World \<Rightarrow> World \<Rightarrow> bool" where
  "auth_step w v \<longleftrightarrow> (\<exists>e. auth_exec e w = Some v)"

definition auth_start :: "World \<Rightarrow> bool" where
  "auth_start w \<longleftrightarrow> (\<exists>config grant t n. newConcurrentAuthorization config grant (Some t) n = Inr (wo_auth w)) \<and>
     wo_gate w = None \<and> wo_log w = []"

abbreviation auth_reachable :: "World \<Rightarrow> bool" where
  "auth_reachable \<equiv> reachable_from auth_start auth_step"

subsection \<open>Invariant\<close>

text \<open>What a permit stands for.\<close>

definition permit_current :: "Authority \<Rightarrow> permit \<Rightarrow> bool" where
  "permit_current a p \<longleftrightarrow>
     \<not> au_revoked a \<and> cf_policyEnabled (au_config a) \<and> au_lastClock a < pm_expiresAt p \<and>
     pm_evidenceVersion p = au_versionCounter a \<and> au_versionCounter a \<noteq> 0 \<and> pm_fence p = au_fence a \<and>
     pm_pairGeneration p = pi_generation (cf_pair (au_config a)) \<and>
     ownerEqual (pm_readerOwner p) (cf_reader (au_config a)) \<and> pm_collectorOwner p = cf_collector (au_config a) \<and>
     au_coverageThrough a = (pm_readerCoverageThrough p, pm_collectorCoverageThrough p) \<and>
     au_versionCoverage a (au_versionCounter a) = Some (pm_readerCoverageThrough p, pm_collectorCoverageThrough p) \<and>
     (case au_derivation a of None \<Rightarrow> False
      | Some d \<Rightarrow> pm_readerRevision p = dr_readerRevision d \<and> pm_collectorRevision p = dr_collectorRevision d)"

definition permit_ok :: "Authority \<Rightarrow> bool" where
  "permit_ok a \<longleftrightarrow> (\<forall>p. au_permit a = Some p \<longrightarrow> permit_current a p)"

text \<open>The authority closes at most once, and then for good.\<close>

definition closing_ok :: "Authority \<Rightarrow> bool" where
  "closing_ok a \<longleftrightarrow> \<not> au_pendingRevocation a \<and> au_fence a = (if au_revoked a then 2 else 1) \<and>
     (au_revoked a \<longrightarrow> au_permit a = None \<and> au_reason a \<noteq> noReason \<and>
        (\<forall>x \<in> set (au_tickets a). tr_status (snd x) \<noteq> workClaimed))"

text \<open>The versions form a chain of renewals from the first permit on.\<close>

definition link_fits :: "Authority \<Rightarrow> derivationReceipt \<Rightarrow> 64 word \<Rightarrow> renewalLink \<Rightarrow> int \<times> int \<Rightarrow> int \<times> int \<Rightarrow> bool" where
  "link_fits a d v l c n \<longleftrightarrow>
     rl_fromVersion l = v \<and> rl_toVersion l = v + 1 \<and> rl_pairGeneration l = pi_generation (cf_pair (au_config a)) \<and>
     rl_readerRevision l = dr_readerRevision d \<and> rl_collectorRevision l = dr_collectorRevision d \<and>
     rl_collectorOwnerID l = po_ownerID (cf_collector (au_config a)) \<and>
     rl_readerCoverageFrom l = fst c \<and> rl_collectorCoverageFrom l = snd c \<and>
     rl_readerCoverageTo l = fst n \<and> rl_collectorCoverageTo l = snd n \<and> fst c \<le> fst n \<and> snd c \<le> snd n"

definition chain_ok :: "Authority \<Rightarrow> bool" where
  "chain_ok a \<longleftrightarrow>
     (au_versionCounter a \<noteq> 0 \<longrightarrow> au_derivation a \<noteq> None \<and> au_versionCoverage a (au_versionCounter a) \<noteq> None) \<and>
     (\<forall>v. v \<noteq> 0 \<longrightarrow> v < au_versionCounter a \<longrightarrow>
        (\<exists>l c n. au_renewalLinks a v = Some l \<and> au_versionCoverage a v = Some c \<and>
           au_versionCoverage a (v + 1) = Some n \<and> link_fits a (the (au_derivation a)) v l c n))"

text \<open>Tickets are numbered, one per command, and bound to the pair.\<close>

definition ticket_name :: "nat \<Rightarrow> string" where
  "ticket_name i = ''synthetic-ticket-'' @ decimal i"

definition ticket_bound :: "Authority \<Rightarrow> workTicket \<Rightarrow> bool" where
  "ticket_bound a t \<longleftrightarrow> wt_instanceID t = au_instanceID a \<and> wt_fence t = 1 \<and> wt_pairID t = pi_id (cf_pair (au_config a)) \<and>
     wt_pairGeneration t = pi_generation (cf_pair (au_config a)) \<and>
     wt_collectorOwnerID t = po_ownerID (cf_collector (au_config a)) \<and>
     wt_evidenceVersion t \<noteq> 0 \<and> wt_evidenceVersion t \<le> au_versionCounter a"

definition tickets_ok :: "Authority \<Rightarrow> bool" where
  "tickets_ok a \<longleftrightarrow>
     map fst (au_tickets a) = map ticket_name [1..<Suc (length (au_tickets a))] \<and>
     distinct (map (\<lambda>x. wt_commandID (tr_ticket (snd x))) (au_tickets a)) \<and>
     (\<forall>x \<in> set (au_tickets a). wt_ticketID (tr_ticket (snd x)) = fst x \<and> ticket_bound a (tr_ticket (snd x)))"

text \<open>The sink holds the commits of the log; each follows the claim of its ticket.\<close>

fun commits :: "authorization_entry list \<Rightarrow> (string \<times> fixtureResult) list" where
  "commits [] = []"
| "commits (Claimed t # l) = commits l"
| "commits (Committed t r # l) = (wt_ticketID t, r) # commits l"

fun claims :: "authorization_entry list \<Rightarrow> workTicket list" where
  "claims [] = []"
| "claims (Claimed t # l) = t # claims l"
| "claims (Committed t r # l) = claims l"

lemma commits_append [simp]: "commits (l @ m) = commits l @ commits m"
  by (induction l rule: commits.induct) auto

lemma claims_append [simp]: "claims (l @ m) = claims l @ claims m"
  by (induction l rule: claims.induct) auto

definition claim_first :: "authorization_entry list \<Rightarrow> bool" where
  "claim_first l \<longleftrightarrow> (\<forall>a b t r. l = a @ Committed t r # b \<longrightarrow> t \<in> set (claims a) \<and> validResult r t)"

lemma claim_first_snoc:
  "claim_first (l @ [e]) \<longleftrightarrow> claim_first l \<and> (\<forall>t r. e = Committed t r \<longrightarrow> t \<in> set (claims l) \<and> validResult r t)"
proof
  assume cf: "claim_first (l @ [e])"
  have "t \<in> set (claims a) \<and> validResult r t" if "l = a @ Committed t r # b" for a b t r
    using cf that unfolding claim_first_def by (metis append.assoc append_Cons)
  then have "claim_first l" by (simp add: claim_first_def)
  moreover have "t \<in> set (claims l) \<and> validResult r t" if "e = Committed t r" for t r
    using cf that unfolding claim_first_def by blast
  ultimately show "claim_first l \<and> (\<forall>t r. e = Committed t r \<longrightarrow> t \<in> set (claims l) \<and> validResult r t)" by blast
next
  assume cf: "claim_first l \<and> (\<forall>t r. e = Committed t r \<longrightarrow> t \<in> set (claims l) \<and> validResult r t)"
  have "t \<in> set (claims a) \<and> validResult r t" if eq: "l @ [e] = a @ Committed t r # b" for a b t r
  proof (cases b rule: rev_cases)
    case Nil
    with eq cf show ?thesis by simp
  next
    case (snoc c x)
    with eq have "l = a @ Committed t r # c" by simp
    with cf show ?thesis unfolding claim_first_def by blast
  qed
  then show "claim_first (l @ [e])" unfolding claim_first_def by blast
qed

definition log_ok :: "Authority \<Rightarrow> authorization_entry list \<Rightarrow> bool" where
  "log_ok a l \<longleftrightarrow> au_memorySink a = commits l \<and> au_sideEffects a = of_nat (length l) \<and> claim_first l \<and>
     distinct (claims l) \<and> distinct (map fst (commits l)) \<and>
     (\<forall>t \<in> set (claims l). \<exists>x. (wt_ticketID t, x) \<in> set (au_tickets a) \<and> tr_ticket x = t \<and> tr_status x \<noteq> workPending) \<and>
     (\<forall>x \<in> set (au_tickets a). tr_status (snd x) = workClaimed \<longrightarrow> tr_ticket (snd x) \<in> set (claims l)) \<and>
     (\<forall>c \<in> set (commits l). \<exists>x. (fst c, x) \<in> set (au_tickets a) \<and> tr_status x = workCompleted)"

text \<open>What the holder of the renewal slot can rely on.\<close>

fun slot_ok :: "64 word \<Rightarrow> permit option \<Rightarrow> derivationReceipt option \<Rightarrow> permit option \<Rightarrow> bool" where
  "slot_ok version pm d None \<longleftrightarrow> version = 0 \<and> pm = None \<and> d \<noteq> None"
| "slot_ok version pm d (Some previous) \<longleftrightarrow> (\<forall>p. pm = Some p \<longrightarrow> p = previous\<lparr>pm_readerOwner := pm_readerOwner p\<rparr>)"

definition gate_ok :: "Authority \<Rightarrow> renewal option \<Rightarrow> bool" where
  "gate_ok a g \<longleftrightarrow>
     (\<forall>r. g = Some r \<longrightarrow> slot_ok (au_versionCounter a) (au_permit a) (au_derivation a) (rn_previous r) \<and>
        (rn_previous r = None \<longrightarrow> as_policyEnabled (rn_snapshot r)))"

lemma slot_closes: "slot_ok version pm d previous \<Longrightarrow> slot_ok version None d previous"
  by (cases previous) simp_all

definition auth_inv :: "World \<Rightarrow> bool" where
  "auth_inv w \<longleftrightarrow> permit_ok (wo_auth w) \<and> closing_ok (wo_auth w) \<and> chain_ok (wo_auth w) \<and> tickets_ok (wo_auth w) \<and>
     log_ok (wo_auth w) (wo_log w) \<and> gate_ok (wo_auth w) (wo_gate w)"

abbreviation inv3 :: "Authority \<Rightarrow> renewal option \<Rightarrow> authorization_entry list \<Rightarrow> bool" where
  "inv3 a g l \<equiv> auth_inv \<lparr>wo_auth = a, wo_gate = g, wo_log = l\<rparr>"

lemma inv3_iff: "inv3 a g l \<longleftrightarrow> permit_ok a \<and> closing_ok a \<and> chain_ok a \<and> tickets_ok a \<and> log_ok a l \<and> gate_ok a g"
  by (simp add: auth_inv_def)

lemma new_authority:
  "newConcurrentAuthorization config grant (Some t) n = Inr a \<Longrightarrow>
     au_permit a = None \<and> \<not> au_pendingRevocation a \<and> \<not> au_revoked a \<and> au_fence a = 1 \<and> au_versionCounter a = 0 \<and>
     au_tickets a = [] \<and> au_memorySink a = [] \<and> au_sideEffects a = 0"
  by (auto simp: newConcurrentAuthorization_def split: if_splits option.splits)

lemma inv_start: "auth_start w \<Longrightarrow> auth_inv w"
  by (auto simp: auth_start_def dest!: new_authority)
    (simp add: auth_inv_def permit_ok_def closing_ok_def chain_ok_def tickets_ok_def log_ok_def gate_ok_def claim_first_def)

subsection \<open>Tickets under a change of status\<close>

lemma ticket_name_inj: "inj ticket_name"
  by (rule injI) (metis ticket_name_def digits_value_decimal same_append_eq)

lemma tickets_distinct: "tickets_ok a \<Longrightarrow> distinct (map fst (au_tickets a))"
  unfolding tickets_ok_def by (metis distinct_map distinct_upt inj_on_subset ticket_name_inj subset_UNIV)

lemma ticket_entry_unique:
  "tickets_ok a \<Longrightarrow> (k, x) \<in> set (au_tickets a) \<Longrightarrow> (k, y) \<in> set (au_tickets a) \<Longrightarrow> x = y"
  using tickets_distinct by (metis eq_key_imp_eq_value)

lemma set_set_status:
  "set (set_status tid st xs) = (\<lambda>x. if fst x = tid then (fst x, (snd x)\<lparr>tr_status := st\<rparr>) else x) ` set xs"
  by (simp add: set_status_def)

lemma map_set_status [simp]:
  "map fst (set_status tid st xs) = map fst xs" "length (set_status tid st xs) = length xs"
  "map (\<lambda>x. wt_commandID (tr_ticket (snd x))) (set_status tid st xs) = map (\<lambda>x. wt_commandID (tr_ticket (snd x))) xs"
  by (induction xs) (auto simp: set_status_def)

lemma in_set_status:
  "(k, y) \<in> set (set_status tid st xs) \<longleftrightarrow>
     (\<exists>x. (k, x) \<in> set xs \<and> y = (if k = tid then x\<lparr>tr_status := st\<rparr> else x))"
  by (force simp: set_set_status)

lemma tickets_ok_status: "tickets_ok a \<Longrightarrow> tickets_ok (a\<lparr>au_tickets := set_status tid st (au_tickets a)\<rparr>)"
  by (auto simp: tickets_ok_def ticket_bound_def set_set_status)

subsection \<open>Every operation keeps the invariant\<close>

lemma invalidate_simps [simp]:
  "tr_ticket (invalidate_claimed x) = tr_ticket x" "tr_status (invalidate_claimed x) \<noteq> workClaimed"
  "tr_status (invalidate_claimed x) = workPending \<longleftrightarrow> tr_status x = workPending"
  "tr_status (invalidate_claimed x) = workCompleted \<longleftrightarrow> tr_status x = workCompleted"
  by (simp_all add: invalidate_claimed_def)

text \<open>Revoking, also right after the configuration or the clock changed.\<close>

lemma revoke_inv:
  assumes inv: "inv3 a g l" and r: "r \<noteq> noReason"
    and cfg: "cf_pair cfg = cf_pair (au_config a)" "cf_collector cfg = cf_collector (au_config a)"
  shows "inv3 (revokeLocked r (a\<lparr>au_config := cfg, au_lastClock := t\<rparr>)) g l"
proof -
  let ?b = "a\<lparr>au_config := cfg, au_lastClock := t\<rparr>"
  from inv have parts: "permit_ok a" "closing_ok a" "chain_ok a" "tickets_ok a" "log_ok a l" "gate_ok a g"
    by (simp_all add: inv3_iff)
  have chain: "chain_ok (revokeLocked r ?b)" using parts(3) cfg by (simp add: revokeLocked_def chain_ok_def link_fits_def)
  have gate: "gate_ok (revokeLocked r ?b) g"
    using parts(6) slot_closes by (auto simp: revokeLocked_def gate_ok_def)
  show ?thesis
  proof (cases "au_revoked a \<and> au_permit a = None")
    case True
    then have eq: "revokeLocked r ?b = ?b" by (simp add: revokeLocked_def)
    show ?thesis using parts chain gate True cfg unfolding inv3_iff eq
      by (simp add: permit_ok_def closing_ok_def tickets_ok_def ticket_bound_def log_ok_def)
  next
    case False
    then have open_now: "\<not> au_revoked a" using parts(2) by (auto simp: closing_ok_def)
    have eq: "revokeLocked r ?b = ?b\<lparr>au_pendingRevocation := False, au_fence := au_fence a + 1, au_permit := None,
        au_revoked := True, au_reason := r, au_tickets := map (apsnd invalidate_claimed) (au_tickets a)\<rparr>"
      using open_now by (simp add: revokeLocked_def)
    have "closing_ok (revokeLocked r ?b)" using parts(2) open_now r unfolding eq by (simp add: closing_ok_def)
    moreover have "permit_ok (revokeLocked r ?b)" unfolding eq by (simp add: permit_ok_def)
    moreover have "tickets_ok (revokeLocked r ?b)"
      using parts(4) cfg unfolding eq by (auto simp: tickets_ok_def ticket_bound_def comp_def)
    moreover have "log_ok (revokeLocked r ?b) l"
    proof -
      let ?ts = "apsnd invalidate_claimed ` set (au_tickets a)"
      have there: "(k, invalidate_claimed x) \<in> ?ts" if "(k, x) \<in> set (au_tickets a)" for k x
        using imageI [OF that, of "apsnd invalidate_claimed"] by simp
      have "\<exists>y. (wt_ticketID u, y) \<in> ?ts \<and> tr_ticket y = u \<and> tr_status y \<noteq> workPending" if "u \<in> set (claims l)" for u
      proof -
        from parts(5) that obtain x where "(wt_ticketID u, x) \<in> set (au_tickets a)" "tr_ticket x = u" "tr_status x \<noteq> workPending"
          unfolding log_ok_def by blast
        with there show ?thesis by (intro exI [of _ "invalidate_claimed x"]) simp
      qed
      moreover have "\<exists>y. (fst c, y) \<in> ?ts \<and> tr_status y = workCompleted" if "c \<in> set (commits l)" for c
      proof -
        from parts(5) that obtain x where "(fst c, x) \<in> set (au_tickets a)" "tr_status x = workCompleted"
          unfolding log_ok_def by blast
        with there show ?thesis by (intro exI [of _ "invalidate_claimed x"]) simp
      qed
      ultimately show ?thesis using parts(5) unfolding eq log_ok_def by simp
    qed
    ultimately show ?thesis using chain gate by (simp add: inv3_iff)
  qed
qed

lemma revoke_inv_plain: "inv3 a g l \<Longrightarrow> r \<noteq> noReason \<Longrightarrow> inv3 (revokeLocked r a) g l"
  using revoke_inv [of a g l r "au_config a" "au_lastClock a"] by simp

lemma tick_inv:
  assumes "inv3 a g l" "\<And>p. au_permit a = Some p \<Longrightarrow> t < pm_expiresAt p"
  shows "inv3 (a\<lparr>au_lastClock := t\<rparr>) g l"
  using assms
  by (simp add: inv3_iff permit_ok_def permit_current_def closing_ok_def chain_ok_def link_fits_def tickets_ok_def
      ticket_bound_def log_ok_def gate_ok_def)

text \<open>Reading the clock: refused, or the clock moves on and the permit is still valid.\<close>

lemma clock_cases:
  assumes "readClockLocked now a = (b, e)"
  obtains (late) "e \<noteq> None" "b = revokeLocked reasonClockRegression a"
    | (expired) "e \<noteq> None" "b = revokeLocked reasonEvidenceExpired (a\<lparr>au_lastClock := now\<rparr>)"
    | (fine) "e = None" "b = a\<lparr>au_lastClock := now\<rparr>" "\<forall>p. au_permit a = Some p \<longrightarrow> now < pm_expiresAt p"
      "au_lastClock a \<le> now" "now \<noteq> 0"
  using assms by (auto simp: readClockLocked_def Let_def split: if_splits option.splits)

lemma clock_inv: "inv3 a g l \<Longrightarrow> readClockLocked now a = (b, e) \<Longrightarrow> inv3 b g l"
proof (erule clock_cases)
  assume "inv3 a g l" "b = revokeLocked reasonClockRegression a"
  then show ?thesis by (simp add: revoke_inv_plain)
next
  assume "inv3 a g l" "b = revokeLocked reasonEvidenceExpired (a\<lparr>au_lastClock := now\<rparr>)"
  then show ?thesis using revoke_inv [of a g l reasonEvidenceExpired "au_config a" now] by simp
next
  assume "inv3 a g l" "b = a\<lparr>au_lastClock := now\<rparr>" "\<forall>p. au_permit a = Some p \<longrightarrow> now < pm_expiresAt p"
  then show ?thesis by (simp add: tick_inv)
qed

text \<open>Under the invariant only a missing permit is refused by \<open>requireCurrentPermitLocked\<close>.\<close>

lemma require_permit:
  assumes "inv3 a g l"
  shows "requireCurrentPermitLocked a =
    (a, case au_permit a of None \<Rightarrow> Some (authError (currentClosedReason a)) | Some p \<Rightarrow> None)"
proof (cases "au_permit a")
  case None
  then show ?thesis by (simp add: requireCurrentPermitLocked_def)
next
  case (Some p)
  then have "permit_current a p" "closing_ok a" using assms by (simp_all add: inv3_iff permit_ok_def)
  then show ?thesis using Some
    by (simp add: requireCurrentPermitLocked_def permit_current_def closing_ok_def ownerEqual_def)
qed

lemma enter_cases:
  assumes inv: "inv3 a g l" and e: "enter now a = (b, x)"
  obtains (refused) err where "x = Inl err" "inv3 b g l"
    | (entered) p where "x = Inr p" "b = a\<lparr>au_lastClock := now\<rparr>" "au_permit a = Some p" "now < pm_expiresAt p"
      "au_lastClock a \<le> now" "inv3 b g l"
proof -
  obtain c ce where c: "readClockLocked now a = (c, ce)" by fastforce
  have ic: "inv3 c g l" by (rule clock_inv [OF inv c])
  show ?thesis
  proof (cases ce)
    case (Some err)
    then have "x = Inl err" "b = c" using e c by (simp_all add: enter_def)
    with ic refused show ?thesis by simp
  next
    case None
    from c None have fine: "c = a\<lparr>au_lastClock := now\<rparr>" "\<forall>p. au_permit a = Some p \<longrightarrow> now < pm_expiresAt p" "au_lastClock a \<le> now"
      by (auto elim: clock_cases)
    show ?thesis
    proof (cases "au_permit c")
      case None
      then have "x = Inl (authError (currentClosedReason c))" "b = c"
        using e c \<open>ce = None\<close> by (auto simp: enter_def require_permit [OF ic])
      with ic refused show ?thesis by simp
    next
      case (Some p)
      then have "x = Inr p" "b = c" using e c \<open>ce = None\<close> by (simp_all add: enter_def require_permit [OF ic])
      with Some fine ic entered show ?thesis by simp
    qed
  qed
qed

lemma derive_inv:
  assumes inv: "inv3 a g l"
  shows "inv3 (fst (recordFixtureDerivation r now a)) g l"
proof -
  obtain b e where b: "readClockLocked now a = (b, e)" by fastforce
  have ib: "inv3 b g l" by (rule clock_inv [OF inv b])
  show ?thesis
  proof (cases "e = None \<and> au_derivation b = None \<and> cf_policyEnabled (au_config b) \<and> \<not> au_revoked b \<and>
      \<not> au_pendingRevocation b \<and> \<not> au_derivationConsumed b \<and> fg_allowSeed (au_grant b) \<and> validDerivation b r")
    case True
    then have eq: "fst (recordFixtureDerivation r now a) = b\<lparr>au_derivation := Some r\<rparr>"
      by (simp add: recordFixtureDerivation_def b)
    from ib have parts: "permit_ok b" "closing_ok b" "chain_ok b" "tickets_ok b" "log_ok b l" "gate_ok b g"
      by (simp_all add: inv3_iff)
    have none: "au_permit b = None" using parts(1) True by (auto simp: permit_ok_def permit_current_def)
    have zero: "au_versionCounter b = 0" using parts(3) True by (auto simp: chain_ok_def)
    have "gate_ok (b\<lparr>au_derivation := Some r\<rparr>) g"
    proof (cases "\<exists>q. g = Some q \<and> rn_previous q = None")
      case True
      with parts(6) \<open>e = None \<and> _\<close> show ?thesis by (auto simp: gate_ok_def)
    next
      case False
      then show ?thesis using none by (auto simp: gate_ok_def)
    qed
    moreover have "permit_ok (b\<lparr>au_derivation := Some r\<rparr>)" "chain_ok (b\<lparr>au_derivation := Some r\<rparr>)"
      using none zero by (simp_all add: permit_ok_def chain_ok_def)
    moreover have "closing_ok (b\<lparr>au_derivation := Some r\<rparr>) = closing_ok b" "tickets_ok (b\<lparr>au_derivation := Some r\<rparr>) = tickets_ok b"
      "log_ok (b\<lparr>au_derivation := Some r\<rparr>) l = log_ok b l"
      by (simp_all add: closing_ok_def tickets_ok_def ticket_bound_def log_ok_def)
    ultimately show ?thesis using parts unfolding eq inv3_iff by simp
  next
    case False
    then have "fst (recordFixtureDerivation r now a) = b"
      by (auto simp: recordFixtureDerivation_def b split: option.splits)
    with ib show ?thesis by simp
  qed
qed

lemma challenges_inv:
  assumes "inv3 a g l" "makeChallengesLocked start v cps a = (b, ch)"
  shows "permit_ok b \<and> closing_ok b \<and> chain_ok b \<and> tickets_ok b \<and> log_ok b l \<and> au_permit b = au_permit a \<and>
    au_versionCounter b = au_versionCounter a \<and> au_derivation b = au_derivation a"
proof -
  have "b = a\<lparr>au_challengeCounter := au_challengeCounter a + 1\<rparr>" using assms(2) by (auto simp: makeChallengesLocked_def Let_def)
  with assms(1) show ?thesis
    by (simp add: inv3_iff permit_ok_def permit_current_def closing_ok_def chain_ok_def link_fits_def tickets_ok_def
        ticket_bound_def log_ok_def)
qed

lemma free_slot: "inv3 a g l \<Longrightarrow> inv3 a None l"
  by (simp add: inv3_iff gate_ok_def)

lemma authorize_start_inv:
  assumes inv: "inv3 a None l"
  shows "auth_inv (begun \<lparr>wo_auth = a, wo_gate = None, wo_log = l\<rparr> (authorize_start collectNil now a))"
proof -
  obtain b e where b: "readClockLocked now a = (b, e)" by fastforce
  have ib: "inv3 b None l" by (rule clock_inv [OF inv b])
  obtain c ch where c: "makeChallengesLocked (au_lastClock b) 0 (au_lastClock b, au_lastClock b) b = (c, ch)" by (metis surj_pair)
  show ?thesis
  proof (cases "collectNil")
    case True
    with revoke_inv_plain [OF inv, of reasonInvalidEvidence] show ?thesis
      by (simp add: authorize_start_def begun_def failInitialLocked_def)
  next
    case nil: False
    show ?thesis
    proof (cases "e = None \<and> cf_policyEnabled (au_config b) \<and> \<not> au_revoked b \<and> \<not> au_pendingRevocation b \<and>
        au_permit b = None \<and> au_versionCounter b = 0 \<and> au_derivation b \<noteq> None \<and> \<not> au_derivationConsumed b")
      case True
      with nil b c have "authorize_start collectNil now a = (c, Inr \<lparr>rn_start = au_lastClock b, rn_previous = None,
          rn_snapshot = snapshotLocked c, rn_challenges = ch\<rparr>)"
        by (simp add: authorize_start_def Let_def)
      moreover have "c = b\<lparr>au_challengeCounter := au_challengeCounter b + 1\<rparr>"
        using c by (auto simp: makeChallengesLocked_def Let_def)
      ultimately show ?thesis using challenges_inv [OF ib c] True
        by (simp add: begun_def inv3_iff gate_ok_def snapshotLocked_def)
    next
      case False
      with nil b have "\<exists>x. authorize_start collectNil now a = (b, Inl x)"
        by (auto simp: authorize_start_def split: option.splits)
      with ib show ?thesis by (auto simp: begun_def)
    qed
  qed
qed

lemma fail_renewal_inv: "inv3 a g l \<Longrightarrow> r \<noteq> noReason \<Longrightarrow> inv3 (fst (failRenewalLocked r e a)) g l"
  by (simp add: failRenewalLocked_def revoke_inv_plain)

lemma fail_initial_inv: "inv3 a g l \<Longrightarrow> r \<noteq> noReason \<Longrightarrow> inv3 (fst (failInitialLocked r e a)) g l"
  by (simp add: failInitialLocked_def revoke_inv_plain)

lemma renew_start_inv:
  assumes inv: "inv3 a None l"
  shows "auth_inv (begun \<lparr>wo_auth = a, wo_gate = None, wo_log = l\<rparr> (renew_start collectNil now a))"
proof (cases collectNil)
  case True
  with fail_renewal_inv [OF inv, of reasonInvalidEvidence None] show ?thesis by (simp add: renew_start_def begun_def)
next
  case nil: False
  obtain b e where b: "readClockLocked now a = (b, e)" by fastforce
  have ib: "inv3 b None l" by (rule clock_inv [OF inv b])
  show ?thesis
  proof (cases "e = None \<and> au_permit b \<noteq> None")
    case False
    with nil b have "\<exists>x. renew_start collectNil now a = (b, Inl x)"
      by (cases e; cases "au_permit b") (auto simp: renew_start_def require_permit [OF ib])
    with ib show ?thesis by (auto simp: begun_def)
  next
    case True
    then obtain p where p: "au_permit b = Some p" by blast
    obtain c ch where c: "makeChallengesLocked (au_lastClock b) (pm_evidenceVersion p)
        (pm_readerCoverageThrough p, pm_collectorCoverageThrough p) b = (c, ch)" by (metis surj_pair)
    show ?thesis
    proof (cases "fg_allowRenewal (au_grant b)")
      case False
      with nil b True p have "renew_start collectNil now a = apsnd Inl (failRenewalLocked reasonFixtureGrant None b)"
        by (simp add: renew_start_def require_permit [OF ib])
      with fail_renewal_inv [OF ib, of reasonFixtureGrant None] show ?thesis by (simp add: begun_def)
    next
      case allowed: True
      have "renew_start collectNil now a = (c, Inr \<lparr>rn_start = au_lastClock b, rn_previous = Some p,
          rn_snapshot = snapshotLocked b, rn_challenges = ch\<rparr>)"
        using nil b True p allowed c by (simp add: renew_start_def require_permit [OF ib] Let_def)
      with challenges_inv [OF ib c] p show ?thesis by (simp add: begun_def inv3_iff gate_ok_def)
    qed
  qed
qed

text \<open>What accepted evidence says.\<close>

lemma evidence_accepted:
  assumes "first_error (evidence_checks account r lastObserved now checkpoint ev ch) = None"
  shows "ev_coverageFrom ev = (case checkpoint of None \<Rightarrow> ch_acquisitionStarted ch | Some c \<Rightarrow> c)"
    "ev_coverageFrom ev \<le> ev_coverageThrough ev" "ev_coverageThrough ev = ev_observedAt ev" "ev_observedAt ev \<le> now"
    "list_all (\<lambda>d. now < d) (deadlines ev)" "ownerBindingEqual (ev_owner ev) (ch_owner ch)" "ev_role ev = r"
    "ev_challengeID ev = ch_id ch" "ev_accountID ev = account" "ev_authenticated ev" "\<not> ev_coverageGap ev"
proof -
  have ok: "\<not> fst c" if "c \<in> set (evidence_checks account r lastObserved now checkpoint ev ch)" for c
    using assms that by (simp add: first_error_None)
  note o = ok [unfolded evidence_checks_def]
  show "ev_coverageFrom ev = (case checkpoint of None \<Rightarrow> ch_acquisitionStarted ch | Some c \<Rightarrow> c)"
    using o [of "(case checkpoint of
         None \<Rightarrow> ev_coverageFrom ev \<noteq> ch_acquisitionStarted ch
       | Some c \<Rightarrow> ev_coverageFrom ev \<noteq> c \<or> ev_coverageFrom ev \<noteq> ch_previousCoverage ch, reasonCoverageGap)"]
    by (simp split: option.splits)
  show "ev_coverageFrom ev \<le> ev_coverageThrough ev" "ev_coverageThrough ev = ev_observedAt ev"
    using o [of "(ev_coverageFrom ev = 0 \<or> ev_coverageThrough ev \<noteq> ev_observedAt ev \<or>
        ev_coverageFrom ev > ev_coverageThrough ev, reasonCoverageGap)"] by simp_all
  show "ev_observedAt ev \<le> now"
    using o [of "(ev_observedAt ev = 0 \<or> ev_observedAt ev < ch_acquisitionStarted ch \<or> ev_observedAt ev > now \<or>
       lastObserved \<noteq> 0 \<and> ev_observedAt ev < lastObserved, reasonInvalidEvidence)"] by simp
  show "list_all (\<lambda>d. now < d) (deadlines ev)"
    using o [of "(\<not> deadlineAfter (ev_authValidUntil ev) now \<or> \<not> deadlineAfter (ev_identityValidUntil ev) now \<or>
       \<not> deadlineAfter (ev_coverageValidUntil ev) now \<or> \<not> deadlineAfter (ev_providerValidUntil ev) now,
       reasonEvidenceExpired)"] by (simp add: deadlines_def deadlineAfter_def)
  show "ownerBindingEqual (ev_owner ev) (ch_owner ch)"
    using o [of "(\<not> ownerBindingEqual (ev_owner ev) (ch_owner ch), reasonOwnerDrift)"] by simp
  show "ev_role ev = r" using o [of "(ev_role ev \<noteq> r \<or> ch_role ch \<noteq> r, reasonInvalidEvidence)"] by simp
  show "ev_challengeID ev = ch_id ch"
    using o [of "(ev_instanceID ev \<noteq> ch_instanceID ch \<or> ev_challengeID ev \<noteq> ch_id ch \<or> ev_vectorID ev \<noteq> ch_vectorID ch \<or>
       ev_acquisitionStarted ev = 0 \<or> ev_acquisitionStarted ev \<noteq> ch_acquisitionStarted ch, reasonInvalidEvidence)"] by simp
  show "ev_accountID ev = account"
    using o [of "(ev_identity ev \<noteq> fixtureIdentity \<or> ev_accountID ev \<noteq> account, reasonUnknownIdentity)"] by simp
  show "ev_authenticated ev"
    using o [of "(\<not> ev_authenticated ev \<or> ev_authentication ev \<noteq> fixtureAuthentication, reasonUnknownAuth)"] by simp
  show "\<not> ev_coverageGap ev"
    using o [of "(ev_coverageGap ev \<or> \<not> ev_coverageContinuous ev, reasonCoverageGap)"] by simp
qed

lemma vector_accepted:
  assumes "validateVectorLocked a v ch now cps = None"
  shows "first_error (evidence_checks (en_accountID (cf_enrollment (au_config a))) readerRole 0 now (map_option fst cps)
      (fst v) (fst ch)) = None"
    "first_error (evidence_checks (en_accountID (cf_enrollment (au_config a))) collectorRole (ev_observedAt (fst v)) now
      (map_option snd cps) (snd v) (snd ch)) = None"
  using assms by (auto simp: validateVectorLocked_def Let_def split: option.splits)

lemma fold_min_le: "fold (\<lambda>c d. if c < d then c else d) cs (d :: int) \<le> d \<and>
  (\<forall>c \<in> set cs. fold (\<lambda>c d. if c < d then c else d) cs d \<le> c)"
proof (induction cs arbitrary: d)
  case (Cons c cs)
  let ?d = "if c < d then c else d"
  from Cons [of ?d] show ?case by auto
qed simp

lemma earliest_le:
  "earliestDeadline t evs \<le> t" "ev \<in> set evs \<Longrightarrow> d \<in> set (deadlines ev) \<Longrightarrow> earliestDeadline t evs \<le> d"
  using fold_min_le [of "concat (map deadlines evs)" t] by (auto simp: earliestDeadline_def)

lemma publish_first_inv:
  assumes inv: "inv3 a (Some r) l" and r: "rn_previous r = None"
    and cur: "\<not> au_revoked a" "cf_policyEnabled (au_config a)" "au_lastClock a < t"
    and rev: "ev_sessionRevision (fst v) = dr_readerRevision (the (au_derivation a))"
      "ev_sessionRevision (snd v) = dr_collectorRevision (the (au_derivation a))"
  shows "inv3 (publish_first t v a) None l"
proof -
  from inv have parts: "closing_ok a" "tickets_ok a" "log_ok a l" and gate: "gate_ok a (Some r)"
    by (simp_all add: inv3_iff)
  from gate r have zero: "au_versionCounter a = 0" and d: "au_derivation a \<noteq> None" by (simp_all add: gate_ok_def)
  have "tickets_ok (publish_first t v a)"
    using parts(2) zero by (auto simp: publish_first_def tickets_ok_def ticket_bound_def)
  moreover have "v = 0" if "v < 1" for v :: "64 word" using that by (simp add: word_less_nat_alt unat_eq_0)
  then have "chain_ok (publish_first t v a)" using d by (auto simp: publish_first_def chain_ok_def)
  moreover have "permit_ok (publish_first t v a)"
    using cur rev d by (auto simp: publish_first_def permit_ok_def permit_current_def ownerEqual_def)
  moreover have "closing_ok (publish_first t v a)" using parts(1) cur(1) by (simp add: publish_first_def closing_ok_def)
  moreover have "log_ok (publish_first t v a) l" using parts(3) by (simp add: publish_first_def log_ok_def)
  ultimately show ?thesis by (simp add: inv3_iff gate_ok_def)
qed

lemma errorReason_reason [simp]: "f \<noteq> noReason \<Longrightarrow> errorReason e f \<noteq> noReason"
  by (auto simp: errorReason_def split: option.splits)

lemma collectionErrorReason_reason [simp]: "collectionErrorReason e \<noteq> noReason"
  by (simp add: collectionErrorReason_def)

text \<open>How \<open>authorize\<close> ends: refused and closed, or with the first permit.\<close>

lemma authorize_finish_cases:
  assumes inv: "inv3 a (Some r) l" and eq: "authorize_finish q now r a = (b, e)"
  obtains (failed) "e \<noteq> None" "inv3 b None l"
    | (published) v t c where "e = None" "collectVectorBounded q (rn_challenges r) = Inr v" "c = a\<lparr>au_lastClock := now\<rparr>"
      "inv3 c (Some r) l" "snapshotCurrentLocked (rn_snapshot r) c" "validateVectorLocked c v (rn_challenges r) now None = None"
      "now - rn_start r < maximumBindingAge" "t = earliestDeadline (rn_start r + maximumEvidenceAge) [fst v, snd v]" "now < t"
      "ev_sessionRevision (fst v) = dr_readerRevision (the (au_derivation c))"
      "ev_sessionRevision (snd v) = dr_collectorRevision (the (au_derivation c))" "b = publish_first t v c"
proof (cases "collectVectorBounded q (rn_challenges r)")
  case (Inl x)
  with eq have "(b, e) = failInitialLocked (collectionErrorReason x) (Some x) a" by (simp add: authorize_finish_def)
  with fail_initial_inv [OF free_slot [OF inv], of "collectionErrorReason x" "Some x"] show ?thesis
    by (intro failed) (auto simp: failInitialLocked_def)
next
  case (Inr v)
  note v = this
  show ?thesis
  proof (cases "aq_context q")
    case (Some x)
    with v eq have "(b, e) = failInitialLocked reasonContextCancelled (Some x) a" by (simp add: authorize_finish_def)
    with fail_initial_inv [OF free_slot [OF inv], of reasonContextCancelled "Some x"] show ?thesis
      by (intro failed) (auto simp: failInitialLocked_def)
  next
    case ctx: None
    obtain c ce where c: "readClockLocked now a = (c, ce)" by fastforce
    have ic: "inv3 c (Some r) l" by (rule clock_inv [OF inv c])
    note closed = fail_initial_inv [OF free_slot [OF ic]]
    show ?thesis
    proof (cases ce)
      case (Some x)
      with v ctx c eq have "b = c" "e = Some x" by (simp_all add: authorize_finish_def)
      with free_slot [OF ic] show ?thesis by (intro failed) simp_all
    next
      case None
      then have now: "c = a\<lparr>au_lastClock := now\<rparr>" using c by (auto elim: clock_cases)
      have step: "(b, e) =
          (if \<not> snapshotCurrentLocked (rn_snapshot r) c then failInitialLocked reasonConcurrentInvalid None c
           else case validateVectorLocked c v (rn_challenges r) now None of
             Some e \<Rightarrow> failInitialLocked (errorReason (Some (authError e)) reasonInvalidEvidence) (Some (authError e)) c
           | None \<Rightarrow>
               if now - rn_start r \<ge> maximumBindingAge then failInitialLocked reasonBindingDeadline None c
               else if now - rn_start r \<ge> maximumEvidenceAge then failInitialLocked reasonEvidenceExpired None c
               else if ev_sessionRevision (fst v) \<noteq> dr_readerRevision (the (au_derivation c)) \<or>
                       ev_sessionRevision (snd v) \<noteq> dr_collectorRevision (the (au_derivation c))
               then failInitialLocked reasonSessionChanged None c
               else
                 let expiresAt = earliestDeadline (rn_start r + maximumEvidenceAge) [fst v, snd v]
                 in if \<not> now < expiresAt then failInitialLocked reasonEvidenceExpired None c
                    else (publish_first expiresAt v c, None))"
        using eq v ctx c None by (simp add: authorize_finish_def)
      show ?thesis
      proof (cases "e = None")
        case True
        with step now ic v show ?thesis
          by (intro published [of v c "earliestDeadline (rn_start r + maximumEvidenceAge) [fst v, snd v]"])
            (simp_all add: failInitialLocked_def Let_def split: if_splits option.splits)
      next
        case False
        with step obtain reason cause where "(b, e) = failInitialLocked reason cause c" "reason \<noteq> noReason"
          by (auto simp: Let_def split: if_splits option.splits)
        with closed False show ?thesis by (metis failed fst_conv)
      qed
    qed
  qed
qed

lemma authorize_finish_inv:
  assumes inv: "inv3 a (Some r) l" and r: "rn_previous r = None"
  shows "inv3 (fst (authorize_finish q now r a)) None l"
proof -
  obtain b e where b: "authorize_finish q now r a = (b, e)" by fastforce
  from inv b show ?thesis
  proof (cases rule: authorize_finish_cases)
    case failed
    with b show ?thesis by simp
  next
    case (published v t c)
    then have "\<not> au_revoked c" by (simp add: snapshotCurrentLocked_def)
    moreover have "cf_policyEnabled (au_config c)"
      using published(4,5) r by (simp add: snapshotCurrentLocked_def inv3_iff gate_ok_def)
    ultimately show ?thesis
      using publish_first_inv [OF published(4) r] published b by simp
  qed
qed

lemma publish_next_inv:
  assumes inv: "inv3 a (Some r) l" and r: "rn_previous r = Some previous" and p: "au_permit a = Some p"
    and now: "au_lastClock a < t" and up: "\<not> pm_evidenceVersion previous + 1 \<le> pm_evidenceVersion previous"
    and cov: "ev_coverageFrom (fst v) = pm_readerCoverageThrough previous" "ev_coverageFrom (snd v) = pm_collectorCoverageThrough previous"
      "ev_coverageFrom (fst v) \<le> ev_coverageThrough (fst v)" "ev_coverageFrom (snd v) \<le> ev_coverageThrough (snd v)"
  shows "inv3 (publish_next previous t v a) None l"
proof -
  let ?b = "publish_next previous t v a" and ?f = "pm_evidenceVersion previous"
  from inv have parts: "permit_ok a" "closing_ok a" "chain_ok a" "tickets_ok a" "log_ok a l" "gate_ok a (Some r)"
    by (simp_all add: inv3_iff)
  have same: "p = previous\<lparr>pm_readerOwner := pm_readerOwner p\<rparr>" using parts(6) r p by (simp add: gate_ok_def)
  have eqs: "pm_evidenceVersion previous = pm_evidenceVersion p" "pm_readerRevision previous = pm_readerRevision p"
    "pm_collectorRevision previous = pm_collectorRevision p" "pm_collectorOwner previous = pm_collectorOwner p"
    "pm_readerCoverageThrough previous = pm_readerCoverageThrough p"
    "pm_collectorCoverageThrough previous = pm_collectorCoverageThrough p"
    "pm_pairGeneration previous = pm_pairGeneration p" "pm_fence previous = pm_fence p"
    by (simp_all add: arg_cong [OF same, of pm_evidenceVersion] arg_cong [OF same, of pm_readerRevision]
        arg_cong [OF same, of pm_collectorRevision] arg_cong [OF same, of pm_collectorOwner]
        arg_cong [OF same, of pm_readerCoverageThrough] arg_cong [OF same, of pm_collectorCoverageThrough]
        arg_cong [OF same, of pm_pairGeneration] arg_cong [OF same, of pm_fence])
  have cur: "permit_current a p" using parts(1) p by (simp add: permit_ok_def)
  then have vers: "?f = au_versionCounter a" "au_versionCounter a \<noteq> 0" using eqs by (simp_all add: permit_current_def)
  obtain d where d: "au_derivation a = Some d" "pm_readerRevision p = dr_readerRevision d"
    "pm_collectorRevision p = dr_collectorRevision d"
    using cur by (auto simp: permit_current_def split: option.splits)
  have rise: "?f < ?f + 1" using up by simp
  have "permit_ok ?b"
    using cur now d rise vers unfolding permit_ok_def permit_current_def publish_next_def
    by (auto simp: Let_def eqs ownerEqual_def)
  moreover have "closing_ok ?b" using parts(2) p by (auto simp: closing_ok_def publish_next_def Let_def)
  moreover have "log_ok ?b l" using parts(5) by (simp add: log_ok_def publish_next_def Let_def)
  moreover have "tickets_ok ?b"
    using parts(4) rise vers by (auto simp: tickets_ok_def ticket_bound_def publish_next_def Let_def)
  moreover have "chain_ok ?b"
  proof -
    have "\<exists>l c n. au_renewalLinks ?b w = Some l \<and> au_versionCoverage ?b w = Some c \<and>
        au_versionCoverage ?b (w + 1) = Some n \<and> link_fits ?b d w l c n" if w: "w \<noteq> 0" "w < ?f + 1" for w
    proof (cases "w = ?f")
      case True
      have "au_versionCoverage a ?f = Some (pm_readerCoverageThrough p, pm_collectorCoverageThrough p)"
        using cur vers(1) by (simp add: permit_current_def)
      moreover have "?f \<noteq> ?f + 1" using rise by (metis less_irrefl)
      ultimately show ?thesis using True cov cur d
        by (simp add: publish_next_def Let_def link_fits_def eqs permit_current_def)
    next
      case False
      then have less: "w < ?f" using w(2) rise by (metis word_le_less_eq inc_le linorder_not_less)
      with parts(3) w(1) vers d obtain lk c n where old: "au_renewalLinks a w = Some lk" "au_versionCoverage a w = Some c"
        "au_versionCoverage a (w + 1) = Some n" "link_fits a d w lk c n" by (auto simp: chain_ok_def)
      have "w \<noteq> ?f + 1" "w + 1 \<noteq> ?f + 1" using less rise False by auto
      with old False show ?thesis by (simp add: publish_next_def Let_def link_fits_def)
    qed
    then show ?thesis unfolding chain_ok_def using d by (auto simp: publish_next_def Let_def)
  qed
  ultimately show ?thesis by (simp add: inv3_iff gate_ok_def)
qed

text \<open>How \<open>renewValidated\<close> ends.\<close>

lemma renew_finish_cases:
  assumes inv: "inv3 a (Some r) l" and eq: "renew_finish q valid now r previous a = (b, e)"
  obtains (failed) "e \<noteq> None" "inv3 b None l"
    | (published) v t c p where "e = None" "collectVectorBounded q (rn_challenges r) = Inr v" "c = a\<lparr>au_lastClock := now\<rparr>"
      "inv3 c (Some r) l" "snapshotCurrentLocked (rn_snapshot r) c" "au_permit c = Some p" "samePermitPredecessor p previous"
      "now < pm_expiresAt previous"
      "validateVectorLocked c v (rn_challenges r) now
         (Some (pm_readerCoverageThrough previous, pm_collectorCoverageThrough previous)) = None"
      "now - rn_start r < maximumBindingAge" "t = earliestDeadline (rn_start r + maximumEvidenceAge) [fst v, snd v]" "now < t"
      "ev_sessionRevision (fst v) = pm_readerRevision previous" "ev_sessionRevision (snd v) = pm_collectorRevision previous"
      "\<not> pm_evidenceVersion previous + 1 \<le> pm_evidenceVersion previous" "b = publish_next previous t v c"
proof (cases "collectVectorBounded q (rn_challenges r)")
  case (Inl x)
  with eq have "(b, e) = failRenewalLocked (collectionErrorReason x) (Some x) a" by (simp add: renew_finish_def)
  with fail_renewal_inv [OF free_slot [OF inv], of "collectionErrorReason x" "Some x"] show ?thesis
    by (intro failed) (auto simp: failRenewalLocked_def split: if_splits)
next
  case (Inr v)
  note v = this
  show ?thesis
  proof (cases "case aq_context q of Some x \<Rightarrow> Some (reasonContextCancelled, x) | None \<Rightarrow> map_option (Pair reasonOwnerDrift) valid")
    case (Some x)
    with v eq have "(b, e) = failRenewalLocked (fst x) (Some (snd x)) a" "fst x \<noteq> noReason"
      by (auto simp: renew_finish_def split: option.splits)
    with fail_renewal_inv [OF free_slot [OF inv], of "fst x" "Some (snd x)"] show ?thesis
      by (intro failed) (auto simp: failRenewalLocked_def split: if_splits)
  next
    case None
    then have ctx: "aq_context q = None" "valid = None" by (auto split: option.splits)
    obtain c ce where c: "readClockLocked now a = (c, ce)" by fastforce
    have ic: "inv3 c (Some r) l" by (rule clock_inv [OF inv c])
    note closed = fail_renewal_inv [OF free_slot [OF ic]] and shut = revoke_inv_plain [OF free_slot [OF ic]]
    show ?thesis
    proof (cases ce)
      case (Some x)
      with v ctx c eq have "b = c" "e = Some x" by (simp_all add: renew_finish_def)
      with free_slot [OF ic] show ?thesis by (intro failed) simp_all
    next
      case None
      then have now: "c = a\<lparr>au_lastClock := now\<rparr>" using c by (auto elim: clock_cases)
      show ?thesis
      proof (cases "e = None")
        case True
        with eq v ctx c None obtain p where p: "au_permit c = Some p" "snapshotCurrentLocked (rn_snapshot r) c"
          "samePermitPredecessor p previous" "now < pm_expiresAt previous"
          "validateVectorLocked c v (rn_challenges r) now
             (Some (pm_readerCoverageThrough previous, pm_collectorCoverageThrough previous)) = None"
          "now - rn_start r < maximumBindingAge" "now < earliestDeadline (rn_start r + maximumEvidenceAge) [fst v, snd v]"
          "ev_sessionRevision (fst v) = pm_readerRevision previous" "ev_sessionRevision (snd v) = pm_collectorRevision previous"
          "\<not> pm_evidenceVersion previous + 1 \<le> pm_evidenceVersion previous"
          "b = publish_next previous (earliestDeadline (rn_start r + maximumEvidenceAge) [fst v, snd v]) v c"
          unfolding renew_finish_def
          by (simp add: failRenewalLocked_def Let_def split: if_splits option.splits)
        show ?thesis by (rule published [OF True v now ic p(2,1,3,4,5,6) refl p(7,8,9,10,11)])
      next
        case False
        have "(\<exists>reason cause. reason \<noteq> noReason \<and> failRenewalLocked reason cause c = (b, e)) \<or> c = b \<or>
            (\<exists>reason. reason \<noteq> noReason \<and> revokeLocked reason c = b)"
        proof (cases "snapshotCurrentLocked (rn_snapshot r) c \<and> au_permit c \<noteq> None \<and> validateVectorLocked c v (rn_challenges r) now
            (Some (pm_readerCoverageThrough previous, pm_collectorCoverageThrough previous)) \<noteq> None")
          case True
          then obtain x where "validateVectorLocked c v (rn_challenges r) now
            (Some (pm_readerCoverageThrough previous, pm_collectorCoverageThrough previous)) = Some x" by blast
          with True eq v ctx c None show ?thesis unfolding renew_finish_def
            by (auto simp: Let_def split: if_splits
                intro: exI [of _ "errorReason (Some (authError x)) reasonRenewalFailed"] exI [of _ reasonEvidenceExpired])
        next
          case cut: False
          with eq v ctx c None False show ?thesis unfolding renew_finish_def
            by (auto simp: Let_def split: if_splits option.splits)
        qed
        with closed shut free_slot [OF ic] False show ?thesis by (metis failed fst_conv)
      qed
    qed
  qed
qed

lemma renew_finish_inv:
  assumes inv: "inv3 a (Some r) l" and r: "rn_previous r = Some previous"
  shows "inv3 (fst (renew_finish q valid now r previous a)) None l"
proof -
  obtain b e where b: "renew_finish q valid now r previous a = (b, e)" by fastforce
  from inv b show ?thesis
  proof (cases rule: renew_finish_cases)
    case failed
    with b show ?thesis by simp
  next
    case (published v t c p)
    note one = evidence_accepted [OF vector_accepted(1) [OF published(9)]]
    note two = evidence_accepted [OF vector_accepted(2) [OF published(9)]]
    have "inv3 (publish_next previous t v c) None l"
      by (rule publish_next_inv [OF published(4) r published(6) _ published(15)])
        (use one(1,2) two(1,2) published in simp_all)
    with published b show ?thesis by simp
  qed
qed

text \<open>What \<open>ticketRecordLocked\<close> finds.\<close>

lemma ticket_found:
  assumes "ticketRecordLocked t a = Some x"
  shows "(wt_ticketID t, x) \<in> set (au_tickets a)" "tr_ticket x = t"
  using assms by (auto simp: ticketRecordLocked_def split: if_splits option.splits dest: map_of_SomeD)

lemma dispatch_cases:
  assumes inv: "inv3 a g l" and eq: "dispatch lc command now a = (b, x)"
  obtains (refused) err where "x = Inl err" "inv3 b g l"
    | (accepted) c p t where "x = Inr t" "c = a\<lparr>au_lastClock := now\<rparr>" "inv3 c g l" "au_permit c = Some p"
      "now < pm_expiresAt p" "\<not> ticketExistsForCommand (au_tickets c) (wc_id command)"
      "acquireCoverageBarrierLocked lc now c" "wt_ticketID t = ticket_name (length (au_tickets c) + 1)"
      "wt_commandID t = wc_id command" "wt_instanceID t = au_instanceID c" "wt_evidenceVersion t = pm_evidenceVersion p"
      "wt_pairID t = pi_id (cf_pair (au_config c))" "wt_pairGeneration t = pi_generation (cf_pair (au_config c))"
      "wt_fence t = au_fence c" "wt_collectorOwnerID t = po_ownerID (cf_collector (au_config c))" "wt_dispatchAt t = now"
      "b = c\<lparr>au_tickets := au_tickets c @ [(wt_ticketID t, \<lparr>tr_ticket = t, tr_status = workPending\<rparr>)]\<rparr>"
proof -
  obtain c y where c: "enter now a = (c, y)" by fastforce
  from inv c show ?thesis
  proof (cases rule: enter_cases)
    case (refused err)
    with c eq show ?thesis by (intro that(1) [of err]) (simp_all add: dispatch_def)
  next
    case (entered p)
    show ?thesis
    proof (cases x)
      case (Inl err)
      with entered c eq have "b = c" by (auto simp: dispatch_def Let_def split: if_splits option.splits)
      with Inl entered show ?thesis by (intro that(1) [of err]) simp_all
    next
      case (Inr t)
      with entered c eq have t: "t = \<lparr>wt_instanceID = au_instanceID c, wt_ticketID = ticket_name (length (au_tickets c) + 1),
          wt_commandID = wc_id command, wt_scope = wc_scope command, wt_source = wc_source command,
          wt_operation = wc_operation command, wt_evidenceVersion = pm_evidenceVersion p,
          wt_pairID = pi_id (cf_pair (au_config c)), wt_pairGeneration = pi_generation (cf_pair (au_config c)),
          wt_fence = au_fence c, wt_collectorOwnerID = po_ownerID (cf_collector (au_config c)), wt_dispatchAt = au_lastClock c\<rparr>"
        and rest: "\<not> ticketExistsForCommand (au_tickets c) (wc_id command)" "acquireCoverageBarrierLocked lc (au_lastClock c) c"
        "b = c\<lparr>au_tickets := au_tickets c @ [(wt_ticketID t, \<lparr>tr_ticket = t, tr_status = workPending\<rparr>)]\<rparr>"
        unfolding dispatch_def ticket_name_def by (auto simp: Let_def split: if_splits option.splits)
      have "au_lastClock c = now" "au_permit c = Some p" using entered by simp_all
      with Inr entered rest show ?thesis by (intro that(2) [of t c p]) (simp_all add: t)
    qed
  qed
qed

lemma dispatch_inv:
  assumes inv: "inv3 a g l"
  shows "inv3 (fst (dispatch lc command now a)) g l"
proof -
  obtain b x where b: "dispatch lc command now a = (b, x)" by fastforce
  from inv b show ?thesis
  proof (cases rule: dispatch_cases)
    case (refused err)
    with b show ?thesis by simp
  next
    case (accepted c p t)
    let ?x = "\<lparr>tr_ticket = t, tr_status = workPending\<rparr>"
    from accepted(3) have parts: "permit_ok c" "closing_ok c" "chain_ok c" "tickets_ok c" "log_ok c l" "gate_ok c g"
      by (simp_all add: inv3_iff)
    have cur: "permit_current c p" using parts(1) accepted(4) by (simp add: permit_ok_def)
    have fence: "au_fence c = 1" using parts(2) cur by (simp add: closing_ok_def permit_current_def)
    have fresh: "wc_id command \<notin> (\<lambda>x. wt_commandID (tr_ticket (snd x))) ` set (au_tickets c)"
      using accepted(6) by (auto simp: ticketExistsForCommand_def list_ex_iff)
    have "tickets_ok b" using parts(4) accepted cur fence fresh
      unfolding tickets_ok_def ticket_bound_def by (simp add: permit_current_def upt_Suc_append del: upt_Suc)
    moreover have "permit_ok b" "chain_ok b" "gate_ok b g" "closing_ok b"
      using parts(1,2,3,6) cur by (simp_all add: accepted permit_ok_def permit_current_def chain_ok_def link_fits_def gate_ok_def closing_ok_def)
    moreover have "log_ok b l" using parts(5) unfolding accepted log_ok_def by auto
    ultimately show ?thesis using b by (simp add: inv3_iff)
  qed
qed

lemma claim_cases:
  assumes inv: "inv3 a g l" and eq: "claimWithCommit lc commit t now a = (b, e)"
  obtains (refused) "e \<noteq> None" "inv3 b g l"
    | (accepted) c p x where "e = None" "c = a\<lparr>au_lastClock := now\<rparr>" "inv3 c g l" "au_permit c = Some p" "now < pm_expiresAt p"
      "acquireCoverageBarrierLocked lc now c" "ticketRecordLocked t c = Some x" "tr_status x = workPending"
      "validateChainLocked (wt_evidenceVersion t) (pm_evidenceVersion p) c = None"
      "b = c\<lparr>au_tickets := set_status (wt_ticketID t) workClaimed (au_tickets c), au_sideEffects := au_sideEffects c + 1\<rparr>"
proof -
  obtain c y where c: "enter now a = (c, y)" by fastforce
  from inv c show ?thesis
  proof (cases rule: enter_cases)
    case (refused err)
    with c eq show ?thesis by (intro that(1)) (auto simp: claimWithCommit_def)
  next
    case (entered p)
    show ?thesis
    proof (cases e)
      case (Some err)
      with entered c eq have "b = c" by (auto simp: claimWithCommit_def split: if_splits option.splits)
      with Some entered show ?thesis by (intro that(1)) simp_all
    next
      case None
      with entered c eq obtain x where x: "ticketRecordLocked t c = Some x" "tr_status x = workPending"
        "acquireCoverageBarrierLocked lc (au_lastClock c) c"
        "validateChainLocked (wt_evidenceVersion (tr_ticket x)) (pm_evidenceVersion p) c = None"
        "b = c\<lparr>au_tickets := set_status (wt_ticketID t) workClaimed (au_tickets c), au_sideEffects := au_sideEffects c + 1\<rparr>"
        unfolding claimWithCommit_def by (simp split: if_splits option.splits)
      have "au_lastClock c = now" "au_permit c = Some p" using entered by simp_all
      with None entered x ticket_found(2) [OF x(1)] show ?thesis by (intro that(2) [of c p x]) simp_all
    qed
  qed
qed

text \<open>The entry of a ticket, when its status changes from one that keeps the log right.\<close>

lemma status_parts:
  assumes "inv3 c g l" "\<not> au_revoked c \<or> st \<noteq> workClaimed"
    "b = c\<lparr>au_tickets := set_status tid st (au_tickets c), au_memorySink := s, au_sideEffects := n\<rparr>"
  shows "permit_ok b \<and> chain_ok b \<and> gate_ok b g \<and> closing_ok b \<and> tickets_ok b"
proof -
  from assms(1) have parts: "permit_ok c" "closing_ok c" "chain_ok c" "tickets_ok c" "gate_ok c g" by (simp_all add: inv3_iff)
  have "tickets_ok b" using tickets_ok_status [OF parts(4), of tid st] by (simp add: assms(3) tickets_ok_def ticket_bound_def)
  moreover have "closing_ok b" using parts(2) assms(2) by (auto simp: assms(3) closing_ok_def set_set_status)
  ultimately show ?thesis using parts
    by (simp add: assms(3) permit_ok_def permit_current_def chain_ok_def link_fits_def gate_ok_def)
qed

lemma claim_inv:
  assumes inv: "inv3 a g l"
  shows "auth_inv (logged \<lparr>wo_auth = a, wo_gate = g, wo_log = l\<rparr> (Claimed t) (claimWithCommit lc commit t now a))"
proof -
  obtain b e where b: "claimWithCommit lc commit t now a = (b, e)" by fastforce
  from inv b show ?thesis
  proof (cases rule: claim_cases)
    case refused
    with b show ?thesis by (cases e) (simp_all add: logged_def)
  next
    case (accepted c p x)
    note entry = ticket_found [OF accepted(7)]
    from accepted(3) have tk: "tickets_ok c" and lg: "log_ok c l" by (simp_all add: inv3_iff)
    have "\<not> au_revoked c" using accepted(3,4) by (auto simp: inv3_iff permit_ok_def permit_current_def)
    then have parts: "permit_ok b \<and> chain_ok b \<and> gate_ok b g \<and> closing_ok b \<and> tickets_ok b"
      by (intro status_parts [OF accepted(3), where st = workClaimed and tid = "wt_ticketID t" and s = "au_memorySink c"
            and n = "au_sideEffects c + 1"]) (simp_all add: accepted)
    have only: "y = x" if "(wt_ticketID t, y) \<in> set (au_tickets c)" for y
      by (rule ticket_entry_unique [OF tk that entry(1)])
    have new: "t \<notin> set (claims l)" using lg only accepted(8) unfolding log_ok_def by blast
    have kept: "\<exists>y. (wt_ticketID u, y) \<in> set (au_tickets b) \<and> tr_ticket y = u \<and> tr_status y \<noteq> workPending"
      if u: "u \<in> set (claims l) \<or> u = t" for u
    proof -
      obtain y where "(wt_ticketID u, y) \<in> set (au_tickets c)" "tr_ticket y = u" "u = t \<or> tr_status y \<noteq> workPending"
        using u lg entry unfolding log_ok_def by blast
      then show ?thesis unfolding accepted(10)
        by (intro exI [of _ "if wt_ticketID u = wt_ticketID t then y\<lparr>tr_status := workClaimed\<rparr> else y"])
          (auto simp: in_set_status)
    qed
    have fini: "\<exists>y. (fst k, y) \<in> set (au_tickets b) \<and> tr_status y = workCompleted" if k: "k \<in> set (commits l)" for k
    proof -
      obtain y where y: "(fst k, y) \<in> set (au_tickets c)" "tr_status y = workCompleted" using k lg unfolding log_ok_def by blast
      then have "fst k \<noteq> wt_ticketID t" using only accepted(8) by force
      with y show ?thesis unfolding accepted(10) by (intro exI [of _ y]) (auto simp: in_set_status)
    qed
    have owned: "tr_ticket y \<in> set (claims l) \<or> tr_ticket y = t"
      if y: "(k, y) \<in> set (au_tickets b)" "tr_status y = workClaimed" for k y
    proof (cases "k = wt_ticketID t")
      case True
      then obtain z where "(wt_ticketID t, z) \<in> set (au_tickets c)" "tr_ticket y = tr_ticket z"
        using y(1) unfolding accepted(10) by (auto simp: in_set_status)
      with only [of z] entry(2) show ?thesis by simp
    next
      case False
      with y lg show ?thesis unfolding accepted(10) log_ok_def by (force simp: in_set_status)
    qed
    have "log_ok b (l @ [Claimed t])"
      unfolding log_ok_def
    proof (intro conjI ballI impI)
      show "au_memorySink b = commits (l @ [Claimed t])" "au_sideEffects b = of_nat (length (l @ [Claimed t]))"
        using lg by (simp_all add: accepted(10) log_ok_def)
      show "claim_first (l @ [Claimed t])" using lg by (simp add: claim_first_snoc log_ok_def)
      show "distinct (claims (l @ [Claimed t]))" "distinct (map fst (commits (l @ [Claimed t])))"
        using lg new by (simp_all add: log_ok_def)
      show "\<exists>y. (wt_ticketID u, y) \<in> set (au_tickets b) \<and> tr_ticket y = u \<and> tr_status y \<noteq> workPending"
        if "u \<in> set (claims (l @ [Claimed t]))" for u using that by (intro kept) auto
      show "\<exists>y. (fst k, y) \<in> set (au_tickets b) \<and> tr_status y = workCompleted" if "k \<in> set (commits (l @ [Claimed t]))" for k
        using that by (intro fini) simp
      show "tr_ticket (snd y) \<in> set (claims (l @ [Claimed t]))" if "y \<in> set (au_tickets b)" "tr_status (snd y) = workClaimed" for y
        using owned [of "fst y" "snd y"] that by auto
    qed
    with parts b accepted(1) show ?thesis by (simp add: logged_def auth_inv_def)
  qed
qed

lemma complete_cases:
  assumes inv: "inv3 a g l" and eq: "completeWithCommit lc commit t r now a = (b, e)"
  obtains (refused) "e \<noteq> None" "inv3 b g l"
    | (accepted) c p x where "e = None" "c = a\<lparr>au_lastClock := now\<rparr>" "inv3 c g l" "au_permit c = Some p" "now < pm_expiresAt p"
      "acquireCoverageBarrierLocked lc now c" "ticketRecordLocked t c = Some x" "tr_status x = workClaimed" "validResult r t"
      "wt_fence t = au_fence c" "validateChainLocked (wt_evidenceVersion t) (pm_evidenceVersion p) c = None"
      "map_of (au_memorySink c) (wt_ticketID t) = None"
      "b = c\<lparr>au_memorySink := au_memorySink c @ [(wt_ticketID t, r)],
             au_tickets := set_status (wt_ticketID t) workCompleted (au_tickets c), au_sideEffects := au_sideEffects c + 1\<rparr>"
proof -
  obtain c y where c: "enter now a = (c, y)" by fastforce
  from inv c show ?thesis
  proof (cases rule: enter_cases)
    case (refused err)
    with c eq show ?thesis by (intro that(1)) (auto simp: completeWithCommit_def)
  next
    case (entered p)
    show ?thesis
    proof (cases e)
      case (Some err)
      with entered c eq have "b = c" by (auto simp: completeWithCommit_def Let_def split: if_splits option.splits)
      with Some entered show ?thesis by (intro that(1)) simp_all
    next
      case None
      with entered c eq obtain x where x: "ticketRecordLocked t c = Some x" "tr_status x = workClaimed"
        "acquireCoverageBarrierLocked lc (au_lastClock c) c" "validResult r (tr_ticket x)" "wt_fence (tr_ticket x) = au_fence c"
        "validateChainLocked (wt_evidenceVersion (tr_ticket x)) (pm_evidenceVersion p) c = None"
        "map_of (au_memorySink c) (wt_ticketID (tr_ticket x)) = None"
        "b = c\<lparr>au_memorySink := au_memorySink c @ [(wt_ticketID (tr_ticket x), r)],
               au_tickets := set_status (wt_ticketID t) workCompleted (au_tickets c), au_sideEffects := au_sideEffects c + 1\<rparr>"
        unfolding completeWithCommit_def by (simp add: Let_def split: if_splits option.splits)
      have "au_lastClock c = now" "au_permit c = Some p" using entered by simp_all
      with None entered x ticket_found(2) [OF x(1)] show ?thesis by (intro that(2) [of c p x]) simp_all
    qed
  qed
qed

lemma complete_inv:
  assumes inv: "inv3 a g l"
  shows "auth_inv (logged \<lparr>wo_auth = a, wo_gate = g, wo_log = l\<rparr> (Committed t r) (completeWithCommit lc commit t r now a))"
proof -
  obtain b e where b: "completeWithCommit lc commit t r now a = (b, e)" by fastforce
  from inv b show ?thesis
  proof (cases rule: complete_cases)
    case refused
    with b show ?thesis by (cases e) (simp_all add: logged_def)
  next
    case (accepted c p x)
    note entry = ticket_found [OF accepted(7)]
    from accepted(3) have tk: "tickets_ok c" and lg: "log_ok c l" by (simp_all add: inv3_iff)
    have "\<not> au_revoked c" using accepted(3,4) by (auto simp: inv3_iff permit_ok_def permit_current_def)
    then have parts: "permit_ok b \<and> chain_ok b \<and> gate_ok b g \<and> closing_ok b \<and> tickets_ok b"
      by (intro status_parts [OF accepted(3), where st = workCompleted and tid = "wt_ticketID t"
            and s = "au_memorySink c @ [(wt_ticketID t, r)]" and n = "au_sideEffects c + 1"]) (simp_all add: accepted)
    have only: "y = x" if "(wt_ticketID t, y) \<in> set (au_tickets c)" for y
      by (rule ticket_entry_unique [OF tk that entry(1)])
    have claimed: "t \<in> set (claims l)" using lg entry accepted(8) unfolding log_ok_def by force
    have new: "wt_ticketID t \<notin> fst ` set (commits l)"
      using accepted(12) lg unfolding log_ok_def by (metis map_of_eq_None_iff)
    have kept: "\<exists>y. (wt_ticketID u, y) \<in> set (au_tickets b) \<and> tr_ticket y = u \<and> tr_status y \<noteq> workPending"
      if u: "u \<in> set (claims l)" for u
    proof -
      obtain y where "(wt_ticketID u, y) \<in> set (au_tickets c)" "tr_ticket y = u" "tr_status y \<noteq> workPending"
        using u lg unfolding log_ok_def by blast
      then show ?thesis unfolding accepted(13)
        by (intro exI [of _ "if wt_ticketID u = wt_ticketID t then y\<lparr>tr_status := workCompleted\<rparr> else y"])
          (auto simp: in_set_status)
    qed
    have fini: "\<exists>y. (k, y) \<in> set (au_tickets b) \<and> tr_status y = workCompleted" if k: "k \<in> fst ` set (commits l) \<or> k = wt_ticketID t" for k
    proof -
      obtain y where "(k, y) \<in> set (au_tickets c)" "k = wt_ticketID t \<or> tr_status y = workCompleted"
        using k lg entry unfolding log_ok_def by blast
      then show ?thesis unfolding accepted(13)
        by (intro exI [of _ "if k = wt_ticketID t then y\<lparr>tr_status := workCompleted\<rparr> else y"]) (auto simp: in_set_status)
    qed
    have owned: "tr_ticket y \<in> set (claims l)" if y: "(k, y) \<in> set (au_tickets b)" "tr_status y = workClaimed" for k y
    proof (cases "k = wt_ticketID t")
      case True
      with y show ?thesis unfolding accepted(13) by (auto simp: in_set_status)
    next
      case False
      with y lg show ?thesis unfolding accepted(13) log_ok_def by (force simp: in_set_status)
    qed
    have "log_ok b (l @ [Committed t r])"
      unfolding log_ok_def
    proof (intro conjI ballI impI)
      show "au_memorySink b = commits (l @ [Committed t r])" "au_sideEffects b = of_nat (length (l @ [Committed t r]))"
        using lg by (simp_all add: accepted(13) log_ok_def)
      show "claim_first (l @ [Committed t r])" using lg claimed accepted(9) by (simp add: claim_first_snoc log_ok_def)
      show "distinct (claims (l @ [Committed t r]))" "distinct (map fst (commits (l @ [Committed t r])))"
        using lg new by (simp_all add: log_ok_def)
      show "\<exists>y. (wt_ticketID u, y) \<in> set (au_tickets b) \<and> tr_ticket y = u \<and> tr_status y \<noteq> workPending"
        if "u \<in> set (claims (l @ [Committed t r]))" for u using that by (intro kept) simp
      show "\<exists>y. (fst k, y) \<in> set (au_tickets b) \<and> tr_status y = workCompleted" if "k \<in> set (commits (l @ [Committed t r]))" for k
        using that by (intro fini) auto
      show "tr_ticket (snd y) \<in> set (claims (l @ [Committed t r]))" if "y \<in> set (au_tickets b)" "tr_status (snd y) = workClaimed" for y
        using owned [of "fst y" "snd y"] that by auto
    qed
    with parts b accepted(1) show ?thesis by (simp add: logged_def auth_inv_def)
  qed
qed

lemma cancel_inv:
  assumes inv: "inv3 a g l"
  shows "inv3 (fst (cancelWithCommit commit t now a)) g l"
proof -
  obtain c ce where c: "readClockLocked now a = (c, ce)" by fastforce
  have ic: "inv3 c g l" by (rule clock_inv [OF inv c])
  obtain b e where b: "cancelWithCommit commit t now a = (b, e)" by fastforce
  show ?thesis
  proof (cases e)
    case (Some err)
    with b c have "b = c" by (auto simp: cancelWithCommit_def split: if_splits option.splits)
    with ic b show ?thesis by simp
  next
    case None
    with b c obtain x where x: "ticketRecordLocked t c = Some x" "tr_status x \<noteq> workCompleted" "tr_status x \<noteq> workCancelled"
      and eq: "b = c\<lparr>au_tickets := set_status (wt_ticketID t) workCancelled (au_tickets c)\<rparr>"
      by (auto simp: cancelWithCommit_def split: if_splits option.splits)
    note entry = ticket_found [OF x(1)]
    from ic have tk: "tickets_ok c" and lg: "log_ok c l" by (simp_all add: inv3_iff)
    have parts: "permit_ok b \<and> chain_ok b \<and> gate_ok b g \<and> closing_ok b \<and> tickets_ok b"
      by (rule status_parts [OF ic, where st = workCancelled and tid = "wt_ticketID t" and s = "au_memorySink c"
            and n = "au_sideEffects c"]) (simp_all add: eq)
    have only: "y = x" if "(wt_ticketID t, y) \<in> set (au_tickets c)" for y
      by (rule ticket_entry_unique [OF tk that entry(1)])
    have kept: "\<exists>y. (wt_ticketID u, y) \<in> set (au_tickets b) \<and> tr_ticket y = u \<and> tr_status y \<noteq> workPending"
      if u: "u \<in> set (claims l)" for u
    proof -
      obtain y where "(wt_ticketID u, y) \<in> set (au_tickets c)" "tr_ticket y = u" "tr_status y \<noteq> workPending"
        using u lg unfolding log_ok_def by blast
      then show ?thesis unfolding eq
        by (intro exI [of _ "if wt_ticketID u = wt_ticketID t then y\<lparr>tr_status := workCancelled\<rparr> else y"])
          (auto simp: in_set_status)
    qed
    have fini: "\<exists>y. (fst k, y) \<in> set (au_tickets b) \<and> tr_status y = workCompleted" if k: "k \<in> set (commits l)" for k
    proof -
      obtain y where y: "(fst k, y) \<in> set (au_tickets c)" "tr_status y = workCompleted" using k lg unfolding log_ok_def by blast
      then have "fst k \<noteq> wt_ticketID t" using only x by force
      with y show ?thesis unfolding eq by (intro exI [of _ y]) (auto simp: in_set_status)
    qed
    have "tr_ticket (snd y) \<in> set (claims l)" if y: "y \<in> set (au_tickets b)" "tr_status (snd y) = workClaimed" for y
      using y lg unfolding eq log_ok_def by (force simp: set_set_status split: if_splits)
    with kept fini lg have "log_ok b l" by (simp add: log_ok_def eq)
    with parts b show ?thesis by (simp add: inv3_iff)
  qed
qed

lemma check_inv:
  assumes inv: "inv3 a g l"
  shows "inv3 (fst (check lc now a)) g l"
proof -
  obtain c ce where c: "readClockLocked now a = (c, ce)" by fastforce
  have ic: "inv3 c g l" by (rule clock_inv [OF inv c])
  have "fst (check lc now a) = c \<or> fst (check lc now a) = revokeLocked reasonCoverageGap c"
    using c by (auto simp: check_def require_permit [OF ic] split: option.splits)
  with ic revoke_inv_plain [OF ic] show ?thesis by (metis authorizationReason.distinct(21))
qed

lemma windows_inv:
  assumes inv: "inv3 a g l"
  shows "inv3 (fst (updateReaderWindows ws now a)) g l"
proof -
  obtain c ce where c: "readClockLocked now a = (c, ce)" by fastforce
  have ic: "inv3 c g l" by (rule clock_inv [OF inv c])
  let ?reader = "(cf_reader (au_config c))\<lparr>po_windowInventory := ws\<rparr>"
  let ?d = "c\<lparr>au_config := (au_config c)\<lparr>cf_reader := ?reader\<rparr>,
              au_permit := map_option (\<lambda>p. p\<lparr>pm_readerOwner := ?reader\<rparr>) (au_permit c)\<rparr>"
  from ic have parts: "permit_ok c" "closing_ok c" "chain_ok c" "tickets_ok c" "log_ok c l" "gate_ok c g"
    by (simp_all add: inv3_iff)
  have "permit_ok ?d"
    unfolding permit_ok_def
  proof (intro allI impI)
    fix q
    assume "au_permit ?d = Some q"
    then obtain p where p: "au_permit c = Some p" "q = p\<lparr>pm_readerOwner := ?reader\<rparr>" by (cases "au_permit c") simp_all
    then have "permit_current c p" using parts(1) by (simp add: permit_ok_def)
    then show "permit_current ?d q" unfolding p(2) permit_current_def
      by (cases "au_derivation c") (simp_all add: ownerEqual_def)
  qed
  moreover have "closing_ok ?d" "chain_ok ?d" "tickets_ok ?d" "log_ok ?d l"
    using parts by (simp_all add: closing_ok_def chain_ok_def link_fits_def tickets_ok_def ticket_bound_def log_ok_def)
  moreover have "gate_ok ?d g"
  proof (cases "\<exists>r. g = Some r \<and> rn_previous r = None")
    case True
    with parts(6) show ?thesis by (auto simp: gate_ok_def)
  next
    case False
    have "p\<lparr>pm_readerOwner := x\<rparr> = previous\<lparr>pm_readerOwner := x\<rparr>"
      if "p = previous\<lparr>pm_readerOwner := pm_readerOwner p\<rparr>" for p previous x
      using that by (metis permit.surjective permit.update_convs(7))
    with False parts(6) show ?thesis by (auto simp: gate_ok_def)
  qed
  ultimately have "inv3 ?d g l" by (simp add: inv3_iff)
  moreover have "fst (updateReaderWindows ws now a) \<in> {c, revokeLocked reasonReaderLost c, ?d}"
    using c by (auto simp: updateReaderWindows_def Let_def split: option.splits)
  ultimately show ?thesis using ic revoke_inv_plain [OF ic, of reasonReaderLost] by auto
qed

lemma finish_inv: "inv3 a (Some r) l \<Longrightarrow> inv3 (fst (finish q valid now r a)) None l"
  by (cases "rn_previous r") (simp_all add: finish_def authorize_finish_inv renew_finish_inv)

lemma optOut_inv: "inv3 a g l \<Longrightarrow> inv3 (optOut a) g l"
  using revoke_inv [of a g l reasonOptedOut "(au_config a)\<lparr>cf_policyEnabled := False\<rparr>" "au_lastClock a"]
  by (simp add: optOut_def)

lemma policyChanged_inv: "inv3 a g l \<Longrightarrow> inv3 (policyChanged p h b a) g l"
  using revoke_inv [of a g l reasonPolicyChanged "(au_config a)\<lparr>cf_enrollment := (cf_enrollment (au_config a))\<lparr>en_policyGeneration := p,
      en_holdGeneration := h\<rparr>, cf_policyEnabled := b\<rparr>" "au_lastClock a"]
  by (simp add: policyChanged_def Let_def)

lemma view_inv: "inv3 a g l \<Longrightarrow> inv3 (fst (view_authority now a)) g l"
  using clock_inv [of a g l now "fst (readClockLocked now a)" "snd (readClockLocked now a)"]
  by (simp add: view_authority_def Let_def)

lemmas operation_invs = derive_inv dispatch_inv cancel_inv check_inv windows_inv optOut_inv policyChanged_inv view_inv
  authorize_start_inv renew_start_inv finish_inv claim_inv complete_inv

lemma inv_step:
  assumes "auth_inv w" "auth_exec e w = Some v"
  shows "auth_inv v"
proof -
  obtain a g l where w: "w = \<lparr>wo_auth = a, wo_gate = g, wo_log = l\<rparr>" by (cases w) simp
  note i = assms(1) [unfolded w]
  have r: "inv3 (revoke a) g l" "inv3 (readerLost a) g l"
    using revoke_inv_plain [OF i] by (simp_all add: revoke_def readerLost_def)
  have o: "inv3 (fst (ownerDrift x a)) g l" for x using i revoke_inv_plain [OF i] by (simp add: ownerDrift_def)
  from assms(2) show ?thesis unfolding w
    by (cases e) (use i r o in \<open>auto simp: operation_invs split: if_splits option.splits\<close>)
qed

interpretation authority: safe_machine auth_start auth_step auth_inv
  by unfold_locales (auto simp: auth_step_def inv_start inv_step)

subsection \<open>Permits\<close>

text \<open>C24. In every interleaving a permit stands for the current authority: admission is open and
  enabled, the permit has not expired on the clock, it carries the current fence, generation and
  version, it names the pinned reader and collector, its revisions are those of the derivation that
  seeded the pair, and it records the coverage up to which both roles were observed.\<close>

theorem permit_binds_current_authority:
  assumes "auth_reachable w" "au_permit (wo_auth w) = Some p"
  shows "\<not> au_revoked (wo_auth w) \<and> au_fence (wo_auth w) = 1 \<and> permit_current (wo_auth w) p"
proof -
  have "auth_inv w" using assms(1) by (rule authority.reachable_safe)
  then have "permit_ok (wo_auth w)" "closing_ok (wo_auth w)" by (simp_all add: auth_inv_def)
  with assms(2) show ?thesis by (simp add: permit_ok_def closing_ok_def permit_current_def)
qed

text \<open>C28. A permit is never longer than its evidence: it is published within two seconds of the start of
  the acquisition, before it expires, and it expires at the latest five seconds after that start and
  at the earliest deadline of either role's authentication, identity, coverage and provider.\<close>

theorem permit_never_outlives_evidence:
  assumes "auth_reachable w" "wo_gate w = Some r" "finish q valid now r (wo_auth w) = (b, None)"
  shows "\<exists>p v. au_permit b = Some p \<and> collectVectorBounded q (rn_challenges r) = Inr v \<and>
    now < pm_expiresAt p \<and> pm_expiresAt p \<le> rn_start r + maximumEvidenceAge \<and> now - rn_start r < maximumBindingAge \<and>
    list_all (\<lambda>d. pm_expiresAt p \<le> d) (deadlines (fst v) @ deadlines (snd v))"
proof -
  have inv: "inv3 (wo_auth w) (Some r) (wo_log w)"
    using authority.reachable_safe [OF assms(1)] assms(2) by (simp add: auth_inv_def)
  have bound: "list_all (\<lambda>d. earliestDeadline t [fst v, snd v] \<le> d) (deadlines (fst v) @ deadlines (snd v))" for t v
    by (auto simp: list_all_iff intro: earliest_le(2))
  show ?thesis
  proof (cases "rn_previous r")
    case None
    with assms(3) have "authorize_finish q now r (wo_auth w) = (b, None)" by (simp add: finish_def)
    with inv show ?thesis
    proof (cases rule: authorize_finish_cases)
      case (published v t c)
      then show ?thesis using bound [of "rn_start r + maximumEvidenceAge" v] earliest_le(1)
        by (intro exI [of _ "the (au_permit b)"] exI [of _ v]) (simp add: publish_first_def)
    qed simp
  next
    case (Some previous)
    with assms(3) have "renew_finish q valid now r previous (wo_auth w) = (b, None)" by (simp add: finish_def)
    with inv show ?thesis
    proof (cases rule: renew_finish_cases)
      case (published v t c p)
      then show ?thesis using bound [of "rn_start r + maximumEvidenceAge" v] earliest_le(1)
        by (intro exI [of _ "the (au_permit b)"] exI [of _ v]) (simp add: publish_next_def Let_def)
    qed simp
  qed
qed

text \<open>C27. A renewal replaces a permit that is still valid and nothing else: the version goes up by one,
  fence, generation, collector and both session revisions stay, and the coverage of each role starts
  exactly where the coverage of the predecessor ended. In particular no renewal revives a revoked
  authority, however long its evidence took.\<close>

theorem renewal_extends_valid_permit:
  assumes "auth_reachable w" "wo_gate w = Some r" "rn_previous r = Some previous"
    "finish q valid now r (wo_auth w) = (b, None)"
  shows "\<exists>p p' v. au_permit (wo_auth w) = Some p \<and> au_permit b = Some p' \<and> collectVectorBounded q (rn_challenges r) = Inr v \<and>
    now < pm_expiresAt p \<and> pm_evidenceVersion p < pm_evidenceVersion p' \<and> pm_evidenceVersion p' = pm_evidenceVersion p + 1 \<and>
    pm_fence p' = pm_fence p \<and> pm_pairGeneration p' = pm_pairGeneration p \<and> pm_collectorOwner p' = pm_collectorOwner p \<and>
    pm_readerRevision p' = pm_readerRevision p \<and> pm_collectorRevision p' = pm_collectorRevision p \<and>
    ev_coverageFrom (fst v) = pm_readerCoverageThrough p \<and> ev_coverageFrom (snd v) = pm_collectorCoverageThrough p \<and>
    ev_coverageThrough (fst v) = pm_readerCoverageThrough p' \<and> ev_coverageThrough (snd v) = pm_collectorCoverageThrough p'"
proof -
  have inv: "inv3 (wo_auth w) (Some r) (wo_log w)"
    using authority.reachable_safe [OF assms(1)] assms(2) by (simp add: auth_inv_def)
  have "renew_finish q valid now r previous (wo_auth w) = (b, None)" using assms(3,4) by (simp add: finish_def)
  with inv show ?thesis
  proof (cases rule: renew_finish_cases)
    case (published v t c p)
    note one = evidence_accepted(1) [OF vector_accepted(1) [OF published(9)]]
    note two = evidence_accepted(1) [OF vector_accepted(2) [OF published(9)]]
    have p: "au_permit (wo_auth w) = Some p" using published(3,6) by simp
    have same: "p = previous\<lparr>pm_readerOwner := pm_readerOwner p\<rparr>"
      using inv p assms(3) by (simp add: inv3_iff gate_ok_def)
    have eqs: "pm_evidenceVersion p = pm_evidenceVersion previous" "pm_expiresAt p = pm_expiresAt previous"
      "pm_fence p = pm_fence previous" "pm_pairGeneration p = pm_pairGeneration previous"
      "pm_collectorOwner p = pm_collectorOwner previous" "pm_readerRevision p = pm_readerRevision previous"
      "pm_collectorRevision p = pm_collectorRevision previous"
      "pm_readerCoverageThrough p = pm_readerCoverageThrough previous"
      "pm_collectorCoverageThrough p = pm_collectorCoverageThrough previous"
      by (subst same, simp)+
    show ?thesis using one two p published eqs
      by (intro exI [of _ p] exI [of _ "the (au_permit b)"] exI [of _ v]) (simp add: publish_next_def Let_def not_le)
  qed simp
qed

subsection \<open>Revocation is final\<close>

fun auth_run :: "authorization_event list \<Rightarrow> World \<Rightarrow> World option" where
  "auth_run [] w = Some w"
| "auth_run (e # es) w = (case auth_exec e w of None \<Rightarrow> None | Some v \<Rightarrow> auth_run es v)"

definition closed_authority :: "Authority \<Rightarrow> bool" where
  "closed_authority a \<longleftrightarrow> au_revoked a \<and> au_permit a = None"

definition frozen :: "Authority \<Rightarrow> Authority \<Rightarrow> bool" where
  "frozen a b \<longleftrightarrow> closed_authority b \<and> au_reason b = au_reason a \<and> au_fence b = au_fence a \<and>
     au_versionCounter b = au_versionCounter a \<and> au_memorySink b = au_memorySink a \<and> au_sideEffects b = au_sideEffects a"

lemma frozen_refl: "closed_authority a \<Longrightarrow> frozen a a"
  by (simp add: frozen_def)

lemma closed_revoke [simp]: "closed_authority a \<Longrightarrow> revokeLocked r a = a"
  by (simp add: closed_authority_def revokeLocked_def)

lemma closed_clock: "closed_authority a \<Longrightarrow> fst (readClockLocked now a) \<in> {a, a\<lparr>au_lastClock := now\<rparr>}"
  by (simp add: readClockLocked_def) (simp add: closed_authority_def)

lemma closed_tick [simp]: "closed_authority (a\<lparr>au_lastClock := t\<rparr>) = closed_authority a"
  by (simp add: closed_authority_def)

lemma closed_clock_cases:
  assumes "closed_authority a" "readClockLocked now a = (b, e)"
  shows "closed_authority b" "frozen a b"
  using closed_clock [OF assms(1), of now] assms by (auto simp: frozen_def)

lemma closed_enter:
  assumes "closed_authority a" "enter now a = (b, x)"
  shows "closed_authority b \<and> frozen a b \<and> (\<exists>e. x = Inl e)"
proof -
  obtain c e where c: "readClockLocked now a = (c, e)" by fastforce
  note cc = closed_clock_cases [OF assms(1) c]
  have "requireCurrentPermitLocked c = (c, Some (authError (currentClosedReason c)))"
    using cc(1) by (simp add: closed_authority_def requireCurrentPermitLocked_def)
  with assms(2) c cc show ?thesis by (cases e) (auto simp: enter_def)
qed

text \<open>What each operation leaves of a closed authority.\<close>

lemma closed_work:
  assumes "closed_authority a"
  shows "frozen a (fst (dispatch lc cmd now a))" "frozen a (fst (claimWithCommit lc cm t now a))"
    "snd (claimWithCommit lc cm t now a) \<noteq> None" "frozen a (fst (completeWithCommit lc cm t r now a))"
    "snd (completeWithCommit lc cm t r now a) \<noteq> None"
proof -
  obtain b x where b: "enter now a = (b, x)" by fastforce
  with closed_enter [OF assms b] obtain e where e: "enter now a = (b, Inl e)" "frozen a b" by blast
  then show "frozen a (fst (dispatch lc cmd now a))" "frozen a (fst (claimWithCommit lc cm t now a))"
    "snd (claimWithCommit lc cm t now a) \<noteq> None" "frozen a (fst (completeWithCommit lc cm t r now a))"
    "snd (completeWithCommit lc cm t r now a) \<noteq> None"
    by (simp_all add: dispatch_def claimWithCommit_def completeWithCommit_def)
qed

lemma closed_finish:
  assumes "closed_authority a"
  shows "frozen a (fst (finish q valid now r a))"
proof -
  obtain b e where b: "readClockLocked now a = (b, e)" by fastforce
  note cb = closed_clock_cases [OF assms b]
  have "\<not> snapshotCurrentLocked (rn_snapshot r) b" using cb(1) by (simp add: snapshotCurrentLocked_def closed_authority_def)
  with b cb assms frozen_refl [OF assms] show ?thesis
    by (auto simp: finish_def authorize_finish_def renew_finish_def failInitialLocked_def failRenewalLocked_def
        split: option.splits sum.splits)
qed

lemma closed_start:
  assumes "closed_authority a"
  shows "frozen a (fst (authorize_start collectNil now a))" "frozen a (fst (renew_start collectNil now a))"
proof -
  obtain b e where b: "readClockLocked now a = (b, e)" by fastforce
  note cb = closed_clock_cases [OF assms b]
  have r: "au_revoked b" "au_permit b = None" using cb(1) by (simp_all add: closed_authority_def)
  show "frozen a (fst (authorize_start collectNil now a))"
    using b cb r assms frozen_refl [OF assms]
    by (auto simp: authorize_start_def failInitialLocked_def split: option.splits)
  show "frozen a (fst (renew_start collectNil now a))"
    using b cb r assms frozen_refl [OF assms]
    by (auto simp: renew_start_def failRenewalLocked_def requireCurrentPermitLocked_def split: option.splits)
qed

lemma closed_rest:
  assumes "closed_authority a"
  shows "frozen a (fst (recordFixtureDerivation d now a))" "frozen a (fst (cancelWithCommit cm t now a))"
    "frozen a (fst (check lc now a))" "frozen a (fst (updateReaderWindows ws now a))" "frozen a (fst (view_authority now a))"
    "frozen a (revoke a)" "frozen a (readerLost a)" "frozen a (fst (ownerDrift x a))" "frozen a (optOut a)"
    "frozen a (policyChanged p h on a)"
proof -
  obtain b e where b: "readClockLocked now a = (b, e)" by fastforce
  note cb = closed_clock_cases [OF assms b]
  have r: "au_revoked b" "au_permit b = None" using cb(1) by (simp_all add: closed_authority_def)
  show "frozen a (fst (recordFixtureDerivation d now a))" using b cb r by (cases e) (simp_all add: recordFixtureDerivation_def)
  show "frozen a (fst (cancelWithCommit cm t now a))"
    using b cb by (auto simp: cancelWithCommit_def frozen_def closed_authority_def split: option.splits)
  show "frozen a (fst (check lc now a))" using b cb r by (cases e) (simp_all add: check_def)
  show "frozen a (fst (updateReaderWindows ws now a))"
    using b cb by (auto simp: updateReaderWindows_def frozen_def closed_authority_def Let_def split: option.splits)
  show "frozen a (fst (view_authority now a))" using b cb by (simp add: view_authority_def Let_def)
  show "frozen a (revoke a)" "frozen a (readerLost a)" "frozen a (fst (ownerDrift x a))"
    using assms frozen_refl by (simp_all add: revoke_def readerLost_def ownerDrift_def)
  show "frozen a (optOut a)" "frozen a (policyChanged p h on a)"
    using assms by (simp_all add: optOut_def policyChanged_def Let_def revokeLocked_def closed_authority_def frozen_def)
qed

lemma closed_exec:
  assumes "closed_authority (wo_auth w)" "auth_exec e w = Some v"
  shows "frozen (wo_auth w) (wo_auth v) \<and> wo_log v = wo_log w"
proof (cases e)
  case (DoClaim lc cm t now)
  with assms closed_work(2,3) [OF assms(1)] show ?thesis by (auto simp: logged_def)
next
  case (DoComplete lc cm t r now)
  with assms closed_work(4,5) [OF assms(1)] show ?thesis by (auto simp: logged_def)
next
  case (DoFinish q valid now)
  with assms closed_finish show ?thesis by (auto split: option.splits)
qed (use assms closed_work(1) closed_start closed_rest in \<open>auto simp: begun_def split: if_splits\<close>)

lemma closed_run:
  "closed_authority (wo_auth w) \<Longrightarrow> auth_run es w = Some v \<Longrightarrow> frozen (wo_auth w) (wo_auth v) \<and> wo_log v = wo_log w"
proof (induction es arbitrary: w)
  case Nil
  then show ?case by (simp add: frozen_refl)
next
  case (Cons e es)
  then obtain u where u: "auth_exec e w = Some u" "auth_run es u = Some v" by (auto split: option.splits)
  from closed_exec [OF Cons.prems(1) u(1)] have f: "frozen (wo_auth w) (wo_auth u)" "wo_log u = wo_log w" by simp_all
  with Cons.IH [OF _ u(2)] show ?case by (auto simp: frozen_def)
qed

text \<open>C25. Once revoked, for whatever reason, the authority stays closed in every continuation: no permit,
  no version, no claim and no result is ever added, the first reason is kept, and no ticket is left
  in the claimed state. No later evidence, renewal in flight or policy change reopens it.\<close>

theorem revocation_is_final:
  assumes "auth_reachable w" "au_revoked (wo_auth w)" "auth_run es w = Some v"
  shows "au_revoked (wo_auth v) \<and> au_permit (wo_auth v) = None \<and> au_reason (wo_auth v) = au_reason (wo_auth w) \<and>
    au_fence (wo_auth v) = 2 \<and> au_versionCounter (wo_auth v) = au_versionCounter (wo_auth w) \<and>
    au_memorySink (wo_auth v) = au_memorySink (wo_auth w) \<and> wo_log v = wo_log w \<and>
    workClaimed \<notin> tr_status ` snd ` set (au_tickets (wo_auth w))"
proof -
  have ok: "closing_ok (wo_auth w)" using authority.reachable_safe [OF assms(1)] by (simp add: auth_inv_def)
  then have "closed_authority (wo_auth w)" using assms(2) by (simp add: closing_ok_def closed_authority_def)
  from closed_run [OF this assms(3)] ok assms(2) show ?thesis
    by (auto simp: frozen_def closed_authority_def closing_ok_def)
qed

subsection \<open>Claims and results\<close>

text \<open>C30. Results are accepted at most once per ticket and only for claimed work: the sink is the list of
  commits, one per ticket, no ticket is claimed twice, every commit comes after the claim of the very
  same ticket and carries that ticket's command, source, operation, version, pair and fence, and the
  counter of side effects counts claims and commits.\<close>

theorem results_follow_their_claim:
  assumes "auth_reachable w"
  shows "au_memorySink (wo_auth w) = commits (wo_log w) \<and> distinct (map fst (commits (wo_log w))) \<and>
    distinct (claims (wo_log w)) \<and> claim_first (wo_log w) \<and> au_sideEffects (wo_auth w) = of_nat (length (wo_log w))"
  using authority.reachable_safe [OF assms] by (simp add: auth_inv_def log_ok_def)

subsection \<open>The renewal chain\<close>

text \<open>The reference: each version from \<open>v\<close> on extends the coverage of both roles.\<close>

definition unbroken :: "Authority \<Rightarrow> 64 word \<Rightarrow> 64 word \<Rightarrow> bool" where
  "unbroken a v w \<longleftrightarrow> (\<forall>u. v \<le> u \<longrightarrow> u < w \<longrightarrow>
     (\<exists>c n. au_versionCoverage a u = Some c \<and> au_versionCoverage a (u + 1) = Some n \<and> fst c < fst n \<and> snd c < snd n))"

lemma unbroken_step:
  assumes "v < w"
  shows "unbroken a v w \<longleftrightarrow> (\<exists>c n. au_versionCoverage a v = Some c \<and> au_versionCoverage a (v + 1) = Some n \<and>
    fst c < fst n \<and> snd c < snd n) \<and> unbroken a (v + 1) w"
proof -
  have "v \<le> u \<longleftrightarrow> u = v \<or> v + 1 \<le> u" for u using assms inc_le [of v u] unat_next [OF assms]
    by (auto simp: word_le_nat_alt word_less_nat_alt word_unat_eq_iff)
  then have "(\<forall>u. v \<le> u \<longrightarrow> P u) \<longleftrightarrow> P v \<and> (\<forall>u. v + 1 \<le> u \<longrightarrow> P u)" for P by auto
  from this [of "\<lambda>u. u < w \<longrightarrow> (\<exists>c n. au_versionCoverage a u = Some c \<and> au_versionCoverage a (u + 1) = Some n \<and>
      fst c < fst n \<and> snd c < snd n)"] assms
  show ?thesis unfolding unbroken_def by simp
qed

lemma chain_from_unbroken:
  assumes "chain_ok a" "permit_current a p" "v \<noteq> 0" "v \<le> au_versionCounter a" "au_versionCoverage a v = Some c"
  shows "chain_from a p v (au_versionCounter a) c = (if unbroken a v (au_versionCounter a) then None else Some reasonCoverageGap)"
  using assms(3-5)
proof (induction "unat (au_versionCounter a) - unat v" arbitrary: v c)
  case 0
  then have "v = au_versionCounter a" by (simp add: word_le_nat_alt word_unat_eq_iff)
  moreover have "unbroken a v v" by (auto simp: unbroken_def)
  ultimately show ?case by (subst chain_from.simps) simp
next
  case (Suc k)
  then have less: "v < au_versionCounter a" by (simp add: word_less_nat_alt)
  note nxt = unat_next [OF less]
  obtain d where d: "au_derivation a = Some d" "pm_readerRevision p = dr_readerRevision d"
    "pm_collectorRevision p = dr_collectorRevision d"
    using assms(2) by (auto simp: permit_current_def split: option.splits)
  from assms(1) Suc.prems less d(1) obtain l n where l: "au_renewalLinks a v = Some l" "au_versionCoverage a (v + 1) = Some n"
    "link_fits a d v l c n" by (auto simp: chain_ok_def)
  have ok: "link_ok a p v c l n \<longleftrightarrow> fst c < fst n \<and> snd c < snd n"
    using l(3) d(2,3) by (auto simp: link_ok_def link_fits_def)
  have "v + 1 \<noteq> 0" using nxt by (metis unsigned_0 nat.distinct(1))
  moreover have "v + 1 \<le> au_versionCounter a" using less nxt by (simp add: word_le_nat_alt word_less_nat_alt)
  moreover have "k = unat (au_versionCounter a) - unat (v + 1)" using Suc.hyps(2) nxt by simp
  ultimately have "chain_from a p (v + 1) (au_versionCounter a) n =
      (if unbroken a (v + 1) (au_versionCounter a) then None else Some reasonCoverageGap)"
    using Suc.hyps(1) l(2) by blast
  with less l ok Suc.prems(3) unbroken_step [OF less, of a] show ?case by (subst chain_from.simps) auto
qed

lemma validate_chain_eq:
  assumes inv: "inv3 a g l" and p: "au_permit a = Some p" and v: "v \<noteq> 0" "v \<le> pm_evidenceVersion p"
  shows "validateChainLocked v (pm_evidenceVersion p) a =
    (if unbroken a v (pm_evidenceVersion p) then None else Some reasonCoverageGap)"
proof -
  have cur: "permit_current a p" and chain: "chain_ok a" using inv p by (simp_all add: inv3_iff permit_ok_def)
  then have version: "pm_evidenceVersion p = au_versionCounter a" by (simp add: permit_current_def)
  have "au_versionCoverage a v \<noteq> None"
  proof (cases "v = au_versionCounter a")
    case True
    with cur show ?thesis by (simp add: permit_current_def)
  next
    case False
    with v version have "v < au_versionCounter a" by simp
    with chain v(1) show ?thesis by (auto simp: chain_ok_def)
  qed
  then obtain c where c: "au_versionCoverage a v = Some c" by blast
  from chain_from_unbroken [OF chain cur v(1) _ c] v p c show ?thesis
    by (simp add: validateChainLocked_def version not_less)
qed

text \<open>C29. \<open>validateChainLocked\<close>, the loop over the recorded links, decides exactly whether every renewal
  from the version of the ticket to the current one extended the coverage of both roles; nothing else
  can fail in a reachable state.\<close>

theorem chain_check_is_strict_extension:
  assumes "auth_reachable w" "au_permit (wo_auth w) = Some p" "v \<noteq> 0" "v \<le> pm_evidenceVersion p"
  shows "validateChainLocked v (pm_evidenceVersion p) (wo_auth w) =
    (if unbroken (wo_auth w) v (pm_evidenceVersion p) then None else Some reasonCoverageGap)"
proof -
  have "inv3 (wo_auth w) (wo_gate w) (wo_log w)" using authority.reachable_safe [OF assms(1)] by (simp add: auth_inv_def)
  then show ?thesis by (rule validate_chain_eq [OF _ assms(2-4)])
qed

text \<open>C26. A result is accepted only under live authority that spans the work: at the commit a permit is
  held that has not expired, the fence is the one of the dispatch, the ticket was claimed before, the
  result is the ticket's own, and every renewal since the dispatch extended the coverage of both
  roles without a gap.\<close>

theorem result_needs_unbroken_authority:
  assumes "auth_reachable w" "completeWithCommit lc commit t r now (wo_auth w) = (b, None)"
  shows "\<exists>p. au_permit (wo_auth w) = Some p \<and> \<not> au_revoked (wo_auth w) \<and> now < pm_expiresAt p \<and>
    wt_fence t = au_fence (wo_auth w) \<and> t \<in> set (claims (wo_log w)) \<and> validResult r t \<and>
    unbroken (wo_auth w) (wt_evidenceVersion t) (pm_evidenceVersion p)"
proof -
  have "inv3 (wo_auth w) (wo_gate w) (wo_log w)" using authority.reachable_safe [OF assms(1)] by (simp add: auth_inv_def)
  from this assms(2) show ?thesis
  proof (cases rule: complete_cases)
    case (accepted c p x)
    note entry = ticket_found [OF accepted(7)]
    from accepted(3) have lg: "log_ok c (wo_log w)" and tk: "tickets_ok c" and pm: "permit_current c p"
      using accepted(4) by (simp_all add: inv3_iff permit_ok_def)
    have "ticket_bound c (tr_ticket (snd (wt_ticketID t, x)))" using tk entry(1) unfolding tickets_ok_def by blast
    then have v: "wt_evidenceVersion t \<noteq> 0" "wt_evidenceVersion t \<le> pm_evidenceVersion p"
      using entry(2) pm by (simp_all add: ticket_bound_def permit_current_def)
    have "unbroken c (wt_evidenceVersion t) (pm_evidenceVersion p)"
      using validate_chain_eq [OF accepted(3,4) v] accepted(11) by (simp split: if_splits)
    moreover have "t \<in> set (claims (wo_log w))" using lg entry accepted(8) unfolding log_ok_def by force
    moreover have "\<not> au_revoked c" using pm by (simp add: permit_current_def)
    ultimately show ?thesis using accepted by (intro exI [of _ p]) (simp add: unbroken_def)
  qed simp
qed

text \<open>Claimed work can be stranded by a renewal that succeeds: evidence whose coverage ends where it
  starts is accepted by a renewal, but the chain over it never validates, so no ticket of an earlier
  version can be claimed or completed from then on, even though the authority stays valid.\<close>

theorem instant_renewal_strands_work:
  assumes "auth_reachable w" "au_permit (wo_auth w) = Some p" "wt_evidenceVersion t \<le> u" "u < pm_evidenceVersion p"
    "au_versionCoverage (wo_auth w) u = Some (x, y)" "au_versionCoverage (wo_auth w) (u + 1) = Some (x, y')"
  shows "snd (claimWithCommit lc commit t now (wo_auth w)) \<noteq> None \<and>
    snd (completeWithCommit lc commit t r now (wo_auth w)) \<noteq> None"
proof -
  have inv: "inv3 (wo_auth w) (wo_gate w) (wo_log w)" using authority.reachable_safe [OF assms(1)] by (simp add: auth_inv_def)
  have gap: "\<not> unbroken (wo_auth w) (wt_evidenceVersion t) (pm_evidenceVersion p)"
    using assms(3-6) unfolding unbroken_def by (metis fst_conv less_irrefl option.inject)
  have stuck: False if c: "inv3 c (wo_gate w) (wo_log w)" "c = (wo_auth w)\<lparr>au_lastClock := now\<rparr>" "au_permit c = Some q"
      "ticketRecordLocked t c = Some z" "validateChainLocked (wt_evidenceVersion t) (pm_evidenceVersion q) c = None" for c q z
  proof -
    have q: "q = p" using c(2,3) assms(2) by simp
    note entry = ticket_found [OF c(4)]
    from c(1,3) have tk: "tickets_ok c" and pm: "permit_current c q" by (simp_all add: inv3_iff permit_ok_def)
    have "ticket_bound c (tr_ticket (snd (wt_ticketID t, z)))" using tk entry(1) unfolding tickets_ok_def by blast
    then have "wt_evidenceVersion t \<noteq> 0" "wt_evidenceVersion t \<le> pm_evidenceVersion q"
      using entry(2) pm by (simp_all add: ticket_bound_def permit_current_def)
    from validate_chain_eq [OF c(1,3) this] c(5) have "unbroken c (wt_evidenceVersion t) (pm_evidenceVersion q)"
      by (simp split: if_splits)
    moreover have "unbroken c v z = unbroken (wo_auth w) v z" for v z by (simp add: unbroken_def c(2))
    ultimately show False using gap q by simp
  qed
  have "snd (claimWithCommit lc commit t now (wo_auth w)) \<noteq> None"
  proof
    assume "snd (claimWithCommit lc commit t now (wo_auth w)) = None"
    then obtain b where "claimWithCommit lc commit t now (wo_auth w) = (b, None)" by (metis surjective_pairing)
    with inv show False by (cases rule: claim_cases) (use stuck in blast)+
  qed
  moreover have "snd (completeWithCommit lc commit t r now (wo_auth w)) \<noteq> None"
  proof
    assume "snd (completeWithCommit lc commit t r now (wo_auth w)) = None"
    then obtain b where "completeWithCommit lc commit t r now (wo_auth w) = (b, None)" by (metis surjective_pairing)
    with inv show False by (cases rule: complete_cases) (use stuck in blast)+
  qed
  ultimately show ?thesis by simp
qed

subsection \<open>Samples\<close>

definition sid :: "string \<Rightarrow> string" where
  "sid s = ''synthetic-'' @ s"

definition sample_owner :: "role \<Rightarrow> string \<Rightarrow> processOwner" where
  "sample_owner r n = \<lparr>po_role = r, po_ownerID = sid (''o'' @ n), po_profileID = sid (''p'' @ n), po_directoryID = sid (''d'' @ n),
     po_processID = sid (''pr'' @ n), po_processCreationID = sid ''c'', po_processCreatedAt = 1, po_processImageID = sid ''i'',
     po_sidecarLifetimeID = sid ''l'', po_contextID = sid (''x'' @ n), po_epochID = sid ''e'', po_generation = 1,
     po_driverID = sid (''dr'' @ n), po_directoryPinned = True, po_profileFresh = True, po_disposableContext = True,
     po_windowInventory = [sid ''w'']\<rparr>"

definition sample_config :: authorizationConfig where
  "sample_config =
     \<lparr>cf_enrollment = \<lparr>en_contractID = concurrentAuthorizationContract, en_providerID = fixtureProviderID,
        en_providerVersion = fixtureProviderVersion, en_evidenceSchema = fixtureEvidenceSchema, en_sourceID = fixtureSourceID,
        en_databaseScope = sid ''db'', en_accountID = sid ''a'', en_readerProfileID = sid ''pr'', en_policyGeneration = 1,
        en_holdGeneration = 1\<rparr>,
      cf_pair = \<lparr>pi_id = sid ''pair'', pi_attemptID = sid ''t'', pi_controllerEpochID = sid ''e'',
        pi_sidecarLifetimeID = sid ''l'', pi_generation = 1\<rparr>,
      cf_reader = sample_owner readerRole ''r'', cf_collector = sample_owner collectorRole ''c'',
      cf_policyEnabled = True, cf_lifecycleBarrier = False\<rparr>"

definition sample_grant :: fixtureGrant where
  "sample_grant = \<lparr>fg_id = sid ''g'', fg_allowAuthorization = True, fg_allowSeed = True, fg_allowCollection = True,
     fg_allowRenewal = True, fg_allowResultSink = True\<rparr>"

definition sample_authority :: Authority where
  "sample_authority = projr (newConcurrentAuthorization sample_config sample_grant (Some 100) 1)"

definition sample_world :: World where
  "sample_world = \<lparr>wo_auth = sample_authority, wo_gate = None, wo_log = []\<rparr>"

definition sample_receipt :: derivationReceipt where
  "sample_receipt = \<lparr>dr_instanceID = ''synthetic-instance-1'', dr_id = sid ''rec'', dr_contractID = concurrentAuthorizationContract,
     dr_providerID = fixtureProviderID, dr_providerVersion = fixtureProviderVersion, dr_evidenceSchema = fixtureEvidenceSchema,
     dr_databaseScope = sid ''db'', dr_sourceID = fixtureSourceID, dr_accountID = sid ''a'', dr_pairID = sid ''pair'',
     dr_attemptID = sid ''t'', dr_pairGeneration = 1, dr_readerOwnerID = sid ''or'', dr_collectorOwnerID = sid ''oc'',
     dr_readerRevision = sid ''rev'', dr_collectorRevision = sid ''rev'', dr_transferManifest = fixtureTransferManifest,
     dr_fromRole = readerRole, dr_toRole = collectorRole, dr_seedApplied = True, dr_containsCookieMaterial = False,
     dr_fixtureGrantID = sid ''g''\<rparr>"

definition sample_evidence :: "int \<Rightarrow> evidenceChallenge \<Rightarrow> roleEvidence" where
  "sample_evidence t ch =
     \<lparr>ev_instanceID = ch_instanceID ch, ev_challengeID = ch_id ch, ev_vectorID = ch_vectorID ch, ev_contractID = ch_contractID ch,
      ev_providerID = ch_providerID ch, ev_providerVersion = ch_providerVersion ch, ev_evidenceSchema = ch_evidenceSchema ch,
      ev_sourceID = ch_sourceID ch, ev_origin = ch_origin ch, ev_operation = ch_operation ch,
      ev_databaseScope = ch_databaseScope ch, ev_accountID = ch_accountID ch, ev_pairID = ch_pairID ch,
      ev_attemptID = ch_attemptID ch, ev_pairGeneration = ch_pairGeneration ch, ev_role = ch_role ch, ev_owner = ch_owner ch,
      ev_frameID = ch_frameID ch, ev_requestID = ch_requestID ch, ev_fixtureGrantID = ch_fixtureGrantID ch,
      ev_provenance = fixtureProvenance, ev_authentication = fixtureAuthentication, ev_identity = fixtureIdentity,
      ev_cacheState = fixtureCacheFresh, ev_authenticated = True, ev_continuityKnown = True, ev_coverageKnown = True,
      ev_coverageContinuous = True, ev_coverageGap = False, ev_sessionRevision = sid ''rev'',
      ev_acquisitionStarted = ch_acquisitionStarted ch, ev_observedAt = t, ev_coverageFrom = ch_previousCoverage ch,
      ev_coverageThrough = t, ev_authValidUntil = 9000000000, ev_identityValidUntil = 9000000000,
      ev_coverageValidUntil = 9000000000, ev_providerValidUntil = 9000000000, ev_claimedNativeSource = False\<rparr>"

definition sample_acquisition :: "int \<Rightarrow> acquisition" where
  "sample_acquisition t = \<lparr>aq_first = None, aq_second = None, aq_third = None, aq_collect = (\<lambda>ch. Inr (sample_evidence t ch)),
     aq_cause = None, aq_context = None\<rparr>"

definition no_barrier :: lifecycle where
  "no_barrier = (\<lambda>_. (False, False))"

definition sample_command :: workCommand where
  "sample_command = \<lparr>wc_id = sid ''cmd'', wc_scope = sid ''db'', wc_source = fixtureSourceID, wc_operation = ''synthetic-x.collect''\<rparr>"

definition sample_ticket :: workTicket where
  "sample_ticket = \<lparr>wt_instanceID = ''synthetic-instance-1'', wt_ticketID = ''synthetic-ticket-1'', wt_commandID = sid ''cmd'',
     wt_scope = sid ''db'', wt_source = fixtureSourceID, wt_operation = ''synthetic-x.collect'', wt_evidenceVersion = 1,
     wt_pairID = sid ''pair'', wt_pairGeneration = 1, wt_fence = 1, wt_collectorOwnerID = sid ''oc'', wt_dispatchAt = 100\<rparr>"

definition sample_result :: fixtureResult where
  "sample_result = \<lparr>fr_id = sid ''res'', fr_ticketID = ''synthetic-ticket-1'', fr_commandID = sid ''cmd'', fr_scope = sid ''db'',
     fr_source = fixtureSourceID, fr_operation = ''synthetic-x.collect'', fr_evidenceVersion = 1, fr_pairID = sid ''pair'',
     fr_pairGeneration = 1, fr_fence = 1, fr_collectorOwnerID = sid ''oc''\<rparr>"

text \<open>A claim under the first permit; then a renewal under way.\<close>

definition claim_events :: "authorization_event list" where
  "claim_events = [DoDerive sample_receipt 100, DoAuthorize False 100, DoFinish (sample_acquisition 100) None 100,
     DoDispatch no_barrier sample_command 100, DoClaim no_barrier None sample_ticket 100, DoRenew False 100]"

definition renewing_world :: World where
  "renewing_world = the (auth_run claim_events sample_world)"

lemma sample_world_start: "auth_start sample_world"
proof -
  have "isl (newConcurrentAuthorization sample_config sample_grant (Some 100) 1) = False" by code_simp
  then have "newConcurrentAuthorization sample_config sample_grant (Some 100) 1 = Inr sample_authority"
    by (simp add: sample_authority_def)
  then show ?thesis by (auto simp: auth_start_def sample_world_def)
qed

lemma sample_claim_run: "auth_run claim_events sample_world = Some renewing_world"
proof -
  have "\<not> Option.is_none (auth_run claim_events sample_world)" by code_simp
  then show ?thesis by (auto simp: renewing_world_def Option.is_none_def)
qed

lemma auth_run_reachable: "auth_reachable w \<Longrightarrow> auth_run es w = Some v \<Longrightarrow> auth_reachable v"
proof (induction es arbitrary: w)
  case (Cons e es)
  then obtain u where u: "auth_exec e w = Some u" "auth_run es u = Some v" by (auto split: option.splits)
  have "auth_reachable u" by (rule after_move [OF Cons.prems(1)]) (use u(1) in \<open>auto simp: auth_step_def\<close>)
  with Cons.IH u(2) show ?case by blast
qed simp

lemma renewing_reachable: "auth_reachable renewing_world"
  by (rule auth_run_reachable [OF at_start sample_claim_run]) (rule sample_world_start)

text \<open>From there: a renewal ten nanoseconds later, one at the same instant, or a revocation.\<close>

definition renewed_world :: World where
  "renewed_world = the (auth_exec (DoFinish (sample_acquisition 110) None 110) renewing_world)"

definition instant_world :: World where
  "instant_world = the (auth_exec (DoFinish (sample_acquisition 100) None 100) renewing_world)"

definition revoked_world :: World where
  "revoked_world = renewing_world\<lparr>wo_auth := revoke (wo_auth renewing_world)\<rparr>"

lemma sample_permit: "map_option pm_evidenceVersion (au_permit (wo_auth renewing_world)) = Some 1"
  by code_simp

lemma sample_renewal:
  "case wo_gate renewing_world of None \<Rightarrow> False | Some r \<Rightarrow> rn_previous r \<noteq> None \<and>
     snd (finish (sample_acquisition 110) None 110 r (wo_auth renewing_world)) = None"
  by code_simp

lemma sample_gate:
  obtains r previous b where "wo_gate renewing_world = Some r" "rn_previous r = Some previous"
    "finish (sample_acquisition 110) None 110 r (wo_auth renewing_world) = (b, None)"
  using sample_renewal by (auto split: option.splits) (metis prod.collapse)

lemma sample_worlds_reachable: "auth_reachable renewed_world" "auth_reachable instant_world" "auth_reachable revoked_world"
proof -
  have step: "auth_reachable v" if "auth_exec e renewing_world = Some v" for e v
    by (rule after_move [OF renewing_reachable]) (use that in \<open>auto simp: auth_step_def\<close>)
  obtain r where r: "wo_gate renewing_world = Some r" by (rule sample_gate)
  show "auth_reachable renewed_world" by (rule step [of "DoFinish (sample_acquisition 110) None 110"]) (simp add: renewed_world_def r)
  show "auth_reachable instant_world" by (rule step [of "DoFinish (sample_acquisition 100) None 100"]) (simp add: instant_world_def r)
  show "auth_reachable revoked_world" by (rule step [of DoRevoke]) (simp add: revoked_world_def)
qed

lemma sample_renewed: "map_option pm_evidenceVersion (au_permit (wo_auth renewed_world)) = Some 2"
  by code_simp

lemma sample_committed: "snd (completeWithCommit no_barrier None sample_ticket sample_result 110 (wo_auth renewed_world)) = None"
  by code_simp

lemma sample_instant: "map_option pm_evidenceVersion (au_permit (wo_auth instant_world)) = Some 2"
  by code_simp

lemma sample_coverage: "au_versionCoverage (wo_auth instant_world) 1 = Some (100, 100)"
  "au_versionCoverage (wo_auth instant_world) 2 = Some (100, 100)"
  by code_simp+

theorem permit_binds_current_authority_witness:
  "\<exists>p. au_permit (wo_auth renewing_world) = Some p \<and> permit_current (wo_auth renewing_world) p"
proof -
  obtain p where p: "au_permit (wo_auth renewing_world) = Some p" using sample_permit by auto
  with permit_binds_current_authority [OF renewing_reachable p] show ?thesis by blast
qed

theorem permit_never_outlives_evidence_witness:
  "\<exists>r b p. finish (sample_acquisition 110) None 110 r (wo_auth renewing_world) = (b, None) \<and> au_permit b = Some p \<and>
     pm_expiresAt p \<le> rn_start r + maximumEvidenceAge"
proof -
  obtain r previous b where r: "wo_gate renewing_world = Some r"
    "finish (sample_acquisition 110) None 110 r (wo_auth renewing_world) = (b, None)" by (rule sample_gate)
  from permit_never_outlives_evidence [OF renewing_reachable r] r(2) show ?thesis by blast
qed

theorem renewal_extends_valid_permit_witness:
  "\<exists>(b :: Authority) p p'. au_permit (wo_auth renewing_world) = Some p \<and> au_permit b = Some p' \<and> pm_evidenceVersion p' = pm_evidenceVersion p + 1"
proof -
  obtain r previous b where r: "wo_gate renewing_world = Some r" "rn_previous r = Some previous"
    "finish (sample_acquisition 110) None 110 r (wo_auth renewing_world) = (b, None)" by (rule sample_gate)
  from renewal_extends_valid_permit [OF renewing_reachable r] show ?thesis by (elim exE conjE) (rule exI [of _ b], rule exI, rule exI, intro conjI, assumption+)
qed

theorem revocation_is_final_witness:
  "\<exists>v. auth_run [DoFinish (sample_acquisition 110) None 110, DoPolicyChanged 2 2 True, DoDerive sample_receipt 120] revoked_world = Some v \<and>
     au_permit (wo_auth v) = None \<and> wo_log v = wo_log revoked_world"
proof -
  obtain r where r: "wo_gate renewing_world = Some r" by (rule sample_gate)
  let ?es = "[DoFinish (sample_acquisition 110) None 110, DoPolicyChanged 2 2 True, DoDerive sample_receipt 120]"
  obtain v where v: "auth_run ?es revoked_world = Some v" by (simp add: revoked_world_def r)
  have "au_permit (wo_auth renewing_world) \<noteq> None" using sample_permit by auto
  then have "au_revoked (wo_auth revoked_world)" by (simp add: revoked_world_def revoke_def revokeLocked_def)
  from revocation_is_final [OF sample_worlds_reachable(3) this v] v show ?thesis by blast
qed

theorem results_follow_their_claim_witness: "claim_first (wo_log renewed_world) \<and> distinct (claims (wo_log renewed_world))"
  using results_follow_their_claim [OF sample_worlds_reachable(1)] by blast

theorem chain_check_is_strict_extension_witness:
  "\<exists>p. au_permit (wo_auth renewed_world) = Some p \<and> validateChainLocked 1 (pm_evidenceVersion p) (wo_auth renewed_world) =
     (if unbroken (wo_auth renewed_world) 1 (pm_evidenceVersion p) then None else Some reasonCoverageGap)"
proof -
  obtain p where p: "au_permit (wo_auth renewed_world) = Some p" "pm_evidenceVersion p = 2" using sample_renewed by auto
  with chain_check_is_strict_extension [OF sample_worlds_reachable(1) p(1), of 1] show ?thesis by simp
qed

theorem result_needs_unbroken_authority_witness:
  "\<exists>p. au_permit (wo_auth renewed_world) = Some p \<and> unbroken (wo_auth renewed_world) 1 (pm_evidenceVersion p)"
proof -
  obtain b where "completeWithCommit no_barrier None sample_ticket sample_result 110 (wo_auth renewed_world) = (b, None)"
    using sample_committed by (metis prod.collapse)
  moreover have "wt_evidenceVersion sample_ticket = 1" by (simp add: sample_ticket_def)
  ultimately show ?thesis
    using result_needs_unbroken_authority [OF sample_worlds_reachable(1), of no_barrier None sample_ticket sample_result 110 b]
    by auto
qed

theorem instant_renewal_strands_work_witness:
  "snd (completeWithCommit no_barrier None sample_ticket sample_result 100 (wo_auth instant_world)) \<noteq> None \<and>
   au_permit (wo_auth instant_world) \<noteq> None"
proof -
  obtain p where p: "au_permit (wo_auth instant_world) = Some p" "pm_evidenceVersion p = 2" using sample_instant by auto
  have "wt_evidenceVersion sample_ticket \<le> 1" by (simp add: sample_ticket_def)
  from instant_renewal_strands_work [OF sample_worlds_reachable(2) p(1) this] p sample_coverage show ?thesis by simp
qed

end
