(* ===== verification/Context_Text.thy ===== *)
theory Context_Text
  imports Prelude
begin

text \<open>
  The text side of \<open>src/internal/contentcontext/engine.go\<close>: its vocabularies, the tokens of a field
  with their measurements, model identities, and the features by which a post and a remembered item
  are compared. A \<open>map[string]bool\<close> used as a set is the list of its keys. Letters and digits are
  those of ASCII, with every byte above 127 read as (part of) a lower-case letter; lengths and offsets
  are counted in runes.
\<close>

subsection \<open>Vocabularies\<close>

definition concreteRelatedIssues :: "string list" where
  "concreteRelatedIssues =
    [''reset'', ''licensing'', ''coding'', ''citation'', ''grounding'', ''error'', ''latency'',
     ''pricing'', ''distribution'', ''safety'', ''context window'', ''tool calling'']"

definition issueContextLabels :: "string list" where
  "issueContextLabels =
    [''arena'', ''ui'', ''cli'', ''enterprise'']"

definition boundaryOwnerNames :: "string list" where
  "boundaryOwnerNames =
    [''codex'', ''chatgpt'', ''openai'', ''anthropic'', ''google'', ''microsoft'', ''meta'', ''nvidia'']"

definition searchStopWords :: "string list" where
  "searchStopWords =
    [''a'', ''an'', ''and'', ''are'', ''as'', ''at'', ''be'', ''by'', ''for'', ''from'', ''in'', ''is'',
     ''it'', ''of'', ''on'', ''or'', ''that'', ''the'', ''their'', ''this'', ''to'', ''was'', ''with'',
     ''you'', ''your'', ''we'', ''they'', ''every'', ''provides'', ''published'', ''shared'',
     ''released'']"

definition genericTerms :: "string list" where
  "genericTerms =
    [''about'', ''all'', ''already'', ''camera'', ''change'', ''content'', ''context'', ''data'',
     ''detail'', ''event'', ''feature'', ''information'', ''issue'', ''latest'', ''local'', ''memory'',
     ''movement'', ''news'', ''people'', ''platform'', ''project'', ''research'', ''result'', ''system'',
     ''systems'', ''thing'', ''tool'', ''update'', ''using'', ''video'', ''way'', ''work'', ''open'',
     ''source'', ''own'', ''knows'', ''fix'', ''shaky'', ''foundation'', ''model'', ''models'',
     ''provides'', ''published'', ''shared'', ''released'', ''reported'', ''reports'', ''announced'',
     ''announces'', ''says'', ''said'', ''shows'', ''showed'', ''offers'', ''includes'', ''include'',
     ''uses'', ''used'', ''new'', ''general'', ''common'', ''every'', ''you'', ''your'', ''we'', ''they'']"

definition boilerplateTitleTerms :: "string list" where
  "boilerplateTitleTerms =
    [''across'', ''after'', ''before'', ''build'', ''built'', ''companies'', ''company'', ''create'',
     ''created'', ''develop'', ''developed'', ''developing'', ''guide'', ''helps'', ''improve'',
     ''improves'', ''inside'', ''know'', ''launch'', ''launched'', ''making'', ''offers'', ''published'',
     ''released'', ''reported'', ''reports'', ''shared'', ''shows'', ''using'']"

definition relatedWeakTerms :: "string list" where
  "relatedWeakTerms =
    [''ai'', ''anthropic'', ''artificial'', ''author'', ''company'', ''companies'', ''described'',
     ''discussion'', ''explained'', ''explains'', ''outlined'', ''outline'', ''google'', ''microsoft'',
     ''meta'', ''nvidia'', ''openai'', ''quota'', ''quotas'', ''team'', ''teams'', ''product'',
     ''products'', ''usage'', ''user'', ''users'', ''intelligence'', ''overview'', ''topic'', ''topics'',
     ''written'', ''community'', ''communities'', ''competitive'', ''competition'', ''competitions'',
     ''custom'', ''developer'', ''developers'', ''ecosystem'', ''ecosystems'', ''global'', ''globally'',
     ''international'', ''internationally'', ''milestone'', ''milestones'', ''workflow'', ''workflows'',
     ''day'', ''days'', ''week'', ''weeks'', ''month'', ''months'', ''year'', ''years'', ''end'', ''one'',
     ''now'', ''potential'', ''human'', ''long'', ''short'', ''audience'', ''audiences'', ''reader'',
     ''readers'', ''them'', ''their'', ''theirs'', ''its'', ''this'', ''that'', ''these'', ''those'',
     ''our'', ''ours'', ''his'', ''her'', ''hers'', ''inform'', ''informs'', ''informed'', ''note'',
     ''notes'', ''noted'', ''reflect'', ''reflects'', ''reflected'', ''announce'', ''announces'',
     ''announced'', ''announcing'', ''announcement'', ''announcements'', ''launch'', ''launches'',
     ''launched'', ''launching'', ''release'', ''releases'', ''released'', ''releasing'', ''introduce'',
     ''introduces'', ''introducing'', ''introduced'', ''unveil'', ''unveils'', ''unveiled'',
     ''unveiling'', ''reveal'', ''reveals'', ''revealed'', ''revealing'', ''publish'', ''publishes'',
     ''published'', ''publishing'', ''share'', ''shares'', ''shared'', ''sharing'', ''report'',
     ''reports'', ''reported'', ''reporting'', ''state'', ''states'', ''stated'', ''stating'', ''say'',
     ''says'', ''said'', ''saying'']"

definition modelContextWords :: "string list" where
  "modelContextWords =
    [''build'', ''chapter'', ''day'', ''episode'', ''model'', ''models'', ''month'', ''number'', ''part'',
     ''phase'', ''release'', ''released'', ''series'', ''stage'', ''update'', ''updated'', ''version'',
     ''volume'', ''week'', ''year'']"

definition modelQualifiers :: "string list" where
  "modelQualifiers =
    [''alpha'', ''base'', ''beta'', ''chat'', ''code'', ''experimental'', ''exp'', ''fast'', ''flash'',
     ''high'', ''instruct'', ''instruction'', ''instant'', ''large'', ''lite'', ''low'', ''max'',
     ''mini'', ''omni'', ''plus'', ''preview'', ''pro'', ''reasoning'', ''small'', ''thinking'',
     ''turbo'', ''ultra'', ''vision'']"

definition focusPhraseCompanions :: "string list" where
  "focusPhraseCompanions =
    [''camera'', ''data'', ''image'', ''images'', ''language'', ''metadata'', ''model'', ''models'',
     ''network'', ''networks'', ''system'', ''systems'', ''ui'', ''video'']"

definition focusedTechnicalTerms :: "string list" where
  "focusedTechnicalTerms =
    [''calibration'', ''embedding'', ''embeddings'', ''generative'', ''gyroscope'', ''matrix'',
     ''motion'', ''quantum'', ''stabilization'', ''stabilisation'', ''vector'']"

definition weakSubjectTagTerms :: "string list" where
  "weakSubjectTagTerms =
    [''coding'', ''performance'', ''reset'', ''resets'']"

subsection \<open>Characters\<close>

definition is_upper :: "char \<Rightarrow> bool" where
  "is_upper c = (let n = of_char c :: nat in 65 \<le> n \<and> n \<le> 90)"

definition is_lower :: "char \<Rightarrow> bool" where
  "is_lower c = (let n = of_char c :: nat in 97 \<le> n \<and> n \<le> 122 \<or> 128 \<le> n)"

definition is_letter :: "char \<Rightarrow> bool" where
  "is_letter c \<longleftrightarrow> is_upper c \<or> is_lower c"

definition is_number :: "char \<Rightarrow> bool" where
  "is_number c = (let n = of_char c :: nat in 48 \<le> n \<and> n \<le> 57)"

definition MaxQueryTerms :: nat where "MaxQueryTerms = 12"
definition MaxFieldRunes :: nat where "MaxFieldRunes = 1600"
definition MaxTermRunes :: nat where "MaxTermRunes = 48"
definition MaxIdentityPhrases :: nat where "MaxIdentityPhrases = 4"
definition MaxSubjectFeatures :: nat where "MaxSubjectFeatures = 8"
definition MaxFocusPhrases :: nat where "MaxFocusPhrases = 12"

text \<open>What follows the first \<open>n\<close> runes.\<close>

definition drop_runes :: "nat \<Rightarrow> string \<Rightarrow> string" where
  "drop_runes n s = drop (length (take_runes n s)) s"

definition hasUppercase :: "string \<Rightarrow> bool" where
  "hasUppercase = list_ex is_upper"

definition isNumericToken :: "string \<Rightarrow> bool" where
  "isNumericToken v \<longleftrightarrow> v \<noteq> [] \<and> list_all is_number v"

definition hasInternalUppercase :: "string \<Rightarrow> bool" where
  "hasInternalUppercase v =
     (case v of
        [] \<Rightarrow> False
      | c # rest \<Rightarrow> rune_count v \<ge> 2 \<and> is_upper c \<and> list_ex is_lower rest \<and> list_ex is_upper rest)"

definition relatedDurationUnit :: "string \<Rightarrow> bool" where
  "relatedDurationUnit v \<longleftrightarrow>
     v \<in> set [''h'', ''hr'', ''hrs'', ''hour'', ''hours'', ''m'', ''min'', ''mins'', ''minute'', ''minutes'',
       ''s'', ''sec'', ''secs'', ''second'', ''seconds'', ''ms'', ''millisecond'', ''milliseconds'',
       ''d'', ''day'', ''days'', ''week'', ''weeks'', ''month'', ''months'', ''year'', ''years'',
       ''jam'', ''menit'', ''detik'', ''hari''] \<or>
     has_prefix ''min'' v \<and> remdups_adj v \<in> {''min'', ''mins''}"

definition relatedFeatureTerm :: "string \<Rightarrow> bool" where
  "relatedFeatureTerm term \<longleftrightarrow>
     \<not> (term = [] \<or> rune_count term < 3 \<or> isNumericToken term \<or> term \<in> set searchStopWords \<or> term \<in> set genericTerms \<or>
        term \<in> set boilerplateTitleTerms \<or> term \<in> set relatedWeakTerms) \<and>
     \<not> list_ex is_number term"

definition modelFamilyToken :: "string \<Rightarrow> bool" where
  "modelFamilyToken v \<longleftrightarrow> relatedFeatureTerm v \<and> v \<notin> set modelContextWords \<and> \<not> relatedDurationUnit v"

definition focusedPair :: "string \<Rightarrow> string \<Rightarrow> bool" where
  "focusedPair left right =
     (if left \<in> set searchStopWords \<or> right \<in> set searchStopWords \<or> left \<in> set relatedWeakTerms \<or> right \<in> set relatedWeakTerms
      then False
      else if relatedFeatureTerm left \<and> relatedFeatureTerm right
      then left \<in> set focusedTechnicalTerms \<or> right \<in> set focusedTechnicalTerms
      else left \<in> set focusedTechnicalTerms \<and> right \<in> set focusPhraseCompanions \<or>
           right \<in> set focusedTechnicalTerms \<and> left \<in> set focusPhraseCompanions)"

subsection \<open>Tokens of the automatic relationship\<close>

record relatedToken =
  rt_value :: string
  rt_original :: string
  rt_breakBefore :: bool
  rt_start :: nat
  rt_end :: nat
  rt_measurement :: bool

definition flush_token :: "string \<Rightarrow> bool \<Rightarrow> nat \<Rightarrow> relatedToken list" where
  "flush_token current breakBefore start =
     (if current = [] \<or> rune_count current > MaxTermRunes then []
      else [\<lparr>rt_value = to_lower current, rt_original = current, rt_breakBefore = breakBefore, rt_start = start,
             rt_end = start + rune_count current, rt_measurement = False\<rparr>])"

text \<open>The scan: the offset, what is left, the token being read, whether it is numeric, its break and
  its start, and the pending break.\<close>

fun scan_tokens :: "nat \<Rightarrow> string \<Rightarrow> string \<Rightarrow> bool \<Rightarrow> bool \<Rightarrow> nat \<Rightarrow> bool \<Rightarrow> relatedToken list" where
  "scan_tokens offset [] current numeric brk start pending = flush_token current brk start"
| "scan_tokens offset (c # s) current numeric brk start pending =
     (if \<not> is_letter c \<and> \<not> is_number c then
        flush_token current brk start @
        scan_tokens (offset + 1) s [] numeric brk start (pending \<or> c \<in> set ''.!?;:'' \<or> c = CHR 0x0A \<or> c = CHR 0x0D)
      else let next = (if continuation_byte c then offset else offset + 1) in
        if current \<noteq> [] \<and> is_number c = numeric then scan_tokens next s (current @ [c]) numeric brk start pending
        else flush_token current brk start @ scan_tokens next s [c] (is_number c) pending offset False)"

definition between :: "string \<Rightarrow> nat \<Rightarrow> nat \<Rightarrow> string" where
  "between text i j = take_runes (j - i) (drop_runes i text)"

text \<open>A run of numbers joined by points, commas or colons: its tokens, whether it has a colon, the rest.\<close>

fun number_run :: "string \<Rightarrow> relatedToken \<Rightarrow> relatedToken list \<Rightarrow> relatedToken list \<times> bool \<times> relatedToken list" where
  "number_run text previous [] = ([], False, [])"
| "number_run text previous (t # ts) =
     (let separator = between text (rt_end previous) (rt_start t) in
      if isNumericToken (rt_value t) \<and> separator \<in> {''.'', '','', '':''} then
        let (run, clock, rest) = number_run text t ts in (t # run, separator = '':'' \<or> clock, rest)
      else ([], False, t # ts))"

lemma number_run_rest: "number_run text p ts = (run, clock, rest) \<Longrightarrow> length rest \<le> length ts"
proof (induction ts arbitrary: p run clock rest)
  case (Cons t ts)
  obtain r c q where n: "number_run text t ts = (r, c, q)" by (metis prod_cases3)
  from Cons.IH [OF n] Cons.prems n show ?case by (auto simp: Let_def split: if_splits)
qed simp

text \<open>\<open>'%'\<close> and its full-width and Arabic forms.\<close>

definition percent_signs :: "string list" where
  "percent_signs = [''%'', [CHR 0xEF, CHR 0xBC, CHR 0x85], [CHR 0xD9, CHR 0xAA]]"

definition measured :: "string \<Rightarrow> relatedToken \<Rightarrow> relatedToken list \<Rightarrow> bool" where
  "measured text final rest \<longleftrightarrow>
     list_ex (\<lambda>p. has_prefix p (dropWhile is_space (drop_runes (rt_end final) text))) percent_signs \<or>
     (case rest of
        [] \<Rightarrow> False
      | t # _ \<Rightarrow> \<not> rt_breakBefore t \<and> trim_space (between text (rt_end final) (rt_start t)) = [] \<and>
          (relatedDurationUnit (rt_value t) \<or> rt_value t \<in> {''percent'', ''percentage'', ''persen''}))"

function markRelatedMeasurements :: "string \<Rightarrow> relatedToken list \<Rightarrow> relatedToken list" where
  "markRelatedMeasurements text [] = []"
| "markRelatedMeasurements text (t # ts) =
     (if \<not> isNumericToken (rt_value t) then t # markRelatedMeasurements text ts
      else
        let (run, clock, rest) = number_run text t ts;
            measurement = clock \<or> measured text (last (t # run)) rest
        in (if measurement then map (rt_measurement_update (\<lambda>_. True)) (t # run) else t # run) @
           markRelatedMeasurements text rest)"
  by pat_completeness auto
termination
  by (relation "measure (\<lambda>(text, ts). length ts)") (auto dest!: number_run_rest [OF sym])

definition relatedTokens :: "string \<Rightarrow> relatedToken list" where
  "relatedTokens v =
     (let text = take_runes MaxFieldRunes (trim_space v)
      in markRelatedMeasurements text (scan_tokens 0 text [] False False 0 False))"

definition canonicalIdentityPhrase :: "string \<Rightarrow> string" where
  "canonicalIdentityPhrase v = join '' '' (map rt_value (relatedTokens v))"

definition authorTokens :: "string list \<Rightarrow> string list" where
  "authorTokens authors = filter (\<lambda>v. v \<noteq> []) (map rt_value (concat (map relatedTokens authors)))"

subsection \<open>Model identities\<close>

record modelIdentity =
  mi_phrase :: string
  mi_family :: string
  mi_version :: string
  mi_qualifier :: string

definition version_end :: "relatedToken list \<Rightarrow> string list \<Rightarrow> nat \<Rightarrow> nat" where
  "version_end tokens excluded index = index + 1 + length (takeWhile
     (\<lambda>t. \<not> rt_measurement t \<and> rt_value t \<notin> set excluded \<and> isNumericToken (rt_value t)) (take 2 (drop (index + 1) tokens)))"

definition qualifier_at :: "relatedToken list \<Rightarrow> string list \<Rightarrow> nat \<Rightarrow> string" where
  "qualifier_at tokens excluded i =
     (if i < length tokens \<and> rt_value (tokens ! i) \<notin> set excluded \<and> rt_value (tokens ! i) \<in> set modelQualifiers
      then rt_value (tokens ! i) else [])"

definition family_starts :: "relatedToken list \<Rightarrow> string list \<Rightarrow> nat \<Rightarrow> nat list" where
  "family_starts tokens excluded familyIndex =
     familyIndex # takeWhile (\<lambda>i. rt_value (tokens ! i) \<notin> set excluded \<and> hasUppercase (rt_original (tokens ! i)) \<and>
       modelFamilyToken (rt_value (tokens ! i))) (take 3 (rev [0..<familyIndex]))"

definition identities_at :: "relatedToken list \<Rightarrow> string list \<Rightarrow> nat \<Rightarrow> modelIdentity list" where
  "identities_at tokens excluded index =
     (let token = tokens ! index in
      if \<not> isNumericToken (rt_value token) \<or> rt_measurement token \<or> index = 0 \<or> rt_value token \<in> set excluded \<or>
         rt_value (tokens ! (index - 1)) \<in> set excluded \<or> \<not> modelFamilyToken (rt_value (tokens ! (index - 1)))
      then []
      else
        let familyIndex = index - 1; versionOnly = version_end tokens excluded index;
            qualifier = qualifier_at tokens excluded versionOnly;
            versionEnd = (if qualifier \<noteq> [] then versionOnly + 1 else versionOnly);
            part = (\<lambda>i j. map rt_value (take (j - i) (drop i tokens)))
        in map (\<lambda>start. \<lparr>mi_phrase = join '' '' (part start versionEnd), mi_family = rt_value (tokens ! familyIndex),
                 mi_version = join '' '' (part index versionOnly), mi_qualifier = qualifier\<rparr>)
             (filter (\<lambda>start. list_all (\<lambda>v. v \<notin> set excluded) (part start versionEnd))
                (family_starts tokens excluded familyIndex)))"

text \<open>The first of each key; \<open>length xs\<close> is no bound.\<close>

definition first_of_each :: "('a \<Rightarrow> 'k) \<Rightarrow> 'a list \<Rightarrow> 'a list" where
  "first_of_each key xs = collect_unique (\<lambda>x. Some (key x)) (length xs) [] xs"

definition identityPhrasesFromTokens :: "relatedToken list \<Rightarrow> string list \<Rightarrow> modelIdentity list" where
  "identityPhrasesFromTokens tokens excluded =
     first_of_each mi_phrase (concat (map (identities_at tokens excluded) [0..<length tokens]))"

definition identityPhrases :: "string \<Rightarrow> string list \<Rightarrow> modelIdentity list" where
  "identityPhrases v excluded = identityPhrasesFromTokens (relatedTokens v) excluded"

definition relatedIdentities :: "string list \<Rightarrow> string list \<Rightarrow> string list \<times> string list" where
  "relatedIdentities texts excluded =
     (let phrases = map mi_phrase (first_of_each mi_phrase
            (concat (map (\<lambda>f. identityPhrasesFromTokens (relatedTokens f) excluded) texts)))
      in (phrases, concat (map str_fields phrases)))"

subsection \<open>Features\<close>

text \<open>\<open>relatedTerms\<close> takes the terms of the fields in turns, one per round, until the budget is used
  or a round adds nothing.\<close>

definition field_terms :: "string list \<Rightarrow> string list \<Rightarrow> string \<Rightarrow> string list" where
  "field_terms excluded identityTokens f =
     filter (\<lambda>v. \<not> (v \<in> set excluded \<or> v \<in> set identityTokens \<or> \<not> relatedFeatureTerm v)) (map rt_value (relatedTokens f))"

fun terms_round :: "nat \<Rightarrow> string list list \<Rightarrow> string list \<Rightarrow> string list" where
  "terms_round r [] terms = terms"
| "terms_round r (f # fs) terms =
     (if length f \<le> r \<or> f ! r \<in> set terms then terms_round r fs terms
      else if length (terms @ [f ! r]) = MaxQueryTerms then terms @ [f ! r]
      else terms_round r fs (terms @ [f ! r]))"

lemma terms_round_grows: "\<exists>new. terms_round r fs terms = terms @ new"
  by (induction r fs terms rule: terms_round.induct) auto

function terms_rounds :: "nat \<Rightarrow> string list list \<Rightarrow> string list \<Rightarrow> string list" where
  "terms_rounds r fs terms =
     (if length terms \<ge> MaxQueryTerms then terms
      else let next = terms_round r fs terms
           in if length next = length terms then next else terms_rounds (r + 1) fs next)"
  by pat_completeness auto
termination
proof (relation "measure (\<lambda>(r, fs, terms). MaxQueryTerms - length terms)", simp, goal_cases)
  case (1 r fs terms x)
  obtain new where "terms_round r fs terms = terms @ new" using terms_round_grows by blast
  moreover from this 1 have "0 < length new" by (cases "new = []") auto
  ultimately show ?case using 1 by (simp add: diff_less_mono2)
qed

declare terms_rounds.simps [simp del]

definition relatedTerms :: "string list \<Rightarrow> string list \<Rightarrow> string list \<Rightarrow> string list" where
  "relatedTerms texts excluded identityTokens = terms_rounds 0 (map (field_terms excluded identityTokens) texts) []"

definition validSubjectTag :: "relatedToken list \<Rightarrow> string list \<Rightarrow> string list \<Rightarrow> bool" where
  "validSubjectTag tokens excluded identityTokens =
     (case tokens of
        [] \<Rightarrow> False
      | [t] \<Rightarrow> rt_value t \<notin> set excluded \<and> rt_value t \<notin> set identityTokens \<and> rt_value t \<notin> set weakSubjectTagTerms \<and>
          relatedFeatureTerm (rt_value t)
      | _ \<Rightarrow> length tokens \<le> 4 \<and>
          list_all (\<lambda>v. \<not> (v = [] \<or> v \<in> set excluded \<or> v \<in> set identityTokens \<or> v \<in> set searchStopWords \<or>
             v \<in> set relatedWeakTerms \<or> v \<in> set weakSubjectTagTerms) \<and>
             (relatedFeatureTerm v \<or> v \<in> set focusPhraseCompanions)) (map rt_value tokens) \<and>
          list_ex relatedFeatureTerm (map rt_value tokens))"

text \<open>Whether the tokens from \<open>index\<close> on are those wanted, without a break between them.\<close>

definition sequence_at :: "relatedToken list \<Rightarrow> relatedToken list \<Rightarrow> nat \<Rightarrow> bool" where
  "sequence_at tokens wanted index \<longleftrightarrow>
     map rt_value (take (length wanted) (drop index tokens)) = map rt_value wanted \<and>
     list_all (\<lambda>t. \<not> rt_breakBefore t) (tl (take (length wanted) (drop index tokens)))"

definition containsNamedFieldSequence :: "string list \<Rightarrow> relatedToken list \<Rightarrow> string list \<Rightarrow> string list \<Rightarrow> bool" where
  "containsNamedFieldSequence texts wanted excluded identityTokens =
     (if wanted = [] then False
      else list_ex (\<lambda>f. let tokens = relatedTokens f in
        list_ex (\<lambda>i. sequence_at tokens wanted i \<and>
            list_all (\<lambda>t. rt_value t \<notin> set excluded \<and> rt_value t \<notin> set identityTokens) (take (length wanted) (drop i tokens)) \<and>
            list_ex (\<lambda>t. hasUppercase (rt_original t)) (take (length wanted) (drop i tokens)))
          [0..<length tokens + 1 - length wanted]) texts)"

definition containsFieldToken :: "string list \<Rightarrow> string \<Rightarrow> string list \<Rightarrow> string list \<Rightarrow> bool" where
  "containsFieldToken texts target excluded identityTokens =
     list_ex (\<lambda>f. list_ex (\<lambda>t. rt_value t = target \<and> rt_value t \<notin> set excluded \<and> rt_value t \<notin> set identityTokens)
       (relatedTokens f)) texts"

definition containsAdjacentSequence :: "string \<Rightarrow> relatedToken list \<Rightarrow> bool" where
  "containsAdjacentSequence v wanted =
     (if wanted = [] then False
      else let tokens = relatedTokens v
           in list_ex (sequence_at tokens wanted) [0..<length tokens + 1 - length wanted])"

definition containsAnySubject :: "string \<Rightarrow> string list \<Rightarrow> bool" where
  "containsAnySubject v subjects =
     list_ex (\<lambda>subject. case relatedTokens subject of
          [] \<Rightarrow> False
        | [t] \<Rightarrow> containsFieldToken [v] (rt_value t) [] []
        | tokens \<Rightarrow> containsAdjacentSequence v tokens) subjects"

text \<open>\<open>add\<close> of \<open>relatedSubjectFeatures\<close>: the canonical phrase of a value, once, up to the bound.\<close>

definition relatedSubjectFeatures :: "string list \<Rightarrow> string list \<Rightarrow> string list \<Rightarrow> string list \<Rightarrow> string list" where
  "relatedSubjectFeatures texts tags excluded identityTokens =
     (let mixed = map rt_value (filter (\<lambda>t. \<not> (rt_value t \<in> set excluded \<or> rt_value t \<in> set identityTokens \<or>
              \<not> relatedFeatureTerm (rt_value t) \<or> \<not> hasInternalUppercase (rt_original t)))
            (concat (map relatedTokens texts)));
          tagged = map (\<lambda>tag. join '' '' (map rt_value (relatedTokens tag)))
            (filter (\<lambda>tag. validSubjectTag (relatedTokens tag) excluded identityTokens \<and>
               containsNamedFieldSequence texts (relatedTokens tag) excluded identityTokens) tags)
      in collect_unique (\<lambda>v. if v = [] then None else Some v) MaxSubjectFeatures []
           (map canonicalIdentityPhrase (mixed @ tagged)))"

definition focus_pairs :: "string list \<Rightarrow> string list \<Rightarrow> relatedToken list \<Rightarrow> string list" where
  "focus_pairs excluded identityTokens tokens =
     map (\<lambda>(l, r). rt_value l @ '' '' @ rt_value r)
       (filter (\<lambda>(l, r). \<not> (rt_breakBefore r \<or> rt_value l \<in> set excluded \<or> rt_value r \<in> set excluded \<or>
           rt_value l \<in> set identityTokens \<or> rt_value r \<in> set identityTokens \<or> \<not> focusedPair (rt_value l) (rt_value r)))
         (zip tokens (tl tokens)))"

definition relatedFocusPhrases :: "string list \<Rightarrow> string list \<Rightarrow> string list \<Rightarrow> string list" where
  "relatedFocusPhrases texts excluded identityTokens =
     collect_unique Some MaxFocusPhrases [] (concat (map (\<lambda>f. focus_pairs excluded identityTokens (relatedTokens f)) texts))"

definition uniqueTerms :: "string list \<Rightarrow> string list" where
  "uniqueTerms values =
     collect_unique (\<lambda>v. if v = [] then None else Some v) (length values) [] (map (\<lambda>v. trim_space (to_lower v)) values)"

definition relatedContentSubjects :: "string list \<Rightarrow> string list \<Rightarrow> string list \<Rightarrow> string list \<Rightarrow> string list" where
  "relatedContentSubjects subjects texts excluded identityTokens =
     filter (\<lambda>subject. validSubjectTag (relatedTokens subject) excluded identityTokens \<and>
       containsNamedFieldSequence texts (relatedTokens subject) excluded identityTokens) (uniqueTerms subjects)"

definition sharedPhrases :: "string list \<Rightarrow> string list \<Rightarrow> string list" where
  "sharedPhrases left right =
     filter (\<lambda>p. p \<noteq> [] \<and> p \<in> set (map canonicalIdentityPhrase right)) (map canonicalIdentityPhrase (uniqueTerms left))"

definition FeatureVariants :: "string \<Rightarrow> string list" where
  "FeatureVariants term =
     (if term = ''reset'' then [''reset'', ''resets'']
      else if term = ''resets'' then [''resets'', ''reset''] else [term])"

definition subjectFeatureTokens :: "string list \<Rightarrow> string list" where
  "subjectFeatureTokens subjects =
     (let ts = filter (\<lambda>v. v \<notin> set weakSubjectTagTerms) (map rt_value (concat (map relatedTokens subjects)))
      in if ''indonesia'' \<in> set ts \<or> ''indonesian'' \<in> set ts then ts @ [''indonesia'', ''indonesian''] else ts)"

definition filterSubjectFeaturePhrases :: "string list \<Rightarrow> string list \<Rightarrow> string list" where
  "filterSubjectFeaturePhrases phrases subjectTokens =
     filter (\<lambda>p. \<not> list_ex (\<lambda>v. v \<in> set subjectTokens) (str_fields p) \<or>
       list_ex (\<lambda>v. v \<in> set focusedTechnicalTerms) (str_fields p)) phrases"

definition describeSharedFeatures :: "string list \<Rightarrow> string list \<Rightarrow> string" where
  "describeSharedFeatures features phrases =
     (if features \<noteq> [] then join '', '' (take 3 features)
      else case phrases of [] \<Rightarrow> [] | p # _ \<Rightarrow> p)"

definition hasDistinctPhrase :: "string list \<Rightarrow> string list \<Rightarrow> bool" where
  "hasDistinctPhrase phrases excluded =
     list_ex (\<lambda>p. list_ex (\<lambda>v. v \<notin> set excluded \<and> relatedFeatureTerm v) (str_fields p)) phrases"

subsection \<open>Tokens of the Library search\<close>

fun search_scan :: "string \<Rightarrow> string \<Rightarrow> string list" where
  "search_scan [] current =
     (if current \<noteq> [] \<and> rune_count current \<le> MaxTermRunes \<and> current \<notin> set searchStopWords then [current] else [])"
| "search_scan (c # s) current =
     (if is_letter c \<or> is_number c then search_scan s (current @ [c])
      else (if current \<noteq> [] \<and> rune_count current \<le> MaxTermRunes \<and> current \<notin> set searchStopWords then [current] else []) @
           search_scan s [])"

definition tokenize :: "string \<Rightarrow> string list" where
  "tokenize v = search_scan (take_runes MaxFieldRunes (to_lower (trim_space v))) []"

definition containsPhrase :: "string \<Rightarrow> string list \<Rightarrow> bool" where
  "containsPhrase v phrase =
     (let ts = tokenize v in
      if phrase = [] \<or> length ts < length phrase then False
      else list_ex (\<lambda>i. take (length phrase) (drop i ts) = phrase) [0..<length ts + 1 - length phrase])"

definition structuredAnchorTerm :: "string \<Rightarrow> bool" where
  "structuredAnchorTerm term \<longleftrightarrow> term \<noteq> [] \<and> term \<notin> set searchStopWords \<and> term \<notin> set genericTerms"

definition phraseContainsAnchor :: "string list \<Rightarrow> string list \<Rightarrow> bool" where
  "phraseContainsAnchor ts anchors = list_ex (\<lambda>t. t \<in> set anchors) ts"

end
