(* ===== verification/ContentContext.thy ===== *)
theory ContentContext
  imports Context_Text Ranking "HOL-Library.List_Lexorder" "HOL-Library.Char_ord"
begin

text \<open>
  \<open>src/internal/contentcontext/engine.go\<close>: which remembered items are shown beside a post of the
  timeline. The engine extracts a query from the post, proves for each side which concrete issue
  belongs to which named owner (\<open>relatedIssueEvidence\<close>), admits a candidate when an owner and an issue
  are shared (\<open>scoreRelatedCandidate\<close>), and ranks what is admitted (\<open>match\<close>). The explicit Library
  search has a policy of its own (\<open>scoreCandidate\<close>). Fields that are only passed on are left out of
  the records.
\<close>

subsection \<open>Data\<close>

record memoryField =
  mf_label :: string
  mf_value :: string

datatype QueryMode = QueryRelated | QueryLibrarySearch

record Query =
  qu_Terms :: "string list"
  qu_Anchors :: "string list"
  qu_Phrases :: "string list"
  qu_Mode :: QueryMode
  qu_IdentityPhrases :: "string list"
  qu_SubjectFeatures :: "string list"
  qu_FocusPhrases :: "string list"
  qu_excludedAuthors :: "string list"
  qu_issueFields :: "memoryField list"

record ContextItem =
  ci_ID :: string
  ci_Source :: string
  ci_CanonicalEvidenceKey :: string
  ci_CanonicalPermalink :: string
  ci_CanonicalPlatformID :: string
  ci_Title :: string
  ci_Summary :: string
  ci_Author :: string
  ci_Tags :: "string list"
  ci_Facets :: "string list"
  ci_LifecycleState :: string
  ci_FullContent :: "string option"
  ci_UpdatedAt :: string

record Candidate =
  cd_Item :: ContextItem
  cd_BM25 :: rat
  cd_Feedback :: string
  cd_FeedbackID :: string

record FeedbackState =
  fs_ID :: string
  fs_Verdict :: string

record ContextMatch =
  cm_Item :: ContextItem
  cm_MatchReason :: string
  cm_Feedback :: "FeedbackState option"

record rankedMatch =
  rm_match :: ContextMatch
  rm_strength :: nat
  rm_bm25 :: rat

record candidateSignals =
  cs_admitted :: bool
  cs_strength :: nat
  cs_reason :: string

definition no_signals :: candidateSignals where
  "no_signals = \<lparr>cs_admitted = False, cs_strength = 0, cs_reason = []\<rparr>"

record ownedIssue =
  oi_owner :: string
  oi_issue :: string
  oi_field :: string
  oi_term :: string
  oi_start :: nat
  oi_end :: nat
  oi_ownerStart :: int
  oi_ownerEnd :: int
  oi_continuation :: bool

record issueOwnerMention =
  im_names :: "string list"
  im_start :: nat
  im_end :: nat

text \<open>The verb \<open>%q\<close> of \<open>fmt\<close>.\<close>

definition hex_digit :: "nat \<Rightarrow> char" where
  "hex_digit n = (if n < 10 then char_of (48 + n) else char_of (87 + n))"

definition quote_char :: "char \<Rightarrow> string" where
  "quote_char c =
     (let n = of_char c :: nat in
      if n = 34 \<or> n = 92 then [CHR 0x5C, c]
      else if 7 \<le> n \<and> n \<le> 13 then [CHR 0x5C, ''abtnvfr'' ! (n - 7)]
      else if n < 32 \<or> n = 127 then [CHR 0x5C, CHR ''x'', hex_digit (n div 16), hex_digit (n mod 16)]
      else [c])"

definition quoted :: "string \<Rightarrow> string" where
  "quoted s = [CHR 0x22] @ concat (map quote_char s) @ [CHR 0x22]"

subsection \<open>Concrete issues\<close>

definition concreteIssue :: "string \<Rightarrow> string" where
  "concreteIssue v =
     (let w = (if v = ''resets'' then ''reset'' else v)
      in if w \<in> set concreteRelatedIssues \<or> w \<in> set focusedTechnicalTerms then w else [])"

definition issueOwningSubjects :: "string list \<Rightarrow> string list" where
  "issueOwningSubjects subjects =
     filter (\<lambda>s. \<not> (concreteIssue s \<noteq> [] \<or> list_ex (\<lambda>v. concreteIssue v \<noteq> []) (str_fields s))) subjects"

definition concreteIssueAt :: "relatedToken list \<Rightarrow> nat \<Rightarrow> string \<times> nat" where
  "concreteIssueAt tokens index =
     (let single = (concreteIssue (rt_value (tokens ! index)), index + 1) in
      if index + 1 < length tokens \<and> \<not> rt_breakBefore (tokens ! (index + 1)) then
        let phrase = rt_value (tokens ! index) @ '' '' @ rt_value (tokens ! (index + 1))
        in if phrase \<in> set concreteRelatedIssues then (phrase, index + 2) else single
      else single)"

text \<open>The terms of the left proofs whose issue the right side has for the same owner, once per issue.\<close>

definition sharedOwnedIssues :: "ownedIssue list \<Rightarrow> ownedIssue list \<Rightarrow> string \<Rightarrow> string list" where
  "sharedOwnedIssues left right owner =
     (let rightIssues = map oi_issue (filter (\<lambda>p. oi_owner p = owner) right)
      in map oi_term (first_of_each oi_issue (filter (\<lambda>p. oi_owner p = owner \<and> oi_issue p \<in> set rightIssues) left)))"

definition boundedIssueField :: "string \<Rightarrow> string" where
  "boundedIssueField v = take_runes MaxFieldRunes (trim_space v)"

subsection \<open>Owners\<close>

definition withinOwnerMention :: "nat \<Rightarrow> issueOwnerMention list \<Rightarrow> bool" where
  "withinOwnerMention index mentions = list_ex (\<lambda>m. im_start m < index \<and> index < im_end m) mentions"

definition tokenIsOwner :: "nat \<Rightarrow> issueOwnerMention list \<Rightarrow> bool" where
  "tokenIsOwner index mentions = list_ex (\<lambda>m. im_start m \<le> index \<and> index < im_end m) mentions"

definition name_at :: "relatedToken list \<Rightarrow> string list \<Rightarrow> string list \<Rightarrow> nat \<Rightarrow> string \<Rightarrow> bool" where
  "name_at tokens identities excluded index name =
     (let parts = str_fields name in
      parts \<noteq> [] \<and> index + length parts \<le> length tokens \<and>
      list_all (\<lambda>k. rt_value (tokens ! (index + k)) = parts ! k \<and> parts ! k \<notin> set excluded \<and>
          \<not> (0 < k \<and> rt_breakBefore (tokens ! (index + k)) \<and> name \<notin> set identities))
        [0..<length parts])"

definition longest_owner :: "relatedToken list \<Rightarrow> string list \<Rightarrow> string list \<Rightarrow> string list \<Rightarrow> nat \<Rightarrow> issueOwnerMention" where
  "longest_owner tokens definitions identities excluded index =
     foldl (\<lambda>best name.
         if name_at tokens identities excluded index name \<and> index + length (str_fields name) > im_end best
         then best\<lparr>im_end := index + length (str_fields name), im_names := [name]\<rparr> else best)
       \<lparr>im_names = [], im_start = index, im_end = index\<rparr> definitions"

text \<open>The other identities that end where the longest one ends.\<close>

definition owner_aliases :: "relatedToken list \<Rightarrow> string list \<Rightarrow> string list \<Rightarrow> issueOwnerMention \<Rightarrow> issueOwnerMention" where
  "owner_aliases tokens definitions identities best =
     foldl (\<lambda>m name. let parts = str_fields name in
         if name \<notin> set identities \<or> length parts > im_end m - im_start m \<or> name \<in> set (im_names m) then m
         else if list_all (\<lambda>k. rt_value (tokens ! (im_end m - length parts + k)) = parts ! k) [0..<length parts]
         then m\<lparr>im_names := im_names m @ [name]\<rparr> else m)
       best definitions"

definition boundary_at :: "relatedToken list \<Rightarrow> string list \<Rightarrow> nat \<Rightarrow> bool" where
  "boundary_at tokens excluded index =
     (let token = tokens ! index; issue = fst (concreteIssueAt tokens index);
          phrasePart = (index > 0 \<and> snd (concreteIssueAt tokens (index - 1)) > index);
          namedBoundary = (rt_value token \<in> set boundaryOwnerNames \<or>
            hasUppercase (rt_original token) \<and> relatedFeatureTerm (rt_value token))
      in namedBoundary \<and> issue = [] \<and> \<not> phrasePart \<and> rt_value token \<notin> set excluded \<and>
         \<not> relatedDurationUnit (rt_value token) \<and> rt_value token \<notin> set issueContextLabels)"

definition boundary_name :: "string \<Rightarrow> string" where
  "boundary_name v = ''boundary:'' @ v"

function mentions_from :: "relatedToken list \<Rightarrow> string list \<Rightarrow> string list \<Rightarrow> string list \<Rightarrow> nat \<Rightarrow> issueOwnerMention list" where
  "mentions_from tokens definitions identities excluded index =
     (if length tokens \<le> index then []
      else
        let best = longest_owner tokens definitions identities excluded index in
        if im_end best > index then
          owner_aliases tokens definitions identities best #
          mentions_from tokens definitions identities excluded (im_end best)
        else
          (if boundary_at tokens excluded index
           then [\<lparr>im_names = [boundary_name (rt_value (tokens ! index))], im_start = index, im_end = index + 1\<rparr>] else []) @
          mentions_from tokens definitions identities excluded (index + 1))"
  by pat_completeness auto
termination
  by (relation "measure (\<lambda>(tokens, d, i, e, index). length tokens - index)") auto

declare mentions_from.simps [simp del]

text \<open>Only an explicit adjacent conjunction shares an issue between owners.\<close>

definition conjoined :: "relatedToken list \<Rightarrow> issueOwnerMention \<Rightarrow> issueOwnerMention \<Rightarrow> bool" where
  "conjoined tokens previous mention \<longleftrightarrow>
     im_start mention = im_end previous + 1 \<and> rt_value (tokens ! im_end previous) = ''and'' \<and>
     \<not> rt_breakBefore (tokens ! im_end previous) \<and> \<not> rt_breakBefore (tokens ! im_start mention)"

fun group_mentions :: "relatedToken list \<Rightarrow> issueOwnerMention \<Rightarrow> issueOwnerMention list \<Rightarrow> issueOwnerMention list" where
  "group_mentions tokens previous [] = [previous]"
| "group_mentions tokens previous (m # ms) =
     (if conjoined tokens previous m
      then group_mentions tokens (previous\<lparr>im_names := im_names previous @ im_names m, im_end := im_end m\<rparr>) ms
      else previous # group_mentions tokens m ms)"

definition issueOwnerMentions :: "relatedToken list \<Rightarrow> string list \<Rightarrow> string list \<Rightarrow> string list \<Rightarrow> issueOwnerMention list" where
  "issueOwnerMentions tokens definitions identities excluded =
     (case mentions_from tokens definitions identities excluded 0 of
        [] \<Rightarrow> []
      | m # ms \<Rightarrow> group_mentions tokens m ms)"

fun nearest_loop :: "nat \<Rightarrow> relatedToken list \<Rightarrow> issueOwnerMention option \<Rightarrow> issueOwnerMention list \<Rightarrow> issueOwnerMention option" where
  "nearest_loop index tokens previous [] =
     (case previous of
        Some p \<Rightarrow> if index - im_end p \<le> 16 then Some p else None
      | None \<Rightarrow> None)"
| "nearest_loop index tokens previous (m # ms) =
     (if im_end m \<le> index then nearest_loop index tokens (Some m) ms
      else if im_start m > index then
        (if im_start m - index \<le> 8 \<and>
            (previous = None \<or> rt_value (tokens ! (im_start m - 1)) \<in> {''for'', ''of'', ''in''})
         then Some m else nearest_loop index tokens previous [])
      else nearest_loop index tokens previous ms)"

definition nearestIssueOwner :: "nat \<Rightarrow> issueOwnerMention list \<Rightarrow> relatedToken list \<Rightarrow> bool \<Rightarrow> issueOwnerMention option" where
  "nearestIssueOwner index mentions tokens inherited =
     (if inherited \<and> length mentions = 1 then Some (hd mentions) else nearest_loop index tokens None mentions)"

subsection \<open>Which issue belongs to which owner\<close>

text \<open>What \<open>relatedIssueEvidence\<close> has computed before it walks a field.\<close>

record evidenceScope =
  es_definitions :: "string list"
  es_identities :: "string list"
  es_excluded :: "string list"
  es_primary :: "string list"

record fieldView =
  fv_label :: string
  fv_text :: string
  fv_tokens :: "relatedToken list"
  fv_mentions :: "issueOwnerMention list"

definition field_view :: "string list \<Rightarrow> string list \<Rightarrow> string list \<Rightarrow> memoryField \<Rightarrow> fieldView" where
  "field_view definitions identities excluded f =
     (let text = boundedIssueField (mf_value f); tokens = relatedTokens text
      in \<lparr>fv_label = mf_label f, fv_text = text, fv_tokens = tokens,
          fv_mentions = issueOwnerMentions tokens definitions identities excluded\<rparr>)"

definition segment_end :: "fieldView \<Rightarrow> nat \<Rightarrow> nat" where
  "segment_end v start = start + 1 + length (takeWhile
     (\<lambda>i. \<not> rt_breakBefore (fv_tokens v ! i) \<or> withinOwnerMention i (fv_mentions v)) [start + 1..<length (fv_tokens v)])"

definition in_segment :: "fieldView \<Rightarrow> nat \<Rightarrow> nat \<Rightarrow> issueOwnerMention list" where
  "in_segment v start end = filter (\<lambda>m. start \<le> im_start m \<and> im_start m < end) (fv_mentions v)"

text \<open>The owners a segment may speak of, and whether they were inherited: its own mentions; else the
  one owner of the segment before, through a pronoun or a heading; else, in a summary, the sole
  primary owner.\<close>

definition segment_owners :: "evidenceScope \<Rightarrow> fieldView \<Rightarrow> nat \<Rightarrow> nat \<Rightarrow> issueOwnerMention list \<Rightarrow> bool \<Rightarrow> issueOwnerMention list \<times> bool" where
  "segment_owners sc v start end previous previousHadIssue =
     (let own = in_segment v start end; tokens = fv_tokens v;
          pronoun = (rt_value (tokens ! start) \<in> {''it'', ''its''});
          heading = (start > 0 \<and> \<not> previousHadIssue \<and>
            CHR '':'' \<in> set (between (fv_text v) (rt_end (tokens ! (start - 1))) (rt_start (tokens ! start))));
          carried = (own = [] \<and> length previous = 1 \<and> (pronoun \<or> heading));
          local = (if carried then previous else own)
      in if local = [] \<and> fv_label v = ''summary'' \<and> length (es_primary sc) = 1
         then ([\<lparr>im_names = es_primary sc, im_start = start, im_end = start\<rparr>], True)
         else (local, carried))"

definition issue_here :: "evidenceScope \<Rightarrow> fieldView \<Rightarrow> nat \<Rightarrow> bool" where
  "issue_here sc v index \<longleftrightarrow>
     \<not> (fst (concreteIssueAt (fv_tokens v) index) = [] \<or> rt_value (fv_tokens v ! index) \<in> set (es_excluded sc) \<or>
        tokenIsOwner index (fv_mentions v))"

definition proof_term :: "fieldView \<Rightarrow> nat \<Rightarrow> nat \<Rightarrow> nat \<Rightarrow> string" where
  "proof_term v start end index =
     (let tokens = fv_tokens v; val = (\<lambda>i. rt_value (tokens ! i));
          (issue, issueEnd) = concreteIssueAt tokens index
      in if issueEnd > index + 1 then issue
         else if index > start \<and> \<not> rt_breakBefore (tokens ! index) \<and> \<not> tokenIsOwner (index - 1) (fv_mentions v) \<and>
            focusedPair (val (index - 1)) (val index)
         then val (index - 1) @ '' '' @ val index
         else if index + 1 < end \<and> \<not> rt_breakBefore (tokens ! (index + 1)) \<and> \<not> tokenIsOwner (index + 1) (fv_mentions v) \<and>
            focusedPair (val index) (val (index + 1))
         then val index @ '' '' @ val (index + 1)
         else val index)"

definition proofs_at :: "evidenceScope \<Rightarrow> fieldView \<Rightarrow> nat \<Rightarrow> nat \<Rightarrow> issueOwnerMention list \<Rightarrow> bool \<Rightarrow> nat \<Rightarrow> ownedIssue list" where
  "proofs_at sc v start end local inherited index =
     (let tokens = fv_tokens v; (issue, issueEnd) = concreteIssueAt tokens index in
      if \<not> issue_here sc v index \<or> (fv_label v = ''summary'' \<and> issue \<notin> set focusedTechnicalTerms) then []
      else case nearestIssueOwner index local tokens inherited of
             None \<Rightarrow> []
           | Some owner \<Rightarrow>
               map (\<lambda>name. \<lparr>oi_owner = name, oi_issue = issue, oi_field = fv_label v,
                   oi_term = proof_term v start end index,
                   oi_start = rt_start (tokens ! index), oi_end = rt_end (tokens ! (issueEnd - 1)),
                   oi_ownerStart = (if inherited then - 1 else int (rt_start (tokens ! im_start owner))),
                   oi_ownerEnd = (if inherited then - 1 else int (rt_end (tokens ! (im_end owner - 1)))),
                   oi_continuation = inherited\<rparr>)
                 (filter (\<lambda>name. name \<in> set (es_definitions sc) \<and>
                    (fv_label v = ''summary'' \<longrightarrow> name \<in> set (es_primary sc))) (im_names owner)))"

function segment_proofs :: "evidenceScope \<Rightarrow> fieldView \<Rightarrow> nat \<Rightarrow> issueOwnerMention list \<Rightarrow> bool \<Rightarrow> ownedIssue list" where
  "segment_proofs sc v start previous previousHadIssue =
     (if length (fv_tokens v) \<le> start then []
      else
        let end = segment_end v start;
            (local, inherited) = segment_owners sc v start end previous previousHadIssue
        in concat (map (proofs_at sc v start end local inherited) [start..<end]) @
           segment_proofs sc v end local (list_ex (issue_here sc v) [start..<end]))"
  by pat_completeness auto
termination
  by (relation "measure (\<lambda>(sc, v, start, p, h). length (fv_tokens v) - start)") (auto simp: segment_end_def)

declare segment_proofs.simps [simp del]

definition primary_owners :: "fieldView list \<Rightarrow> string list" where
  "primary_owners views =
     remdups (concat (map im_names (concat (map fv_mentions (filter (\<lambda>v. fv_label v \<noteq> ''summary'') views)))))"

definition owner_definitions :: "string list \<Rightarrow> string list \<Rightarrow> string list" where
  "owner_definitions subjects identities = take 32 (uniqueTerms (identities @ subjects))"

definition evidence_scope :: "memoryField list \<Rightarrow> string list \<Rightarrow> string list \<Rightarrow> string list \<Rightarrow> evidenceScope" where
  "evidence_scope texts subjects identities excluded =
     (let definitions = owner_definitions subjects identities
      in \<lparr>es_definitions = definitions, es_identities = identities, es_excluded = excluded,
          es_primary = primary_owners (map (field_view definitions identities excluded) texts)\<rparr>)"

definition relatedIssueEvidence :: "memoryField list \<Rightarrow> string list \<Rightarrow> string list \<Rightarrow> string list \<Rightarrow> ownedIssue list" where
  "relatedIssueEvidence texts subjects identities excluded =
     (let sc = evidence_scope texts subjects identities excluded in
      take 64 (concat (map (\<lambda>f. segment_proofs sc (field_view (es_definitions sc) identities excluded f) 0 [] False) texts)))"

subsection \<open>The admission of a candidate\<close>

definition item_fields :: "ContextItem \<Rightarrow> memoryField list" where
  "item_fields item =
     [\<lparr>mf_label = ''title'', mf_value = ci_Title item\<rparr>, \<lparr>mf_label = ''summary'', mf_value = ci_Summary item\<rparr>] @
     (case ci_FullContent item of None \<Rightarrow> [] | Some text \<Rightarrow> [\<lparr>mf_label = ''retained text'', mf_value = text\<rparr>])"

definition admitted_with :: "nat \<Rightarrow> string \<Rightarrow> candidateSignals" where
  "admitted_with strength reason = \<lparr>cs_admitted = True, cs_strength = strength, cs_reason = reason\<rparr>"

text \<open>The loop over the names both sides have: the best number of shared issues.\<close>

definition best_shared :: "nat \<Rightarrow> string \<Rightarrow> ownedIssue list \<Rightarrow> ownedIssue list \<Rightarrow> string list \<Rightarrow> candidateSignals" where
  "best_shared base kind left right names =
     foldl (\<lambda>best name.
         let shared = sharedOwnedIssues left right name in
         if shared \<noteq> [] \<and> base + length shared * 100 > cs_strength best
         then admitted_with (base + length shared * 100)
           (''Shared '' @ kind @ '' '' @ quoted name @ '' and issue '' @ quoted (describeSharedFeatures shared []) @ ''.'')
         else best)
       no_signals names"

text \<open>What \<open>scoreRelatedCandidate\<close> computes before its decisions.\<close>

record relatedView =
  rv_identities :: "string list"
  rv_querySubjects :: "string list"
  rv_subjects :: "string list"
  rv_sharedFocus :: "string list"
  rv_sharedSubjects :: "string list"
  rv_queryIssues :: "ownedIssue list"
  rv_issues :: "ownedIssue list"

definition excluded_authors :: "Query \<Rightarrow> ContextItem \<Rightarrow> string list" where
  "excluded_authors q item = qu_excludedAuthors q @ authorTokens [ci_Author item]"

definition owner_names :: "Query \<Rightarrow> relatedView \<Rightarrow> string list" where
  "owner_names q v = uniqueTerms (rv_querySubjects v @ rv_subjects v)"

definition related_view :: "Query \<Rightarrow> ContextItem \<Rightarrow> relatedView" where
  "related_view q item =
     (let excluded = excluded_authors q item;
          parts = item_fields item;
          texts = map mf_value parts;
          (candidateIdentities, identityTokens) = relatedIdentities texts excluded;
          candidateFocus = relatedFocusPhrases texts excluded identityTokens;
          candidateSubjects = issueOwningSubjects
            (relatedSubjectFeatures texts (ci_Tags item @ ci_Facets item) excluded identityTokens);
          querySubjects = issueOwningSubjects (qu_SubjectFeatures q);
          owners = uniqueTerms (querySubjects @ candidateSubjects);
          identities = uniqueTerms (qu_IdentityPhrases q @ candidateIdentities)
      in \<lparr>rv_identities = candidateIdentities, rv_querySubjects = querySubjects, rv_subjects = candidateSubjects,
          rv_sharedFocus = filterSubjectFeaturePhrases (sharedPhrases (qu_FocusPhrases q) candidateFocus)
            (subjectFeatureTokens (qu_SubjectFeatures q @ candidateSubjects)),
          rv_sharedSubjects = sharedPhrases querySubjects
            (candidateSubjects @ relatedContentSubjects querySubjects texts excluded identityTokens),
          rv_queryIssues = relatedIssueEvidence (qu_issueFields q) owners identities excluded,
          rv_issues = relatedIssueEvidence parts owners identities excluded\<rparr>)"

definition focus_signals :: "relatedView \<Rightarrow> candidateSignals" where
  "focus_signals v =
     (case rv_sharedFocus v of
        [] \<Rightarrow> no_signals
      | p # _ \<Rightarrow> admitted_with (length (rv_sharedFocus v) * 120) (''Shared focused phrase '' @ quoted p @ ''.''))"

definition empty_query :: "Query \<Rightarrow> bool" where
  "empty_query q \<longleftrightarrow> qu_Terms q = [] \<and> qu_IdentityPhrases q = [] \<and> qu_SubjectFeatures q = [] \<and> qu_FocusPhrases q = []"

definition scoreRelatedCandidate :: "Query \<Rightarrow> ContextItem \<Rightarrow> candidateSignals" where
  "scoreRelatedCandidate q item =
     (if empty_query q then no_signals
      else
        let v = related_view q item in
        if qu_IdentityPhrases q \<noteq> [] then
          best_shared 300 ''model identity'' (rv_queryIssues v) (rv_issues v)
            (filter (\<lambda>i. i \<in> set (map canonicalIdentityPhrase (qu_IdentityPhrases q))) (rv_identities v))
        else if rv_querySubjects v \<noteq> [] then
          let best = best_shared 250 ''subject'' (rv_queryIssues v) (rv_issues v)
                (filter (\<lambda>s. s \<in> set (rv_sharedSubjects v)) (uniqueTerms (rv_querySubjects v)))
          in if cs_admitted best then best
             else if rv_sharedSubjects v \<noteq> [] \<or> rv_subjects v \<noteq> [] \<or> rv_identities v \<noteq> [] \<or>
               \<not> hasDistinctPhrase (rv_sharedFocus v) []
             then no_signals else focus_signals v
        else focus_signals v)"

subsection \<open>The Library search\<close>

definition memoryFields :: "ContextItem \<Rightarrow> memoryField list" where
  "memoryFields item =
     [\<lparr>mf_label = ''title'', mf_value = ci_Title item\<rparr>, \<lparr>mf_label = ''summary'', mf_value = ci_Summary item\<rparr>,
      \<lparr>mf_label = ''author'', mf_value = ci_Author item\<rparr>, \<lparr>mf_label = ''tags'', mf_value = join '' '' (ci_Tags item)\<rparr>,
      \<lparr>mf_label = ''facets'', mf_value = join '' '' (ci_Facets item)\<rparr>] @
     (case ci_FullContent item of None \<Rightarrow> [] | Some text \<Rightarrow> [\<lparr>mf_label = ''retained text'', mf_value = text\<rparr>])"

definition scoreCandidate :: "string list \<Rightarrow> string list \<Rightarrow> string list \<Rightarrow> ContextItem \<Rightarrow> candidateSignals" where
  "scoreCandidate queryTerms queryAnchors queryPhrases item =
     (let parts = map (\<lambda>f. (mf_label f, mf_value f, tokenize (mf_value f))) (memoryFields item);
          terms = filter (\<lambda>term. term \<notin> set genericTerms) queryTerms;
          shared = filter (\<lambda>term. list_ex (\<lambda>(label, val, ts). term \<in> set ts) parts) terms;
          sharedAnchors = filter (\<lambda>term. term \<in> set queryAnchors) shared;
          phrases = filter (\<lambda>p. \<not> (length (str_fields p) < 2 \<or> \<not> phraseContainsAnchor (str_fields p) queryAnchors)) queryPhrases;
          found = filter (\<lambda>p. list_ex (\<lambda>(label, val, ts). containsPhrase val (str_fields p)) parts) phrases;
          phraseSupport = concat (map (\<lambda>p. map fst (take 1 (filter (\<lambda>(label, val, ts). containsPhrase val (str_fields p)) parts))) found);
          labels = map fst (filter (\<lambda>(label, val, ts).
            list_ex (\<lambda>term. term \<in> set ts) terms \<or> label \<in> set phraseSupport) parts);
          support = ''; supported by '' @ join '', '' labels @ ''.''
      in if sharedAnchors = [] \<and> found = [] then no_signals
         else admitted_with (length sharedAnchors * 100 + length found * 80 + length labels * 5)
           (case found of
              p # _ \<Rightarrow> ''Shared phrase '' @ quoted p @ support
            | [] \<Rightarrow> ''Shared topics: '' @ join '', '' (take 3 sharedAnchors) @ support))"

subsection \<open>The query\<close>

record TimelinePost =
  tp_WhatChanged :: string
  tp_WhyItMatters :: string
  tp_Author :: string
  tp_TopicTags :: "string list"
  tp_TopicFacets :: "string list"
  tp_Evidence :: "(string \<times> string) option"

text \<open>The text and the author of the evidence, when the post still has it.\<close>

definition Extract :: "TimelinePost \<Rightarrow> Query" where
  "Extract post =
     (let text = (case tp_Evidence post of None \<Rightarrow> [] | Some (t, a) \<Rightarrow> t);
          authors = (case tp_Evidence post of
            None \<Rightarrow> [tp_Author post]
          | Some (t, a) \<Rightarrow> if trim_space a \<noteq> [] then [a] else [tp_Author post]);
          sourceFields = [tp_WhatChanged post, tp_WhyItMatters post, text];
          excluded = authorTokens authors;
          (identities, identityTokens) = relatedIdentities sourceFields excluded;
          primary = relatedTerms [tp_WhatChanged post, text] excluded identityTokens;
          strictTerms = foldl (\<lambda>ts term.
              if term \<in> set focusedTechnicalTerms \<and> term \<notin> set ts \<and> length ts < MaxQueryTerms then ts @ [term] else ts)
            primary (relatedTerms [tp_WhyItMatters post] excluded identityTokens);
          identityPhrases = take MaxIdentityPhrases identities
      in \<lparr>qu_Terms = take (MaxQueryTerms - length identityPhrases) strictTerms, qu_Anchors = [], qu_Phrases = [],
          qu_Mode = QueryRelated, qu_IdentityPhrases = identityPhrases,
          qu_SubjectFeatures =
            relatedSubjectFeatures sourceFields (tp_TopicTags post @ tp_TopicFacets post) excluded identityTokens,
          qu_FocusPhrases = relatedFocusPhrases sourceFields excluded identityTokens,
          qu_excludedAuthors = excluded,
          qu_issueFields =
            [\<lparr>mf_label = ''title'', mf_value = tp_WhatChanged post\<rparr>, \<lparr>mf_label = ''retained text'', mf_value = text\<rparr>,
             \<lparr>mf_label = ''summary'', mf_value = tp_WhyItMatters post\<rparr>]\<rparr>)"

definition ExtractSearch :: "string \<Rightarrow> Query" where
  "ExtractSearch v =
     (let terms = take MaxQueryTerms (uniqueTerms (tokenize v));
          anchors = filter structuredAnchorTerm terms;
          pairs = filter (\<lambda>(a, b). phraseContainsAnchor [a, b] anchors) (zip terms (tl terms))
      in \<lparr>qu_Terms = terms, qu_Anchors = anchors, qu_Phrases = take 6 (map (\<lambda>(a, b). join '' '' [a, b]) pairs),
          qu_Mode = QueryLibrarySearch, qu_IdentityPhrases = [], qu_SubjectFeatures = [], qu_FocusPhrases = [],
          qu_excludedAuthors = [], qu_issueFields = []\<rparr>)"

subsection \<open>The ranking\<close>

definition outranks :: "rankedMatch \<Rightarrow> rankedMatch \<Rightarrow> bool" where
  "outranks a b =
     (if rm_strength a \<noteq> rm_strength b then rm_strength a > rm_strength b
      else if rm_bm25 a \<noteq> rm_bm25 b then rm_bm25 a < rm_bm25 b
      else
        let left = cm_Item (rm_match a); right = cm_Item (rm_match b)
        in if ci_UpdatedAt left \<noteq> ci_UpdatedAt right then ci_UpdatedAt left > ci_UpdatedAt right
           else ci_ID left > ci_ID right)"

definition ValidDecision :: "string \<Rightarrow> bool" where
  "ValidDecision v \<longleftrightarrow> v = ''relevant'' \<or> v = ''not_relevant''"

definition candidate_signals :: "Query \<Rightarrow> ContextItem \<Rightarrow> candidateSignals" where
  "candidate_signals q item =
     (if qu_Mode q = QueryLibrarySearch
      then scoreCandidate (uniqueTerms (qu_Terms q)) (uniqueTerms (qu_Anchors q)) (uniqueTerms (qu_Phrases q)) item
      else scoreRelatedCandidate q item)"

definition accept :: "Query \<Rightarrow> Candidate \<Rightarrow> rankedMatch option" where
  "accept q c =
     (let state = ci_LifecycleState (cd_Item c); signals = candidate_signals q (cd_Item c) in
      if state \<noteq> [] \<and> state \<noteq> ''active'' then None
      else if cd_Feedback c = ''not_relevant'' then None
      else if \<not> cs_admitted signals then None
      else Some
        \<lparr>rm_match = \<lparr>cm_Item = cd_Item c, cm_MatchReason = cs_reason signals,
           cm_Feedback = (if ValidDecision (cd_Feedback c) \<and> cd_FeedbackID c \<noteq> []
             then Some \<lparr>fs_ID = cd_FeedbackID c, fs_Verdict = cd_Feedback c\<rparr> else None)\<rparr>,
         rm_strength = (if cd_Feedback c = ''relevant'' then cs_strength signals + 1000 else cs_strength signals),
         rm_bm25 = cd_BM25 c\<rparr>)"

definition unanswerable :: "Query \<Rightarrow> bool" where
  "unanswerable q =
     (if qu_Mode q = QueryLibrarySearch then uniqueTerms (qu_Terms q) = [] \<or> uniqueTerms (qu_Anchors q) = []
      else uniqueTerms (qu_Terms q) = [] \<and> qu_IdentityPhrases q = [] \<and> qu_SubjectFeatures q = [] \<and> qu_FocusPhrases q = [])"

definition match_upto :: "Query \<Rightarrow> Candidate list \<Rightarrow> nat \<Rightarrow> ContextMatch list" where
  "match_upto q candidates limit =
     (if limit = 0 \<or> unanswerable q then []
      else map rm_match (take limit (sort_by outranks (List.map_filter (accept q) candidates))))"

definition Match :: "Query \<Rightarrow> Candidate list \<Rightarrow> int \<Rightarrow> ContextMatch list" where
  "Match q candidates limit = (if limit < 1 \<or> limit > 5 then [] else match_upto q candidates (nat limit))"

definition MatchAll :: "Query \<Rightarrow> Candidate list \<Rightarrow> ContextMatch list" where
  "MatchAll q candidates = match_upto q candidates (length candidates)"

subsection \<open>Topics\<close>

definition containsExactFeatureIdentity :: "Query \<Rightarrow> string \<Rightarrow> bool" where
  "containsExactFeatureIdentity q identity \<longleftrightarrow>
     identity \<noteq> [] \<and> list_ex (\<lambda>f. canonicalIdentityPhrase f = identity) (qu_SubjectFeatures q @ qu_FocusPhrases q)"

definition identity_score :: "Query \<Rightarrow> string list \<Rightarrow> nat" where
  "identity_score q identities =
     (let wanted = map canonicalIdentityPhrase (qu_IdentityPhrases q) in
      case filter (\<lambda>p. p \<in> set wanted) (map mi_phrase (concat (map (\<lambda>i. identityPhrases i []) identities))) of
        [] \<Rightarrow> 0
      | p # _ \<Rightarrow> 250 + length (str_fields p))"

definition feature_score :: "Query \<Rightarrow> string \<Rightarrow> nat \<Rightarrow> nat" where
  "feature_score q identity best =
     (let exact = containsExactFeatureIdentity q (canonicalIdentityPhrase identity);
          phrase = (sharedPhrases (qu_FocusPhrases q) (relatedFocusPhrases [identity] [] []) \<noteq> [] \<and>
            (qu_SubjectFeatures q = [] \<or> containsAnySubject identity (qu_SubjectFeatures q)));
          subject = containsAnySubject identity (qu_SubjectFeatures q);
          best = (if exact \<and> best < 280 then 280 else best);
          best = (if phrase \<and> best < 220 then 220 else best)
      in if subject \<and> best < 110 then 110 else best)"

definition term_score :: "Query \<Rightarrow> string \<Rightarrow> nat \<Rightarrow> nat" where
  "term_score q identity best =
     (let meaningful = filter (\<lambda>v. v \<notin> set genericTerms \<and> v \<notin> set searchStopWords) (uniqueTerms (tokenize identity));
          required = (if length meaningful > 1 then 2 else 1);
          matched = length (filter (\<lambda>v. v \<in> set (uniqueTerms (qu_Terms q))) meaningful)
      in if meaningful = [] then best
         else if matched = length meaningful then (if 100 + matched > best then 100 + matched else best)
         else if matched \<ge> required \<and> matched > best then matched else best)"

definition TopicIdentitySpecificity :: "Query \<Rightarrow> string \<Rightarrow> string list \<Rightarrow> nat" where
  "TopicIdentitySpecificity q name others =
     (if qu_Mode q \<noteq> QueryLibrarySearch \<and> qu_IdentityPhrases q \<noteq> [] then identity_score q (name # others)
      else if qu_Mode q \<noteq> QueryLibrarySearch \<and> (qu_SubjectFeatures q \<noteq> [] \<or> qu_FocusPhrases q \<noteq> [])
      then foldl (\<lambda>best i. feature_score q i best) 0 (name # others)
      else foldl (\<lambda>best i. term_score q i best) 0 (name # others))"

definition TopicIdentityMatches :: "Query \<Rightarrow> string \<Rightarrow> string list \<Rightarrow> bool" where
  "TopicIdentityMatches q name others \<longleftrightarrow> TopicIdentitySpecificity q name others > 0"

end
