(* ===== verification/Context_Proofs.thy ===== *)
theory Context_Proofs
  imports ContentContext
begin

text \<open>
  What makes the content context correct: the mentions of a field are in order and spell the names they
  stand for, a proof of an issue binds it to the nearest owner, an admission needs a proof on both
  sides, the ranking is a strict weak order, and the query is bounded.
\<close>

subsection \<open>Mentions of owners\<close>

lemma foldl_keeps:
  "P a \<Longrightarrow> (\<And>b x. x \<in> set xs \<Longrightarrow> P b \<Longrightarrow> P (f b x)) \<Longrightarrow> P (foldl f a xs)"
  by (induction xs arbitrary: a) auto











subsection \<open>The owner of an issue\<close>
















lemma es_definitions_scope [simp]:
  "es_definitions (evidence_scope texts subjects identities excluded) = owner_definitions subjects identities"
  by (simp add: evidence_scope_def Let_def)


lemma evidence_bounded: "length (relatedIssueEvidence texts subjects identities excluded) \<le> 64"
  by (simp add: relatedIssueEvidence_def Let_def)


subsection \<open>Admission\<close>

definition owned_on_both_sides :: "ownedIssue list \<Rightarrow> ownedIssue list \<Rightarrow> string \<Rightarrow> string \<Rightarrow> bool" where
  "owned_on_both_sides left right name issue \<longleftrightarrow>
     (\<exists>l \<in> set left. oi_owner l = name \<and> oi_issue l = issue) \<and> (\<exists>r \<in> set right. oi_owner r = name \<and> oi_issue r = issue)"

lemma sharedOwnedIssues_owned:
  "sharedOwnedIssues left right name \<noteq> [] \<Longrightarrow> \<exists>issue. owned_on_both_sides left right name issue"
proof -
  define common where "common = filter (\<lambda>p. oi_owner p = name \<and> oi_issue p \<in> set (map oi_issue (filter (\<lambda>p. oi_owner p = name) right))) left"
  assume "sharedOwnedIssues left right name \<noteq> []"
  then have "first_of_each oi_issue common \<noteq> []" by (simp add: sharedOwnedIssues_def common_def)
  then obtain l where "l \<in> set common"
    unfolding first_of_each_def by (metis collect_unique.simps(1) list.set_intros(1) neq_Nil_conv)
  then show ?thesis unfolding common_def owned_on_both_sides_def by auto
qed

lemma best_shared_cases:
  fixes base kind left right names
  defines "b \<equiv> best_shared base kind left right names"
  shows "b = no_signals \<or> (cs_admitted b \<and> (\<exists>name \<in> set names. \<exists>issue. owned_on_both_sides left right name issue \<and>
    cs_strength b = base + length (sharedOwnedIssues left right name) * 100))"
  unfolding b_def best_shared_def
proof (rule foldl_keeps, goal_cases)
  case (2 b name)
  then show ?case using sharedOwnedIssues_owned [of left right name] by (auto simp: Let_def admitted_with_def)
qed simp

lemma focus_signals_admitted: "cs_admitted (focus_signals v) \<Longrightarrow> rv_sharedFocus v \<noteq> []"
  by (auto simp: focus_signals_def no_signals_def split: list.splits)

text \<open>The names by which a query and a candidate are compared: the model identities of the query when
  it has any, else its subjects.\<close>

definition shared_names :: "Query \<Rightarrow> relatedView \<Rightarrow> string list" where
  "shared_names q v =
     (if qu_IdentityPhrases q \<noteq> []
      then filter (\<lambda>i. i \<in> set (map canonicalIdentityPhrase (qu_IdentityPhrases q))) (rv_identities v)
      else filter (\<lambda>s. s \<in> set (rv_sharedSubjects v)) (uniqueTerms (rv_querySubjects v)))"

text \<open>The lane of general technical records: no name is at stake on either side.\<close>

definition unnamed :: "Query \<Rightarrow> relatedView \<Rightarrow> bool" where
  "unnamed q v \<longleftrightarrow> qu_IdentityPhrases q = [] \<and>
     (rv_querySubjects v = [] \<or> rv_sharedSubjects v = [] \<and> rv_subjects v = [] \<and> rv_identities v = [])"

lemma no_signals_not_admitted [simp]: "\<not> cs_admitted no_signals"
  by (simp add: no_signals_def)

lemma related_admission:
  assumes "cs_admitted (scoreRelatedCandidate q item)"
  defines "v \<equiv> related_view q item"
  shows "(\<exists>name \<in> set (shared_names q v). \<exists>issue. owned_on_both_sides (rv_queryIssues v) (rv_issues v) name issue) \<or>
    (unnamed q v \<and> rv_sharedFocus v \<noteq> [])"
proof -
  have shared: "\<exists>name \<in> set names. \<exists>issue. owned_on_both_sides left right name issue"
    if "cs_admitted (best_shared base kind left right names)" for base kind left right names
    using best_shared_cases [of base kind left right names] that by auto
  from assms show ?thesis
    unfolding scoreRelatedCandidate_def Let_def v_def [symmetric]
    by (auto split: if_splits dest!: shared focus_signals_admitted simp: shared_names_def unnamed_def)
qed

text \<open>In the Library search a word or a phrase of the user has to occur: no generic overlap admits.\<close>

lemma search_admission:
  assumes "cs_admitted (scoreCandidate terms anchors phrases item)"
  shows "(\<exists>term \<in> set terms. term \<in> set anchors \<and> term \<notin> set genericTerms \<and>
      (\<exists>f \<in> set (memoryFields item). term \<in> set (tokenize (mf_value f)))) \<or>
    (\<exists>p \<in> set phrases. phraseContainsAnchor (str_fields p) anchors \<and>
      (\<exists>f \<in> set (memoryFields item). containsPhrase (mf_value f) (str_fields p)))"
  using assms unfolding scoreCandidate_def Let_def
  by (auto split: if_splits simp: list_ex_iff filter_empty_conv)

subsection \<open>The ranking\<close>

interpretation ranking: strict_weak_order outranks
  by unfold_locales (auto simp: outranks_def Let_def split: if_splits)

lemma accept_cases:
  "accept q c = Some r \<Longrightarrow>
     (ci_LifecycleState (cd_Item c) = [] \<or> ci_LifecycleState (cd_Item c) = ''active'') \<and>
     cd_Feedback c \<noteq> ''not_relevant'' \<and> cs_admitted (candidate_signals q (cd_Item c)) \<and>
     cm_Item (rm_match r) = cd_Item c \<and> cm_MatchReason (rm_match r) = cs_reason (candidate_signals q (cd_Item c))"
  by (auto simp: accept_def Let_def split: if_splits)

lemma match_upto_accepted:
  assumes "m \<in> set (match_upto q candidates limit)"
  obtains c r where "c \<in> set candidates" "accept q c = Some r" "rm_match r = m"
proof -
  from assms obtain r where r: "r \<in> set (sort_by outranks (List.map_filter (accept q) candidates))" "rm_match r = m"
    unfolding match_upto_def by (auto split: if_splits dest: in_set_takeD)
  then have "r \<in> set (List.map_filter (accept q) candidates)"
    by (metis ranking.mset_sort_by mset_eq_setD)
  then show thesis using that r(2) by (auto simp: map_filter_def)
qed

lemma match_only_eligible:
  assumes "m \<in> set (Match q candidates limit)"
  shows "\<exists>c \<in> set candidates. cd_Item c = cm_Item m \<and> cd_Feedback c \<noteq> ''not_relevant'' \<and>
    ci_LifecycleState (cm_Item m) \<in> {[], ''active''} \<and> cs_admitted (candidate_signals q (cm_Item m))"
proof -
  from assms obtain c r where c: "c \<in> set candidates" "accept q c = Some r" "rm_match r = m"
    by (auto simp: Match_def split: if_splits elim: match_upto_accepted)
  with accept_cases [OF c(2)] show ?thesis by auto
qed

subsection \<open>Bounds of the query\<close>

lemma terms_round_bounds:
  "length terms < MaxQueryTerms \<Longrightarrow> distinct terms \<Longrightarrow>
   length (terms_round r fs terms) \<le> MaxQueryTerms \<and> distinct (terms_round r fs terms) \<and>
   set (terms_round r fs terms) \<subseteq> set terms \<union> \<Union> (set ` set fs)"
proof (induction r fs terms rule: terms_round.induct)
  case (2 r f fs terms)
  show ?case
  proof (cases "length f \<le> r \<or> f ! r \<in> set terms")
    case True
    with "2.IH"(1) [OF True] "2.prems" show ?thesis by auto
  next
    case False
    then have new: "f ! r \<in> set f" "distinct (terms @ [f ! r])" using "2.prems" by auto
    show ?thesis
    proof (cases "length (terms @ [f ! r]) = MaxQueryTerms")
      case True
      with False new show ?thesis by auto
    next
      case full: False
      with "2.prems"(1) have "length (terms @ [f ! r]) < MaxQueryTerms" by simp
      from "2.IH"(2) [OF False full this new(2)] False full new(1) show ?thesis by auto
    qed
  qed
qed simp

lemma terms_rounds_bounds:
  "length terms \<le> MaxQueryTerms \<Longrightarrow> distinct terms \<Longrightarrow>
   length (terms_rounds r fs terms) \<le> MaxQueryTerms \<and> distinct (terms_rounds r fs terms) \<and>
   set (terms_rounds r fs terms) \<subseteq> set terms \<union> \<Union> (set ` set fs)"
proof (induction r fs terms rule: terms_rounds.induct)
  case (1 r fs terms)
  show ?case
  proof (cases "MaxQueryTerms \<le> length terms")
    case True
    with "1.prems" show ?thesis by (simp add: terms_rounds.simps [of r])
  next
    case False
    then have less: "length terms < MaxQueryTerms" by simp
    note round = terms_round_bounds [OF less "1.prems"(2), of r fs]
    show ?thesis
    proof (cases "length (terms_round r fs terms) = length terms")
      case True
      with round False show ?thesis by (simp add: terms_rounds.simps [of r])
    next
      case grown: False
      from round have "length (terms_round r fs terms) \<le> MaxQueryTerms" "distinct (terms_round r fs terms)" by auto
      from "1.IH" [OF False refl grown this] round False grown show ?thesis
        by (simp add: terms_rounds.simps [of r fs terms]) blast
    qed
  qed
qed

lemma relatedTerms_bounds:
  "length (relatedTerms texts excluded ids) \<le> MaxQueryTerms" "distinct (relatedTerms texts excluded ids)"
  "t \<in> set (relatedTerms texts excluded ids) \<Longrightarrow> t \<notin> set excluded \<and> t \<notin> set ids \<and> relatedFeatureTerm t"
  using terms_rounds_bounds [of "[]" 0 "map (field_terms excluded ids) texts"]
  unfolding relatedTerms_def by (auto simp: MaxQueryTerms_def field_terms_def)

lemma Extract_parts:
  fixes post
  defines "q \<equiv> Extract post"
  shows "length (qu_Terms q) + length (qu_IdentityPhrases q) \<le> MaxQueryTerms"
    "length (qu_IdentityPhrases q) \<le> MaxIdentityPhrases" "length (qu_SubjectFeatures q) \<le> MaxSubjectFeatures"
    "length (qu_FocusPhrases q) \<le> MaxFocusPhrases" "distinct (qu_Terms q)" "qu_Mode q = QueryRelated"
    "t \<in> set (qu_Terms q) \<Longrightarrow> t \<notin> set (qu_excludedAuthors q) \<and> relatedFeatureTerm t"
proof -
  define body where "body = (case tp_Evidence post of None \<Rightarrow> [] | Some (t, a) \<Rightarrow> t)"
  define excluded where "excluded = qu_excludedAuthors q"
  define sources where "sources = [tp_WhatChanged post, tp_WhyItMatters post, body]"
  obtain identities tokens where ids: "relatedIdentities sources excluded = (identities, tokens)" by (metis surj_pair)
  define extend where "extend = (\<lambda>ts term. if term \<in> set focusedTechnicalTerms \<and> term \<notin> set ts \<and> length ts < MaxQueryTerms
    then ts @ [term] else ts)"
  define strict where "strict = foldl extend (relatedTerms [tp_WhatChanged post, body] excluded tokens)
    (relatedTerms [tp_WhyItMatters post] excluded tokens)"
  have q: "qu_Terms q = take (MaxQueryTerms - length (take MaxIdentityPhrases identities)) strict"
    "qu_IdentityPhrases q = take MaxIdentityPhrases identities" "qu_Mode q = QueryRelated"
    "qu_SubjectFeatures q = relatedSubjectFeatures sources (tp_TopicTags post @ tp_TopicFacets post) excluded tokens"
    "qu_FocusPhrases q = relatedFocusPhrases sources excluded tokens"
    using ids
    by (simp_all add: q_def Extract_def excluded_def strict_def extend_def sources_def body_def Let_def split: prod.splits)
  have strict: "distinct strict \<and> (\<forall>t \<in> set strict. t \<notin> set excluded \<and> relatedFeatureTerm t)"
    unfolding strict_def
  proof (rule foldl_keeps, goal_cases)
    case 1
    show ?case using relatedTerms_bounds(2,3) by blast
  next
    case (2 ts t)
    with relatedTerms_bounds(3) [OF 2(1)] show ?case by (auto simp: extend_def)
  qed
  show "length (qu_Terms q) + length (qu_IdentityPhrases q) \<le> MaxQueryTerms"
    unfolding q by (auto simp: MaxQueryTerms_def MaxIdentityPhrases_def min_def)
  show "length (qu_IdentityPhrases q) \<le> MaxIdentityPhrases" unfolding q by simp
  show "length (qu_SubjectFeatures q) \<le> MaxSubjectFeatures"
    unfolding q relatedSubjectFeatures_def Let_def by (rule collect_unique_length) (simp add: MaxSubjectFeatures_def)
  show "length (qu_FocusPhrases q) \<le> MaxFocusPhrases"
    unfolding q relatedFocusPhrases_def by (rule collect_unique_length) (simp add: MaxFocusPhrases_def)
  show "distinct (qu_Terms q)" unfolding q using strict by simp
  show "qu_Mode q = QueryRelated" by (rule q)
  show "t \<notin> set (qu_excludedAuthors q) \<and> relatedFeatureTerm t" if "t \<in> set (qu_Terms q)"
    using that strict unfolding q excluded_def by (auto dest: in_set_takeD)
qed

subsection \<open>Properties\<close>


text \<open>C20. What is shown beside a post shares a concrete issue with it, owned on both sides by the same
  complete model identity or named subject; only when neither side has a name at stake does a shared
  technical phrase suffice. In particular no feedback of the user, no retrieval score and no overlap
  of ordinary words admits a candidate, and what is deleted or was marked not relevant is not shown.\<close>

theorem match_shares_owned_issue:
  assumes "m \<in> set (Match q candidates limit)" "qu_Mode q = QueryRelated"
  shows "\<exists>c \<in> set candidates. cd_Item c = cm_Item m \<and> cd_Feedback c \<noteq> ''not_relevant'' \<and>
    ci_LifecycleState (cm_Item m) \<in> {[], ''active''} \<and>
    ((\<exists>name \<in> set (shared_names q (related_view q (cm_Item m))). \<exists>issue.
        owned_on_both_sides (rv_queryIssues (related_view q (cm_Item m))) (rv_issues (related_view q (cm_Item m))) name issue) \<or>
     (unnamed q (related_view q (cm_Item m)) \<and> rv_sharedFocus (related_view q (cm_Item m)) \<noteq> []))"
proof -
  from match_only_eligible [OF assms(1)] obtain c where c: "c \<in> set candidates" "cd_Item c = cm_Item m"
    "cd_Feedback c \<noteq> ''not_relevant''" "ci_LifecycleState (cm_Item m) \<in> {[], ''active''}"
    "cs_admitted (candidate_signals q (cm_Item m))" by blast
  with assms(2) have "cs_admitted (scoreRelatedCandidate q (cm_Item m))" by (simp add: candidate_signals_def)
  with related_admission c show ?thesis by blast
qed


text \<open>The query is bounded, and no word of the author counts.\<close>

theorem extract_is_bounded:
  "length (qu_Terms (Extract post)) + length (qu_IdentityPhrases (Extract post)) \<le> MaxQueryTerms \<and>
   length (qu_IdentityPhrases (Extract post)) \<le> MaxIdentityPhrases \<and>
   length (qu_SubjectFeatures (Extract post)) \<le> MaxSubjectFeatures \<and>
   length (qu_FocusPhrases (Extract post)) \<le> MaxFocusPhrases \<and> distinct (qu_Terms (Extract post)) \<and>
   set (qu_Terms (Extract post)) \<inter> set (qu_excludedAuthors (Extract post)) = {}"
  using Extract_parts by blast

subsection \<open>A post and an item about one issue\<close>

definition sample_title :: string where
  "sample_title = ''Codex reset''"

definition sample_tokens :: "relatedToken list" where
  "sample_tokens =
     [\<lparr>rt_value = ''codex'', rt_original = ''Codex'', rt_breakBefore = False, rt_start = 0, rt_end = 5, rt_measurement = False\<rparr>,
      \<lparr>rt_value = ''reset'', rt_original = ''reset'', rt_breakBefore = False, rt_start = 6, rt_end = 11, rt_measurement = False\<rparr>]"

definition sample_mention :: issueOwnerMention where
  "sample_mention = \<lparr>im_names = [''codex''], im_start = 0, im_end = 1\<rparr>"

definition sample_field :: memoryField where
  "sample_field = \<lparr>mf_label = ''title'', mf_value = sample_title\<rparr>"

definition sample_proof :: ownedIssue where
  "sample_proof = \<lparr>oi_owner = ''codex'', oi_issue = ''reset'', oi_field = ''title'', oi_term = ''reset'',
     oi_start = 6, oi_end = 11, oi_ownerStart = 0, oi_ownerEnd = 5, oi_continuation = False\<rparr>"

definition sample_view :: fieldView where
  "sample_view = \<lparr>fv_label = ''title'', fv_text = sample_title, fv_tokens = sample_tokens, fv_mentions = [sample_mention]\<rparr>"

definition empty_view :: fieldView where
  "empty_view = \<lparr>fv_label = ''summary'', fv_text = [], fv_tokens = [], fv_mentions = []\<rparr>"

definition sample_scope :: evidenceScope where
  "sample_scope = \<lparr>es_definitions = [''codex''], es_identities = [], es_excluded = [], es_primary = [''codex'']\<rparr>"

definition summary_field :: memoryField where
  "summary_field = \<lparr>mf_label = ''summary'', mf_value = []\<rparr>"

lemma sample_texts:
  "boundedIssueField sample_title = sample_title" "relatedTokens sample_title = sample_tokens"
  "boundedIssueField [] = []" "relatedTokens [] = []"
  by code_simp+

lemma sample_mentions:
  "issueOwnerMentions sample_tokens [''codex''] [] [] = [sample_mention]" "issueOwnerMentions [] [''codex''] [] [] = []"
  "owner_definitions [''codex''] [] = [''codex'']"
  by code_simp+

lemma sample_views:
  "field_view [''codex''] [] [] sample_field = sample_view" "field_view [''codex''] [] [] summary_field = empty_view"
  by (simp_all add: field_view_def sample_field_def summary_field_def sample_texts sample_mentions sample_view_def empty_view_def)

lemma sample_scopes:
  "evidence_scope [sample_field] [''codex''] [] [] = sample_scope"
  "evidence_scope [sample_field, summary_field] [''codex''] [] [] = sample_scope"
  by (simp_all add: evidence_scope_def sample_mentions sample_views sample_scope_def primary_owners_def
      sample_view_def empty_view_def sample_mention_def Let_def)

lemma sample_segments: "segment_proofs sample_scope sample_view 0 [] False = [sample_proof]"
  "segment_proofs sample_scope empty_view 0 [] False = []"
  by code_simp+

lemma sample_issue_evidence:
  "relatedIssueEvidence [sample_field] [''codex''] [] [] = [sample_proof]"
  "relatedIssueEvidence [sample_field, summary_field] [''codex''] [] [] = [sample_proof]"
proof -
  have "es_definitions sample_scope = [''codex'']" by (simp add: sample_scope_def)
  then show "relatedIssueEvidence [sample_field] [''codex''] [] [] = [sample_proof]"
    "relatedIssueEvidence [sample_field, summary_field] [''codex''] [] [] = [sample_proof]"
    by (simp_all add: relatedIssueEvidence_def sample_scopes sample_views sample_segments)
qed


definition sample_query :: Query where
  "sample_query = \<lparr>qu_Terms = [''reset''], qu_Anchors = [], qu_Phrases = [], qu_Mode = QueryRelated,
     qu_IdentityPhrases = [], qu_SubjectFeatures = [''codex''], qu_FocusPhrases = [], qu_excludedAuthors = [],
     qu_issueFields = [sample_field]\<rparr>"

definition sample_item :: ContextItem where
  "sample_item = \<lparr>ci_ID = ''m1'', ci_Source = ''x'', ci_CanonicalEvidenceKey = [], ci_CanonicalPermalink = [],
     ci_CanonicalPlatformID = [], ci_Title = sample_title, ci_Summary = [], ci_Author = [], ci_Tags = [], ci_Facets = [],
     ci_LifecycleState = ''active'', ci_FullContent = None, ci_UpdatedAt = ''2026-08-30''\<rparr>"

definition context_candidate :: Candidate where
  "context_candidate = \<lparr>cd_Item = sample_item, cd_BM25 = 0, cd_Feedback = [], cd_FeedbackID = []\<rparr>"

definition codex_token :: relatedToken where
  "codex_token = \<lparr>rt_value = ''codex'', rt_original = ''codex'', rt_breakBefore = False, rt_start = 0, rt_end = 5, rt_measurement = False\<rparr>"

lemma sample_features:
  "identityPhrasesFromTokens sample_tokens [] = []" "identityPhrasesFromTokens [] [] = []"
  "focus_pairs [] [] sample_tokens = []" "focus_pairs [] [] [] = []"
  "list_ex (\<lambda>t. hasInternalUppercase (rt_original t)) sample_tokens = False"
  "issueOwningSubjects [''codex''] = [''codex'']" "issueOwningSubjects [] = []"
  "uniqueTerms [''codex''] = [''codex'']" "uniqueTerms [] = []" "uniqueTerms [''reset''] = [''reset'']"
  "relatedTokens ''codex'' = [codex_token]" "validSubjectTag [codex_token] [] []"
  by code_simp+

lemma sample_named: "containsNamedFieldSequence [sample_title, []] [codex_token] [] []"
proof -
  have "list_ex (\<lambda>i. sequence_at sample_tokens [codex_token] i \<and>
      list_all (\<lambda>t. rt_value t \<notin> set [] \<and> rt_value t \<notin> set []) (take (length [codex_token]) (drop i sample_tokens)) \<and>
      list_ex (\<lambda>t. hasUppercase (rt_original t)) (take (length [codex_token]) (drop i sample_tokens)))
    [0..<length sample_tokens + 1 - length [codex_token]]"
    by code_simp
  then show ?thesis
    unfolding containsNamedFieldSequence_def Let_def list_ex_iff [of _ "[sample_title, []]"]
    by (simp only: sample_texts list.set list.distinct if_False insert_iff bex_simps simp_thms)
qed

lemma sample_related_view:
  "related_view sample_query sample_item =
     \<lparr>rv_identities = [], rv_querySubjects = [''codex''], rv_subjects = [], rv_sharedFocus = [],
      rv_sharedSubjects = [''codex''], rv_queryIssues = [sample_proof], rv_issues = [sample_proof]\<rparr>"
proof -
  have texts: "item_fields sample_item = [sample_field, summary_field]"
    by (simp add: item_fields_def sample_item_def sample_field_def summary_field_def)
  have vals: "map mf_value [sample_field, summary_field] = [sample_title, []]"
    by (simp add: sample_field_def summary_field_def)
  have excluded: "excluded_authors sample_query sample_item = []"
    by (simp add: excluded_authors_def sample_query_def sample_item_def authorTokens_def sample_texts)
  have identities: "relatedIdentities [sample_title, []] [] = ([], [])"
    by (simp add: relatedIdentities_def sample_texts sample_features first_of_each_def Let_def)
  have focus: "relatedFocusPhrases [sample_title, []] [] [] = []"
    by (simp add: relatedFocusPhrases_def sample_texts sample_features)
  have subjects: "relatedSubjectFeatures [sample_title, []] [] [] [] = []"
    using sample_features(5)
    by (auto simp: relatedSubjectFeatures_def sample_texts Let_def list_ex_iff filter_empty_conv)
  have content: "relatedContentSubjects [''codex''] [sample_title, []] [] [] = [''codex'']"
    by (simp add: relatedContentSubjects_def sample_features sample_named)
  have shared: "sharedPhrases [''codex''] [''codex''] = [''codex'']" "sharedPhrases [] [] = []"
    by (simp_all add: sharedPhrases_def sample_features canonicalIdentityPhrase_def codex_token_def)
  show ?thesis
    unfolding related_view_def Let_def texts vals excluded identities
    by (simp add: sample_query_def sample_item_def focus subjects sample_features content shared sample_issue_evidence
        filterSubjectFeaturePhrases_def)
qed

lemma sample_admitted: "cs_admitted (scoreRelatedCandidate sample_query sample_item)"
proof -
  have "sharedOwnedIssues [sample_proof] [sample_proof] ''codex'' = [''reset'']" by code_simp
  then have "best_shared 250 kind [sample_proof] [sample_proof] [''codex''] \<noteq> no_signals" for kind
    by (simp add: best_shared_def no_signals_def admitted_with_def Let_def)
  then have "cs_admitted (best_shared 250 kind [sample_proof] [sample_proof] [''codex''])" for kind
    using best_shared_cases [of 250 kind "[sample_proof]" "[sample_proof]" "[''codex'']"] by blast
  moreover have "\<not> empty_query sample_query" "qu_IdentityPhrases sample_query = []"
    by (simp_all add: empty_query_def sample_query_def)
  ultimately show ?thesis
    by (simp add: scoreRelatedCandidate_def sample_related_view sample_features Let_def)
qed

lemma sample_match: "Match sample_query [context_candidate] 3 \<noteq> []" "\<not> unanswerable sample_query"
proof -
  show answerable: "\<not> unanswerable sample_query" by (simp add: unanswerable_def sample_query_def sample_features)
  have "accept sample_query context_candidate \<noteq> None"
    using sample_admitted
    by (simp add: accept_def context_candidate_def candidate_signals_def sample_query_def sample_item_def Let_def)
  then obtain r where "accept sample_query context_candidate = Some r" by blast
  then show "Match sample_query [context_candidate] 3 \<noteq> []"
    using answerable by (simp add: Match_def match_upto_def List.map_filter_def sort_by_def)
qed

theorem match_shares_owned_issue_witness:
  "\<exists>(m :: ContextMatch) (c :: Candidate). m \<in> set (Match sample_query [context_candidate] 3) \<and> c \<in> {context_candidate} \<and>
     cd_Item c = cm_Item m \<and>
     (\<exists>name \<in> set (shared_names sample_query (related_view sample_query (cm_Item m))). \<exists>issue.
        owned_on_both_sides [sample_proof] [sample_proof] name issue)"
proof -
  obtain m where m: "m \<in> set (Match sample_query [context_candidate] 3)"
    using sample_match(1) by (metis list.set_intros(1) neq_Nil_conv)
  have "qu_Mode sample_query = QueryRelated" by (simp add: sample_query_def)
  note shown = match_shares_owned_issue [OF m this]
  then have item: "cm_Item m = sample_item" by (auto simp: context_candidate_def)
  from shown have "\<exists>name \<in> set (shared_names sample_query (related_view sample_query sample_item)). \<exists>issue.
      owned_on_both_sides [sample_proof] [sample_proof] name issue"
    unfolding item by (simp add: sample_related_view unnamed_def)
  with m item show ?thesis
    by (intro exI [of _ m] exI [of _ context_candidate]) (simp add: context_candidate_def)
qed


end
