(* ===== verification/Context_Store.thy ===== *)
theory Context_Store
  imports Context_Proofs LivingTopics
begin

text \<open>
  \<open>src/internal/store/content_context.go\<close>: the lookup of the context of a post, the knowledge of the
  living topics it adds, and the log of the user's decisions about shown relations. The table
  \<open>content_context_feedback_events\<close> is the list of its rows in the order of their row ids, and its
  queries are written out over that list. The post, its visibility, the full-text index and the
  topics are what the other tables answer: arguments. I/O errors of the database and the direct
  context, which is passed through, are left out.
\<close>

subsection \<open>Data\<close>

datatype context_error =
    BadLimit
  | NotEligible
  | MissingItem
  | BadVerdict
  | NotSurfaced
  | NoSuchFeedback
  | FeedbackNotCurrent
  | InsertFailed
  | QueryTooLong

record StoredPost =
  sp_ID :: string
  sp_Source :: string
  sp_EvidenceKey :: string
  sp_SourceURL :: string
  sp_Identity :: "(string \<times> string) option"
  sp_Post :: TimelinePost

record TopicSnapshot =
  tn_Version :: int
  tn_Overview :: string
  tn_Claims :: "LivingTopicClaim list"
  tn_CreatedAt :: string
  tn_EvidenceAsOf :: string
  tn_IsCurrent :: bool
  tn_ActiveEvidenceCount :: int

record StoredTopic =
  st_ID :: string
  st_Name :: string
  st_Description :: string
  st_Aliases :: "string list"
  st_LatestSnapshot :: "TopicSnapshot option"

record TopicInsight =
  ti_TopicID :: string
  ti_TopicName :: string
  ti_Overview :: string
  ti_Claims :: "LivingTopicClaim list"
  ti_SnapshotVersion :: int
  ti_UpdatedAt :: string
  ti_EvidenceAsOf :: string
  ti_EvidenceCount :: int
  ti_MatchReason :: string

record FeedbackEvent =
  fe_ID :: string
  fe_TimelineID :: string
  fe_ContextKey :: string
  fe_MemoryItemID :: string
  fe_Verdict :: string
  fe_EngineVersion :: string
  fe_ResultRank :: nat
  fe_MatchReason :: string
  fe_SupersedesID :: string
  fe_CreatedAt :: string

type_synonym feedback_log = "FeedbackEvent list"

subsection \<open>Retrieval\<close>

text \<open>The position of the first part after the first that starts with a digit.\<close>

definition digit_parts :: "string list \<Rightarrow> nat list" where
  "digit_parts parts = filter (\<lambda>i. parts ! i \<noteq> [] \<and> is_number (hd (parts ! i))) [1..<length parts]"

definition identity_spellings :: "string \<Rightarrow> string list" where
  "identity_spellings identity =
     (let parts = str_fields identity in
      identity #
      (if length parts < 2 then []
       else concat parts #
         (case digit_parts parts of
            [] \<Rightarrow> []
          | i # _ \<Rightarrow>
              [join '' '' (take (i - 1) parts @ [parts ! (i - 1) @ parts ! i] @ drop (i + 1) parts),
               join '' '' (take i parts) @ '' '' @ concat (drop i parts)])))"

definition contentContextFTSFeatures :: "Query \<Rightarrow> string list" where
  "contentContextFTSFeatures q =
     (if qu_Mode q = QueryLibrarySearch then qu_Terms q else concat (map FeatureVariants (qu_Terms q))) @
     concat (map identity_spellings (take MaxIdentityPhrases (qu_IdentityPhrases q)))"

fun word_runs :: "string \<Rightarrow> string \<Rightarrow> string list" where
  "word_runs [] current = (if current = [] then [] else [current])"
| "word_runs (c # s) current =
     (if is_letter c \<or> is_number c then word_runs s (current @ [c])
      else (if current = [] then [] else [current]) @ word_runs s [])"

definition memorySearchTerms :: "string \<Rightarrow> string list" where
  "memorySearchTerms query = word_runs (to_lower query) []"

definition fts_phrase :: "string \<Rightarrow> string option" where
  "fts_phrase term =
     (case memorySearchTerms term of
        [] \<Rightarrow> None
      | ws \<Rightarrow> Some ([CHR 0x22] @ join '' '' ws @ [CHR 0x22]))"

definition fts_phrases :: "Query \<Rightarrow> string list" where
  "fts_phrases q =
     (let phrases = List.map_filter fts_phrase (contentContextFTSFeatures q) in first_of_each (\<lambda>p. p) phrases)"

text \<open>The index is asked for the phrases joined by \<open>OR\<close> and for at most \<open>DefaultCandidatePool\<close> rows; only
  active items count.\<close>

definition searchMemoryContextCandidates :: "(string \<Rightarrow> nat \<Rightarrow> Candidate list) \<Rightarrow> Query \<Rightarrow> Candidate list" where
  "searchMemoryContextCandidates index q =
     (if fts_phrases q = [] then []
      else filter (\<lambda>c. ci_LifecycleState (cd_Item c) = ''active'') (index (join '' OR '' (fts_phrases q)) 24))"

definition sameTimelineMemoryIdentity :: "StoredPost \<Rightarrow> ContextItem \<Rightarrow> bool" where
  "sameTimelineMemoryIdentity post item =
     (let same = (\<lambda>a b. trim_space a \<noteq> [] \<and> trim_space a = trim_space b) in
      sp_Source post = ci_Source item \<and>
      (same (sp_EvidenceKey post) (ci_CanonicalEvidenceKey item) \<or>
       same (sp_SourceURL post) (ci_CanonicalPermalink item) \<or>
       (case sp_Identity post of
          None \<Rightarrow> False
        | Some (permalink, platform) \<Rightarrow>
            same permalink (ci_CanonicalPermalink item) \<or> same platform (ci_CanonicalPlatformID item))))"

subsection \<open>Living topics\<close>

definition livingTopicKnowledgeClaimEligible :: "LivingTopicClaim \<Rightarrow> bool" where
  "livingTopicKnowledgeClaimEligible claim \<longleftrightarrow> lc_Assessment claim = ''supported'' \<and> lc_TemporalStatus claim = ''current''"

definition knowledge_claims :: "LivingTopicClaim list \<Rightarrow> LivingTopicClaim list" where
  "knowledge_claims claims =
     (let eligible = filter livingTopicKnowledgeClaimEligible claims
      in take 3 (filter (\<lambda>c. lc_Centrality c = [] \<or> lc_Centrality c = ''central'') eligible @
                 filter (\<lambda>c. lc_Centrality c = ''secondary'') eligible))"

text \<open>What a topic contributes: its insight, the score of its identity, and the candidate to match.\<close>

definition topic_knowledge :: "Query \<Rightarrow> bool \<Rightarrow> StoredTopic \<Rightarrow> (TopicInsight \<times> nat \<times> Candidate) option" where
  "topic_knowledge q requireIdentity topic =
     (case st_LatestSnapshot topic of
        None \<Rightarrow> None
      | Some s \<Rightarrow>
          let score = TopicIdentitySpecificity q (st_Name topic) (st_Aliases topic);
              claims = knowledge_claims (tn_Claims s)
          in if \<not> tn_IsCurrent s \<or> tn_ActiveEvidenceCount s < 1 \<or> (requireIdentity \<and> score = 0) \<or> claims = [] then None
             else Some
               (\<lparr>ti_TopicID = st_ID topic, ti_TopicName = st_Name topic, ti_Overview = tn_Overview s, ti_Claims = claims,
                 ti_SnapshotVersion = tn_Version s, ti_UpdatedAt = tn_CreatedAt s, ti_EvidenceAsOf = tn_EvidenceAsOf s,
                 ti_EvidenceCount = tn_ActiveEvidenceCount s, ti_MatchReason = []\<rparr>, score,
                \<lparr>cd_Item = \<lparr>ci_ID = st_ID topic, ci_Source = [], ci_CanonicalEvidenceKey = [], ci_CanonicalPermalink = [],
                   ci_CanonicalPlatformID = [], ci_Title = st_Name topic,
                   ci_Summary = join '' '' ([tn_Overview s, st_Description topic] @ map lc_Text claims),
                   ci_Author = [], ci_Tags = st_Aliases topic, ci_Facets = [st_Name topic],
                   ci_LifecycleState = ''active'', ci_FullContent = None, ci_UpdatedAt = trim_space (tn_EvidenceAsOf s)\<rparr>,
                 cd_BM25 = 0, cd_Feedback = [], cd_FeedbackID = []\<rparr>))"

text \<open>The maps \<open>byID\<close> and \<open>identityScores\<close>: a later topic of the same id replaces an earlier one.\<close>

definition by_id :: "(TopicInsight \<times> nat \<times> Candidate) list \<Rightarrow> string \<Rightarrow> (TopicInsight \<times> nat) option" where
  "by_id known = map_of (rev (map (\<lambda>(insight, score, c). (ti_TopicID insight, insight, score)) known))"

text \<open>The matches as insights with their reason and the score of their topic.\<close>

definition found_insights :: "Query \<Rightarrow> (TopicInsight \<times> nat \<times> Candidate) list \<Rightarrow> (TopicInsight \<times> nat) list" where
  "found_insights q known =
     List.map_filter (\<lambda>m. map_option (\<lambda>(insight, score). (insight\<lparr>ti_MatchReason := cm_MatchReason m\<rparr>, score))
         (by_id known (ci_ID (cm_Item m))))
       (MatchAll q (map (\<lambda>(insight, score, c). c) known))"

definition best_insights :: "(TopicInsight \<times> nat) list \<Rightarrow> int \<Rightarrow> TopicInsight list" where
  "best_insights found limit =
     (let maxIdentity = fold max (map snd found) 0
      in take (nat (min limit 2)) (map fst (filter (\<lambda>(insight, score). \<not> (maxIdentity \<ge> 100 \<and> score \<noteq> maxIdentity)) found)))"

definition matchLivingTopicKnowledge :: "StoredTopic list \<Rightarrow> Query \<Rightarrow> int \<Rightarrow> bool \<Rightarrow> TopicInsight list" where
  "matchLivingTopicKnowledge topics q limit requireIdentity =
     best_insights (found_insights q (List.map_filter (topic_knowledge q requireIdentity) topics)) limit"

definition SearchLivingTopicKnowledge :: "StoredTopic list \<Rightarrow> string \<Rightarrow> int \<Rightarrow> context_error + TopicInsight list" where
  "SearchLivingTopicKnowledge topics rawQuery limit =
     (let query = trim_space rawQuery; q = ExtractSearch query in
      if limit < 1 \<or> limit > 5 then Inl BadLimit
      else if query = [] then Inr []
      else if rune_count query > 200 then Inl QueryTooLong
      else if qu_Terms q = [] \<or> qu_Anchors q = [] then Inr []
      else Inr (matchLivingTopicKnowledge topics q limit False))"

subsection \<open>Decisions of the user\<close>

definition contentContextKey :: "StoredPost \<Rightarrow> string" where
  "contentContextKey post =
     (let key = trim_space (sp_EvidenceKey post)
      in trim_space (sp_Source post) @ ''|'' @ (if key = [] then trim_space (sp_ID post) else key))"

text \<open>\<open>ORDER BY rowid DESC LIMIT 1\<close>.\<close>

definition latest_event :: "feedback_log \<Rightarrow> string \<Rightarrow> string \<Rightarrow> FeedbackEvent option" where
  "latest_event events key item = List.find (\<lambda>e. fe_ContextKey e = key \<and> fe_MemoryItemID e = item) (rev events)"

definition latestContentContextFeedbackStates :: "feedback_log \<Rightarrow> string \<Rightarrow> string \<Rightarrow> FeedbackState option" where
  "latestContentContextFeedbackStates events key item =
     (case latest_event events key item of
        None \<Rightarrow> None
      | Some e \<Rightarrow> if ValidDecision (fe_Verdict e) then Some \<lparr>fs_ID = fe_ID e, fs_Verdict = fe_Verdict e\<rparr> else None)"

definition with_feedback :: "feedback_log \<Rightarrow> string \<Rightarrow> Candidate \<Rightarrow> Candidate" where
  "with_feedback events key c =
     (case latestContentContextFeedbackStates events key (ci_ID (cd_Item c)) of
        None \<Rightarrow> c
      | Some state \<Rightarrow> c\<lparr>cd_Feedback := fs_Verdict state, cd_FeedbackID := fs_ID state\<rparr>)"

subsection \<open>The lookup\<close>

text \<open>What the other tables answer.\<close>

record Tables =
  tb_Timeline :: "string \<Rightarrow> StoredPost option"
  tb_Visible :: "string \<Rightarrow> bool"
  tb_Index :: "string \<Rightarrow> nat \<Rightarrow> Candidate list"
  tb_Topics :: "StoredTopic list"

type_synonym context_result = "ContextMatch list \<times> TopicInsight list"

definition context_of :: "Tables \<Rightarrow> feedback_log \<Rightarrow> StoredPost \<Rightarrow> int \<Rightarrow> context_result" where
  "context_of tb events post limit =
     (let q = Extract (sp_Post post) in
      if qu_Terms q = [] \<and> qu_IdentityPhrases q = [] then ([], [])
      else
        let candidates = filter (\<lambda>c. \<not> sameTimelineMemoryIdentity post (cd_Item c))
              (searchMemoryContextCandidates (tb_Index tb) q)
        in (Match q (map (with_feedback events (contentContextKey post)) candidates) limit,
            matchLivingTopicKnowledge (tb_Topics tb) q limit True))"

definition ContentContext :: "Tables \<Rightarrow> feedback_log \<Rightarrow> string \<Rightarrow> int \<Rightarrow> context_error + context_result" where
  "ContentContext tb events timelineID limit0 =
     (let limit = (if limit0 = 0 then 3 else limit0); timelineID = trim_space timelineID in
      if limit < 1 \<or> limit > 5 then Inl BadLimit
      else case tb_Timeline tb timelineID of
             None \<Rightarrow> Inl NotEligible
           | Some post \<Rightarrow>
               if \<not> tb_Visible tb timelineID then Inl NotEligible else Inr (context_of tb events post limit))"

text \<open>The position of the item among the matches, from 1, with the reason it was shown for.\<close>

definition shown_at :: "ContextMatch list \<Rightarrow> string \<Rightarrow> (nat \<times> string) option" where
  "shown_at matches item =
     (case filter (\<lambda>(i, m). ci_ID (cm_Item m) = item) (enumerate 1 matches) of
        [] \<Rightarrow> None
      | (i, m) # _ \<Rightarrow> Some (i, cm_MatchReason m))"

text \<open>An \<open>INSERT\<close> fails when the id is taken.\<close>

definition insert_event :: "feedback_log \<Rightarrow> FeedbackEvent \<Rightarrow> feedback_log \<times> (context_error + FeedbackEvent)" where
  "insert_event events e =
     (if fe_ID e \<in> fe_ID ` set events then (events, Inl InsertFailed) else (events @ [e], Inr e))"

definition AddContentContextFeedback ::
  "Tables \<Rightarrow> string \<Rightarrow> string \<Rightarrow> string \<Rightarrow> string \<Rightarrow> string \<Rightarrow> feedback_log \<Rightarrow> feedback_log \<times> (context_error + FeedbackEvent)" where
  "AddContentContextFeedback tb timelineID0 item0 verdict newID now events =
     (let timelineID = trim_space timelineID0; item = trim_space item0 in
      if item = [] then (events, Inl MissingItem)
      else if \<not> ValidDecision verdict then (events, Inl BadVerdict)
      else case ContentContext tb events timelineID 5 of
             Inl e \<Rightarrow> (events, Inl e)
           | Inr (matches, insights) \<Rightarrow>
               (case shown_at matches item of
                  None \<Rightarrow> (events, Inl NotSurfaced)
                | Some (rank, reason) \<Rightarrow>
                    (case tb_Timeline tb timelineID of
                       None \<Rightarrow> (events, Inl NotEligible)
                     | Some post \<Rightarrow>
                         let e = \<lparr>fe_ID = newID, fe_TimelineID = sp_ID post, fe_ContextKey = contentContextKey post,
                                  fe_MemoryItemID = item, fe_Verdict = verdict, fe_EngineVersion = ''content-context-v6'',
                                  fe_ResultRank = rank, fe_MatchReason = reason, fe_SupersedesID = [], fe_CreatedAt = now\<rparr>
                         in (case latest_event events (contentContextKey post) item of
                               None \<Rightarrow> insert_event events e
                             | Some latest \<Rightarrow>
                                 if fe_Verdict latest = verdict then (events, Inr latest)
                                 else insert_event events (e\<lparr>fe_SupersedesID := fe_ID latest\<rparr>)))))"

definition UndoContentContextFeedback ::
  "string \<Rightarrow> string \<Rightarrow> string \<Rightarrow> feedback_log \<Rightarrow> feedback_log \<times> (context_error + FeedbackEvent)" where
  "UndoContentContextFeedback undone newID now events =
     (case List.find (\<lambda>e. fe_ID e = trim_space undone \<and> fe_Verdict e \<noteq> ''clear'') events of
        None \<Rightarrow> (events, Inl NoSuchFeedback)
      | Some prior \<Rightarrow>
          (case latest_event events (fe_ContextKey prior) (fe_MemoryItemID prior) of
             None \<Rightarrow> (events, Inl NoSuchFeedback)
           | Some latest \<Rightarrow>
               if fe_ID latest \<noteq> fe_ID prior then (events, Inl FeedbackNotCurrent)
               else insert_event events
                 (prior\<lparr>fe_ID := newID, fe_Verdict := ''clear'', fe_SupersedesID := fe_ID prior, fe_CreatedAt := now\<rparr>)))"


subsection \<open>Retrieval\<close>

text \<open>What reaches the query language of the index is one quoted phrase of letters and digits per
  feature: no text of a post can end the quotation.\<close>

lemma word_runs_plain:
  "list_all (\<lambda>c. is_letter c \<or> is_number c) current \<Longrightarrow> w \<in> set (word_runs s current) \<Longrightarrow>
   w \<noteq> [] \<and> list_all (\<lambda>c. is_letter c \<or> is_number c) w"
  by (induction s current rule: word_runs.induct) (auto split: if_splits)

theorem fts_phrase_is_plain:
  assumes "p \<in> set (fts_phrases q)"
  shows "\<exists>ws. ws \<noteq> [] \<and> p = [CHR 0x22] @ join '' '' ws @ [CHR 0x22] \<and>
    (\<forall>w \<in> set ws. w \<noteq> [] \<and> list_all (\<lambda>c. is_letter c \<or> is_number c) w)"
proof -
  from assms have "p \<in> set (List.map_filter fts_phrase (contentContextFTSFeatures q))"
    unfolding fts_phrases_def first_of_each_def Let_def by (rule subsetD [OF collect_unique_subset])
  then obtain t where "fts_phrase t = Some p" by (auto simp: List.map_filter_def)
  moreover have "\<forall>w \<in> set (memorySearchTerms t). w \<noteq> [] \<and> list_all (\<lambda>c. is_letter c \<or> is_number c) w"
    unfolding memorySearchTerms_def using word_runs_plain [of "[]"] by simp
  ultimately show ?thesis
    by (intro exI [of _ "memorySearchTerms t"]) (auto simp: fts_phrase_def split: list.splits)
qed

subsection \<open>The log of decisions\<close>

abbreviation pair_of :: "FeedbackEvent \<Rightarrow> string \<times> string" where
  "pair_of e \<equiv> (fe_ContextKey e, fe_MemoryItemID e)"

lemma latest_event_Nil [simp]: "latest_event [] key item = None"
  by (simp add: latest_event_def)

lemma latest_event_snoc [simp]:
  "latest_event (events @ [e]) key item = (if pair_of e = (key, item) then Some e else latest_event events key item)"
  by (simp add: latest_event_def)

lemma latest_eventD: "latest_event events key item = Some e \<Longrightarrow> e \<in> set events \<and> pair_of e = (key, item)"
proof -
  assume "latest_event events key item = Some e"
  then obtain i where "i < length (rev events)" "e = rev events ! i" "fe_ContextKey e = key" "fe_MemoryItemID e = item"
    by (auto simp: latest_event_def find_Some_iff)
  then show ?thesis by (metis nth_mem set_rev)
qed




lemma insert_event_cases:
  obtains "insert_event events e = (events, Inl InsertFailed)" "fe_ID e \<in> fe_ID ` set events"
  | "insert_event events e = (events @ [e], Inr e)" "fe_ID e \<notin> fe_ID ` set events"
  by (cases "fe_ID e \<in> fe_ID ` set events") (auto simp: insert_event_def)

lemma AddContentContextFeedback_cases:
  obtains
    (failed) x where "AddContentContextFeedback tb timelineID item verdict newID now events = (events, Inl x)"
  | (kept) post e where "tb_Timeline tb (trim_space timelineID) = Some post"
      "latest_event events (contentContextKey post) (trim_space item) = Some e" "fe_Verdict e = verdict" "ValidDecision verdict"
      "AddContentContextFeedback tb timelineID item verdict newID now events = (events, Inr e)"
  | (added) post e matches insights where "tb_Timeline tb (trim_space timelineID) = Some post"
      "AddContentContextFeedback tb timelineID item verdict newID now events = (events @ [e], Inr e)"
      "pair_of e = (contentContextKey post, trim_space item)" "fe_Verdict e = verdict" "ValidDecision verdict"
      "fe_ID e = newID" "newID \<notin> fe_ID ` set events"
      "ContentContext tb events (trim_space timelineID) 5 = Inr (matches, insights)"
      "shown_at matches (trim_space item) = Some (fe_ResultRank e, fe_MatchReason e)"
      "fe_SupersedesID e = (case latest_event events (contentContextKey post) (trim_space item) of None \<Rightarrow> [] | Some l \<Rightarrow> fe_ID l)"
      "\<And>l. latest_event events (contentContextKey post) (trim_space item) = Some l \<Longrightarrow> fe_Verdict l \<noteq> verdict"
proof -
  let ?add = "AddContentContextFeedback tb timelineID item verdict newID now events"
  show thesis
  proof (cases "trim_space item = [] \<or> \<not> ValidDecision verdict")
    case True
    then have "\<exists>x. ?add = (events, Inl x)" by (auto simp: AddContentContextFeedback_def Let_def)
    then show ?thesis using failed by blast
  next
    case valid: False
    show ?thesis
    proof (cases "ContentContext tb events (trim_space timelineID) 5")
      case (Inl x)
      then show ?thesis using valid failed by (simp add: AddContentContextFeedback_def Let_def)
    next
      case (Inr r)
      obtain matches insights where r: "r = (matches, insights)" by (metis surj_pair)
      show ?thesis
      proof (cases "shown_at matches (trim_space item)")
        case None
        then show ?thesis using valid Inr r failed by (simp add: AddContentContextFeedback_def Let_def)
      next
        case (Some s)
        obtain rank reason where s: "s = (rank, reason)" by (metis surj_pair)
        show ?thesis
        proof (cases "tb_Timeline tb (trim_space timelineID)")
          case None
          then show ?thesis using valid Inr r Some s failed by (simp add: AddContentContextFeedback_def Let_def)
        next
          case post: (Some post)
          define e where "e = \<lparr>fe_ID = newID, fe_TimelineID = sp_ID post, fe_ContextKey = contentContextKey post,
            fe_MemoryItemID = trim_space item, fe_Verdict = verdict, fe_EngineVersion = ''content-context-v6'',
            fe_ResultRank = rank, fe_MatchReason = reason,
            fe_SupersedesID = (case latest_event events (contentContextKey post) (trim_space item) of None \<Rightarrow> [] | Some l \<Rightarrow> fe_ID l),
            fe_CreatedAt = now\<rparr>"
          have add: "?add = (case latest_event events (contentContextKey post) (trim_space item) of
              None \<Rightarrow> insert_event events e
            | Some l \<Rightarrow> if fe_Verdict l = verdict then (events, Inr l) else insert_event events e)"
            using valid Inr r Some s post
            by (simp add: AddContentContextFeedback_def Let_def e_def split: option.split)
          show ?thesis
          proof (cases "\<exists>l. latest_event events (contentContextKey post) (trim_space item) = Some l \<and> fe_Verdict l = verdict")
            case True
            then obtain l where l: "latest_event events (contentContextKey post) (trim_space item) = Some l"
              "fe_Verdict l = verdict" by blast
            show ?thesis by (rule kept [OF post l]) (use valid add l in simp_all)
          next
            case False
            with add have ins: "?add = insert_event events e" by (auto split: option.splits)
            show ?thesis
            proof (cases rule: insert_event_cases [of events e])
              case 1
              with ins show ?thesis using failed by simp
            next
              case 2
              show ?thesis
                by (rule added [OF post _ _ _ _ _ _ Inr [unfolded r]])
                  (use 2 ins valid Some s False in \<open>auto simp: e_def\<close>)
            qed
          qed
        qed
      qed
    qed
  qed
qed

lemma UndoContentContextFeedback_cases:
  obtains
    (failed) x where "UndoContentContextFeedback undone newID now events = (events, Inl x)"
  | (cleared) prior latest e where "prior \<in> set events" "fe_ID prior = trim_space undone" "fe_Verdict prior \<noteq> ''clear''"
      "latest_event events (fe_ContextKey prior) (fe_MemoryItemID prior) = Some latest" "fe_ID latest = fe_ID prior"
      "UndoContentContextFeedback undone newID now events = (events @ [e], Inr e)"
      "e = prior\<lparr>fe_ID := newID, fe_Verdict := ''clear'', fe_SupersedesID := fe_ID prior, fe_CreatedAt := now\<rparr>"
      "newID \<notin> fe_ID ` set events"
proof -
  let ?undo = "UndoContentContextFeedback undone newID now events"
  show thesis
  proof (cases "List.find (\<lambda>e. fe_ID e = trim_space undone \<and> fe_Verdict e \<noteq> ''clear'') events")
    case None
    then show ?thesis using failed by (simp add: UndoContentContextFeedback_def)
  next
    case (Some prior)
    then have prior: "prior \<in> set events" "fe_ID prior = trim_space undone" "fe_Verdict prior \<noteq> ''clear''"
      by (auto simp: find_Some_iff)
    define e where "e = prior\<lparr>fe_ID := newID, fe_Verdict := ''clear'', fe_SupersedesID := fe_ID prior, fe_CreatedAt := now\<rparr>"
    show ?thesis
    proof (cases "latest_event events (fe_ContextKey prior) (fe_MemoryItemID prior)")
      case None
      with Some show ?thesis using failed by (simp add: UndoContentContextFeedback_def)
    next
      case latest: (Some latest)
      show ?thesis
      proof (cases "fe_ID latest = fe_ID prior")
        case False
        with Some latest show ?thesis using failed by (simp add: UndoContentContextFeedback_def)
      next
        case True
        with Some latest have ins: "?undo = insert_event events e" by (simp add: UndoContentContextFeedback_def e_def)
        show ?thesis
        proof (cases rule: insert_event_cases [of events e])
          case 1
          with ins show ?thesis using failed by simp
        next
          case 2
          with ins cleared [OF prior latest True _ e_def] show ?thesis by (simp add: e_def)
        qed
      qed
    qed
  qed
qed


text \<open>The log as a state machine over the two operations, whatever the other tables answer.\<close>

inductive feedback_step :: "feedback_log \<Rightarrow> feedback_log \<Rightarrow> bool" where
  step_add: "feedback_step events (fst (AddContentContextFeedback tb timelineID item verdict newID now events))"
| step_undo: "feedback_step events (fst (UndoContentContextFeedback undone newID now events))"

abbreviation feedback_reachable :: "feedback_log \<Rightarrow> bool" where
  "feedback_reachable \<equiv> reachable_from (\<lambda>events. events = []) feedback_step"

text \<open>Every row continues the history of its pair: it names the row before it, changes the verdict, and
  clears only a decision.\<close>

definition continues :: "feedback_log \<Rightarrow> FeedbackEvent \<Rightarrow> bool" where
  "continues before e \<longleftrightarrow>
     (case latest_event before (fe_ContextKey e) (fe_MemoryItemID e) of
        None \<Rightarrow> fe_SupersedesID e = [] \<and> ValidDecision (fe_Verdict e)
      | Some l \<Rightarrow> fe_SupersedesID e = fe_ID l \<and> fe_Verdict e \<noteq> fe_Verdict l \<and>
          (ValidDecision (fe_Verdict e) \<or> fe_Verdict e = ''clear'')) \<and>
     fe_ID e \<notin> fe_ID ` set before \<and> 1 \<le> fe_ResultRank e \<and> fe_ResultRank e \<le> 5"

fun history :: "feedback_log \<Rightarrow> feedback_log \<Rightarrow> bool" where
  "history before [] = True"
| "history before (e # es) \<longleftrightarrow> continues before e \<and> history (before @ [e]) es"

lemma history_snoc: "history before (es @ [e]) \<longleftrightarrow> history before es \<and> continues (before @ es) e"
  by (induction es arbitrary: before) auto

lemma history_distinct: "history [] events \<Longrightarrow> distinct (map fe_ID events)"
proof (induction events rule: rev_induct)
  case (snoc e events)
  then show ?case by (auto simp: history_snoc continues_def)
qed simp

lemma history_ranks: "history [] events \<Longrightarrow> e \<in> set events \<Longrightarrow> 1 \<le> fe_ResultRank e \<and> fe_ResultRank e \<le> 5"
  by (induction events rule: rev_induct) (auto simp: history_snoc continues_def)

lemma same_id_same_event:
  "distinct (map fe_ID events) \<Longrightarrow> a \<in> set events \<Longrightarrow> b \<in> set events \<Longrightarrow> fe_ID a = fe_ID b \<Longrightarrow> a = b"
  by (simp add: distinct_map inj_on_def)

lemma shown_at_bounds:
  assumes "shown_at matches item = Some (rank, reason)"
  shows "1 \<le> rank" "rank \<le> length matches"
proof -
  from assms obtain m ms where "filter (\<lambda>(i, m). ci_ID (cm_Item m) = item) (enumerate 1 matches) = (rank, m) # ms"
    by (auto simp: shown_at_def split: list.splits)
  then have "(rank, m) \<in> set (filter (\<lambda>(i, m). ci_ID (cm_Item m) = item) (enumerate 1 matches))"
    by (simp only: list.set_intros)
  then have "(rank, m) \<in> set (enumerate 1 matches)" by simp
  then show "1 \<le> rank" "rank \<le> length matches" by (auto simp: in_set_enumerate_eq)
qed

lemma Match_length: "int (length (Match q candidates limit)) \<le> max 0 limit"
  by (auto simp: Match_def match_upto_def min_def)

lemma cd_Item_with_feedback [simp]: "cd_Item (with_feedback events key c) = cd_Item c"
  by (simp add: with_feedback_def split: option.split)

lemma ContentContext_cases:
  assumes "ContentContext tb events timelineID limit = Inr (matches, insights)"
  obtains post bound where "tb_Timeline tb (trim_space timelineID) = Some post" "tb_Visible tb (trim_space timelineID)"
    "(matches, insights) = context_of tb events post bound" "1 \<le> bound" "bound \<le> 5"
    "bound = (if limit = 0 then 3 else limit)"
  using assms by (auto simp: ContentContext_def Let_def split: if_splits option.splits)

lemma context_of_matches:
  assumes "context_of tb events post limit = (matches, insights)" "m \<in> set matches"
  obtains c where "cm_Item m = cd_Item c" "\<not> sameTimelineMemoryIdentity post (cd_Item c)"
    "cd_Feedback (with_feedback events (contentContextKey post) c) \<noteq> ''not_relevant''"
proof -
  from assms have "m \<in> set (Match (Extract (sp_Post post)) (map (with_feedback events (contentContextKey post))
      (filter (\<lambda>c. \<not> sameTimelineMemoryIdentity post (cd_Item c))
        (searchMemoryContextCandidates (tb_Index tb) (Extract (sp_Post post))))) limit)"
    by (auto simp: context_of_def Let_def split: if_splits)
  from match_only_eligible [OF this] obtain c where
    "\<not> sameTimelineMemoryIdentity post (cd_Item c)" "cd_Item c = cm_Item m"
    "cd_Feedback (with_feedback events (contentContextKey post) c) \<noteq> ''not_relevant''" by auto
  then show thesis by (intro that [of c]) simp_all
qed

lemma context_of_bounded:
  "context_of tb events post limit = (matches, insights) \<Longrightarrow> 0 \<le> limit \<Longrightarrow> int (length matches) \<le> limit"
  using Match_length [of "Extract (sp_Post post)" _ limit] by (auto simp: context_of_def Let_def split: if_splits)

lemma step_add_history:
  assumes "history [] events"
  shows "history [] (fst (AddContentContextFeedback tb timelineID item verdict newID now events))"
proof (cases rule: AddContentContextFeedback_cases [of tb timelineID item verdict newID now events])
  case (added post e matches insights)
  from added(8) obtain p where "(matches, insights) = context_of tb events p 5"
    by (auto elim: ContentContext_cases)
  from context_of_bounded [OF this [symmetric]] have "length matches \<le> 5" by simp
  with shown_at_bounds [OF added(9)] have "1 \<le> fe_ResultRank e" "fe_ResultRank e \<le> 5" by auto
  with added assms have "continues events e" by (auto simp: continues_def split: option.splits)
  with added(2) assms show ?thesis by (simp add: history_snoc)
qed (use assms in simp_all)

lemma step_undo_history:
  assumes "history [] events"
  shows "history [] (fst (UndoContentContextFeedback undone newID now events))"
proof (cases rule: UndoContentContextFeedback_cases [of undone newID now events])
  case (cleared prior latest e)
  have "latest = prior"
    using same_id_same_event [OF history_distinct [OF assms]] cleared(1,4,5) latest_eventD by blast
  with cleared assms history_ranks [OF assms cleared(1)] have "continues events e"
    by (simp add: continues_def)
  with cleared(6) assms show ?thesis by (simp add: history_snoc)
qed (use assms in simp_all)

interpretation feedback: safe_machine "\<lambda>events. events = []" feedback_step "history []"
  by unfold_locales (auto elim!: feedback_step.cases intro: step_add_history step_undo_history)

theorem feedback_rows_continue_their_pair: "feedback_reachable events \<Longrightarrow> history [] events"
  by (rule feedback.reachable_safe)


subsection \<open>A rejected item\<close>

text \<open>The operations of the two handlers, with what the other tables answer at that moment.\<close>

datatype feedback_op =
    AddOp Tables string string string string string
  | UndoOp string string string

fun apply_op :: "feedback_op \<Rightarrow> feedback_log \<Rightarrow> feedback_log" where
  "apply_op (AddOp tb timelineID item verdict newID now) events =
     fst (AddContentContextFeedback tb timelineID item verdict newID now events)"
| "apply_op (UndoOp undone newID now) events = fst (UndoContentContextFeedback undone newID now events)"

definition undoes :: "FeedbackEvent \<Rightarrow> feedback_op \<Rightarrow> bool" where
  "undoes e u = (case u of UndoOp undone _ _ \<Rightarrow> trim_space undone = fe_ID e | _ \<Rightarrow> False)"

lemma rejected_not_shown:
  assumes "latest_event events (contentContextKey post) item = Some e" "fe_Verdict e = ''not_relevant''"
    and "context_of tb events post limit = (matches, insights)" "m \<in> set matches"
  shows "ci_ID (cm_Item m) \<noteq> item"
proof
  assume "ci_ID (cm_Item m) = item"
  from context_of_matches [OF assms(3,4)] obtain c where c: "cm_Item m = cd_Item c"
    "cd_Feedback (with_feedback events (contentContextKey post) c) \<noteq> ''not_relevant''" .
  have "cd_Feedback (with_feedback events (contentContextKey post) c) = ''not_relevant''"
    using assms(1,2) c(1) \<open>ci_ID (cm_Item m) = item\<close>
    by (simp add: with_feedback_def latestContentContextFeedbackStates_def ValidDecision_def)
  with c(2) show False by simp
qed

lemma shown_atD: "shown_at matches item = Some r \<Longrightarrow> \<exists>m \<in> set matches. ci_ID (cm_Item m) = item"
proof -
  assume "shown_at matches item = Some r"
  then obtain i m ms where "filter (\<lambda>(i, m). ci_ID (cm_Item m) = item) (enumerate 1 matches) = (i, m) # ms"
    by (auto simp: shown_at_def split: list.splits)
  then have "(i, m) \<in> set (filter (\<lambda>(i, m). ci_ID (cm_Item m) = item) (enumerate 1 matches))"
    by (simp only: list.set_intros)
  then show ?thesis by (auto simp: in_set_enumerate_eq)
qed

lemma apply_op_keeps_rejection:
  assumes "distinct (map fe_ID events)" "latest_event events key item = Some e" "fe_Verdict e = ''not_relevant''"
    and "\<not> undoes e u"
  shows "distinct (map fe_ID (apply_op u events)) \<and> latest_event (apply_op u events) key item = Some e"
proof (cases u)
  case u: (AddOp tb timelineID it verdict newID now)
  show ?thesis
  proof (cases rule: AddContentContextFeedback_cases [of tb timelineID it verdict newID now events])
    case (added post e' matches insights)
    from added(8) obtain p bound where p: "tb_Timeline tb (trim_space (trim_space timelineID)) = Some p"
      "context_of tb events p bound = (matches, insights)"
      by (metis ContentContext_cases)
    with added(1) have "p = post" by simp
    have "pair_of e' \<noteq> (key, item)"
    proof
      assume pair: "pair_of e' = (key, item)"
      from shown_atD [OF added(9)] obtain m where m: "m \<in> set matches" "ci_ID (cm_Item m) = trim_space it" by blast
      from pair added(3) assms(2) have "latest_event events (contentContextKey post) (trim_space it) = Some e" by simp
      from rejected_not_shown [OF this assms(3) p(2) [unfolded \<open>p = post\<close>] m(1)] m(2) show False by simp
    qed
    with u added(2,6,7) assms(1,2) show ?thesis by auto
  qed (use u assms in simp_all)
next
  case u: (UndoOp undone newID now)
  show ?thesis
  proof (cases rule: UndoContentContextFeedback_cases [of undone newID now events])
    case (cleared prior latest e')
    have "pair_of e' \<noteq> (key, item)"
    proof
      assume "pair_of e' = (key, item)"
      with cleared(4,5,7) assms(2) have "fe_ID e = fe_ID prior" by simp
      with cleared(2) u assms(4) show False by (simp add: undoes_def)
    qed
    with u cleared(6,7,8) assms(1,2) show ?thesis by auto
  qed (use u assms in simp_all)
qed

lemma apply_ops_keep_rejection:
  "distinct (map fe_ID events) \<Longrightarrow> latest_event events key item = Some e \<Longrightarrow> fe_Verdict e = ''not_relevant'' \<Longrightarrow>
   \<forall>u \<in> set ops. \<not> undoes e u \<Longrightarrow> latest_event (fold apply_op ops events) key item = Some e"
proof (induction ops arbitrary: events)
  case (Cons u ops)
  with apply_op_keeps_rejection [OF Cons.prems(1,2,3), of u] show ?case by simp
qed simp

text \<open>C23. An item the user marked as not relevant to a post stays hidden beside every post of the same
  identity until that very decision is undone, whatever other decisions are added or undone meanwhile,
  whatever the index finds and whatever the memory contains; no later decision can override it.\<close>

theorem rejected_item_stays_hidden:
  assumes "distinct (map fe_ID events)" "latest_event events (contentContextKey post) item = Some e"
    "fe_Verdict e = ''not_relevant''" "\<forall>u \<in> set ops. \<not> undoes e u"
    "tb_Timeline tb (trim_space timelineID) = Some post"
    "ContentContext tb (fold apply_op ops events) timelineID limit = Inr (matches, insights)"
  shows "item \<notin> ci_ID ` cm_Item ` set matches \<and>
    latest_event (fold apply_op ops events) (contentContextKey post) item = Some e"
proof -
  note kept = apply_ops_keep_rejection [OF assms(1-4)]
  from assms(6) obtain p bound where "tb_Timeline tb (trim_space timelineID) = Some p"
    "context_of tb (fold apply_op ops events) p bound = (matches, insights)"
    by (metis ContentContext_cases)
  with assms(5) have "context_of tb (fold apply_op ops events) post bound = (matches, insights)" by simp
  with rejected_not_shown [OF kept assms(3)] kept show ?thesis by blast
qed

definition rejected_event :: FeedbackEvent where
  "rejected_event = \<lparr>fe_ID = ''f1'', fe_TimelineID = ''t1'', fe_ContextKey = ''x|k1'', fe_MemoryItemID = ''m1'',
     fe_Verdict = ''not_relevant'', fe_EngineVersion = ''content-context-v6'', fe_ResultRank = 1, fe_MatchReason = [],
     fe_SupersedesID = [], fe_CreatedAt = ''2026-08-30''\<rparr>"

definition stored_post :: StoredPost where
  "stored_post = \<lparr>sp_ID = ''t1'', sp_Source = ''x'', sp_EvidenceKey = ''k1'', sp_SourceURL = [], sp_Identity = None,
     sp_Post = \<lparr>tp_WhatChanged = sample_title, tp_WhyItMatters = [], tp_Author = [], tp_TopicTags = [''Codex''],
       tp_TopicFacets = [], tp_Evidence = None\<rparr>\<rparr>"

definition sample_tables :: Tables where
  "sample_tables = \<lparr>tb_Timeline = (\<lambda>t. if t = ''t1'' then Some stored_post else None), tb_Visible = (\<lambda>t. True),
     tb_Index = (\<lambda>q n. [context_candidate]), tb_Topics = []\<rparr>"

theorem rejected_item_stays_hidden_witness:
  "\<exists>(matches :: ContextMatch list) (insights :: TopicInsight list).
     ContentContext sample_tables (apply_op (UndoOp ''f2'' ''f3'' ''now'') [rejected_event]) ''t1'' 3 = Inr (matches, insights) \<and>
     ''m1'' \<notin> ci_ID ` cm_Item ` set matches"
proof -
  have table: "tb_Timeline sample_tables (trim_space ''t1'') = Some stored_post" by code_simp
  have key: "contentContextKey stored_post = ''x|k1''" by code_simp
  have latest: "latest_event [rejected_event] (contentContextKey stored_post) ''m1'' = Some rejected_event"
    by (simp add: latest_event_def rejected_event_def key)
  have other: "\<forall>u \<in> set [UndoOp ''f2'' ''f3'' ''now'']. \<not> undoes rejected_event u" by code_simp
  have verdict: "fe_Verdict rejected_event = ''not_relevant''" by (simp add: rejected_event_def)
  have visible: "tb_Visible sample_tables t" for t by (simp add: sample_tables_def)
  obtain matches insights where
    "context_of sample_tables (apply_op (UndoOp ''f2'' ''f3'' ''now'') [rejected_event]) stored_post 3 = (matches, insights)"
    by (metis surj_pair)
  then have shown: "ContentContext sample_tables (apply_op (UndoOp ''f2'' ''f3'' ''now'') [rejected_event]) ''t1'' 3 =
      Inr (matches, insights)"
    using table visible by (simp add: ContentContext_def Let_def)
  with rejected_item_stays_hidden [OF _ latest verdict other table, of 3 matches insights] show ?thesis
    by auto
qed

subsection \<open>What is shown of the topics\<close>

text \<open>A topic adds an insight only through a current, supported understanding: its snapshot is current and
  has active evidence, the one to three claims shown are claims of that snapshot that are supported and
  current, at most two topics are shown, and beside a post only topics whose identity it names.\<close>

lemma topic_knowledge_cases:
  assumes "topic_knowledge q requireIdentity topic = Some (insight, score, c)"
  shows "\<exists>s. st_LatestSnapshot topic = Some s \<and> tn_IsCurrent s \<and> 1 \<le> tn_ActiveEvidenceCount s \<and>
    ti_TopicID insight = st_ID topic \<and> ti_Claims insight = knowledge_claims (tn_Claims s) \<and> ti_Claims insight \<noteq> [] \<and>
    score = TopicIdentitySpecificity q (st_Name topic) (st_Aliases topic) \<and> (requireIdentity \<longrightarrow> score \<noteq> 0)"
  using assms by (auto simp: topic_knowledge_def Let_def split: option.splits if_splits)

lemma knowledge_claims_eligible:
  "set (knowledge_claims claims) \<subseteq> {c \<in> set claims. livingTopicKnowledgeClaimEligible c}"
  "length (knowledge_claims claims) \<le> 3"
  by (auto simp: knowledge_claims_def Let_def dest!: in_set_takeD)

theorem insights_are_current:
  assumes "insight \<in> set (matchLivingTopicKnowledge topics q limit requireIdentity)"
  shows "\<exists>topic \<in> set topics. \<exists>s. st_LatestSnapshot topic = Some s \<and> tn_IsCurrent s \<and> 1 \<le> tn_ActiveEvidenceCount s \<and>
    ti_TopicID insight = st_ID topic \<and> ti_Claims insight \<noteq> [] \<and> length (ti_Claims insight) \<le> 3 \<and>
    set (ti_Claims insight) \<subseteq> {c \<in> set (tn_Claims s). livingTopicKnowledgeClaimEligible c} \<and>
    (requireIdentity \<longrightarrow> TopicIdentityMatches q (st_Name topic) (st_Aliases topic))"
proof -
  define known where "known = List.map_filter (topic_knowledge q requireIdentity) topics"
  from assms obtain score where "(insight, score) \<in> set (found_insights q known)"
    by (auto simp: matchLivingTopicKnowledge_def best_insights_def Let_def known_def dest!: in_set_takeD)
  then obtain i0 key where i0: "by_id known key = Some (i0, score)" "ti_Claims insight = ti_Claims i0"
    "ti_TopicID insight = ti_TopicID i0"
    by (auto simp: found_insights_def List.map_filter_def)
  then have "(i0, score) \<in> (\<lambda>(i, s, c). (i, s)) ` set known"
    unfolding by_id_def by (force dest!: map_of_SomeD)
  then obtain topic c where "topic \<in> set topics" "topic_knowledge q requireIdentity topic = Some (i0, score, c)"
    by (auto simp: known_def List.map_filter_def)
  moreover from topic_knowledge_cases [OF this(2)] obtain s where "st_LatestSnapshot topic = Some s" "tn_IsCurrent s"
    "1 \<le> tn_ActiveEvidenceCount s" "ti_TopicID i0 = st_ID topic" "ti_Claims i0 = knowledge_claims (tn_Claims s)"
    "ti_Claims i0 \<noteq> []" "requireIdentity \<longrightarrow> TopicIdentityMatches q (st_Name topic) (st_Aliases topic)"
    by (auto simp: TopicIdentityMatches_def)
  ultimately show ?thesis
    using i0(2,3) knowledge_claims_eligible [of "tn_Claims s"] by (intro bexI [of _ topic] exI [of _ s]) simp_all
qed

theorem insights_are_few: "length (matchLivingTopicKnowledge topics q limit requireIdentity) \<le> 2"
  by (simp add: matchLivingTopicKnowledge_def best_insights_def Let_def min.coboundedI2)

text \<open>A post is never shown as context of itself.\<close>

theorem own_item_not_shown:
  assumes "context_of tb events post limit = (matches, insights)" "m \<in> set matches"
  shows "\<not> sameTimelineMemoryIdentity post (cm_Item m)"
  using assms by (metis context_of_matches)

end
