(* ===== verification/Spec2Isabelle.thy ===== *)
theory Spec2Isabelle
  imports Selection Collection BatchBehavior ActivationGuard Domain_Settings SemanticSession LivingTopics Reconcile OwnedRPC ClientPool ReaderBroker Authorization_Machine Context_Store
begin

text \<open>
  AkuSidecar is a local Go program that reads a person's social feeds (X, LinkedIn, Facebook,
  Instagram) through an owned browser, reconciles what it captured, lets a reasoning provider assess
  it, selects what is worth showing, and groups reports of the same event. This development models
  the parts of \<open>src/internal\<close> that carry its own decisions, and proves what makes them correct.

  Parts of the program and how they interact. A capture is admitted by the pacing policy
  (\<open>batchbehavior\<close>) and by the activation hold (\<open>activationguard\<close>); the collection coordinator
  (\<open>collection\<close>) decides which kind of browser is wanted and asks the capture runtime
  (\<open>captureruntime\<close>) to replace, recover or lease the one owned browser process; the captured blocks
  are reconciled (\<open>capture\<close>) with the identity and context rules of \<open>domain\<close>; the preference profile
  (\<open>preference\<close>) scores the assessed candidates and \<open>selection\<close> picks the ones to show; the event
  engine (\<open>eventengine\<close>) attaches each report to a semantic event, and \<open>livingtopics\<close> validates the
  understanding that a provider writes about a topic. Beside a post the content context
  (\<open>contentcontext\<close>, \<open>store/content_context.go\<close>) shows remembered items about the same issue and the
  supported knowledge of the topics. Provider clients come from the pool of
  \<open>reasoning\<close>; a worker process is reached through the request client \<open>ownedrpc\<close>; the reader broker
  (\<open>readerbroker\<close>) hands a target over a framed connection against a ticket; and during concurrent
  development sessions every capture runs under the permits of the authorization authority of
  \<open>engine\<close>, which renews its coverage by a chain of tickets.

  Theories and sources:
  \<^item> \<open>Prelude\<close>: Go's string library on byte lists, \<open>error\<close> results as the first failing check, wrapping
    64-bit integers, decimal numbers, the bounded de-duplicating loop, and the locale
    \<open>safe_machine\<close> of state machines with an inductive invariant.
  \<^item> \<open>Float64\<close>: binary64 values as rationals, with rounding to nearest even after every operation.
  \<^item> \<open>Domain_Types\<close>, \<open>Sources\<close>, \<open>Domain_Settings\<close>: \<open>domain/types.go\<close> (settings, their normalisation and
    validation, update policy, reasoning profiles) and \<open>domain/sources.go\<close> (the source registry).
  \<^item> \<open>Source_URL\<close>: \<open>domain/source_url.go\<close>, native permalinks and platform identities.
  \<^item> \<open>Direct_Context\<close>: \<open>domain/direct_context.go\<close>, the relations captured around a post: their
    identity, validation and merge.
  \<^item> \<open>Reconcile\<close>: \<open>capture/reconcile.go\<close>, one evidence identity per post; \<open>Attachment.Validate\<close>.
  \<^item> \<open>Preference\<close>: \<open>preference/preference.go\<close>; \<open>Selection\<close>: \<open>selection/selection.go\<close>.
  \<^item> \<open>CaptureRuntime\<close>: \<open>captureruntime/manager.go\<close> and \<open>profile_lease.go\<close>: every critical section as
    a function on the manager, and the machine (\<open>exec\<close>) that interleaves them with leases, exits
    of the process, observers and shutdown.
  \<^item> \<open>Collection\<close>: \<open>collection/coordinator.go\<close>, \<open>exclusive_session.go\<close>,
    \<open>manual_concurrent_session.go\<close>, \<open>persistent_browser_actions.go\<close>, \<open>source_policy.go\<close>, on top of the
    runtime; the polling goroutine is a step of its machine.
  \<^item> \<open>BatchBehavior\<close>: \<open>batchbehavior/policy.go\<close>; \<open>ActivationGuard\<close>: \<open>activationguard/hold.go\<close>, with
    the file it reads and replaces.
  \<^item> \<open>Semantic_Text\<close>, \<open>EventEngine\<close>, \<open>SemanticSession\<close>: \<open>eventengine\<close> and \<open>store/semantic_replay.go\<close>:
    ranking, settling and storing of reports, the session run, the receipt of signals, the
    replay analysis, and the prompt references with their schema.
  \<^item> \<open>Go_Regexp\<close>, \<open>LivingTopics\<close>: \<open>livingtopics/resolver.go\<close> and \<open>domain/living_topics.go\<close>: the regular
    expressions of the lifecycle rules as data with a reference meaning, the validation of
    snapshots, and topic routing.
  \<^item> \<open>OwnedRPC\<close>: \<open>ownedrpc/client.go\<close>, calls, replies, progress and Close as events of one machine.
  \<^item> \<open>ClientPool\<close>: \<open>reasoning/execution_profiles.go\<close>, \<open>boundClientPool\<close>: shared flights and Close.
  \<^item> \<open>ReaderBroker\<close>: \<open>readerbroker/protocol.go\<close>, frames, requests, and the ticket exchange.
  \<^item> \<open>Authorization_Data\<close>, \<open>Authorization\<close>, \<open>Authorization_Machine\<close>:
    \<open>engine/development_concurrent_authorization.go\<close>, its records and guards, its operations, and the
    machine that interleaves them with its invariant.
  \<^item> \<open>Ranking\<close>: stable sorting by a comparison, with the locale of strict weak orders; the event
    engine and the content context rank with it.
  \<^item> \<open>Context_Text\<close>, \<open>ContentContext\<close>, \<open>Context_Proofs\<close>: \<open>contentcontext/engine.go\<close>, its vocabularies and
    tokens, its evidence, admission and ranking, and the proofs about them.
  \<^item> \<open>Context_Store\<close>: \<open>store/content_context.go\<close>, the lookup of the context of a post, the knowledge of
    the topics, and the log of the user's decisions.

  What the lemmas show. \<open>Selection\<close>: limits, admissibility, protection and lanes in every iteration
  order. \<open>CaptureRuntime\<close>: the lease invariant of every reachable interleaving, ownership under
  leases, the latch after a failed launch, termination of every operation, and that the sequential
  operations refine the interleaved machine. \<open>Collection\<close>: exact counters under interleaving, what a
  borrow is granted, what reconciliation spares and reaches. \<open>Reconcile\<close>, \<open>Direct_Context\<close>,
  \<open>Source_URL\<close>: captures of one post share an identity, evidence never moves between posts,
  conflicting identities stay apart, a captured body survives every recapture, merging keeps
  relations valid and refines a keyed map, identities are normal forms, and accepted permalinks
  belong to the source. \<open>EventEngine\<close>, \<open>SemanticSession\<close>, \<open>LivingTopics\<close>: corrections of the user win,
  duplicates have grounds, every candidate is accounted for, claims are backed by quoted evidence.
  \<open>Context_Proofs\<close>, \<open>Context_Store\<close>: an issue belongs to the nearest owner its field names, an item is
  shown only for an issue both sides own, the matches are the best, the log of decisions is a map,
  and a rejected item stays hidden until its rejection is undone.
  \<open>OwnedRPC\<close>: a call is answered once, by its own reply or by the close. \<open>ClientPool\<close>: every client
  built is cached, handed out or closed. \<open>ReaderBroker\<close>: the target leaves only after the ticket was
  accepted, and frames round trip. \<open>Authorization_Machine\<close>: the permit invariant of every reachable
  state, revocation is final, results follow their claims, and the check of the whole chain adds
  exactly the strict advance of coverage to the check of a single ticket.
  Theorems that end in a defect of the code (a stranded runtime, a release that is never recovered,
  a hold that is dropped by a case variant, an ancient report that counts as compatible, a numeric
  profile that passes as a permalink, a renewal in the same instant that strands its session's work)
  state the concrete behaviour.

  Parameters. What the sources do not define is an argument: \<open>url.Parse\<close> and \<open>URL.String\<close>,
  \<open>time.Parse\<close> and \<open>Time.Format\<close>, SHA-256, fresh identifiers, the current time, the store, the reasoning
  provider, the browser driver, and the order in which Go ranges over a map. Hypotheses about them
  state their documented behaviour and have a concrete instance in a witness.

  Bounds. Strings are bytes; letter case, white space and word characters are those of ASCII, a byte
  above 127 being none of them, except where runes are counted. No fuel is used: every loop is
  structural or has a measure. Integers that can overflow wrap at 64 bits (\<open>wrap64\<close>), durations
  saturate where Go's do; the remaining integers are counters far below the range. The coordinator's
  reconciliation runs as one step of its machine, which excludes interleavings within it.

  Not modelled: SQL persistence (\<open>store\<close>, its content context apart), the session engine that threads provider calls, timers and
  persistence together (\<open>engine\<close>, its authorization apart), HTTP handlers (\<open>httpapi\<close>), operating system
  and browser process control (\<open>appshell\<close>, the pipe of \<open>readerbroker\<close>, \<open>ownedprofile\<close>,
  \<open>ownedprocess\<close>), provider clients and prompts (\<open>reasoning\<close>, its client pool apart, \<open>aidetector\<close>,
  \<open>codexruntime\<close>), media provenance, diagnostics, configuration
  files, credentials, and the worker written in JavaScript. They are listed with reasons in the
  manifest; most are input and output around the decisions above, the rest is left for extension.
\<close>

end
